(* ===== verification/Prelude.thy ===== *)
theory Prelude
  imports Main "HOL-Library.Word" "HOL-Library.Sublist" "HOL-Library.Char_ord"
begin

text \<open>
  What every component of the model shares: the result type of the pure code (an abort of
  utility.c, a failed Checked C run-time check, or a value), counted loops over it, the
  collections that carry the proofs, and generic facts on lists and words.
\<close>

section \<open>Collections\<close>

named_theorems res_simps
named_theorems str_rels
named_theorems safes
named_theorems frames

section \<open>Results of code that can abort\<close>

text \<open>
  \<open>Bug\<close> and \<open>Die\<close> are the calls of \<open>bug\<close> and \<open>die\<close> of src/utility.c with their text; \<open>Trap\<close> is a
  Checked C dynamic check that fails (the process is killed on the spot).
\<close>

datatype failure = Bug string | Die string | Trap string

type_synonym 'a res = "failure + 'a"

definition rbind :: "'a res \<Rightarrow> ('a \<Rightarrow> 'b res) \<Rightarrow> 'b res" where
  "rbind m f = (case m of Inl e \<Rightarrow> Inl e | Inr x \<Rightarrow> f x)"

lemma rbind_simps [simp, res_simps]:
  "rbind (Inl e) f = Inl e"
  "rbind (Inr x) f = f x"
  by (simp_all add: rbind_def)

lemma rbind_assoc: "rbind (rbind m f) g = rbind m (\<lambda>x. rbind (f x) g)"
  by (cases m) simp_all

lemma rbind_Inr_iff: "rbind m f = Inr y \<longleftrightarrow> (\<exists>x. m = Inr x \<and> f x = Inr y)"
  by (cases m) simp_all

lemma rbind_cong [fundef_cong]:
  "m = m' \<Longrightarrow> (\<And>x. m' = Inr x \<Longrightarrow> f x = g x) \<Longrightarrow> rbind m f = rbind m' g"
  by (cases m') simp_all

text \<open>A counted \<open>for\<close> loop over an accumulator, and a search loop with an early return.\<close>

fun rfold :: "('i \<Rightarrow> 's \<Rightarrow> 's res) \<Rightarrow> 'i list \<Rightarrow> 's \<Rightarrow> 's res" where
  "rfold f [] s = Inr s"
| "rfold f (i # is) s = rbind (f i s) (rfold f is)"

fun rfirst :: "('i \<Rightarrow> 'a option res) \<Rightarrow> 'i list \<Rightarrow> 'a option res" where
  "rfirst f [] = Inr None"
| "rfirst f (i # is) = rbind (f i) (\<lambda>r. case r of None \<Rightarrow> rfirst f is | Some x \<Rightarrow> Inr (Some x))"

lemma rfold_append: "rfold f (xs @ ys) s = rbind (rfold f xs s) (rfold f ys)"
proof (induction xs arbitrary: s)
  case (Cons a xs)
  then show ?case by (cases "f a s") simp_all
qed simp

lemma rfold_inv:
  assumes "I 0 s"
    and "\<And>i s. i < n \<Longrightarrow> I i s \<Longrightarrow> \<exists>s'. f i s = Inr s' \<and> I (Suc i) s'"
  shows "\<exists>s'. rfold f [0..<n] s = Inr s' \<and> I n s'"
  using assms(2)
proof (induction n)
  case 0
  then show ?case using assms(1) by simp
next
  case (Suc n)
  from Suc.IH Suc.prems obtain s' where "rfold f [0..<n] s = Inr s'" "I n s'"
    using less_Suc_eq by metis
  then show ?case using Suc.prems[of n s'] by (auto simp: rfold_append)
qed

lemma rfirst_find:
  assumes "\<And>i. i \<in> set is \<Longrightarrow> f i = Inr (if P i then Some (g i) else None)"
  shows "rfirst f is = Inr (map_option g (find P is))"
  using assms by (induction "is") auto

lemma rfirst_Some: "rfirst f is = Inr (Some x) \<Longrightarrow> \<exists>i \<in> set is. f i = Inr (Some x)"
  by (induction "is") (auto simp: rbind_Inr_iff split: option.splits)

section \<open>Words and lists\<close>

type_synonym u32 = "32 word"
type_synonym u64 = "64 word"

abbreviation u32 :: "nat \<Rightarrow> u32" where "u32 n \<equiv> word_of_nat n"

definition INT_MAX :: nat where "INT_MAX = 2147483647"

definition NUL :: char where "NUL = CHR 0x00"
definition CR :: char where "CR = CHR 0x0D"
definition LF :: char where "LF = CHR 0x0A"
definition TELNET_IAC :: char where "TELNET_IAC = CHR 0xFF"

lemma unat_u32 [simp]: "n < 2 ^ 32 \<Longrightarrow> unat (u32 n) = n"
  by (simp add: unat_of_nat take_bit_eq_mod)

lemma unat_u32_le: "unat (u32 n) \<le> n"
  by (simp add: unat_of_nat)

lemma unat_lt_32 [simp]: "unat (x :: u32) < 4294967296"
  using unsigned_less[of x] by simp

lemma u32_le_iff: "n < 2 ^ 32 \<Longrightarrow> x \<le> u32 n \<longleftrightarrow> unat x \<le> n"
  by (simp add: word_le_nat_alt)

lemma u32_less_iff: "n < 2 ^ 32 \<Longrightarrow> x < u32 n \<longleftrightarrow> unat x < n"
  by (simp add: word_less_nat_alt)

lemma u32_add: "u32 a + u32 b = u32 (a + b)"
  by simp

lemma u32_unat [simp]: "u32 (unat x) = x"
  by simp

lemma unat_add_u32: "unat (x :: u32) + unat y < 2 ^ 32 \<Longrightarrow> unat (x + y) = unat x + unat y"
  by (simp add: unat_word_ariths)

lemma unat_Suc_u32: "Suc (unat (x :: u32)) < 2 ^ 32 \<Longrightarrow> unat (x + 1) = Suc (unat x)"
  by (simp add: unat_word_ariths)

lemma unat_Suc_nz_u32:
  assumes "(x :: u32) + 1 \<noteq> 0"
  shows "unat (x + 1) = Suc (unat x)"
proof (cases "Suc (unat x) < 2 ^ 32")
  case False
  then have "Suc (unat x) = 2 ^ 32" using unat_lt_32[of x] by (simp del: unat_lt_32)
  then have "unat (x + 1) = 0" by (simp add: unat_word_ariths)
  with assms show ?thesis by (simp add: unat_eq_0)
qed (rule unat_Suc_u32)

lemma find_None_iff: "find P xs = None \<longleftrightarrow> (\<forall>x \<in> set xs. \<not> P x)"
  by (induction xs) auto

lemma find_SomeD: "find P xs = Some x \<Longrightarrow> P x \<and> x \<in> set xs"
  by (induction xs) (auto split: if_splits)

lemma all_from_split: "(\<forall>j. a \<le> j \<longrightarrow> Q j) \<longleftrightarrow> Q a \<and> (\<forall>j. Suc a \<le> j \<longrightarrow> Q j)" for a :: nat
  by (metis Suc_leD Suc_leI dual_order.order_iff_strict)

lemma find_upt_first:
  "find P [a..<n] = Some i \<longleftrightarrow> a \<le> i \<and> i < n \<and> P i \<and> (\<forall>j. a \<le> j \<longrightarrow> j < i \<longrightarrow> \<not> P j)"
proof (induction "n - a" arbitrary: a)
  case 0
  then show ?case by simp
next
  case (Suc k)
  then have "a < n" and IH: "find P [Suc a..<n] = Some i
      \<longleftrightarrow> Suc a \<le> i \<and> i < n \<and> P i \<and> (\<forall>j. Suc a \<le> j \<longrightarrow> j < i \<longrightarrow> \<not> P j)"
    by simp_all
  then have step: "find P [a..<n] = (if P a then Some a else find P [Suc a..<n])"
    by (simp add: upt_conv_Cons)
  have "(\<forall>j. a \<le> j \<longrightarrow> j < i \<longrightarrow> \<not> P j)
      \<longleftrightarrow> (a < i \<longrightarrow> \<not> P a) \<and> (\<forall>j. Suc a \<le> j \<longrightarrow> j < i \<longrightarrow> \<not> P j)"
    by (rule all_from_split)
  moreover have "a \<noteq> i \<Longrightarrow> a \<le> i \<longleftrightarrow> Suc a \<le> i" by linarith
  ultimately show ?case using \<open>a < n\<close> IH unfolding step
    by (cases "P a"; cases "a = i") simp_all
qed

end
