(* ===== verification/Net.thy ===== *)
theory Net
  imports Prelude
begin

text \<open>
  Socket addresses (struct vsf_sysutil_sockaddr of src/sysutil.c): the family with its raw
  address bytes, the port in host order and, for IPv6, the scope. A fresh structure with no
  family is \<open>Sa_unspec\<close>, on which the accessors abort as the C code does.
\<close>

type_synonym u16 = "16 word"

datatype sockaddr = Sin string u16 | Sin6 string u16 u32 | Sa_unspec

definition vsf_sysutil_sockaddr_alloc :: sockaddr where
  "vsf_sysutil_sockaddr_alloc = Sa_unspec"

definition vsf_sysutil_sockaddr_alloc_ipv4 :: sockaddr where
  "vsf_sysutil_sockaddr_alloc_ipv4 = Sin (replicate 4 NUL) 0"

definition vsf_sysutil_sockaddr_alloc_ipv6 :: sockaddr where
  "vsf_sysutil_sockaddr_alloc_ipv6 = Sin6 (replicate 16 NUL) 0 0"

text \<open>A clone keeps the family and the address; its port is zero.\<close>

definition vsf_sysutil_sockaddr_clone :: "sockaddr \<Rightarrow> sockaddr res" where
  "vsf_sysutil_sockaddr_clone p_src = (case p_src of
     Sin a _ \<Rightarrow> Inr (Sin a 0)
   | Sin6 a _ scope \<Rightarrow> Inr (Sin6 a 0 scope)
   | Sa_unspec \<Rightarrow> Inl (Die ''can only support ipv4 and ipv6 currently''))"

definition v4_mapped_prefix :: string where
  "v4_mapped_prefix = replicate 10 NUL @ [TELNET_IAC, TELNET_IAC]"

text \<open>The IPv4 part of an IPv4-mapped IPv6 address, and the mapping.\<close>

definition vsf_sysutil_sockaddr_ipv6_v4 :: "sockaddr \<Rightarrow> string option" where
  "vsf_sysutil_sockaddr_ipv6_v4 p_addr = (case p_addr of
     Sin6 a _ _ \<Rightarrow> if take 12 a \<noteq> v4_mapped_prefix then None else Some (take 4 (drop 12 a))
   | _ \<Rightarrow> None)"

definition vsf_sysutil_sockaddr_ipv4_v6 :: "sockaddr \<Rightarrow> string option" where
  "vsf_sysutil_sockaddr_ipv4_v6 p_addr = (case p_addr of
     Sin a _ \<Rightarrow> Some (v4_mapped_prefix @ take 4 a) | _ \<Rightarrow> None)"

definition vsf_sysutil_sockaddr_addr_equal :: "sockaddr \<Rightarrow> sockaddr \<Rightarrow> bool" where
  "vsf_sysutil_sockaddr_addr_equal p1 p2 = (case (p1, p2) of
     (Sin a _, Sin6 _ _ _) \<Rightarrow> vsf_sysutil_sockaddr_ipv6_v4 p2 = Some a
   | (Sin6 _ _ _, Sin b _) \<Rightarrow> vsf_sysutil_sockaddr_ipv6_v4 p1 = Some b
   | (Sin a _, Sin b _) \<Rightarrow> a = b
   | (Sin6 a _ _, Sin6 b _ _) \<Rightarrow> a = b
   | _ \<Rightarrow> False)"

definition vsf_sysutil_sockaddr_is_ipv6 :: "sockaddr \<Rightarrow> bool" where
  "vsf_sysutil_sockaddr_is_ipv6 p = (case p of Sin6 _ _ _ \<Rightarrow> True | _ \<Rightarrow> False)"

definition vsf_sysutil_sockaddr_set_ipv4addr :: "sockaddr \<Rightarrow> string \<Rightarrow> sockaddr res" where
  "vsf_sysutil_sockaddr_set_ipv4addr p raw = (case p of
     Sin _ port \<Rightarrow> Inr (Sin (take 4 raw) port)
   | Sin6 _ port scope \<Rightarrow> Inr (Sin6 (v4_mapped_prefix @ take 4 raw) port scope)
   | Sa_unspec \<Rightarrow> Inl (Bug ''bad family''))"

definition vsf_sysutil_sockaddr_set_ipv6addr :: "sockaddr \<Rightarrow> string \<Rightarrow> sockaddr res" where
  "vsf_sysutil_sockaddr_set_ipv6addr p raw = (case p of
     Sin6 _ port scope \<Rightarrow> Inr (Sin6 (take 16 raw) port scope)
   | _ \<Rightarrow> Inl (Bug ''bad family''))"

definition vsf_sysutil_sockaddr_get_ipv6scope :: "sockaddr \<Rightarrow> u32" where
  "vsf_sysutil_sockaddr_get_ipv6scope p = (case p of Sin6 _ _ scope \<Rightarrow> scope | _ \<Rightarrow> 0)"

definition vsf_sysutil_sockaddr_set_ipv6scope :: "sockaddr \<Rightarrow> u32 \<Rightarrow> sockaddr" where
  "vsf_sysutil_sockaddr_set_ipv6scope p scope = (case p of Sin6 a port _ \<Rightarrow> Sin6 a port scope | _ \<Rightarrow> p)"

definition vsf_sysutil_sockaddr_set_any :: "sockaddr \<Rightarrow> sockaddr res" where
  "vsf_sysutil_sockaddr_set_any p = (case p of
     Sin _ port \<Rightarrow> Inr (Sin (replicate 4 NUL) port)
   | Sin6 _ port scope \<Rightarrow> Inr (Sin6 (replicate 16 NUL) port scope)
   | Sa_unspec \<Rightarrow> Inl (Bug ''bad family''))"

definition vsf_sysutil_sockaddr_get_raw_addr :: "sockaddr \<Rightarrow> string res" where
  "vsf_sysutil_sockaddr_get_raw_addr p = (case p of
     Sin a _ \<Rightarrow> Inr a | Sin6 a _ _ \<Rightarrow> Inr a | Sa_unspec \<Rightarrow> Inl (Bug ''bad family''))"

definition vsf_sysutil_sockaddr_get_port :: "sockaddr \<Rightarrow> u16 res" where
  "vsf_sysutil_sockaddr_get_port p = (case p of
     Sin _ port \<Rightarrow> Inr port | Sin6 _ port _ \<Rightarrow> Inr port | Sa_unspec \<Rightarrow> Inl (Bug ''bad family''))"

definition vsf_sysutil_sockaddr_set_port :: "sockaddr \<Rightarrow> u16 \<Rightarrow> sockaddr res" where
  "vsf_sysutil_sockaddr_set_port p port = (case p of
     Sin a _ \<Rightarrow> Inr (Sin a port) | Sin6 a _ scope \<Rightarrow> Inr (Sin6 a port scope)
   | Sa_unspec \<Rightarrow> Inl (Bug ''bad family''))"

text \<open>IPPORT_RESERVED is 1024.\<close>

definition vsf_sysutil_is_port_reserved :: "u16 \<Rightarrow> bool" where
  "vsf_sysutil_is_port_reserved port \<longleftrightarrow> port < 1024"

section \<open>What a data connection target is checked against\<close>

text \<open>The address bytes as compared by the code: an IPv4-mapped IPv6 address stands for its IPv4 part.\<close>

definition norm_addr :: "sockaddr \<Rightarrow> (bool \<times> string) option" where
  "norm_addr p = (case p of
     Sin a _ \<Rightarrow> Some (False, a)
   | Sin6 a _ _ \<Rightarrow> Some (case vsf_sysutil_sockaddr_ipv6_v4 p of Some b \<Rightarrow> (False, b) | None \<Rightarrow> (True, a))
   | Sa_unspec \<Rightarrow> None)"

definition sockaddr_wf :: "sockaddr \<Rightarrow> bool" where
  "sockaddr_wf p = (case p of Sin a _ \<Rightarrow> length a = 4 | Sin6 a _ _ \<Rightarrow> length a = 16 | Sa_unspec \<Rightarrow> True)"

definition port_of :: "sockaddr \<Rightarrow> u16" where
  "port_of p = (case p of Sin _ q \<Rightarrow> q | Sin6 _ q _ \<Rightarrow> q | Sa_unspec \<Rightarrow> 0)"

lemma length_v4_mapped [simp]: "length v4_mapped_prefix = 12"
  by (simp add: v4_mapped_prefix_def)

lemma addr_equal_iff:
  assumes "sockaddr_wf p" "sockaddr_wf q" "p \<noteq> Sa_unspec" "q \<noteq> Sa_unspec"
  shows "vsf_sysutil_sockaddr_addr_equal p q \<longleftrightarrow> norm_addr p = norm_addr q"
proof -
  have join: "take 12 a = take 12 b \<Longrightarrow> drop 12 a = drop 12 b \<Longrightarrow> a = b" for a b :: string
    by (metis append_take_drop_id)
  show ?thesis
    using assms
    by (cases p; cases q)
       (auto simp: vsf_sysutil_sockaddr_addr_equal_def norm_addr_def vsf_sysutil_sockaddr_ipv6_v4_def
         sockaddr_wf_def split: if_splits intro: join)
qed

text \<open>The same address with perhaps another port.\<close>

definition same_host :: "sockaddr \<Rightarrow> sockaddr \<Rightarrow> bool" where
  "same_host p q = (case (p, q) of
     (Sin a _, Sin b _) \<Rightarrow> a = b | (Sin6 a _ _, Sin6 b _ _) \<Rightarrow> a = b | _ \<Rightarrow> False)"

lemma same_host_equal: "same_host p q \<Longrightarrow> vsf_sysutil_sockaddr_addr_equal p x = vsf_sysutil_sockaddr_addr_equal q x"
  by (cases p; cases q; cases x)
     (auto simp: same_host_def vsf_sysutil_sockaddr_addr_equal_def vsf_sysutil_sockaddr_ipv6_v4_def)

lemma same_host_refl: "same_host p p \<longleftrightarrow> p \<noteq> Sa_unspec"
  by (cases p) (simp_all add: same_host_def)

lemma same_host_set_port:
  "vsf_sysutil_sockaddr_set_port q port = Inr r \<Longrightarrow> same_host p q \<Longrightarrow> same_host p r"
  by (cases p; cases q) (auto simp: same_host_def vsf_sysutil_sockaddr_set_port_def)

lemma addr_equal_refl [simp]: "p \<noteq> Sa_unspec \<Longrightarrow> vsf_sysutil_sockaddr_addr_equal p p"
  by (cases p) (simp_all add: vsf_sysutil_sockaddr_addr_equal_def)

lemma same_host_addr_equal: "same_host p q \<Longrightarrow> vsf_sysutil_sockaddr_addr_equal p q"
  using same_host_equal[of p q q] by (cases q) (simp_all add: same_host_def split: sockaddr.splits)

lemma addr_equal_sym: "vsf_sysutil_sockaddr_addr_equal p q = vsf_sysutil_sockaddr_addr_equal q p"
  by (cases p; cases q) (auto simp: vsf_sysutil_sockaddr_addr_equal_def)

lemma addr_equal_set_port [simp]:
  "vsf_sysutil_sockaddr_set_port q port = Inr q' \<Longrightarrow>
     vsf_sysutil_sockaddr_addr_equal p q' = vsf_sysutil_sockaddr_addr_equal p q"
  by (cases p; cases q) (auto simp: vsf_sysutil_sockaddr_addr_equal_def
      vsf_sysutil_sockaddr_ipv6_v4_def vsf_sysutil_sockaddr_set_port_def)

lemma set_port_Inr: "vsf_sysutil_sockaddr_set_port q port = Inr q' \<Longrightarrow> port_of q' = port"
  by (cases q) (auto simp: vsf_sysutil_sockaddr_set_port_def port_of_def)

end
