(* ===== verification/Sysutil_Text.thy ===== *)
theory Sysutil_Text
  imports Prelude
begin

text \<open>
  The character classes and the number conversions of src/sysutil.c. A C string is the list of
  its bytes; \<open>c_text\<close> is the view a C function has of a buffer, up to the first NUL.
  The C locale is the one in force (the program never calls setlocale).
\<close>

section \<open>C strings\<close>

definition c_text :: "string \<Rightarrow> string" where
  "c_text s = takeWhile (\<lambda>c. c \<noteq> NUL) s"

lemma c_text_Nil [simp]: "c_text [] = []"
  by (simp add: c_text_def)

lemma c_text_id: "NUL \<notin> set s \<Longrightarrow> c_text s = s"
  by (auto simp: c_text_def takeWhile_eq_all_conv)

lemma NUL_notin_c_text [simp]: "NUL \<notin> set (c_text s)"
  by (auto simp: c_text_def dest: set_takeWhileD)

lemma c_text_idem [simp]: "c_text (c_text s) = c_text s"
  by (simp add: c_text_id)

text \<open>strlen, with the defence in depth of \<open>vsf_sysutil_strlen\<close>.\<close>

definition vsf_sysutil_strlen :: "string \<Rightarrow> u32 res" where
  "vsf_sysutil_strlen s = (let ret = length (c_text s) in
     if ret > INT_MAX div 8 then Inl (Die ''string suspiciously long'') else Inr (u32 ret))"

section \<open>Character classes\<close>

definition vsf_sysutil_toupper :: "char \<Rightarrow> char" where
  "vsf_sysutil_toupper c =
     (if CHR ''a'' \<le> c \<and> c \<le> CHR ''z'' then char_of (of_char c - 32 :: nat) else c)"

definition vsf_sysutil_isspace :: "char \<Rightarrow> bool" where
  "vsf_sysutil_isspace c = (let n = (of_char c :: nat) in n = 32 \<or> 9 \<le> n \<and> n \<le> 13)"

definition libc_isprint :: "char \<Rightarrow> bool" where
  "libc_isprint c = (let n = (of_char c :: nat) in 32 \<le> n \<and> n \<le> 126)"

definition vsf_sysutil_isprint :: "char \<Rightarrow> bool" where
  "vsf_sysutil_isprint c = (let uc = (of_char c :: nat) in
     if uc \<le> 31 then False
     else if uc = 177 then False
     else if uc \<ge> 128 \<and> uc \<le> 159 then False
     else libc_isprint c)"

definition vsf_sysutil_isdigit :: "char \<Rightarrow> bool" where
  "vsf_sysutil_isdigit c \<longleftrightarrow> CHR ''0'' \<le> c \<and> c \<le> CHR ''9''"

definition vsf_sysutil_isalnum :: "char \<Rightarrow> bool" where
  "vsf_sysutil_isalnum c \<longleftrightarrow> vsf_sysutil_isdigit c
     \<or> (c \<ge> CHR ''A'' \<and> c \<le> CHR ''Z'') \<or> (c \<ge> CHR ''a'' \<and> c \<le> CHR ''z'')"

lemma isprint_iff: "vsf_sysutil_isprint c \<longleftrightarrow> 32 \<le> (of_char c :: nat) \<and> (of_char c :: nat) \<le> 126"
  by (simp add: vsf_sysutil_isprint_def libc_isprint_def Let_def)

section \<open>Numbers\<close>

definition digit_val :: "char \<Rightarrow> int" where
  "digit_val c = of_char c - 48"

text \<open>The scan goes from the last character, with the power of ten as the second argument.\<close>

fun filesize_loop :: "string \<Rightarrow> int \<Rightarrow> int \<Rightarrow> int" where
  "filesize_loop [] mult result = result"
| "filesize_loop (c # cs) mult result =
     (if c < CHR ''0'' \<or> c > CHR ''9'' then 0
      else filesize_loop cs (mult * 10) (result + digit_val c * mult))"

definition vsf_sysutil_a_to_filesize_t :: "string \<Rightarrow> int" where
  "vsf_sysutil_a_to_filesize_t s = (let p = c_text s in
     if length p > 15 then 0 else filesize_loop (rev p) 1 0)"

text \<open>atoi of libc: white space, a sign, digits; the long is saturated, then cut to an int.\<close>

fun dec_value :: "int \<Rightarrow> string \<Rightarrow> int" where
  "dec_value acc [] = acc"
| "dec_value acc (c # cs) =
     (if vsf_sysutil_isdigit c then dec_value (acc * 10 + digit_val c) cs else acc)"

definition libc_strtol :: "string \<Rightarrow> int" where
  "libc_strtol s = (let p = dropWhile vsf_sysutil_isspace (c_text s);
     v = (case p of c # cs \<Rightarrow> if c = CHR ''-'' then - dec_value 0 cs
                              else if c = CHR ''+'' then dec_value 0 cs else dec_value 0 p
                  | [] \<Rightarrow> 0)
     in max (- (2 ^ 63)) (min (2 ^ 63 - 1) v))"

definition vsf_sysutil_atoi :: "string \<Rightarrow> int" where
  "vsf_sysutil_atoi s = signed_take_bit 31 (libc_strtol s)"

fun digits :: "nat \<Rightarrow> nat \<Rightarrow> string" where
  "digits b n = (if b < 2 \<or> n < b then [char_of (48 + n)]
                 else digits b (n div b) @ [char_of (48 + n mod b)])"

declare digits.simps [simp del]

definition vsf_sysutil_ulong_to_str :: "u64 \<Rightarrow> string" where
  "vsf_sysutil_ulong_to_str w = digits 10 (unat w)"

definition vsf_sysutil_filesize_t_to_str :: "int \<Rightarrow> string" where
  "vsf_sysutil_filesize_t_to_str n =
     (if n < 0 then CHR ''-'' # digits 10 (nat (- n)) else digits 10 (nat n))"

definition vsf_sysutil_uint_to_octal :: "u32 \<Rightarrow> string" where
  "vsf_sysutil_uint_to_octal w = (if w = 0 then ''0'' else CHR ''0'' # digits 8 (unat w))"

text \<open>
  The loop variable advances, but the digit is read through \<open>p_str\<close>, which does not: every
  iteration sees the first character of the string.
\<close>

fun octal_loop :: "char \<Rightarrow> string \<Rightarrow> bool \<Rightarrow> u32 \<Rightarrow> u32" where
  "octal_loop p_str [] seen result = result"
| "octal_loop p_str (_ # p_str_loop) seen result =
     (if \<not> vsf_sysutil_isdigit p_str \<or> p_str > CHR ''7'' then result
      else let seen' = (seen \<or> p_str \<noteq> CHR ''0'');
               result' = (if seen' then push_bit 3 result + word_of_int (digit_val p_str) else result)
           in octal_loop p_str p_str_loop seen' result')"

definition vsf_sysutil_octal_to_uint :: "string \<Rightarrow> u32" where
  "vsf_sysutil_octal_to_uint s = (let p = c_text s in
     case p of [] \<Rightarrow> 0 | c # _ \<Rightarrow> octal_loop c p False 0)"

section \<open>What the conversions compute\<close>

lemma digits_nonempty [simp]: "digits b n \<noteq> []"
  by (subst digits.simps) simp

lemma of_char_char_of_small [simp]: "n < 256 \<Longrightarrow> of_char (char_of n) = (n :: nat)"
  by (simp add: of_char_of take_bit_eq_mod)

lemma of_char_char_of_int [simp]: "n < 256 \<Longrightarrow> (of_char (char_of n :: char) :: int) = int n"
  by (metis of_char_char_of_small of_nat_of_char)

lemma isdigit_iff: "vsf_sysutil_isdigit c \<longleftrightarrow> 48 \<le> (of_char c :: nat) \<and> (of_char c :: nat) \<le> 57"
  by (simp add: vsf_sysutil_isdigit_def less_eq_char_def)

lemma digits_all_digit: "c \<in> set (digits 10 n) \<Longrightarrow> vsf_sysutil_isdigit c"
proof (induction "10 :: nat" n rule: digits.induct)
  case (1 n)
  then show ?case
    by (subst (asm) (2) digits.simps)
       (auto simp: isdigit_iff split: if_splits)
qed

lemma digit_notin: "n < 256 \<Longrightarrow> (of_char c :: nat) = n \<Longrightarrow> n < 48 \<or> n > 57 \<Longrightarrow> c \<notin> set (digits 10 m)"
  using digits_all_digit[of c m] by (auto simp: isdigit_iff)

definition is_decimal :: "string \<Rightarrow> bool" where
  "is_decimal s \<longleftrightarrow> list_all vsf_sysutil_isdigit s"

fun dec_rev :: "string \<Rightarrow> int" where
  "dec_rev [] = 0"
| "dec_rev (c # cs) = digit_val c + 10 * dec_rev cs"

lemma filesize_loop_digits:
  "is_decimal cs \<Longrightarrow> filesize_loop cs mult result = result + mult * dec_rev cs"
  by (induction cs arbitrary: mult result)
     (auto simp: is_decimal_def vsf_sysutil_isdigit_def not_less algebra_simps)

lemma filesize_loop_nondigit: "\<not> is_decimal cs \<Longrightarrow> filesize_loop cs mult result = 0"
  by (induction cs arbitrary: mult result)
     (auto simp: is_decimal_def vsf_sysutil_isdigit_def not_le)

lemma dec_rev_rev: "is_decimal cs \<Longrightarrow> dec_rev (rev cs) = dec_value 0 cs"
proof -
  have "dec_value acc cs = acc * 10 ^ length cs + dec_rev (rev cs)" if "is_decimal cs" for acc
    using that
  proof (induction cs arbitrary: acc rule: list.induct)
    case (Cons c cs)
    have app: "dec_rev (xs @ [c]) = dec_rev xs + 10 ^ length xs * digit_val c" for xs
      by (induction xs) (auto simp: algebra_simps)
    from Cons show ?case by (simp add: is_decimal_def app algebra_simps)
  qed simp
  then show "is_decimal cs \<Longrightarrow> dec_rev (rev cs) = dec_value 0 cs" by simp
qed

lemma dec_value_snoc:
  "is_decimal cs \<Longrightarrow> vsf_sysutil_isdigit c \<Longrightarrow> dec_value acc (cs @ [c]) = dec_value acc cs * 10 + digit_val c"
  by (induction cs arbitrary: acc) (auto simp: is_decimal_def)

lemma dec_value_digits: "dec_value 0 (digits 10 n) = int n"
proof (induction "10 :: nat" n rule: digits.induct)
  case (1 n)
  have digit: "vsf_sysutil_isdigit (char_of (48 + n mod 10))" "digit_val (char_of (48 + n mod 10)) = int (n mod 10)"
    by (simp_all add: isdigit_iff digit_val_def)
  show ?case
  proof (cases "n < 10")
    case True
    then show ?thesis using digit by (subst digits.simps) simp
  next
    case False
    have "is_decimal (digits 10 (n div 10))"
      by (auto simp: is_decimal_def list_all_iff intro: digits_all_digit)
    then show ?thesis using False 1 digit
      by (subst digits.simps) (simp add: dec_value_snoc, presburger)
  qed
qed

lemma is_decimal_digits [simp]: "is_decimal (digits 10 n)"
  by (auto simp: is_decimal_def list_all_iff intro: digits_all_digit)

lemma is_decimal_rev [simp]: "is_decimal (rev s) = is_decimal s"
  by (simp add: is_decimal_def)

lemma a_to_filesize_t_eq:
  "vsf_sysutil_a_to_filesize_t s =
     (if length (c_text s) \<le> 15 \<and> is_decimal (c_text s) then dec_value 0 (c_text s) else 0)"
  by (auto simp: vsf_sysutil_a_to_filesize_t_def Let_def filesize_loop_digits
      filesize_loop_nondigit dec_rev_rev)

lemma dec_value_bounds: "0 \<le> acc \<Longrightarrow> acc \<le> dec_value acc s \<and> dec_value acc s < (acc + 1) * 10 ^ length s"
proof (induction s arbitrary: acc)
  case (Cons c cs)
  show ?case
  proof (cases "vsf_sysutil_isdigit c")
    case True
    then have d: "0 \<le> digit_val c" "digit_val c \<le> 9"
      by (simp_all add: isdigit_iff digit_val_def) (metis of_nat_of_char of_nat_le_iff of_nat_numeral)+
    have "(acc * 10 + digit_val c + 1) * 10 ^ length cs \<le> ((acc + 1) * 10) * 10 ^ length cs"
      by (rule mult_right_mono) (use d in simp_all)
    then have "dec_value (acc * 10 + digit_val c) cs < ((acc + 1) * 10) * 10 ^ length cs"
      using Cons.IH[of "acc * 10 + digit_val c"] d Cons.prems by (meson add_nonneg_nonneg less_le_trans mult_nonneg_nonneg zero_le_numeral)
    then show ?thesis using True Cons.IH[of "acc * 10 + digit_val c"] d Cons.prems
      by (simp add: algebra_simps)
  next
    case False
    have "1 \<le> (10 :: int) ^ length (c # cs)" by (rule one_le_power) simp
    then have "(acc + 1) * 1 \<le> (acc + 1) * 10 ^ length (c # cs)"
      using Cons.prems by (intro mult_left_mono) simp_all
    then show ?thesis using False by simp
  qed
qed simp

lemma length_digits: "n < 10 ^ k \<Longrightarrow> 0 < k \<Longrightarrow> length (digits 10 n) \<le> k"
proof (induction k arbitrary: n)
  case (Suc k)
  show ?case
  proof (cases "n < 10")
    case False
    with Suc.prems have "0 < k" by (cases k) auto
    moreover have "n div 10 < 10 ^ k" using Suc.prems by auto
    ultimately show ?thesis using Suc.IH False by (subst digits.simps) simp
  qed (subst digits.simps, simp)
qed simp

lemma c_text_digits [simp]: "c_text (digits 10 n) = digits 10 n"
  by (rule c_text_id) (rule digit_notin[where n = 0], simp_all add: NUL_def)

lemma octal_loop_zero: "octal_loop (CHR ''0'') s False 0 = 0"
  by (induction s) (simp_all add: vsf_sysutil_isdigit_def Let_def)

end

