(* ===== verification/Text.thy ===== *)
theory Text
  imports Sysutil_Text
begin

text \<open>
  What the string operations of src/str.c promise, as functions on lists of characters: the
  abstract specification that Str refines and that the other components are written against.
\<close>

section \<open>Searching\<close>

definition occurs_at :: "string \<Rightarrow> string \<Rightarrow> nat \<Rightarrow> bool" where
  "occurs_at t s i \<longleftrightarrow> i + length t \<le> length s \<and> take (length t) (drop i s) = t"

definition locate_text :: "string \<Rightarrow> string \<Rightarrow> nat option" where
  "locate_text s t = (if t = [] then None else find (occurs_at t s) [0..<length s + 1 - length t])"

definition locate_text_reverse :: "string \<Rightarrow> string \<Rightarrow> nat option" where
  "locate_text_reverse s t =
     (if t = [] then None else find (occurs_at t s) (rev [0..<length s + 1 - length t]))"

definition locate_char :: "string \<Rightarrow> char \<Rightarrow> nat option" where
  "locate_char s c = locate_text s (c_text [c])"

definition locate_chars :: "string \<Rightarrow> string \<Rightarrow> nat option" where
  "locate_chars s cs = find (\<lambda>i. s ! i \<in> set cs) [0..<length s]"

lemma occurs_at_iff: "occurs_at t s i \<longleftrightarrow> (\<exists>l r. s = l @ t @ r \<and> length l = i)"
proof
  assume "occurs_at t s i"
  then have "i + length t \<le> length s" "take (length t) (drop i s) = t"
    by (simp_all add: occurs_at_def)
  then have "s = take i s @ t @ drop (i + length t) s" "length (take i s) = i"
    by (metis add.commute append_take_drop_id drop_drop, simp)
  then show "\<exists>l r. s = l @ t @ r \<and> length l = i" by blast
qed (auto simp: occurs_at_def)

lemma occurs_at_less: "occurs_at t s i \<Longrightarrow> i < Suc (length s) - length t"
  by (simp add: occurs_at_def less_diff_conv)

lemma locate_text_Some:
  "locate_text s t = Some i \<longleftrightarrow> t \<noteq> [] \<and> occurs_at t s i \<and> (\<forall>j<i. \<not> occurs_at t s j)"
  by (auto simp: locate_text_def find_upt_first occurs_at_less)

lemma locate_text_None:
  "locate_text s t = None \<longleftrightarrow> t = [] \<or> (\<forall>i. \<not> occurs_at t s i)"
  by (auto simp: locate_text_def find_None_iff occurs_at_def)

lemma locate_text_sublist: "locate_text s t \<noteq> None \<longleftrightarrow> t \<noteq> [] \<and> sublist t s"
  by (auto simp: locate_text_None occurs_at_iff sublist_def)

lemma find_rev_upt_last:
  "find P (rev [0..<n]) = Some i \<longleftrightarrow> i < n \<and> P i \<and> (\<forall>j. i < j \<longrightarrow> j < n \<longrightarrow> \<not> P j)"
proof (induction n)
  case (Suc n)
  have "(\<forall>j. i < j \<longrightarrow> j < Suc n \<longrightarrow> \<not> P j)
      \<longleftrightarrow> (i < n \<longrightarrow> \<not> P n) \<and> (\<forall>j. i < j \<longrightarrow> j < n \<longrightarrow> \<not> P j)"
    by (auto simp: less_Suc_eq)
  then show ?case using Suc by (auto simp: less_Suc_eq)
qed simp

lemma locate_text_reverse_Some:
  "locate_text_reverse s t = Some i \<longleftrightarrow> t \<noteq> [] \<and> occurs_at t s i \<and> (\<forall>j>i. \<not> occurs_at t s j)"
  using occurs_at_less[of t s]
  by (cases "t = []") (simp_all add: locate_text_reverse_def find_rev_upt_last, blast)

lemma locate_text_reverse_None:
  "locate_text_reverse s t = None \<longleftrightarrow> t = [] \<or> (\<forall>i. \<not> occurs_at t s i)"
  by (auto simp: locate_text_reverse_def find_None_iff occurs_at_def)

lemma occurs_at_single: "occurs_at [c] s i \<longleftrightarrow> i < length s \<and> s ! i = c"
  by (cases "i < length s") (simp_all add: occurs_at_def take_Suc hd_drop_conv_nth)

lemma c_text_single: "c \<noteq> NUL \<Longrightarrow> c_text [c] = [c]"
  by (simp add: c_text_def)

section \<open>Splitting\<close>

definition split_text :: "string \<Rightarrow> string \<Rightarrow> string \<times> string" where
  "split_text s t = (case locate_text s t of None \<Rightarrow> (s, [])
     | Some i \<Rightarrow> (take i s, drop (i + length t) s))"

definition split_text_reverse :: "string \<Rightarrow> string \<Rightarrow> string \<times> string" where
  "split_text_reverse s t = (case locate_text_reverse s t of None \<Rightarrow> (s, [])
     | Some i \<Rightarrow> (take i s, drop (i + length t) s))"

definition split_char :: "string \<Rightarrow> char \<Rightarrow> string \<times> string" where
  "split_char s c = split_text s (c_text [c])"

definition split_char_reverse :: "string \<Rightarrow> char \<Rightarrow> string \<times> string" where
  "split_char_reverse s c = split_text_reverse s (c_text [c])"

lemma split_text_found:
  assumes "locate_text s t = Some i"
  shows "s = fst (split_text s t) @ t @ snd (split_text s t)"
    and "\<not> sublist t (butlast (fst (split_text s t) @ t))"
proof -
  from assms have *: "t \<noteq> []" "occurs_at t s i" "\<forall>j<i. \<not> occurs_at t s j"
    by (simp_all add: locate_text_Some)
  then obtain l r where lr: "s = l @ t @ r" "length l = i" by (auto simp: occurs_at_iff)
  then have eq: "split_text s t = (l, r)" using assms by (simp add: split_text_def)
  show "s = fst (split_text s t) @ t @ snd (split_text s t)" using lr eq by simp
  show "\<not> sublist t (butlast (fst (split_text s t) @ t))"
  proof
    assume "sublist t (butlast (fst (split_text s t) @ t))"
    then obtain p q where pq: "butlast (l @ t) = p @ t @ q" by (auto simp: eq sublist_def)
    then have "length (butlast (l @ t)) = length p + length t + length q" by simp
    then have "length p < i" using lr \<open>t \<noteq> []\<close> by (simp, cases t) auto
    moreover have "occurs_at t s (length p)"
    proof -
      have "l @ t = p @ t @ q @ [last (l @ t)]"
        using pq \<open>t \<noteq> []\<close> by (metis append_assoc append_butlast_last_id append_is_Nil_conv)
      then have "s = p @ t @ (q @ [last (l @ t)] @ r)" using lr by (metis append_assoc)
      then show ?thesis by (auto simp: occurs_at_iff)
    qed
    ultimately show False using *(3) by blast
  qed
qed

lemma locate_text_single:
  "locate_text s [c] = (if c \<in> set s then Some (length (takeWhile (\<lambda>x. x \<noteq> c) s)) else None)"
proof (cases "c \<in> set s")
  case True
  then obtain ys zs where s: "s = ys @ c # zs" "c \<notin> set ys"
    using in_set_conv_decomp_first[of c s] by auto
  then have tw: "takeWhile (\<lambda>x. x \<noteq> c) s = ys"
    by (auto simp: takeWhile_append)
  have "locate_text s [c] = Some (length ys)"
    using s by (auto simp: locate_text_Some occurs_at_single nth_append in_set_conv_nth)
  then show ?thesis using True tw by simp
next
  case False
  then show ?thesis by (auto simp: locate_text_None occurs_at_single in_set_conv_nth)
qed

lemma split_char_eq:
  assumes "c \<noteq> NUL"
  shows "split_char s c = (takeWhile (\<lambda>x. x \<noteq> c) s, drop (Suc (length (takeWhile (\<lambda>x. x \<noteq> c) s))) s)"
proof (cases "c \<in> set s")
  case True
  then show ?thesis using assms
    by (simp add: split_char_def split_text_def c_text_single locate_text_single
        takeWhile_eq_take[symmetric])
next
  case False
  then have tw: "takeWhile (\<lambda>x. x \<noteq> c) s = s"
    by (auto simp: takeWhile_eq_all_conv)
  show ?thesis using assms False unfolding tw
    by (simp add: split_char_def split_text_def c_text_single locate_text_single)
qed

section \<open>Replacing, lines, padding\<close>

lemma split_text_shorter:
  "snd (split_text s t) \<noteq> [] \<Longrightarrow> length (snd (split_text s t)) < length s"
  by (auto simp: split_text_def locate_text_Some split: option.splits intro!: diff_less)

function replace_text :: "string \<Rightarrow> string \<Rightarrow> string \<Rightarrow> string" where
  "replace_text s from to = (let (lhs, rhs) = split_text s from;
       out = lhs @ (if length lhs < length s then to else [])
     in if rhs = [] then out else out @ replace_text rhs from to)"
  by pat_completeness auto
termination
  by (relation "measure (\<lambda>(s, _, _). length s)") (simp_all, metis snd_conv split_text_shorter)

definition pad_right :: "string \<Rightarrow> nat \<Rightarrow> string" where
  "pad_right s n = s @ replicate (n - length s) (CHR '' '')"

definition pad_left :: "string \<Rightarrow> nat \<Rightarrow> string" where
  "pad_left s n = replicate (n - length s) (CHR '' '') @ s"

definition replace_char :: "string \<Rightarrow> char \<Rightarrow> char \<Rightarrow> string" where
  "replace_char s from to = map (\<lambda>c. if c = from then to else c) s"

definition replace_unprintable :: "string \<Rightarrow> char \<Rightarrow> string" where
  "replace_unprintable s new = map (\<lambda>c. if vsf_sysutil_isprint c then c else new) s"

definition basename :: "string \<Rightarrow> string" where
  "basename s = (let (_, d) = split_char_reverse s (CHR ''/'') in if d = [] then s else d)"

definition upper :: "string \<Rightarrow> string" where
  "upper s = List.map vsf_sysutil_toupper s"

text \<open>The lines of a buffer: a final line needs no newline, and no empty line follows one.\<close>

definition getline :: "string \<Rightarrow> nat \<Rightarrow> (string \<times> nat) option" where
  "getline s pos = (if length s \<le> pos then None
     else let line = takeWhile (\<lambda>c. c \<noteq> LF) (drop pos s); e = pos + length line
          in Some (line, if e < length s then e + 1 else e))"

function text_lines :: "string \<Rightarrow> string list" where
  "text_lines s = (if s = [] then []
     else takeWhile (\<lambda>c. c \<noteq> LF) s # text_lines (drop (Suc (length (takeWhile (\<lambda>c. c \<noteq> LF) s))) s))"
  by pat_completeness auto
termination
  by (relation "measure length") (simp_all add: diff_less)

declare text_lines.simps [simp del]
declare replace_text.simps [simp del]

lemma text_lines_Nil [simp]: "text_lines [] = []"
  by (simp add: text_lines.simps)

lemma getline_None: "getline s pos = None \<longleftrightarrow> text_lines (drop pos s) = []"
  by (simp add: getline_def Let_def text_lines.simps[of "drop pos s"])

lemma getline_Some:
  assumes "getline s pos = Some (line, pos')"
  shows "text_lines (drop pos s) = line # text_lines (drop pos' s)" "pos < pos'" "pos' \<le> length s"
proof -
  from assms have pos: "pos < length s" and line: "line = takeWhile (\<lambda>c. c \<noteq> LF) (drop pos s)"
    and pos': "pos' = (if pos + length line < length s then pos + length line + 1 else pos + length line)"
    by (auto simp: getline_def Let_def split: if_splits)
  have le: "pos + length line \<le> length s"
    using length_takeWhile_le[of "\<lambda>c. c \<noteq> LF" "drop pos s"] pos by (simp add: line)
  then show "pos' \<le> length s" by (simp add: pos')
  have "drop (Suc (length line)) (drop pos s) = drop pos' s"
    using le by (simp add: pos' add.commute)
  then show "text_lines (drop pos s) = line # text_lines (drop pos' s)"
    using pos line by (simp add: text_lines.simps[of "drop pos s"])
  show "pos < pos'"
    using pos le by (cases "line = []") (simp_all add: pos')
qed

text \<open>Replacing leaves text without an occurrence alone, and is the identity for an empty pattern.\<close>

lemma replace_text_none:
  assumes "locate_text s from = None"
  shows "replace_text s from to = s"
proof -
  have "split_text s from = (s, [])" using assms by (simp add: split_text_def)
  then show ?thesis by (subst replace_text.simps) simp
qed

lemma replace_text_found:
  assumes "locate_text s from = Some i"
  shows "replace_text s from to = take i s @ to @ replace_text (drop (i + length from) s) from to"
proof -
  have "from \<noteq> []" "i + length from \<le> length s"
    using assms by (auto simp: locate_text_Some occurs_at_def)
  moreover have "replace_text [] from to = []"
    by (rule replace_text_none) (auto simp: locate_text_None occurs_at_def)
  moreover have "split_text s from = (take i s, drop (i + length from) s)"
    using assms by (simp add: split_text_def)
  ultimately show ?thesis
    by (subst replace_text.simps) (auto simp: Let_def not_less)
qed

lemma replace_text_single:
  "replace_text s [c] to = concat (List.map (\<lambda>x. if x = c then to else [x]) s)"
proof (induction "length s" arbitrary: s rule: less_induct)
  case less
  show ?case
  proof (cases "c \<in> set s")
    case True
    then obtain ys zs where s: "s = ys @ c # zs" "c \<notin> set ys"
      using in_set_conv_decomp_first[of c s] by auto
    then have "takeWhile (\<lambda>x. x \<noteq> c) s = ys" by (auto simp: takeWhile_append)
    then have loc: "locate_text s [c] = Some (length ys)" using True by (simp add: locate_text_single)
    have "concat (List.map (\<lambda>x. if x = c then to else [x]) ys) = ys"
      using s(2) by (induction ys) auto
    then show ?thesis using less[of zs] s unfolding replace_text_found[OF loc] by simp
  next
    case False
    then have "locate_text s [c] = None" by (simp add: locate_text_single)
    moreover have "concat (List.map (\<lambda>x. if x = c then to else [x]) s) = s"
      using False by (induction s) auto
    ultimately show ?thesis by (simp add: replace_text_none)
  qed
qed

end
