(* ===== verification/Tunables.thy ===== *)
theory Tunables
  imports Text
begin

text \<open>
  The tunables of src/tunables.c, by the name of the variable without its prefix, with the
  defaults of \<open>tunables_load_defaults\<close>, and the setting tables of src/parseconf.c that map the
  names of the configuration file to these variables. Octal constants are written in decimal.
\<close>

record tunables =
  bools :: "string \<Rightarrow> bool"
  uints :: "string \<Rightarrow> u32"
  strs :: "string \<Rightarrow> string option"

definition default_bools :: "(string \<times> bool) list" where
  "default_bools = [
   (''anonymous_enable'', True), (''local_enable'', False), (''utf8_filesystem'', False),
   (''pasv_enable'', True), (''port_enable'', True), (''chroot_local_user'', False),
   (''write_enable'', False), (''anon_upload_enable'', False), (''anon_mkdir_write_enable'', False),
   (''anon_other_write_enable'', False), (''chown_uploads'', False), (''connect_from_port_20'', False),
   (''xferlog_enable'', False), (''dirmessage_enable'', False), (''anon_world_readable_only'', True),
   (''async_abor_enable'', False), (''ascii_upload_enable'', False), (''ascii_download_enable'', False),
   (''one_process_model'', False), (''xferlog_std_format'', False), (''pasv_promiscuous'', False),
   (''deny_email_enable'', False), (''chroot_list_enable'', False), (''setproctitle_enable'', False),
   (''text_userdb_names'', False), (''ls_recurse_enable'', False), (''log_ftp_protocol'', False),
   (''guest_enable'', False), (''userlist_enable'', False), (''userlist_deny'', True),
   (''use_localtime'', False), (''check_shell'', True), (''hide_ids'', False),
   (''listen'', False), (''port_promiscuous'', False), (''passwd_chroot_enable'', False),
   (''no_anon_password'', False), (''tcp_wrappers'', False), (''use_sendfile'', True),
   (''force_dot_files'', False), (''listen_ipv6'', False), (''dual_log_enable'', False),
   (''syslog_enable'', False), (''background'', False), (''virtual_use_local_privs'', False),
   (''session_support'', False), (''download_enable'', True), (''dirlist_enable'', True),
   (''chmod_enable'', True), (''secure_email_list_enable'', False), (''run_as_launching_user'', False),
   (''no_log_lock'', False), (''ssl_enable'', False), (''allow_anon_ssl'', False),
   (''force_local_logins_ssl'', True), (''force_local_data_ssl'', True), (''sslv2'', False),
   (''sslv3'', False), (''tlsv1'', True), (''tilde_user_enable'', False),
   (''force_anon_logins_ssl'', False), (''force_anon_data_ssl'', False), (''mdtm_write'', True),
   (''lock_upload_files'', True), (''pasv_addr_resolve'', False), (''debug_ssl'', False),
   (''require_cert'', False), (''validate_cert'', False), (''strict_ssl_read_eof'', True),
   (''strict_ssl_write_shutdown'', False), (''ssl_request_cert'', True), (''delete_failed_uploads'', False),
   (''implicit_ssl'', False), (''ptrace_sandbox'', False), (''require_ssl_reuse'', True),
   (''isolate'', True), (''isolate_network'', True), (''ftp_enable'', True),
   (''http_enable'', False), (''seccomp_sandbox'', False), (''allow_writeable_chroot'', False)]"

definition default_uints :: "(string \<times> u32) list" where
  "default_uints = [
   (''accept_timeout'', 60), (''connect_timeout'', 60), (''local_umask'', 63), (''anon_umask'', 63),
   (''ftp_data_port'', 20), (''idle_session_timeout'', 300), (''data_connection_timeout'', 300), (''pasv_min_port'', 5001),
   (''pasv_max_port'', 0), (''anon_max_rate'', 0), (''local_max_rate'', 0), (''listen_port'', 21),
   (''max_clients'', 2000), (''file_open_mode'', 438), (''max_per_ip'', 50), (''trans_chunk_size'', 0),
   (''delay_failed_login'', 1), (''delay_successful_login'', 0), (''max_login_fails'', 3), (''chown_upload_mode'', 384)]"

definition default_strs :: "(string \<times> string option) list" where
  "default_strs = [
   (''secure_chroot_dir'', Some ''/var/run/vsftpd/empty''), (''ftp_username'', Some ''ftp''),
   (''chown_username'', Some ''root''), (''xferlog_file'', Some ''/var/log/xferlog''),
   (''vsftpd_log_file'', Some ''/var/log/vsftpd.log''), (''message_file'', Some ''.message''),
   (''nopriv_user'', Some ''nobody''), (''ftpd_banner'', None),
   (''banned_email_file'', Some ''/etc/vsftpd.banned_emails''), (''chroot_list_file'', Some ''/etc/vsftpd.chroot_list''),
   (''pam_service_name'', Some ''vsftpd''), (''guest_username'', Some ''ftp''),
   (''userlist_file'', Some ''/etc/vsftpd.user_list''), (''anon_root'', None),
   (''local_root'', None), (''banner_file'', None),
   (''pasv_address'', None), (''listen_address'', None),
   (''user_config_dir'', None), (''listen_address6'', None),
   (''cmds_allowed'', None), (''cmds_denied'', None),
   (''hide_file'', None), (''deny_file'', None),
   (''upload_file'', None), (''download_file'', None),
   (''user_sub_token'', None), (''email_password_file'', Some ''/etc/vsftpd.email_passwords''),
   (''rsa_cert_file'', Some ''/usr/share/ssl/certs/vsftpd.pem''), (''dsa_cert_file'', None),
   (''ssl_ciphers'', Some ''ECDHE-RSA-AES256-GCM-SHA384''), (''rsa_private_key_file'', None),
   (''dsa_private_key_file'', None), (''ca_certs_file'', None)]"

definition tunables_load_defaults :: tunables where
  "tunables_load_defaults =
     \<lparr>bools = (\<lambda>v. case map_of default_bools v of Some b \<Rightarrow> b | None \<Rightarrow> False),
      uints = (\<lambda>v. case map_of default_uints v of Some n \<Rightarrow> n | None \<Rightarrow> 0),
      strs = (\<lambda>v. case map_of default_strs v of Some s \<Rightarrow> s | None \<Rightarrow> None)\<rparr>"

text \<open>The setting name and the variable it sets.\<close>

definition parseconf_bool_array :: "(string \<times> string) list" where
  "parseconf_bool_array = [
   (''anonymous_enable'', ''anonymous_enable''), (''utf8_filesystem'', ''utf8_filesystem''),
   (''local_enable'', ''local_enable''), (''pasv_enable'', ''pasv_enable''),
   (''port_enable'', ''port_enable''), (''chroot_local_user'', ''chroot_local_user''),
   (''write_enable'', ''write_enable''), (''anon_upload_enable'', ''anon_upload_enable''),
   (''anon_mkdir_write_enable'', ''anon_mkdir_write_enable''), (''anon_other_write_enable'', ''anon_other_write_enable''),
   (''chown_uploads'', ''chown_uploads''), (''connect_from_port_20'', ''connect_from_port_20''),
   (''xferlog_enable'', ''xferlog_enable''), (''dirmessage_enable'', ''dirmessage_enable''),
   (''anon_world_readable_only'', ''anon_world_readable_only''), (''async_abor_enable'', ''async_abor_enable''),
   (''ascii_upload_enable'', ''ascii_upload_enable''), (''ascii_download_enable'', ''ascii_download_enable''),
   (''one_process_model'', ''one_process_model''), (''xferlog_std_format'', ''xferlog_std_format''),
   (''pasv_promiscuous'', ''pasv_promiscuous''), (''deny_email_enable'', ''deny_email_enable''),
   (''chroot_list_enable'', ''chroot_list_enable''), (''setproctitle_enable'', ''setproctitle_enable''),
   (''text_userdb_names'', ''text_userdb_names''), (''ls_recurse_enable'', ''ls_recurse_enable''),
   (''log_ftp_protocol'', ''log_ftp_protocol''), (''guest_enable'', ''guest_enable''),
   (''userlist_enable'', ''userlist_enable''), (''userlist_deny'', ''userlist_deny''),
   (''use_localtime'', ''use_localtime''), (''check_shell'', ''check_shell''),
   (''hide_ids'', ''hide_ids''), (''listen'', ''listen''),
   (''port_promiscuous'', ''port_promiscuous''), (''passwd_chroot_enable'', ''passwd_chroot_enable''),
   (''no_anon_password'', ''no_anon_password''), (''tcp_wrappers'', ''tcp_wrappers''),
   (''use_sendfile'', ''use_sendfile''), (''force_dot_files'', ''force_dot_files''),
   (''listen_ipv6'', ''listen_ipv6''), (''dual_log_enable'', ''dual_log_enable''),
   (''syslog_enable'', ''syslog_enable''), (''background'', ''background''),
   (''virtual_use_local_privs'', ''virtual_use_local_privs''), (''session_support'', ''session_support''),
   (''download_enable'', ''download_enable''), (''dirlist_enable'', ''dirlist_enable''),
   (''chmod_enable'', ''chmod_enable''), (''secure_email_list_enable'', ''secure_email_list_enable''),
   (''run_as_launching_user'', ''run_as_launching_user''), (''no_log_lock'', ''no_log_lock''),
   (''ssl_enable'', ''ssl_enable''), (''allow_anon_ssl'', ''allow_anon_ssl''),
   (''force_local_logins_ssl'', ''force_local_logins_ssl''), (''force_local_data_ssl'', ''force_local_data_ssl''),
   (''ssl_sslv2'', ''sslv2''), (''ssl_sslv3'', ''sslv3''),
   (''ssl_tlsv1'', ''tlsv1''), (''tilde_user_enable'', ''tilde_user_enable''),
   (''force_anon_logins_ssl'', ''force_anon_logins_ssl''), (''force_anon_data_ssl'', ''force_anon_data_ssl''),
   (''mdtm_write'', ''mdtm_write''), (''lock_upload_files'', ''lock_upload_files''),
   (''pasv_addr_resolve'', ''pasv_addr_resolve''), (''debug_ssl'', ''debug_ssl''),
   (''require_cert'', ''require_cert''), (''validate_cert'', ''validate_cert''),
   (''strict_ssl_read_eof'', ''strict_ssl_read_eof''), (''strict_ssl_write_shutdown'', ''strict_ssl_write_shutdown''),
   (''ssl_request_cert'', ''ssl_request_cert''), (''delete_failed_uploads'', ''delete_failed_uploads''),
   (''implicit_ssl'', ''implicit_ssl''), (''ptrace_sandbox'', ''ptrace_sandbox''),
   (''require_ssl_reuse'', ''require_ssl_reuse''), (''isolate'', ''isolate''),
   (''isolate_network'', ''isolate_network''), (''ftp_enable'', ''ftp_enable''),
   (''http_enable'', ''http_enable''), (''seccomp_sandbox'', ''seccomp_sandbox''),
   (''allow_writeable_chroot'', ''allow_writeable_chroot'')]"

definition parseconf_uint_array :: "(string \<times> string) list" where
  "parseconf_uint_array = [
   (''accept_timeout'', ''accept_timeout''), (''connect_timeout'', ''connect_timeout''),
   (''local_umask'', ''local_umask''), (''anon_umask'', ''anon_umask''),
   (''ftp_data_port'', ''ftp_data_port''), (''idle_session_timeout'', ''idle_session_timeout''),
   (''data_connection_timeout'', ''data_connection_timeout''), (''pasv_min_port'', ''pasv_min_port''),
   (''pasv_max_port'', ''pasv_max_port''), (''anon_max_rate'', ''anon_max_rate''),
   (''local_max_rate'', ''local_max_rate''), (''listen_port'', ''listen_port''),
   (''max_clients'', ''max_clients''), (''file_open_mode'', ''file_open_mode''),
   (''max_per_ip'', ''max_per_ip''), (''trans_chunk_size'', ''trans_chunk_size''),
   (''delay_failed_login'', ''delay_failed_login''), (''delay_successful_login'', ''delay_successful_login''),
   (''max_login_fails'', ''max_login_fails''), (''chown_upload_mode'', ''chown_upload_mode'')]"

definition parseconf_str_array :: "(string \<times> string) list" where
  "parseconf_str_array = [
   (''secure_chroot_dir'', ''secure_chroot_dir''), (''ftp_username'', ''ftp_username''),
   (''chown_username'', ''chown_username''), (''xferlog_file'', ''xferlog_file''),
   (''vsftpd_log_file'', ''vsftpd_log_file''), (''message_file'', ''message_file''),
   (''nopriv_user'', ''nopriv_user''), (''ftpd_banner'', ''ftpd_banner''),
   (''banned_email_file'', ''banned_email_file''), (''chroot_list_file'', ''chroot_list_file''),
   (''pam_service_name'', ''pam_service_name''), (''guest_username'', ''guest_username''),
   (''userlist_file'', ''userlist_file''), (''anon_root'', ''anon_root''),
   (''local_root'', ''local_root''), (''banner_file'', ''banner_file''),
   (''pasv_address'', ''pasv_address''), (''listen_address'', ''listen_address''),
   (''user_config_dir'', ''user_config_dir''), (''listen_address6'', ''listen_address6''),
   (''cmds_allowed'', ''cmds_allowed''), (''hide_file'', ''hide_file''),
   (''deny_file'', ''deny_file''), (''upload_file'', ''upload_file''),
   (''download_file'', ''download_file''), (''user_sub_token'', ''user_sub_token''),
   (''email_password_file'', ''email_password_file''), (''rsa_cert_file'', ''rsa_cert_file''),
   (''dsa_cert_file'', ''dsa_cert_file''), (''ssl_ciphers'', ''ssl_ciphers''),
   (''rsa_private_key_file'', ''rsa_private_key_file''), (''dsa_private_key_file'', ''dsa_private_key_file''),
   (''ca_certs_file'', ''ca_certs_file''), (''cmds_denied'', ''cmds_denied'')]"

end
