(* ===== verification/System.thy ===== *)
theory System
  imports Net Tunables
begin

text \<open>
  The world the server runs in. A system call is a value; the kernel, the file system, the
  network and the other processes are an oracle that answers each call from the history of calls
  and answers so far. A run is a function on the world: the session of the process, the session
  of its privileged parent, the socket pair between the two, and the trace of calls. Memory
  exhaustion, failing socket options and asynchronous signals are not part of it.
\<close>

section \<open>System calls and their answers\<close>

datatype sys_errno = kErrUnknown | kErrADDRINUSE | kErrNOSYS | kErrINTR | kErrINVAL | kErrOPNOTSUPP
  | kErrACCES | kErrNOENT

record statbuf =
  st_mode :: u32
  st_nlink :: u32
  st_uid :: int
  st_gid :: int
  st_size :: int
  st_mtime :: int

record passwd =
  pw_name :: string
  pw_uid :: int
  pw_gid :: int
  pw_dir :: string
  pw_passwd :: string
  pw_shell :: string

datatype syscall =
    Mkdir string u32 | Rmdir string | Unlink string | Rename string string
  | Chmod string u32 | Setmodtime string int | Fchown int int int | Fchmod int u32
  | Ftruncate int | Create_exclusive string | Create_or_open string u32 | Create_append string u32
  | Open_readonly string | Chdir string | Stat string | Lstat string | Fstat int | Opendir string
  | Close int | Read_loop int u32 | Write int string
  | Bind int sockaddr | Connect int sockaddr u32 | Accept int u32
  | Getpwnam string | Fork "string list" | Reap
  | Call string "int list" "string list"

text \<open>
  \<open>Fork\<close> is fork, or clone with some flags; \<open>Reap\<close> is waitpid for any child that has ended. The calls no
  property singles out share the constructor \<open>Call\<close>.
\<close>

abbreviation Getcwd where "Getcwd \<equiv> Call ''getcwd'' [] []"
abbreviation Realpath where "Realpath p \<equiv> Call ''realpath'' [] [p]"
abbreviation Readlink where "Readlink p \<equiv> Call ''readlink'' [] [p]"
abbreviation Readdir where "Readdir d \<equiv> Call ''readdir'' [d] []"
abbreviation Closedir where "Closedir d \<equiv> Call ''closedir'' [d] []"
abbreviation Lseek_to where "Lseek_to fd n \<equiv> Call ''lseek'' [fd, n] []"
abbreviation Lseek_end where "Lseek_end fd \<equiv> Call ''lseek_end'' [fd] []"
abbreviation File_offset where "File_offset fd \<equiv> Call ''lseek_cur'' [fd] []"
abbreviation Lock_write where "Lock_write fd \<equiv> Call ''lock_write'' [fd] []"
abbreviation Lock_read where "Lock_read fd \<equiv> Call ''lock_read'' [fd] []"
abbreviation Unlock where "Unlock fd \<equiv> Call ''unlock'' [fd] []"
abbreviation Read where "Read fd n \<equiv> Call ''read'' [fd, n] []"
abbreviation Recv_peek where "Recv_peek fd n \<equiv> Call ''recv_peek'' [fd, n] []"
abbreviation Sendfile where "Sendfile out_fd fd off n chunk \<equiv> Call ''sendfile'' [out_fd, fd, off, n, chunk] []"
abbreviation Shutdown where "Shutdown fd \<equiv> Call ''shutdown'' [fd] []"
abbreviation Shutdown_read where "Shutdown_read fd \<equiv> Call ''shutdown_read'' [fd] []"
abbreviation Socket4 where "Socket4 \<equiv> Call ''socket_ipv4'' [] []"
abbreviation Socket6 where "Socket6 \<equiv> Call ''socket_ipv6'' [] []"
abbreviation Sockopt where "Sockopt opt fd \<equiv> Call ''setsockopt'' [fd] [opt]"
abbreviation Listen where "Listen fd n \<equiv> Call ''listen'' [fd, n] []"
abbreviation Getpwuid where "Getpwuid n \<equiv> Call ''getpwuid'' [n] []"
abbreviation Getgrgid where "Getgrgid n \<equiv> Call ''getgrgid'' [n] []"
abbreviation Set_umask where "Set_umask n \<equiv> Call ''umask'' [n] []"
abbreviation Set_alarm where "Set_alarm n \<equiv> Call ''alarm'' [n] []"
abbreviation Clear_alarm where "Clear_alarm \<equiv> Call ''alarm'' [0] []"
abbreviation Sleep_256ths where "Sleep_256ths n \<equiv> Call ''nanosleep'' [n] []"
abbreviation Random_byte where "Random_byte \<equiv> Call ''random_byte'' [] []"
abbreviation Time_sec where "Time_sec \<equiv> Call ''time_sec'' [] []"
abbreviation Time_usec where "Time_usec \<equiv> Call ''time_usec'' [] []"
abbreviation Current_date where "Current_date \<equiv> Call ''current_date'' [] []"
abbreviation Getpid where "Getpid \<equiv> Call ''getpid'' [] []"
abbreviation Errno where "Errno \<equiv> Call ''errno'' [] []"
abbreviation Syslog where "Syslog text severe \<equiv> Call ''syslog'' [severe] [text]"
abbreviation Set_proctitle where "Set_proctitle t \<equiv> Call ''proctitle'' [] [t]"
abbreviation Sighandler where "Sighandler sig h \<equiv> Call ''sighandler'' [] [sig, h]"
abbreviation Exit_code where "Exit_code n \<equiv> Call ''exit'' [n] []"
abbreviation Ssl_slave where "Ssl_slave cmd payload \<equiv> Call ''ssl_slave'' [cmd] [payload]"

text \<open>
  An answer is one value; a call that expects another kind of value sees a failure. \<open>RFd\<close> is an
  accepted connection with its peer.
\<close>

datatype sysret = RInt int | RStr "string option" | RStat "statbuf option" | RFd int sockaddr
  | RUser "passwd option" | RErr sys_errno

type_synonym event = "syscall \<times> sysret"

definition ret_int :: "sysret \<Rightarrow> int" where
  "ret_int r = (case r of RInt n \<Rightarrow> n | RFd n _ \<Rightarrow> n | _ \<Rightarrow> -1)"

definition ret_str :: "sysret \<Rightarrow> string option" where
  "ret_str r = (case r of RStr s \<Rightarrow> s | _ \<Rightarrow> None)"

definition ret_stat :: "sysret \<Rightarrow> statbuf option" where
  "ret_stat r = (case r of RStat s \<Rightarrow> s | _ \<Rightarrow> None)"

definition ret_user :: "sysret \<Rightarrow> passwd option" where
  "ret_user r = (case r of RUser u \<Rightarrow> u | _ \<Rightarrow> None)"

definition ret_err :: "sysret \<Rightarrow> sys_errno" where
  "ret_err r = (case r of RErr e \<Rightarrow> e | _ \<Rightarrow> kErrUnknown)"

definition ret_peer :: "sysret \<Rightarrow> sockaddr" where
  "ret_peer r = (case r of RFd _ a \<Rightarrow> a | _ \<Rightarrow> Sa_unspec)"

text \<open>
  The environment of a run: the oracle, the configuration in force, and the two texts libc prints
  that are not written out here, the transfer rate of the log (a double, by its operands: bytes,
  seconds, microseconds) and inet_ntop for IPv6. \<open>fuel\<close> bounds the rounds of each loop whose
  length the peer or the file system decides.
\<close>

record env =
  os :: "event list \<Rightarrow> syscall \<Rightarrow> sysret"
  tun :: tunables
  kbyte_rate_text :: "int \<Rightarrow> int \<Rightarrow> int \<Rightarrow> string"
  inet6_text :: "string \<Rightarrow> string"
  fuel :: nat

section \<open>The tunables by their C names\<close>

abbreviation tunable_anonymous_enable :: "env \<Rightarrow> bool" where
  "tunable_anonymous_enable E \<equiv> bools (tun E) ''anonymous_enable''"
abbreviation tunable_local_enable :: "env \<Rightarrow> bool" where
  "tunable_local_enable E \<equiv> bools (tun E) ''local_enable''"
abbreviation tunable_utf8_filesystem :: "env \<Rightarrow> bool" where
  "tunable_utf8_filesystem E \<equiv> bools (tun E) ''utf8_filesystem''"
abbreviation tunable_pasv_enable :: "env \<Rightarrow> bool" where
  "tunable_pasv_enable E \<equiv> bools (tun E) ''pasv_enable''"
abbreviation tunable_port_enable :: "env \<Rightarrow> bool" where
  "tunable_port_enable E \<equiv> bools (tun E) ''port_enable''"
abbreviation tunable_chroot_local_user :: "env \<Rightarrow> bool" where
  "tunable_chroot_local_user E \<equiv> bools (tun E) ''chroot_local_user''"
abbreviation tunable_write_enable :: "env \<Rightarrow> bool" where
  "tunable_write_enable E \<equiv> bools (tun E) ''write_enable''"
abbreviation tunable_anon_upload_enable :: "env \<Rightarrow> bool" where
  "tunable_anon_upload_enable E \<equiv> bools (tun E) ''anon_upload_enable''"
abbreviation tunable_anon_mkdir_write_enable :: "env \<Rightarrow> bool" where
  "tunable_anon_mkdir_write_enable E \<equiv> bools (tun E) ''anon_mkdir_write_enable''"
abbreviation tunable_anon_other_write_enable :: "env \<Rightarrow> bool" where
  "tunable_anon_other_write_enable E \<equiv> bools (tun E) ''anon_other_write_enable''"
abbreviation tunable_chown_uploads :: "env \<Rightarrow> bool" where
  "tunable_chown_uploads E \<equiv> bools (tun E) ''chown_uploads''"
abbreviation tunable_connect_from_port_20 :: "env \<Rightarrow> bool" where
  "tunable_connect_from_port_20 E \<equiv> bools (tun E) ''connect_from_port_20''"
abbreviation tunable_xferlog_enable :: "env \<Rightarrow> bool" where
  "tunable_xferlog_enable E \<equiv> bools (tun E) ''xferlog_enable''"
abbreviation tunable_dirmessage_enable :: "env \<Rightarrow> bool" where
  "tunable_dirmessage_enable E \<equiv> bools (tun E) ''dirmessage_enable''"
abbreviation tunable_anon_world_readable_only :: "env \<Rightarrow> bool" where
  "tunable_anon_world_readable_only E \<equiv> bools (tun E) ''anon_world_readable_only''"
abbreviation tunable_async_abor_enable :: "env \<Rightarrow> bool" where
  "tunable_async_abor_enable E \<equiv> bools (tun E) ''async_abor_enable''"
abbreviation tunable_ascii_upload_enable :: "env \<Rightarrow> bool" where
  "tunable_ascii_upload_enable E \<equiv> bools (tun E) ''ascii_upload_enable''"
abbreviation tunable_ascii_download_enable :: "env \<Rightarrow> bool" where
  "tunable_ascii_download_enable E \<equiv> bools (tun E) ''ascii_download_enable''"
abbreviation tunable_one_process_model :: "env \<Rightarrow> bool" where
  "tunable_one_process_model E \<equiv> bools (tun E) ''one_process_model''"
abbreviation tunable_xferlog_std_format :: "env \<Rightarrow> bool" where
  "tunable_xferlog_std_format E \<equiv> bools (tun E) ''xferlog_std_format''"
abbreviation tunable_pasv_promiscuous :: "env \<Rightarrow> bool" where
  "tunable_pasv_promiscuous E \<equiv> bools (tun E) ''pasv_promiscuous''"
abbreviation tunable_deny_email_enable :: "env \<Rightarrow> bool" where
  "tunable_deny_email_enable E \<equiv> bools (tun E) ''deny_email_enable''"
abbreviation tunable_chroot_list_enable :: "env \<Rightarrow> bool" where
  "tunable_chroot_list_enable E \<equiv> bools (tun E) ''chroot_list_enable''"
abbreviation tunable_setproctitle_enable :: "env \<Rightarrow> bool" where
  "tunable_setproctitle_enable E \<equiv> bools (tun E) ''setproctitle_enable''"
abbreviation tunable_text_userdb_names :: "env \<Rightarrow> bool" where
  "tunable_text_userdb_names E \<equiv> bools (tun E) ''text_userdb_names''"
abbreviation tunable_ls_recurse_enable :: "env \<Rightarrow> bool" where
  "tunable_ls_recurse_enable E \<equiv> bools (tun E) ''ls_recurse_enable''"
abbreviation tunable_log_ftp_protocol :: "env \<Rightarrow> bool" where
  "tunable_log_ftp_protocol E \<equiv> bools (tun E) ''log_ftp_protocol''"
abbreviation tunable_guest_enable :: "env \<Rightarrow> bool" where
  "tunable_guest_enable E \<equiv> bools (tun E) ''guest_enable''"
abbreviation tunable_userlist_enable :: "env \<Rightarrow> bool" where
  "tunable_userlist_enable E \<equiv> bools (tun E) ''userlist_enable''"
abbreviation tunable_userlist_deny :: "env \<Rightarrow> bool" where
  "tunable_userlist_deny E \<equiv> bools (tun E) ''userlist_deny''"
abbreviation tunable_use_localtime :: "env \<Rightarrow> bool" where
  "tunable_use_localtime E \<equiv> bools (tun E) ''use_localtime''"
abbreviation tunable_check_shell :: "env \<Rightarrow> bool" where
  "tunable_check_shell E \<equiv> bools (tun E) ''check_shell''"
abbreviation tunable_hide_ids :: "env \<Rightarrow> bool" where
  "tunable_hide_ids E \<equiv> bools (tun E) ''hide_ids''"
abbreviation tunable_listen :: "env \<Rightarrow> bool" where
  "tunable_listen E \<equiv> bools (tun E) ''listen''"
abbreviation tunable_port_promiscuous :: "env \<Rightarrow> bool" where
  "tunable_port_promiscuous E \<equiv> bools (tun E) ''port_promiscuous''"
abbreviation tunable_passwd_chroot_enable :: "env \<Rightarrow> bool" where
  "tunable_passwd_chroot_enable E \<equiv> bools (tun E) ''passwd_chroot_enable''"
abbreviation tunable_no_anon_password :: "env \<Rightarrow> bool" where
  "tunable_no_anon_password E \<equiv> bools (tun E) ''no_anon_password''"
abbreviation tunable_tcp_wrappers :: "env \<Rightarrow> bool" where
  "tunable_tcp_wrappers E \<equiv> bools (tun E) ''tcp_wrappers''"
abbreviation tunable_use_sendfile :: "env \<Rightarrow> bool" where
  "tunable_use_sendfile E \<equiv> bools (tun E) ''use_sendfile''"
abbreviation tunable_force_dot_files :: "env \<Rightarrow> bool" where
  "tunable_force_dot_files E \<equiv> bools (tun E) ''force_dot_files''"
abbreviation tunable_listen_ipv6 :: "env \<Rightarrow> bool" where
  "tunable_listen_ipv6 E \<equiv> bools (tun E) ''listen_ipv6''"
abbreviation tunable_dual_log_enable :: "env \<Rightarrow> bool" where
  "tunable_dual_log_enable E \<equiv> bools (tun E) ''dual_log_enable''"
abbreviation tunable_syslog_enable :: "env \<Rightarrow> bool" where
  "tunable_syslog_enable E \<equiv> bools (tun E) ''syslog_enable''"
abbreviation tunable_background :: "env \<Rightarrow> bool" where
  "tunable_background E \<equiv> bools (tun E) ''background''"
abbreviation tunable_virtual_use_local_privs :: "env \<Rightarrow> bool" where
  "tunable_virtual_use_local_privs E \<equiv> bools (tun E) ''virtual_use_local_privs''"
abbreviation tunable_session_support :: "env \<Rightarrow> bool" where
  "tunable_session_support E \<equiv> bools (tun E) ''session_support''"
abbreviation tunable_download_enable :: "env \<Rightarrow> bool" where
  "tunable_download_enable E \<equiv> bools (tun E) ''download_enable''"
abbreviation tunable_dirlist_enable :: "env \<Rightarrow> bool" where
  "tunable_dirlist_enable E \<equiv> bools (tun E) ''dirlist_enable''"
abbreviation tunable_chmod_enable :: "env \<Rightarrow> bool" where
  "tunable_chmod_enable E \<equiv> bools (tun E) ''chmod_enable''"
abbreviation tunable_secure_email_list_enable :: "env \<Rightarrow> bool" where
  "tunable_secure_email_list_enable E \<equiv> bools (tun E) ''secure_email_list_enable''"
abbreviation tunable_run_as_launching_user :: "env \<Rightarrow> bool" where
  "tunable_run_as_launching_user E \<equiv> bools (tun E) ''run_as_launching_user''"
abbreviation tunable_no_log_lock :: "env \<Rightarrow> bool" where
  "tunable_no_log_lock E \<equiv> bools (tun E) ''no_log_lock''"
abbreviation tunable_ssl_enable :: "env \<Rightarrow> bool" where
  "tunable_ssl_enable E \<equiv> bools (tun E) ''ssl_enable''"
abbreviation tunable_allow_anon_ssl :: "env \<Rightarrow> bool" where
  "tunable_allow_anon_ssl E \<equiv> bools (tun E) ''allow_anon_ssl''"
abbreviation tunable_force_local_logins_ssl :: "env \<Rightarrow> bool" where
  "tunable_force_local_logins_ssl E \<equiv> bools (tun E) ''force_local_logins_ssl''"
abbreviation tunable_force_local_data_ssl :: "env \<Rightarrow> bool" where
  "tunable_force_local_data_ssl E \<equiv> bools (tun E) ''force_local_data_ssl''"
abbreviation tunable_sslv2 :: "env \<Rightarrow> bool" where
  "tunable_sslv2 E \<equiv> bools (tun E) ''sslv2''"
abbreviation tunable_sslv3 :: "env \<Rightarrow> bool" where
  "tunable_sslv3 E \<equiv> bools (tun E) ''sslv3''"
abbreviation tunable_tlsv1 :: "env \<Rightarrow> bool" where
  "tunable_tlsv1 E \<equiv> bools (tun E) ''tlsv1''"
abbreviation tunable_tilde_user_enable :: "env \<Rightarrow> bool" where
  "tunable_tilde_user_enable E \<equiv> bools (tun E) ''tilde_user_enable''"
abbreviation tunable_force_anon_logins_ssl :: "env \<Rightarrow> bool" where
  "tunable_force_anon_logins_ssl E \<equiv> bools (tun E) ''force_anon_logins_ssl''"
abbreviation tunable_force_anon_data_ssl :: "env \<Rightarrow> bool" where
  "tunable_force_anon_data_ssl E \<equiv> bools (tun E) ''force_anon_data_ssl''"
abbreviation tunable_mdtm_write :: "env \<Rightarrow> bool" where
  "tunable_mdtm_write E \<equiv> bools (tun E) ''mdtm_write''"
abbreviation tunable_lock_upload_files :: "env \<Rightarrow> bool" where
  "tunable_lock_upload_files E \<equiv> bools (tun E) ''lock_upload_files''"
abbreviation tunable_pasv_addr_resolve :: "env \<Rightarrow> bool" where
  "tunable_pasv_addr_resolve E \<equiv> bools (tun E) ''pasv_addr_resolve''"
abbreviation tunable_debug_ssl :: "env \<Rightarrow> bool" where
  "tunable_debug_ssl E \<equiv> bools (tun E) ''debug_ssl''"
abbreviation tunable_require_cert :: "env \<Rightarrow> bool" where
  "tunable_require_cert E \<equiv> bools (tun E) ''require_cert''"
abbreviation tunable_validate_cert :: "env \<Rightarrow> bool" where
  "tunable_validate_cert E \<equiv> bools (tun E) ''validate_cert''"
abbreviation tunable_strict_ssl_read_eof :: "env \<Rightarrow> bool" where
  "tunable_strict_ssl_read_eof E \<equiv> bools (tun E) ''strict_ssl_read_eof''"
abbreviation tunable_strict_ssl_write_shutdown :: "env \<Rightarrow> bool" where
  "tunable_strict_ssl_write_shutdown E \<equiv> bools (tun E) ''strict_ssl_write_shutdown''"
abbreviation tunable_ssl_request_cert :: "env \<Rightarrow> bool" where
  "tunable_ssl_request_cert E \<equiv> bools (tun E) ''ssl_request_cert''"
abbreviation tunable_delete_failed_uploads :: "env \<Rightarrow> bool" where
  "tunable_delete_failed_uploads E \<equiv> bools (tun E) ''delete_failed_uploads''"
abbreviation tunable_implicit_ssl :: "env \<Rightarrow> bool" where
  "tunable_implicit_ssl E \<equiv> bools (tun E) ''implicit_ssl''"
abbreviation tunable_ptrace_sandbox :: "env \<Rightarrow> bool" where
  "tunable_ptrace_sandbox E \<equiv> bools (tun E) ''ptrace_sandbox''"
abbreviation tunable_require_ssl_reuse :: "env \<Rightarrow> bool" where
  "tunable_require_ssl_reuse E \<equiv> bools (tun E) ''require_ssl_reuse''"
abbreviation tunable_isolate :: "env \<Rightarrow> bool" where
  "tunable_isolate E \<equiv> bools (tun E) ''isolate''"
abbreviation tunable_isolate_network :: "env \<Rightarrow> bool" where
  "tunable_isolate_network E \<equiv> bools (tun E) ''isolate_network''"
abbreviation tunable_ftp_enable :: "env \<Rightarrow> bool" where
  "tunable_ftp_enable E \<equiv> bools (tun E) ''ftp_enable''"
abbreviation tunable_http_enable :: "env \<Rightarrow> bool" where
  "tunable_http_enable E \<equiv> bools (tun E) ''http_enable''"
abbreviation tunable_seccomp_sandbox :: "env \<Rightarrow> bool" where
  "tunable_seccomp_sandbox E \<equiv> bools (tun E) ''seccomp_sandbox''"
abbreviation tunable_allow_writeable_chroot :: "env \<Rightarrow> bool" where
  "tunable_allow_writeable_chroot E \<equiv> bools (tun E) ''allow_writeable_chroot''"
abbreviation tunable_accept_timeout :: "env \<Rightarrow> u32" where
  "tunable_accept_timeout E \<equiv> uints (tun E) ''accept_timeout''"
abbreviation tunable_connect_timeout :: "env \<Rightarrow> u32" where
  "tunable_connect_timeout E \<equiv> uints (tun E) ''connect_timeout''"
abbreviation tunable_local_umask :: "env \<Rightarrow> u32" where
  "tunable_local_umask E \<equiv> uints (tun E) ''local_umask''"
abbreviation tunable_anon_umask :: "env \<Rightarrow> u32" where
  "tunable_anon_umask E \<equiv> uints (tun E) ''anon_umask''"
abbreviation tunable_ftp_data_port :: "env \<Rightarrow> u32" where
  "tunable_ftp_data_port E \<equiv> uints (tun E) ''ftp_data_port''"
abbreviation tunable_idle_session_timeout :: "env \<Rightarrow> u32" where
  "tunable_idle_session_timeout E \<equiv> uints (tun E) ''idle_session_timeout''"
abbreviation tunable_data_connection_timeout :: "env \<Rightarrow> u32" where
  "tunable_data_connection_timeout E \<equiv> uints (tun E) ''data_connection_timeout''"
abbreviation tunable_pasv_min_port :: "env \<Rightarrow> u32" where
  "tunable_pasv_min_port E \<equiv> uints (tun E) ''pasv_min_port''"
abbreviation tunable_pasv_max_port :: "env \<Rightarrow> u32" where
  "tunable_pasv_max_port E \<equiv> uints (tun E) ''pasv_max_port''"
abbreviation tunable_anon_max_rate :: "env \<Rightarrow> u32" where
  "tunable_anon_max_rate E \<equiv> uints (tun E) ''anon_max_rate''"
abbreviation tunable_local_max_rate :: "env \<Rightarrow> u32" where
  "tunable_local_max_rate E \<equiv> uints (tun E) ''local_max_rate''"
abbreviation tunable_listen_port :: "env \<Rightarrow> u32" where
  "tunable_listen_port E \<equiv> uints (tun E) ''listen_port''"
abbreviation tunable_max_clients :: "env \<Rightarrow> u32" where
  "tunable_max_clients E \<equiv> uints (tun E) ''max_clients''"
abbreviation tunable_file_open_mode :: "env \<Rightarrow> u32" where
  "tunable_file_open_mode E \<equiv> uints (tun E) ''file_open_mode''"
abbreviation tunable_max_per_ip :: "env \<Rightarrow> u32" where
  "tunable_max_per_ip E \<equiv> uints (tun E) ''max_per_ip''"
abbreviation tunable_trans_chunk_size :: "env \<Rightarrow> u32" where
  "tunable_trans_chunk_size E \<equiv> uints (tun E) ''trans_chunk_size''"
abbreviation tunable_delay_failed_login :: "env \<Rightarrow> u32" where
  "tunable_delay_failed_login E \<equiv> uints (tun E) ''delay_failed_login''"
abbreviation tunable_delay_successful_login :: "env \<Rightarrow> u32" where
  "tunable_delay_successful_login E \<equiv> uints (tun E) ''delay_successful_login''"
abbreviation tunable_max_login_fails :: "env \<Rightarrow> u32" where
  "tunable_max_login_fails E \<equiv> uints (tun E) ''max_login_fails''"
abbreviation tunable_chown_upload_mode :: "env \<Rightarrow> u32" where
  "tunable_chown_upload_mode E \<equiv> uints (tun E) ''chown_upload_mode''"
abbreviation tunable_secure_chroot_dir :: "env \<Rightarrow> string option" where
  "tunable_secure_chroot_dir E \<equiv> strs (tun E) ''secure_chroot_dir''"
abbreviation tunable_ftp_username :: "env \<Rightarrow> string option" where
  "tunable_ftp_username E \<equiv> strs (tun E) ''ftp_username''"
abbreviation tunable_chown_username :: "env \<Rightarrow> string option" where
  "tunable_chown_username E \<equiv> strs (tun E) ''chown_username''"
abbreviation tunable_xferlog_file :: "env \<Rightarrow> string option" where
  "tunable_xferlog_file E \<equiv> strs (tun E) ''xferlog_file''"
abbreviation tunable_vsftpd_log_file :: "env \<Rightarrow> string option" where
  "tunable_vsftpd_log_file E \<equiv> strs (tun E) ''vsftpd_log_file''"
abbreviation tunable_message_file :: "env \<Rightarrow> string option" where
  "tunable_message_file E \<equiv> strs (tun E) ''message_file''"
abbreviation tunable_nopriv_user :: "env \<Rightarrow> string option" where
  "tunable_nopriv_user E \<equiv> strs (tun E) ''nopriv_user''"
abbreviation tunable_ftpd_banner :: "env \<Rightarrow> string option" where
  "tunable_ftpd_banner E \<equiv> strs (tun E) ''ftpd_banner''"
abbreviation tunable_banned_email_file :: "env \<Rightarrow> string option" where
  "tunable_banned_email_file E \<equiv> strs (tun E) ''banned_email_file''"
abbreviation tunable_chroot_list_file :: "env \<Rightarrow> string option" where
  "tunable_chroot_list_file E \<equiv> strs (tun E) ''chroot_list_file''"
abbreviation tunable_pam_service_name :: "env \<Rightarrow> string option" where
  "tunable_pam_service_name E \<equiv> strs (tun E) ''pam_service_name''"
abbreviation tunable_guest_username :: "env \<Rightarrow> string option" where
  "tunable_guest_username E \<equiv> strs (tun E) ''guest_username''"
abbreviation tunable_userlist_file :: "env \<Rightarrow> string option" where
  "tunable_userlist_file E \<equiv> strs (tun E) ''userlist_file''"
abbreviation tunable_anon_root :: "env \<Rightarrow> string option" where
  "tunable_anon_root E \<equiv> strs (tun E) ''anon_root''"
abbreviation tunable_local_root :: "env \<Rightarrow> string option" where
  "tunable_local_root E \<equiv> strs (tun E) ''local_root''"
abbreviation tunable_banner_file :: "env \<Rightarrow> string option" where
  "tunable_banner_file E \<equiv> strs (tun E) ''banner_file''"
abbreviation tunable_pasv_address :: "env \<Rightarrow> string option" where
  "tunable_pasv_address E \<equiv> strs (tun E) ''pasv_address''"
abbreviation tunable_listen_address :: "env \<Rightarrow> string option" where
  "tunable_listen_address E \<equiv> strs (tun E) ''listen_address''"
abbreviation tunable_user_config_dir :: "env \<Rightarrow> string option" where
  "tunable_user_config_dir E \<equiv> strs (tun E) ''user_config_dir''"
abbreviation tunable_listen_address6 :: "env \<Rightarrow> string option" where
  "tunable_listen_address6 E \<equiv> strs (tun E) ''listen_address6''"
abbreviation tunable_cmds_allowed :: "env \<Rightarrow> string option" where
  "tunable_cmds_allowed E \<equiv> strs (tun E) ''cmds_allowed''"
abbreviation tunable_cmds_denied :: "env \<Rightarrow> string option" where
  "tunable_cmds_denied E \<equiv> strs (tun E) ''cmds_denied''"
abbreviation tunable_hide_file :: "env \<Rightarrow> string option" where
  "tunable_hide_file E \<equiv> strs (tun E) ''hide_file''"
abbreviation tunable_deny_file :: "env \<Rightarrow> string option" where
  "tunable_deny_file E \<equiv> strs (tun E) ''deny_file''"
abbreviation tunable_upload_file :: "env \<Rightarrow> string option" where
  "tunable_upload_file E \<equiv> strs (tun E) ''upload_file''"
abbreviation tunable_download_file :: "env \<Rightarrow> string option" where
  "tunable_download_file E \<equiv> strs (tun E) ''download_file''"
abbreviation tunable_user_sub_token :: "env \<Rightarrow> string option" where
  "tunable_user_sub_token E \<equiv> strs (tun E) ''user_sub_token''"
abbreviation tunable_email_password_file :: "env \<Rightarrow> string option" where
  "tunable_email_password_file E \<equiv> strs (tun E) ''email_password_file''"
abbreviation tunable_rsa_cert_file :: "env \<Rightarrow> string option" where
  "tunable_rsa_cert_file E \<equiv> strs (tun E) ''rsa_cert_file''"
abbreviation tunable_dsa_cert_file :: "env \<Rightarrow> string option" where
  "tunable_dsa_cert_file E \<equiv> strs (tun E) ''dsa_cert_file''"
abbreviation tunable_ssl_ciphers :: "env \<Rightarrow> string option" where
  "tunable_ssl_ciphers E \<equiv> strs (tun E) ''ssl_ciphers''"
abbreviation tunable_rsa_private_key_file :: "env \<Rightarrow> string option" where
  "tunable_rsa_private_key_file E \<equiv> strs (tun E) ''rsa_private_key_file''"
abbreviation tunable_dsa_private_key_file :: "env \<Rightarrow> string option" where
  "tunable_dsa_private_key_file E \<equiv> strs (tun E) ''dsa_private_key_file''"
abbreviation tunable_ca_certs_file :: "env \<Rightarrow> string option" where
  "tunable_ca_certs_file E \<equiv> strs (tun E) ''ca_certs_file''"

end

