(* ===== verification/Session.thy ===== *)
theory Session
  imports System
begin

text \<open>
  The session (struct vsf_session of src/session.h) and the programs that run on it: sequencing
  with early exit, system calls, the aborts of src/utility.c, and the two judgements the
  component proofs are written in. \<open>triple P m Q R\<close> says that from a world satisfying \<open>P\<close> the run
  ends in \<open>Q\<close>, or stops the process in a world satisfying \<open>R\<close>; \<open>keeps I m\<close> that it keeps \<open>I\<close>.
\<close>

section \<open>The session\<close>

text \<open>
  The C strings are lists of characters here (Str_Refine relates them to their buffers). The last
  fields are not of the struct but static variables of the process: whether it has found clone to make
  name spaces (-1 while it does not know, src/sysdeputil.c), the configuration file it loaded last
  (src/parseconf.c), and the umask and the offset of local time (src/sysutil.c).
\<close>

record vsf_session =
  p_local_addr :: sockaddr
  p_remote_addr :: sockaddr
  idle_timeout :: bool
  data_timeout :: bool
  pasv_listen_fd :: int
  p_port_sockaddr :: "sockaddr option"
  data_fd :: int
  data_progress :: bool
  bw_rate_max :: u32
  bw_send_start_sec :: int
  bw_send_start_usec :: int
  is_anonymous :: bool
  is_guest :: bool
  user_str :: string
  anon_pass_str :: string
  restart_pos :: int
  is_ascii :: bool
  rnfr_filename_str :: string
  abor_received :: bool
  epsv_all :: bool
  is_http :: bool
  http_get_arg :: string
  p_visited_dir_list :: "string list"
  anon_ftp_uid :: int
  guest_user_uid :: int
  anon_upload_chown_uid :: int
  banned_email_str :: string
  email_passwords_str :: string
  userlist_str :: string
  banner_str :: string
  tcp_wrapper_ok :: bool
  xferlog_fd :: int
  vsftpd_log_fd :: int
  remote_ip_str :: string
  log_type :: nat
  log_start_sec :: int
  log_start_usec :: int
  log_str :: string
  transfer_size :: int
  ftp_cmd_str :: string
  ftp_arg_str :: string
  num_clients :: u32
  num_this_ip :: u32
  home_str :: string
  control_use_ssl :: bool
  data_use_ssl :: bool
  ssl_slave_active :: bool
  login_fails :: u32
  parent_fd :: int
  child_fd :: int
  newnet_cloneflags_work :: int
  isolate_all_cloneflags_work :: int
  isolate_cloneflags_work :: int
  s_p_saved_filename :: "string option"
  s_current_umask :: u32
  s_timezone :: int

section \<open>The world\<close>

datatype item = Byte char | Fd int

record world =
  sess :: vsf_session
  psess :: vsf_session
  c2p :: "item list"
  p2c :: "item list"
  trace :: "event list"

text \<open>
  How a run stops: an exit status, a violated bounds check (which aborts), or a loop that is still
  going on when its fuel is spent.
\<close>

datatype halt = Exited int | Trapped string | Unfinished

datatype ('a, 'w) outcome = Done 'a 'w | Halt halt 'w

type_synonym 'a proc = "world \<Rightarrow> ('a, world) outcome"

definition return :: "'a \<Rightarrow> 'a proc" where
  "return x w = Done x w"

definition bind :: "'a proc \<Rightarrow> ('a \<Rightarrow> 'b proc) \<Rightarrow> 'b proc" where
  "bind m f w = (case m w of Done x w' \<Rightarrow> f x w' | Halt h w' \<Rightarrow> Halt h w')"

definition seq :: "unit proc \<Rightarrow> 'a proc \<Rightarrow> 'a proc" where
  "seq m n = bind m (\<lambda>_. n)"

text \<open>A block of statements.\<close>

fun block :: "unit proc list \<Rightarrow> unit proc" where
  "block [] = return ()"
| "block (m # ms) = seq m (block ms)"

definition whenp :: "bool \<Rightarrow> unit proc \<Rightarrow> unit proc" where
  "whenp b m = (if b then m else return ())"

definition get :: "vsf_session proc" where
  "get w = Done (sess w) w"

definition upd :: "(vsf_session \<Rightarrow> vsf_session) \<Rightarrow> unit proc" where
  "upd f w = Done () (w\<lparr>sess := f (sess w)\<rparr>)"

definition sys :: "env \<Rightarrow> syscall \<Rightarrow> sysret proc" where
  "sys E c w = (let r = os E (trace w) c in Done r (w\<lparr>trace := (c, r) # trace w\<rparr>))"

definition sys_int :: "env \<Rightarrow> syscall \<Rightarrow> int proc" where
  "sys_int E c = bind (sys E c) (\<lambda>r. return (ret_int r))"

definition sys_str :: "env \<Rightarrow> syscall \<Rightarrow> string option proc" where
  "sys_str E c = bind (sys E c) (\<lambda>r. return (ret_str r))"

definition sys_stat :: "env \<Rightarrow> syscall \<Rightarrow> statbuf option proc" where
  "sys_stat E c = bind (sys E c) (\<lambda>r. return (ret_stat r))"

definition sysu :: "env \<Rightarrow> syscall \<Rightarrow> unit proc" where
  "sysu E c = bind (sys E c) (\<lambda>_. return ())"

definition halt :: "halt \<Rightarrow> 'a proc" where
  "halt h w = Halt h w"

section \<open>Stopping the process\<close>

definition VSFTP_COMMAND_FD :: int where "VSFTP_COMMAND_FD = 0"

definition vsf_sysutil_exit :: "env \<Rightarrow> int \<Rightarrow> 'a proc" where
  "vsf_sysutil_exit E n = halt (Exited n)"

definition bug :: "env \<Rightarrow> string \<Rightarrow> 'a proc" where
  "bug E p_text = seq (block [
     sysu E (Sockopt ''nonblock'' VSFTP_COMMAND_FD),
     sysu E (Write VSFTP_COMMAND_FD ''500 OOPS: ''),
     sysu E (Write VSFTP_COMMAND_FD (c_text p_text)),
     sysu E (Write VSFTP_COMMAND_FD [CR, LF])])
     (vsf_sysutil_exit E 2)"

text \<open>DIE_DEBUG is always defined, so \<open>die\<close> ends in \<open>bug\<close>.\<close>

definition die :: "env \<Rightarrow> string \<Rightarrow> 'a proc" where
  "die E p_text = bug E p_text"

definition die2 :: "env \<Rightarrow> string \<Rightarrow> string option \<Rightarrow> 'a proc" where
  "die2 E p_text1 p_text2 =
     die E (p_text1 @ (case p_text2 of Some t \<Rightarrow> c_text t | None \<Rightarrow> ''(null)''))"

definition vsf_exit :: "env \<Rightarrow> string \<Rightarrow> 'a proc" where
  "vsf_exit E p_text = seq (sysu E (Write VSFTP_COMMAND_FD p_text)) (vsf_sysutil_exit E 0)"

text \<open>Pure code inside a run.\<close>

definition lift_res :: "env \<Rightarrow> 'a res \<Rightarrow> 'a proc" where
  "lift_res E m = (case m of Inr x \<Rightarrow> return x
     | Inl (Bug t) \<Rightarrow> bug E t | Inl (Die t) \<Rightarrow> die E t | Inl (Trap t) \<Rightarrow> halt (Trapped t))"

section \<open>Judgements\<close>

definition triple :: "(world \<Rightarrow> bool) \<Rightarrow> 'a proc \<Rightarrow> ('a \<Rightarrow> world \<Rightarrow> bool) \<Rightarrow> (world \<Rightarrow> bool) \<Rightarrow> bool" where
  "triple P m Q R \<longleftrightarrow> (\<forall>w. P w \<longrightarrow> (case m w of Done x w' \<Rightarrow> Q x w' | Halt _ w' \<Rightarrow> R w'))"

definition keeps :: "(world \<Rightarrow> bool) \<Rightarrow> 'a proc \<Rightarrow> bool" where
  "keeps I m \<longleftrightarrow> triple I m (\<lambda>_. I) I"

lemma tripleI: "(\<And>w. P w \<Longrightarrow> case m w of Done x w' \<Rightarrow> Q x w' | Halt _ w' \<Rightarrow> R w') \<Longrightarrow> triple P m Q R"
  by (simp add: triple_def)

lemma tripleD: "triple P m Q R \<Longrightarrow> P w \<Longrightarrow> case m w of Done x w' \<Rightarrow> Q x w' | Halt _ w' \<Rightarrow> R w'"
  by (simp add: triple_def)

lemma triple_weaken:
  "triple P m Q R \<Longrightarrow> (\<And>w. P' w \<Longrightarrow> P w) \<Longrightarrow> (\<And>x w. Q x w \<Longrightarrow> Q' x w) \<Longrightarrow> (\<And>w. R w \<Longrightarrow> R' w) \<Longrightarrow>
     triple P' m Q' R'"
  by (fastforce simp: triple_def split: outcome.splits)

lemma triple_bind:
  assumes "triple P m Q R" "\<And>x. triple (Q x) (f x) S R"
  shows "triple P (bind m f) S R"
  using assms by (fastforce simp: triple_def bind_def split: outcome.splits)

lemma triple_bind_keeps:
  assumes "keeps I m" "\<And>x. triple I (f x) S I"
  shows "triple I (bind m f) S I"
  using assms unfolding keeps_def by (rule triple_bind)

lemma triple_return: "(\<And>w. P w \<Longrightarrow> Q x w) \<Longrightarrow> triple P (return x) Q R"
  by (simp add: triple_def return_def)

lemma triple_get: "(\<And>w. P w \<Longrightarrow> triple P (f (sess w)) S R) \<Longrightarrow> triple P (bind get f) S R"
  by (auto simp: triple_def bind_def get_def)

lemma triple_get_at:
  "(\<And>s. triple (\<lambda>w. P w \<and> sess w = s) (f s) S R) \<Longrightarrow> triple P (bind get f) S R"
  by (auto simp: triple_def bind_def get_def)

lemma triple_upd: "(\<And>w. P w \<Longrightarrow> Q () (w\<lparr>sess := f (sess w)\<rparr>)) \<Longrightarrow> triple P (upd f) Q R"
  by (simp add: triple_def upd_def)

lemma triple_sys:
  "(\<And>w r. P w \<Longrightarrow> Q r (w\<lparr>trace := (c, r) # trace w\<rparr>)) \<Longrightarrow> triple P (sys E c) Q R"
  by (simp add: triple_def sys_def Let_def)

lemma triple_sys_ops:
  "(\<And>w r. P w \<Longrightarrow> Q (ret_int r) (w\<lparr>trace := (c, r) # trace w\<rparr>)) \<Longrightarrow> triple P (sys_int E c) Q R"
  "(\<And>w r. P w \<Longrightarrow> Q' (ret_str r) (w\<lparr>trace := (c, r) # trace w\<rparr>)) \<Longrightarrow> triple P (sys_str E c) Q' R"
  "(\<And>w r. P w \<Longrightarrow> Q'' (ret_stat r) (w\<lparr>trace := (c, r) # trace w\<rparr>)) \<Longrightarrow> triple P (sys_stat E c) Q'' R"
  "(\<And>w r. P w \<Longrightarrow> T () (w\<lparr>trace := (c, r) # trace w\<rparr>)) \<Longrightarrow> triple P (sysu E c) T R"
  by (simp_all add: triple_def sys_int_def sys_str_def sys_stat_def sysu_def bind_def sys_def Let_def return_def)

lemma triple_halt: "(\<And>w. P w \<Longrightarrow> R w) \<Longrightarrow> triple P (halt h) Q R"
  by (simp add: triple_def halt_def)

lemma triple_if: "(b \<Longrightarrow> triple P m Q R) \<Longrightarrow> (\<not> b \<Longrightarrow> triple P n Q R) \<Longrightarrow> triple P (if b then m else n) Q R"
  by simp

section \<open>Keeping an invariant\<close>

lemma keeps_bind [safes]: "keeps I m \<Longrightarrow> (\<And>x. keeps I (f x)) \<Longrightarrow> keeps I (bind m f)"
  unfolding keeps_def by (rule triple_bind)

lemma keeps_seq [safes]: "keeps I m \<Longrightarrow> keeps I n \<Longrightarrow> keeps I (seq m n)"
  unfolding seq_def by (rule keeps_bind)

lemma keeps_return [safes]: "keeps I (return x)"
  by (simp add: keeps_def triple_return)

lemma keeps_halt [safes]: "keeps I (halt h)"
  by (simp add: keeps_def triple_halt)

lemma keeps_get: "(\<And>w. I w \<Longrightarrow> keeps I (f (sess w))) \<Longrightarrow> keeps I (bind get f)"
  unfolding keeps_def by (rule triple_get)

lemma keeps_upd: "(\<And>w. I w \<Longrightarrow> I (w\<lparr>sess := f (sess w)\<rparr>)) \<Longrightarrow> keeps I (upd f)"
  unfolding keeps_def by (rule triple_upd)

lemma keeps_if [safes]: "(b \<Longrightarrow> keeps I m) \<Longrightarrow> (\<not> b \<Longrightarrow> keeps I n) \<Longrightarrow> keeps I (if b then m else n)"
  by simp

lemma keeps_whenp [safes]: "(b \<Longrightarrow> keeps I m) \<Longrightarrow> keeps I (whenp b m)"
  by (simp add: whenp_def keeps_return)

lemma keeps_option [safes]:
  "(x = None \<Longrightarrow> keeps I m) \<Longrightarrow> (\<And>y. x = Some y \<Longrightarrow> keeps I (f y)) \<Longrightarrow> keeps I (case x of None \<Rightarrow> m | Some y \<Rightarrow> f y)"
  by (cases x) simp_all

lemma keeps_prod [safes]: "(\<And>a b. p = (a, b) \<Longrightarrow> keeps I (f a b)) \<Longrightarrow> keeps I (case p of (a, b) \<Rightarrow> f a b)"
  by (cases p) simp

lemma keeps_let [safes]: "keeps I (f x) \<Longrightarrow> keeps I (let y = x in f y)"
  by simp

lemma keeps_block: "(\<And>m. m \<in> set ms \<Longrightarrow> keeps I m) \<Longrightarrow> keeps I (block ms)"
  by (induction ms) (simp_all add: keeps_return keeps_seq)

lemma keeps_block_Nil [safes]: "keeps I (block [])"
  by (simp add: keeps_return)

lemma keeps_block_Cons [safes]: "keeps I m \<Longrightarrow> keeps I (block ms) \<Longrightarrow> keeps I (block (m # ms))"
  by (simp add: keeps_seq)

text \<open>
  The invariants here speak of the trace through a predicate on single events, and of the rest of
  the world. \<open>allows I c\<close>: the call may happen wherever the invariant holds.
\<close>

definition allows :: "(world \<Rightarrow> bool) \<Rightarrow> syscall \<Rightarrow> bool" where
  "allows I c \<longleftrightarrow> (\<forall>w r. I w \<longrightarrow> I (w\<lparr>trace := (c, r) # trace w\<rparr>))"

lemma keeps_sys [safes]: "allows I c \<Longrightarrow> keeps I (sys E c)"
  by (simp add: keeps_def allows_def triple_sys)

lemma keeps_sys_ops [safes]:
  "allows I c \<Longrightarrow> keeps I (sys_int E c)" "allows I c \<Longrightarrow> keeps I (sys_str E c)"
  "allows I c \<Longrightarrow> keeps I (sys_stat E c)" "allows I c \<Longrightarrow> keeps I (sysu E c)"
  by (simp_all add: sys_int_def sys_str_def sys_stat_def sysu_def keeps_bind keeps_sys keeps_return)

text \<open>
  The calls that no safety property restricts, and the fields of the session that no invariant
  looks at: \<open>base I\<close> says that \<open>I\<close> is of this kind.
\<close>

fun benign :: "syscall \<Rightarrow> bool" where
  "benign (Call _ _ _) = True"
| "benign (Write _ _) = True"
| "benign (Read_loop _ _) = True"
| "benign (Close _) = True"
| "benign (Stat _) = True"
| "benign (Lstat _) = True"
| "benign (Fstat _) = True"
| "benign (Getpwnam _) = True"
| "benign _ = False"

definition same_core :: "vsf_session \<Rightarrow> vsf_session \<Rightarrow> bool" where
  "same_core s t \<longleftrightarrow> p_local_addr s = p_local_addr t \<and> p_remote_addr s = p_remote_addr t
     \<and> pasv_listen_fd s = pasv_listen_fd t \<and> p_port_sockaddr s = p_port_sockaddr t
     \<and> data_fd s = data_fd t \<and> is_anonymous s = is_anonymous t \<and> is_guest s = is_guest t
     \<and> rnfr_filename_str s = rnfr_filename_str t \<and> anon_ftp_uid s = anon_ftp_uid t
     \<and> guest_user_uid s = guest_user_uid t \<and> anon_upload_chown_uid s = anon_upload_chown_uid t
     \<and> epsv_all s = epsv_all t \<and> control_use_ssl s = control_use_ssl t
     \<and> data_use_ssl s = data_use_ssl t \<and> ssl_slave_active s = ssl_slave_active t
     \<and> login_fails s = login_fails t \<and> user_str s = user_str t
     \<and> num_clients s = num_clients t \<and> num_this_ip s = num_this_ip t"

definition base :: "(world \<Rightarrow> bool) \<Rightarrow> bool" where
  "base I \<longleftrightarrow> (\<forall>c. benign c \<longrightarrow> allows I c)
     \<and> (\<forall>w s'. I w \<longrightarrow> same_core (sess w) s' \<longrightarrow> I (w\<lparr>sess := s'\<rparr>))"

text \<open>Invariants that do not look at what is in the socket pair.\<close>

definition chans :: "(world \<Rightarrow> bool) \<Rightarrow> bool" where
  "chans I \<longleftrightarrow> (\<forall>w x y. I w \<longrightarrow> I (w\<lparr>c2p := x, p2c := y\<rparr>))"

lemma base_allows [safes]: "base I \<Longrightarrow> benign c \<Longrightarrow> allows I c"
  by (simp add: base_def)

lemma same_core_refl [simp]: "same_core s s"
  by (simp add: same_core_def)

lemma keeps_upd_frame [safes]: "base I \<Longrightarrow> (\<And>s. same_core s (f s)) \<Longrightarrow> keeps I (upd f)"
  by (auto simp: base_def intro: keeps_upd)

lemma same_core_upd [simp, safes]:
  "same_core s (s\<lparr>idle_timeout := b\<rparr>)" "same_core s (s\<lparr>data_timeout := b\<rparr>)"
  "same_core s (s\<lparr>data_progress := b\<rparr>)" "same_core s (s\<lparr>abor_received := b\<rparr>)"
  "same_core s (s\<lparr>log_type := k\<rparr>)" "same_core s (s\<lparr>log_str := x\<rparr>)"
  "same_core s (s\<lparr>log_start_sec := n, log_start_usec := m\<rparr>)" "same_core s (s\<lparr>transfer_size := n\<rparr>)"
  "same_core s (s\<lparr>ftp_cmd_str := x\<rparr>)" "same_core s (s\<lparr>ftp_arg_str := x\<rparr>)"
  "same_core s (s\<lparr>ftp_cmd_str := x, ftp_arg_str := y\<rparr>)"
  "same_core s (s\<lparr>p_visited_dir_list := xs\<rparr>)" "same_core s (s\<lparr>home_str := x\<rparr>)"
  "same_core s (s\<lparr>restart_pos := n\<rparr>)" "same_core s (s\<lparr>is_ascii := b\<rparr>)"
  "same_core s (s\<lparr>xferlog_fd := n\<rparr>)" "same_core s (s\<lparr>vsftpd_log_fd := n\<rparr>)"
  "same_core s (s\<lparr>anon_pass_str := x\<rparr>)"
  "same_core s (s\<lparr>banned_email_str := x\<rparr>)" "same_core s (s\<lparr>email_passwords_str := x\<rparr>)"
  "same_core s (s\<lparr>banner_str := x\<rparr>)" "same_core s (s\<lparr>bw_rate_max := r\<rparr>)"
  "same_core s (s\<lparr>bw_send_start_sec := n, bw_send_start_usec := m\<rparr>)"
  "same_core s (s\<lparr>parent_fd := n\<rparr>)" "same_core s (s\<lparr>child_fd := n\<rparr>)" "same_core s (s\<lparr>newnet_cloneflags_work := n\<rparr>)"
  "same_core s (s\<lparr>isolate_all_cloneflags_work := n\<rparr>)" "same_core s (s\<lparr>isolate_cloneflags_work := n\<rparr>)"
  "same_core s (s\<lparr>s_p_saved_filename := f\<rparr>)"
  "same_core s (s\<lparr>userlist_str := x\<rparr>)" "same_core s (s\<lparr>s_current_umask := r\<rparr>)" "same_core s (s\<lparr>s_timezone := n\<rparr>)" "same_core s (s\<lparr>is_http := b\<rparr>)" "same_core s (s\<lparr>http_get_arg := x\<rparr>)"
  by (simp_all add: same_core_def)

lemma keeps_bug [safes]: "base I \<Longrightarrow> keeps I (bug E t)"
  unfolding bug_def vsf_sysutil_exit_def by (intro safes) simp_all

lemma keeps_die [safes]: "base I \<Longrightarrow> keeps I (die E t)"
  by (simp add: die_def keeps_bug)

lemma keeps_die2 [safes]: "base I \<Longrightarrow> keeps I (die2 E t u)"
  by (simp add: die2_def keeps_die)

lemma keeps_vsf_exit [safes]: "base I \<Longrightarrow> keeps I (vsf_exit E t)"
  unfolding vsf_exit_def vsf_sysutil_exit_def by (intro safes) simp_all

lemma keeps_exit [safes]: "keeps I (vsf_sysutil_exit E n)"
  by (simp add: vsf_sysutil_exit_def keeps_halt)

lemma keeps_lift_res [safes]: "base I \<Longrightarrow> keeps I (lift_res E m)"
  by (auto simp: lift_res_def intro: safes split: sum.split failure.split)

lemma keeps_get_any [safes]: "keeps I get"
  by (simp add: keeps_def triple_def get_def)

lemma bug_ends: "bug E t w \<noteq> Done x w'" "die E t w \<noteq> Done x w'"
  by (auto simp: die_def bug_def vsf_sysutil_exit_def seq_def bind_def halt_def split: outcome.splits)

lemma keeps_lift_bind:
  "base I \<Longrightarrow> (\<And>x. m = Inr x \<Longrightarrow> keeps I (f x)) \<Longrightarrow> keeps I (bind (lift_res E m) f)"
proof -
  assume b: "base I" and f: "\<And>x. m = Inr x \<Longrightarrow> keeps I (f x)"
  have ret: "bind (return x) f = f x" for x by (rule ext) (simp add: bind_def return_def)
  show ?thesis
  proof (cases m)
    case (Inl e)
    have "lift_res E m w \<noteq> Done x w'" for w x w'
      using Inl by (cases e) (simp_all add: lift_res_def bug_ends halt_def)
    moreover have "keeps I (lift_res E m)" using b by (rule keeps_lift_res)
    ultimately have "triple I (lift_res E m) (\<lambda>_ _. False) I"
      by (fastforce simp: keeps_def triple_def split: outcome.splits)
    then show ?thesis unfolding keeps_def by (rule triple_bind) (simp add: triple_def)
  next
    case (Inr x)
    then show ?thesis using f by (simp add: lift_res_def ret)
  qed
qed

lemma bind_Done: "bind m f w = Done x w' \<longleftrightarrow> (\<exists>y v. m w = Done y v \<and> f y v = Done x w')"
  by (auto simp: bind_def split: outcome.split)

lemma seq_Done: "seq m n w = Done x w' \<longleftrightarrow> (\<exists>v. m w = Done () v \<and> n v = Done x w')"
  by (auto simp: seq_def bind_Done)

section \<open>Policies: what a trace may hold\<close>

text \<open>\<open>P h e\<close>: the event \<open>e\<close> is allowed after the history \<open>h\<close>, newest first.\<close>

primrec guarded :: "(event list \<Rightarrow> event \<Rightarrow> bool) \<Rightarrow> event list \<Rightarrow> bool" where
  "guarded P [] = True"
| "guarded P (e # h) = (P h e \<and> guarded P h)"

definition policy :: "(event list \<Rightarrow> event \<Rightarrow> bool) \<Rightarrow> (vsf_session \<Rightarrow> vsf_session \<Rightarrow> bool) \<Rightarrow> world \<Rightarrow> bool" where
  "policy P J w \<longleftrightarrow> guarded P (trace w) \<and> J (sess w) (psess w)"

text \<open>The same from a moment on: what came before, \<open>t0\<close>, is not judged.\<close>

primrec guarded_after :: "event list \<Rightarrow> (event list \<Rightarrow> event \<Rightarrow> bool) \<Rightarrow> event list \<Rightarrow> bool" where
  "guarded_after t0 P [] = (t0 = [])"
| "guarded_after t0 P (e # h) = (e # h = t0 \<or> P h e \<and> guarded_after t0 P h)"

definition policy_after :: "event list \<Rightarrow> (event list \<Rightarrow> event \<Rightarrow> bool) \<Rightarrow>
    (vsf_session \<Rightarrow> vsf_session \<Rightarrow> bool) \<Rightarrow> world \<Rightarrow> bool" where
  "policy_after t0 P J w \<longleftrightarrow> guarded_after t0 P (trace w) \<and> J (sess w) (psess w)"

lemma guarded_after_start [simp]: "guarded_after t P t"
  by (cases t) simp_all

lemma guarded_after_grows: "guarded_after t0 P t \<Longrightarrow> \<exists>b. t = b @ t0"
  by (induction t) (auto intro: exI[of _ "[]"] exI[of _ "_ # _"])

lemma guarded_after_joins:
  assumes "guarded_after t0 P t" "guarded Q t0" "\<And>b e. P (b @ t0) e \<Longrightarrow> Q (b @ t0) e"
  shows "guarded Q t"
  using assms(1)
proof (induction t)
  case (Cons e h)
  then show ?case
  proof (cases "e # h = t0")
    case False
    then have "P h e" and g: "guarded_after t0 P h" using Cons.prems by simp_all
    moreover obtain b where "h = b @ t0" using guarded_after_grows[OF g] by blast
    ultimately show ?thesis using assms(3)[of b e] Cons.IH[OF g] by simp
  qed (use assms(2) in simp)
qed simp

lemma guarded_after_Nil: "guarded_after [] P t = guarded P t"
  by (induction t) simp_all

lemma policy_after_Nil: "policy_after [] P J = policy P J"
  by (rule ext) (simp add: policy_after_def policy_def guarded_after_Nil)

lemma policy_base [intro]:
  "(\<And>c h r. benign c \<Longrightarrow> P h (c, r)) \<Longrightarrow> (\<And>s s' t. J s t \<Longrightarrow> same_core s s' \<Longrightarrow> J s' t) \<Longrightarrow> base (policy P J)"
  by (auto simp: base_def policy_def allows_def)

lemma policy_chans [simp, intro]: "chans (policy P J)"
  by (simp add: chans_def policy_def)

lemma policy_allows: "(\<And>h r. P h (c, r)) \<Longrightarrow> allows (policy P J) c"
  by (simp add: allows_def policy_def)

lemma policy_upd: "(\<And>s t. J s t \<Longrightarrow> J (f s) t) \<Longrightarrow> keeps (policy P J) (upd f)"
  by (rule keeps_upd) (simp add: policy_def)

lemma policy_get: "(\<And>s t. J s t \<Longrightarrow> keeps (policy P J) (f s)) \<Longrightarrow> keeps (policy P J) (bind get f)"
  by (rule keeps_get) (auto simp: policy_def)

lemma policy_after_base:
  "(\<And>c h r. benign c \<Longrightarrow> P h (c, r)) \<Longrightarrow> (\<And>s s' t. J s t \<Longrightarrow> same_core s s' \<Longrightarrow> J s' t) \<Longrightarrow>
     base (policy_after t0 P J)"
  by (auto simp: base_def policy_after_def allows_def)

lemma policy_after_chans [simp, intro]: "chans (policy_after t0 P J)"
  by (simp add: chans_def policy_after_def)

lemma policy_after_allows: "(\<And>h r. P h (c, r)) \<Longrightarrow> allows (policy_after t0 P J) c"
  by (simp add: allows_def policy_after_def)

lemma policy_after_upd: "(\<And>s t. J s t \<Longrightarrow> J (f s) t) \<Longrightarrow> keeps (policy_after t0 P J) (upd f)"
  by (rule keeps_upd) (simp add: policy_after_def)

text \<open>Properties of a run that a part of it which only calls and updates its session cannot change.\<close>

definition frame :: "(world \<Rightarrow> bool) \<Rightarrow> bool" where
  "frame I \<longleftrightarrow> (\<forall>w s t. I w \<longrightarrow> I (w\<lparr>sess := s, trace := t\<rparr>))"

lemma frame_upd [frames]: "frame I \<Longrightarrow> keeps I (upd f)"
proof (rule keeps_upd)
  fix w assume "frame I" "I w"
  then have "I (w\<lparr>sess := f (sess w), trace := trace w\<rparr>)" unfolding frame_def by blast
  then show "I (w\<lparr>sess := f (sess w)\<rparr>)" by simp
qed

lemma frame_allows [frames]: "frame I \<Longrightarrow> allows I c"
proof -
  assume "frame I"
  then have "I w \<Longrightarrow> I (w\<lparr>sess := sess w, trace := (c, r) # trace w\<rparr>)" for w r unfolding frame_def by blast
  then show ?thesis by (simp add: allows_def)
qed

lemma frame_base [frames]: "frame I \<Longrightarrow> base I"
proof -
  assume f: "frame I"
  then have "I w \<Longrightarrow> I (w\<lparr>sess := s, trace := trace w\<rparr>)" for w s unfolding frame_def by blast
  then show ?thesis using frame_allows[OF f] by (simp add: base_def)
qed

lemma frame_get [frames]: "(\<And>s. keeps I (f s)) \<Longrightarrow> keeps I (bind get f)"
  by (rule keeps_get)

end
