(* ===== verification/Logging.thy ===== *)
theory Logging
  imports Session
begin

text \<open>
  src/logging.c: the pending entry of a session, the two log formats and where a line goes. The
  entry types are the numbers of the C enum, 0 standing for no entry.
\<close>

abbreviation (input) kVSFLogEntryNull :: nat where "kVSFLogEntryNull \<equiv> 1"
abbreviation (input) kVSFLogEntryDownload :: nat where "kVSFLogEntryDownload \<equiv> 2"
abbreviation (input) kVSFLogEntryUpload :: nat where "kVSFLogEntryUpload \<equiv> 3"
abbreviation (input) kVSFLogEntryMkdir :: nat where "kVSFLogEntryMkdir \<equiv> 4"
abbreviation (input) kVSFLogEntryLogin :: nat where "kVSFLogEntryLogin \<equiv> 5"
abbreviation (input) kVSFLogEntryFTPInput :: nat where "kVSFLogEntryFTPInput \<equiv> 6"
abbreviation (input) kVSFLogEntryFTPOutput :: nat where "kVSFLogEntryFTPOutput \<equiv> 7"
abbreviation (input) kVSFLogEntryConnection :: nat where "kVSFLogEntryConnection \<equiv> 8"
abbreviation (input) kVSFLogEntryDelete :: nat where "kVSFLogEntryDelete \<equiv> 9"
abbreviation (input) kVSFLogEntryRename :: nat where "kVSFLogEntryRename \<equiv> 10"
abbreviation (input) kVSFLogEntryRmdir :: nat where "kVSFLogEntryRmdir \<equiv> 11"
abbreviation (input) kVSFLogEntryChmod :: nat where "kVSFLogEntryChmod \<equiv> 12"
abbreviation (input) kVSFLogEntryDebug :: nat where "kVSFLogEntryDebug \<equiv> 13"

definition vsf_sysutil_retval_is_error :: "int \<Rightarrow> bool" where
  "vsf_sysutil_retval_is_error retval \<longleftrightarrow> retval < 0"

definition vsf_log_type_is_transfer :: "nat \<Rightarrow> bool" where
  "vsf_log_type_is_transfer what \<longleftrightarrow> what = kVSFLogEntryDownload \<or> what = kVSFLogEntryUpload"

definition vsf_log_open_file :: "env \<Rightarrow> string option \<Rightarrow> string \<Rightarrow> int proc" where
  "vsf_log_open_file E path msg =
     bind (case path of None \<Rightarrow> return (-1) | Some f \<Rightarrow> sys_int E (Create_append f 416)) (\<lambda>retval.
       if vsf_sysutil_retval_is_error retval then die2 E msg path else return retval)"

definition vsf_log_init :: "env \<Rightarrow> unit proc" where
  "vsf_log_init E = block [
     whenp (tunable_syslog_enable E \<or> tunable_tcp_wrappers E) (sysu E (Call ''openlog'' [1] [])),
     if \<not> tunable_xferlog_enable E \<and> \<not> tunable_dual_log_enable E then return ()
     else block [
       whenp (tunable_dual_log_enable E \<or> tunable_xferlog_std_format E)
         (bind (vsf_log_open_file E (tunable_xferlog_file E) ''failed to open xferlog log file:'')
            (\<lambda>fd. upd (\<lambda>s. s\<lparr>xferlog_fd := fd\<rparr>))),
       whenp (tunable_dual_log_enable E \<or> \<not> tunable_xferlog_std_format E)
         (whenp (\<not> tunable_syslog_enable E)
           (bind (vsf_log_open_file E (tunable_vsftpd_log_file E) ''failed to open vsftpd log file:'')
              (\<lambda>fd. upd (\<lambda>s. s\<lparr>vsftpd_log_fd := fd\<rparr>))))]]"

definition vsf_log_start_entry :: "env \<Rightarrow> nat \<Rightarrow> unit proc" where
  "vsf_log_start_entry E what = bind get (\<lambda>s.
     if log_type s \<noteq> 0 then bug E ''non null log_type in vsf_log_start_entry''
     else block [
       upd (\<lambda>s. s\<lparr>log_type := what, log_start_sec := 0, log_start_usec := 0,
                  transfer_size := 0, log_str := []\<rparr>),
       whenp (vsf_log_type_is_transfer what)
         (bind (sys_int E Time_sec) (\<lambda>sec. bind (sys_int E Time_usec) (\<lambda>usec.
            upd (\<lambda>s. s\<lparr>log_start_sec := sec, log_start_usec := usec\<rparr>))))])"

definition vsf_log_entry_pending :: "bool proc" where
  "vsf_log_entry_pending = bind get (\<lambda>s. return (log_type s \<noteq> 0))"

definition vsf_log_clear_entry :: "unit proc" where
  "vsf_log_clear_entry = upd (\<lambda>s. s\<lparr>log_type := 0\<rparr>)"

definition vsf_log_do_log_to_file :: "env \<Rightarrow> int \<Rightarrow> string \<Rightarrow> unit proc" where
  "vsf_log_do_log_to_file E fd s =
     bind (if \<not> tunable_no_log_lock E then sys_int E (Lock_write fd) else return 0) (\<lambda>retval.
       if \<not> tunable_no_log_lock E \<and> vsf_sysutil_retval_is_error retval then return ()
       else block [
         sysu E (Write fd (replace_unprintable s (CHR ''?'') @ [LF])),
         whenp (\<not> tunable_no_log_lock E) (sysu E (Unlock fd))])"

definition date_text :: "string option \<Rightarrow> string" where
  "date_text d = (case d of None \<Rightarrow> [] | Some t \<Rightarrow> t)"

definition vsf_log_do_log_wuftpd_format :: "env \<Rightarrow> bool \<Rightarrow> string proc" where
  "vsf_log_do_log_wuftpd_format E succeeded = bind get (\<lambda>s.
     bind (sys_str E Current_date) (\<lambda>date.
     bind (sys_int E Time_sec) (\<lambda>now.
     let delta_sec = now - log_start_sec s;
         delta_sec = (if delta_sec \<le> 0 then 1 else delta_sec)
     in return (date_text date @ '' '' @ vsf_sysutil_ulong_to_str (word_of_int delta_sec) @ '' ''
       @ remote_ip_str s @ '' '' @ vsf_sysutil_filesize_t_to_str (transfer_size s) @ '' ''
       @ replace_char (log_str s) (CHR '' '') (CHR ''_'') @ '' ''
       @ (if is_ascii s then ''a '' else ''b '') @ ''_ ''
       @ (if log_type s = kVSFLogEntryUpload then ''i '' else ''o '')
       @ (if is_anonymous s \<and> \<not> is_guest s then ''a '' @ anon_pass_str s
          else (if is_guest s then ''g '' else ''r '') @ user_str s)
       @ '' '' @ ''ftp 0 * '' @ (if succeeded then ''c'' else ''i'')))))"

definition log_action :: "nat \<Rightarrow> string option" where
  "log_action what = map_of [
     (kVSFLogEntryDownload, ''DOWNLOAD''), (kVSFLogEntryUpload, ''UPLOAD''),
     (kVSFLogEntryMkdir, ''MKDIR''), (kVSFLogEntryLogin, ''LOGIN''),
     (kVSFLogEntryFTPInput, ''FTP command''), (kVSFLogEntryFTPOutput, ''FTP response''),
     (kVSFLogEntryConnection, ''CONNECT''), (kVSFLogEntryDelete, ''DELETE''),
     (kVSFLogEntryRename, ''RENAME''), (kVSFLogEntryRmdir, ''RMDIR''),
     (kVSFLogEntryChmod, ''CHMOD''), (kVSFLogEntryDebug, ''DEBUG'')] what"

definition vsf_log_do_log_vsftpd_format :: "env \<Rightarrow> bool \<Rightarrow> nat \<Rightarrow> string \<Rightarrow> string proc" where
  "vsf_log_do_log_vsftpd_format E succeeded what p_log_str = bind get (\<lambda>s.
     bind (if \<not> tunable_syslog_enable E
           then bind (sys_str E Current_date) (\<lambda>date. bind (sys_int E Getpid) (\<lambda>pid.
                  return (date_text date @ '' [pid '' @ vsf_sysutil_ulong_to_str (word_of_int pid) @ ''] '')))
           else return []) (\<lambda>prefix.
     bind (case log_action what of None \<Rightarrow> bug E ''bad entry_type in vsf_log_do_log''
           | Some a \<Rightarrow> return a) (\<lambda>action.
     bind (if vsf_log_type_is_transfer what
           then bind (sys_int E Time_sec) (\<lambda>sec. bind (sys_int E Time_usec) (\<lambda>usec.
                  return ('', '' @ kbyte_rate_text E (transfer_size s) (sec - log_start_sec s)
                            (usec - log_start_usec s) @ ''Kbyte/sec'')))
           else return []) (\<lambda>rate.
     return (prefix
       @ (if user_str s \<noteq> [] then ''['' @ user_str s @ ''] '' else [])
       @ (if what \<noteq> kVSFLogEntryFTPInput \<and> what \<noteq> kVSFLogEntryFTPOutput
             \<and> what \<noteq> kVSFLogEntryConnection \<and> what \<noteq> kVSFLogEntryDebug
          then (if succeeded then ''OK '' else ''FAIL '') else [])
       @ action @ '': Client '' @ [CHR 0x22] @ remote_ip_str s @ [CHR 0x22]
       @ (if what = kVSFLogEntryLogin \<and> anon_pass_str s \<noteq> []
          then '', anon password '' @ [CHR 0x22] @ anon_pass_str s @ [CHR 0x22] else [])
       @ (if p_log_str \<noteq> [] then '', '' @ [CHR 0x22] @ p_log_str @ [CHR 0x22] else [])
       @ (if what \<noteq> kVSFLogEntryFTPInput \<and> what \<noteq> kVSFLogEntryFTPOutput \<and> what \<noteq> kVSFLogEntryDebug
          then (if transfer_size s \<noteq> 0
                then '', '' @ vsf_sysutil_filesize_t_to_str (transfer_size s) @ '' bytes'' else [])
               @ rate
          else []))))))"

definition vsf_log_common :: "env \<Rightarrow> bool \<Rightarrow> nat \<Rightarrow> string \<Rightarrow> unit proc" where
  "vsf_log_common E succeeded what p_str = bind get (\<lambda>s. block [
     whenp (xferlog_fd s \<noteq> -1 \<and> vsf_log_type_is_transfer what)
       (bind (vsf_log_do_log_wuftpd_format E succeeded) (vsf_log_do_log_to_file E (xferlog_fd s))),
     whenp (vsftpd_log_fd s \<noteq> -1)
       (bind (vsf_log_do_log_vsftpd_format E succeeded what p_str)
          (vsf_log_do_log_to_file E (vsftpd_log_fd s))),
     whenp (tunable_syslog_enable E)
       (bind (vsf_log_do_log_vsftpd_format E succeeded what p_str) (\<lambda>line.
          sysu E (Syslog line (if what = kVSFLogEntryLogin \<and> \<not> succeeded then 1 else 0))))])"

definition vsf_log_line :: "env \<Rightarrow> nat \<Rightarrow> string \<Rightarrow> unit proc" where
  "vsf_log_line E what p_str = vsf_log_common E True what p_str"

definition vsf_log_do_log :: "env \<Rightarrow> bool \<Rightarrow> unit proc" where
  "vsf_log_do_log E succeeded = bind get (\<lambda>s. block [
     vsf_log_common E succeeded (log_type s) (log_str s),
     upd (\<lambda>s. s\<lparr>log_type := 0\<rparr>)])"

section \<open>Logging keeps the invariants of the session\<close>

lemma keeps_log_common [safes]: "base I \<Longrightarrow> keeps I (vsf_log_common E ok what x)"
  unfolding vsf_log_common_def vsf_log_do_log_wuftpd_format_def vsf_log_do_log_vsftpd_format_def
    vsf_log_do_log_to_file_def Let_def
  by (intro safes) simp_all

lemma keeps_logging [safes]:
  "base I \<Longrightarrow> keeps I (vsf_log_line E what x)"
  "base I \<Longrightarrow> keeps I (vsf_log_do_log E ok)"
  "base I \<Longrightarrow> keeps I (vsf_log_start_entry E what)"
  "base I \<Longrightarrow> keeps I vsf_log_clear_entry"
  "base I \<Longrightarrow> keeps I vsf_log_entry_pending"
  unfolding vsf_log_line_def vsf_log_do_log_def vsf_log_start_entry_def vsf_log_clear_entry_def
    vsf_log_entry_pending_def
  by (intro safes; simp add: same_core_def)+

end
