(* ===== verification/Ftpcmdio.thy ===== *)
theory Ftpcmdio
  imports Logging
begin

text \<open>
  The control channel: src/netstr.c (building a line from the network), src/readwrite.c (plain or
  SSL transport) and src/ftpcmdio.c (commands in, responses out). The alarm that ends an idle
  session is delivered, if at all, while the process waits for a command: the call
  \<open>pending_sigalrm\<close> of the oracle says so.
\<close>

section \<open>Response codes (src/ftpcodes.h)\<close>

abbreviation (input) FTP_DATACONN :: nat where "FTP_DATACONN \<equiv> 150"
abbreviation (input) FTP_NOOPOK :: nat where "FTP_NOOPOK \<equiv> 200"
abbreviation (input) FTP_TYPEOK :: nat where "FTP_TYPEOK \<equiv> 200"
abbreviation (input) FTP_PORTOK :: nat where "FTP_PORTOK \<equiv> 200"
abbreviation (input) FTP_EPRTOK :: nat where "FTP_EPRTOK \<equiv> 200"
abbreviation (input) FTP_UMASKOK :: nat where "FTP_UMASKOK \<equiv> 200"
abbreviation (input) FTP_CHMODOK :: nat where "FTP_CHMODOK \<equiv> 200"
abbreviation (input) FTP_EPSVALLOK :: nat where "FTP_EPSVALLOK \<equiv> 200"
abbreviation (input) FTP_STRUOK :: nat where "FTP_STRUOK \<equiv> 200"
abbreviation (input) FTP_MODEOK :: nat where "FTP_MODEOK \<equiv> 200"
abbreviation (input) FTP_PBSZOK :: nat where "FTP_PBSZOK \<equiv> 200"
abbreviation (input) FTP_PROTOK :: nat where "FTP_PROTOK \<equiv> 200"
abbreviation (input) FTP_OPTSOK :: nat where "FTP_OPTSOK \<equiv> 200"
abbreviation (input) FTP_ALLOOK :: nat where "FTP_ALLOOK \<equiv> 202"
abbreviation (input) FTP_FEAT :: nat where "FTP_FEAT \<equiv> 211"
abbreviation (input) FTP_STATOK :: nat where "FTP_STATOK \<equiv> 211"
abbreviation (input) FTP_SIZEOK :: nat where "FTP_SIZEOK \<equiv> 213"
abbreviation (input) FTP_MDTMOK :: nat where "FTP_MDTMOK \<equiv> 213"
abbreviation (input) FTP_STATFILE_OK :: nat where "FTP_STATFILE_OK \<equiv> 213"
abbreviation (input) FTP_SITEHELP :: nat where "FTP_SITEHELP \<equiv> 214"
abbreviation (input) FTP_HELP :: nat where "FTP_HELP \<equiv> 214"
abbreviation (input) FTP_SYSTOK :: nat where "FTP_SYSTOK \<equiv> 215"
abbreviation (input) FTP_GREET :: nat where "FTP_GREET \<equiv> 220"
abbreviation (input) FTP_GOODBYE :: nat where "FTP_GOODBYE \<equiv> 221"
abbreviation (input) FTP_ABOR_NOCONN :: nat where "FTP_ABOR_NOCONN \<equiv> 225"
abbreviation (input) FTP_TRANSFEROK :: nat where "FTP_TRANSFEROK \<equiv> 226"
abbreviation (input) FTP_ABOROK :: nat where "FTP_ABOROK \<equiv> 226"
abbreviation (input) FTP_PASVOK :: nat where "FTP_PASVOK \<equiv> 227"
abbreviation (input) FTP_EPSVOK :: nat where "FTP_EPSVOK \<equiv> 229"
abbreviation (input) FTP_LOGINOK :: nat where "FTP_LOGINOK \<equiv> 230"
abbreviation (input) FTP_AUTHOK :: nat where "FTP_AUTHOK \<equiv> 234"
abbreviation (input) FTP_CWDOK :: nat where "FTP_CWDOK \<equiv> 250"
abbreviation (input) FTP_RMDIROK :: nat where "FTP_RMDIROK \<equiv> 250"
abbreviation (input) FTP_DELEOK :: nat where "FTP_DELEOK \<equiv> 250"
abbreviation (input) FTP_RENAMEOK :: nat where "FTP_RENAMEOK \<equiv> 250"
abbreviation (input) FTP_PWDOK :: nat where "FTP_PWDOK \<equiv> 257"
abbreviation (input) FTP_MKDIROK :: nat where "FTP_MKDIROK \<equiv> 257"
abbreviation (input) FTP_GIVEPWORD :: nat where "FTP_GIVEPWORD \<equiv> 331"
abbreviation (input) FTP_RESTOK :: nat where "FTP_RESTOK \<equiv> 350"
abbreviation (input) FTP_RNFROK :: nat where "FTP_RNFROK \<equiv> 350"
abbreviation (input) FTP_IDLE_TIMEOUT :: nat where "FTP_IDLE_TIMEOUT \<equiv> 421"
abbreviation (input) FTP_DATA_TIMEOUT :: nat where "FTP_DATA_TIMEOUT \<equiv> 421"
abbreviation (input) FTP_TOO_MANY_USERS :: nat where "FTP_TOO_MANY_USERS \<equiv> 421"
abbreviation (input) FTP_IP_LIMIT :: nat where "FTP_IP_LIMIT \<equiv> 421"
abbreviation (input) FTP_IP_DENY :: nat where "FTP_IP_DENY \<equiv> 421"
abbreviation (input) FTP_TLS_FAIL :: nat where "FTP_TLS_FAIL \<equiv> 421"
abbreviation (input) FTP_BADSENDCONN :: nat where "FTP_BADSENDCONN \<equiv> 425"
abbreviation (input) FTP_BADSENDNET :: nat where "FTP_BADSENDNET \<equiv> 426"
abbreviation (input) FTP_BADSENDFILE :: nat where "FTP_BADSENDFILE \<equiv> 451"
abbreviation (input) FTP_BADCMD :: nat where "FTP_BADCMD \<equiv> 500"
abbreviation (input) FTP_BADOPTS :: nat where "FTP_BADOPTS \<equiv> 501"
abbreviation (input) FTP_COMMANDNOTIMPL :: nat where "FTP_COMMANDNOTIMPL \<equiv> 502"
abbreviation (input) FTP_NEEDUSER :: nat where "FTP_NEEDUSER \<equiv> 503"
abbreviation (input) FTP_NEEDRNFR :: nat where "FTP_NEEDRNFR \<equiv> 503"
abbreviation (input) FTP_BADPBSZ :: nat where "FTP_BADPBSZ \<equiv> 503"
abbreviation (input) FTP_BADPROT :: nat where "FTP_BADPROT \<equiv> 503"
abbreviation (input) FTP_BADSTRU :: nat where "FTP_BADSTRU \<equiv> 504"
abbreviation (input) FTP_BADMODE :: nat where "FTP_BADMODE \<equiv> 504"
abbreviation (input) FTP_BADAUTH :: nat where "FTP_BADAUTH \<equiv> 504"
abbreviation (input) FTP_NOSUCHPROT :: nat where "FTP_NOSUCHPROT \<equiv> 504"
abbreviation (input) FTP_NEEDENCRYPT :: nat where "FTP_NEEDENCRYPT \<equiv> 522"
abbreviation (input) FTP_EPSVBAD :: nat where "FTP_EPSVBAD \<equiv> 522"
abbreviation (input) FTP_DATATLSBAD :: nat where "FTP_DATATLSBAD \<equiv> 522"
abbreviation (input) FTP_LOGINERR :: nat where "FTP_LOGINERR \<equiv> 530"
abbreviation (input) FTP_NOHANDLEPROT :: nat where "FTP_NOHANDLEPROT \<equiv> 536"
abbreviation (input) FTP_FILEFAIL :: nat where "FTP_FILEFAIL \<equiv> 550"
abbreviation (input) FTP_NOPERM :: nat where "FTP_NOPERM \<equiv> 550"
abbreviation (input) FTP_UPLOADFAIL :: nat where "FTP_UPLOADFAIL \<equiv> 553"

definition VSFTP_MAX_COMMAND_LINE :: nat where "VSFTP_MAX_COMMAND_LINE = 4096"

section \<open>Lines from the network\<close>

text \<open>
  \<open>left\<close> bytes of the buffer are free and \<open>buf\<close> has been consumed into its front. The result is
  the C return value with the line: -1 when the buffer is full, 0 at end of file.
\<close>

lemma bind_cong [fundef_cong]: "m = m' \<Longrightarrow> (\<And>x. f x = g x) \<Longrightarrow> bind m f = bind m' g"
  by (metis ext)

function (sequential) str_netfd_alloc_loop :: "env \<Rightarrow> int \<Rightarrow> nat \<Rightarrow> string \<Rightarrow> (int \<times> string) proc" where
  "str_netfd_alloc_loop E fd left buf =
     (if left = 0 then return (-1, [])
      else bind (sys_str E (Recv_peek fd (int left))) (\<lambda>r. case r of
        None \<Rightarrow> die E ''vsf_sysutil_recv_peek''
      | Some chunk \<Rightarrow>
        if chunk = [] then return (0, [])
        else let i = Suc (length (takeWhile (\<lambda>c. c \<noteq> LF) chunk)) in
          if LF \<in> set chunk
          then if i > left then halt (Trapped ''bounds'')
            else bind (sys_str E (Read_loop fd (u32 i))) (\<lambda>r. case r of
              None \<Rightarrow> die E ''vsf_sysutil_read_loop''
            | Some d \<Rightarrow>
              if length d \<noteq> i then die E ''vsf_sysutil_read_loop''
              else if d ! (i - 1) \<noteq> LF then die E ''missing terminator in str_netfd_alloc''
              else return (int i, takeWhile (\<lambda>c. c \<noteq> LF) (buf @ d)))
          else if length chunk > left then bug E ''bytes_read > left in str_netfd_alloc''
          else bind (sys_str E (Read_loop fd (u32 (length chunk)))) (\<lambda>r. case r of
              None \<Rightarrow> die E ''vsf_sysutil_read_loop''
            | Some d \<Rightarrow>
              if length d \<noteq> length chunk then die E ''vsf_sysutil_read_loop''
              else str_netfd_alloc_loop E fd (left - length chunk) (buf @ d))))"
  by pat_completeness auto
termination
  by (relation "measure (\<lambda>(_, _, left, _). left)") auto

declare str_netfd_alloc_loop.simps [simp del]

definition str_netfd_alloc :: "env \<Rightarrow> int \<Rightarrow> (int \<times> string) proc" where
  "str_netfd_alloc E fd = str_netfd_alloc_loop E fd VSFTP_MAX_COMMAND_LINE []"

text \<open>
  The i/o handler of src/ftpdataio.c, called after every read and write while a data connection
  exists: it notes progress and keeps the transfer under the bandwidth limit. Times are in
  microseconds and the doubles of the code exact fractions; the pause is given by its operands.
\<close>

definition handle_io :: "env \<Rightarrow> int \<Rightarrow> int \<Rightarrow> unit proc" where
  "handle_io E retval fd = bind get (\<lambda>p_sess.
     if data_fd p_sess \<noteq> fd \<or> vsf_sysutil_retval_is_error retval \<or> retval = 0 then return ()
     else seq (upd (\<lambda>s. s\<lparr>data_progress := True\<rparr>))
       (if bw_rate_max p_sess = 0 then return ()
        else bind (sys_int E Time_sec) (\<lambda>curr_sec. bind (sys_int E Time_usec) (\<lambda>curr_usec.
          let e = (curr_sec - bw_send_start_sec p_sess) * 1000000 + (curr_usec - bw_send_start_usec p_sess);
              elapsed = (if e \<le> 0 then 10000 else e);
              bw_rate = word_of_int (retval * 1000000 div elapsed)
          in if bw_rate \<le> bw_rate_max p_sess
             then upd (\<lambda>s. s\<lparr>bw_send_start_sec := curr_sec, bw_send_start_usec := curr_usec\<rparr>)
             else seq (sysu E (Call ''sleep'' [uint bw_rate, uint (bw_rate_max p_sess), elapsed] []))
               (bind (sys_int E Time_sec) (\<lambda>sec. bind (sys_int E Time_usec) (\<lambda>usec.
                  upd (\<lambda>s. s\<lparr>bw_send_start_sec := sec, bw_send_start_usec := usec\<rparr>))))))))"

definition str_netfd_write :: "env \<Rightarrow> string \<Rightarrow> int \<Rightarrow> int proc" where
  "str_netfd_write E p_str fd =
     (if p_str = [] then bug E ''zero str_len in str_netfd_write''
      else bind (sys_int E (Write fd p_str)) (\<lambda>retval. seq (handle_io E retval fd)
        (return (if vsf_sysutil_retval_is_error retval \<or> retval \<noteq> int (length p_str) then -1 else 0))))"

section \<open>The transport\<close>

text \<open>
  SSL is not compiled in, so its calls fail; the SSL slave is another process, reached by one
  exchange of a request and an integer.
\<close>

definition ssl_write_str :: "string \<Rightarrow> int proc" where
  "ssl_write_str p_str = return (-1)"

definition ftp_write_str :: "env \<Rightarrow> string \<Rightarrow> bool \<Rightarrow> int proc" where
  "ftp_write_str E p_str is_data = bind get (\<lambda>s.
     if is_data
     then if data_use_ssl s \<and> ssl_slave_active s
       then bind (sys_int E (Ssl_slave 9 p_str)) (\<lambda>written.
              return (if written > 0 \<and> written = int (length p_str) then 0 else -1))
       else if data_use_ssl s then ssl_write_str p_str
       else str_netfd_write E p_str (data_fd s)
     else if control_use_ssl s \<and> ssl_slave_active s
       then sys_int E (Ssl_slave 5 p_str)
       else if control_use_ssl s then ssl_write_str p_str
       else str_netfd_write E p_str VSFTP_COMMAND_FD)"

definition ftp_getline :: "env \<Rightarrow> (int \<times> string) proc" where
  "ftp_getline E = bind get (\<lambda>s.
     if control_use_ssl s \<and> ssl_slave_active s
     then bind (sys_int E (Ssl_slave 4 [])) (\<lambda>ret.
            if ret \<ge> 0
            then bind (sys_str E (Call ''ssl_slave_str'' [] [])) (\<lambda>x. case x of
                   None \<Rightarrow> die E ''priv_sock_get_str: read error'' | Some line \<Rightarrow> return (ret, line))
            else return (ret, []))
     else if control_use_ssl s then die E ''vsf_sysutil_recv_peek''
     else str_netfd_alloc E VSFTP_COMMAND_FD)"

section \<open>Responses\<close>

text \<open>The bytes of a response: telnet IAC doubled, an embedded newline sent as NUL.\<close>

definition ftp_response :: "nat \<Rightarrow> char \<Rightarrow> string \<Rightarrow> string" where
  "ftp_response status sep p_str =
     vsf_sysutil_ulong_to_str (word_of_nat status) @ [sep]
       @ replace_char (replace_text p_str [TELNET_IAC] [TELNET_IAC, TELNET_IAC]) LF NUL @ [CR, LF]"

definition ftp_write_str_common :: "env \<Rightarrow> nat \<Rightarrow> char \<Rightarrow> string \<Rightarrow> unit proc" where
  "ftp_write_str_common E status sep p_str = block [
     whenp (tunable_log_ftp_protocol E)
       (vsf_log_line E kVSFLogEntryFTPOutput
          (vsf_sysutil_ulong_to_str (word_of_nat status) @ [sep] @ p_str)),
     bind (ftp_write_str E (ftp_response status sep p_str) False) (\<lambda>retval.
       if retval \<noteq> 0 then die E ''ftp_write'' else return ())]"

definition ftp_write_text_common :: "env \<Rightarrow> nat \<Rightarrow> string \<Rightarrow> char \<Rightarrow> unit proc" where
  "ftp_write_text_common E status p_text sep = ftp_write_str_common E status sep (c_text p_text)"

definition vsf_cmdio_write :: "env \<Rightarrow> nat \<Rightarrow> string \<Rightarrow> unit proc" where
  "vsf_cmdio_write E status p_text = ftp_write_text_common E status p_text (CHR '' '')"

definition vsf_cmdio_write_hyphen :: "env \<Rightarrow> nat \<Rightarrow> string \<Rightarrow> unit proc" where
  "vsf_cmdio_write_hyphen E status p_text = ftp_write_text_common E status p_text (CHR ''-'')"

definition vsf_cmdio_write_str :: "env \<Rightarrow> nat \<Rightarrow> string \<Rightarrow> unit proc" where
  "vsf_cmdio_write_str E status p_str = ftp_write_str_common E status (CHR '' '') p_str"

definition vsf_cmdio_write_str_hyphen :: "env \<Rightarrow> nat \<Rightarrow> string \<Rightarrow> unit proc" where
  "vsf_cmdio_write_str_hyphen E status p_str = ftp_write_str_common E status (CHR ''-'') p_str"

definition vsf_cmdio_write_raw :: "env \<Rightarrow> string \<Rightarrow> unit proc" where
  "vsf_cmdio_write_raw E p_text = block [
     whenp (tunable_log_ftp_protocol E) (vsf_log_line E kVSFLogEntryFTPOutput (c_text p_text)),
     bind (ftp_write_str E (c_text p_text) False) (\<lambda>retval.
       if retval \<noteq> 0 then die E ''ftp_write_str'' else return ())]"

definition vsf_cmdio_write_exit :: "env \<Rightarrow> nat \<Rightarrow> string \<Rightarrow> int \<Rightarrow> 'a proc" where
  "vsf_cmdio_write_exit E status p_text exit_val = seq (block [
     sysu E (Sockopt ''nonblock'' VSFTP_COMMAND_FD),
     sysu E (Shutdown_read VSFTP_COMMAND_FD),
     vsf_cmdio_write E status p_text,
     sysu E (Shutdown VSFTP_COMMAND_FD)])
     (vsf_sysutil_exit E exit_val)"

section \<open>Commands\<close>

definition vsf_cmdio_sock_setup :: "env \<Rightarrow> unit proc" where
  "vsf_cmdio_sock_setup E = block [
     sysu E (Sockopt ''keepalive'' VSFTP_COMMAND_FD),
     sysu E (Sockopt ''nodelay'' VSFTP_COMMAND_FD),
     sysu E (Sockopt ''oobinline'' VSFTP_COMMAND_FD)]"

definition handle_alarm_timeout :: "env \<Rightarrow> unit proc" where
  "handle_alarm_timeout E = block [
     upd (\<lambda>s. s\<lparr>idle_timeout := True\<rparr>),
     sysu E (Sockopt ''nonblock'' VSFTP_COMMAND_FD),
     sysu E (Shutdown_read VSFTP_COMMAND_FD)]"

definition vsf_cmdio_set_alarm :: "env \<Rightarrow> unit proc" where
  "vsf_cmdio_set_alarm E = whenp (tunable_idle_session_timeout E > 0) (block [
     sysu E (Sighandler ''SIGALRM'' ''handle_alarm_timeout''),
     sysu E (Set_alarm (int (unat (tunable_idle_session_timeout E))))])"

text \<open>All trailing carriage returns go.\<close>

definition strip_cr :: "string \<Rightarrow> string" where
  "strip_cr s = rev (dropWhile (\<lambda>c. c = CR) (rev s))"

definition control_getline :: "env \<Rightarrow> (int \<times> string) proc" where
  "control_getline E = bind (ftp_getline E) (\<lambda>(ret, line).
     if ret = 0 then return (0, line)
     else if ret < 0 then vsf_cmdio_write_exit E FTP_BADCMD ''Input line too long.'' 1
     else return (1, strip_cr (replace_char line NUL LF)))"

definition split_command :: "string \<Rightarrow> string \<times> string" where
  "split_command line = (if line = '' '' then (line, [])
     else let (c, a) = split_char line (CHR '' '') in (upper c, a))"

definition vsf_cmdio_get_cmd_and_arg :: "env \<Rightarrow> bool \<Rightarrow> (string \<times> string) proc" where
  "vsf_cmdio_get_cmd_and_arg E set_alarm =
     seq (whenp set_alarm (vsf_cmdio_set_alarm E))
     (bind (sys_int E (Call ''pending_sigalrm'' [] [])) (\<lambda>fired.
      seq (whenp (set_alarm \<and> tunable_idle_session_timeout E > 0 \<and> fired > 0) (handle_alarm_timeout E))
     (bind (control_getline E) (\<lambda>(ret, line).
      bind get (\<lambda>s.
      if idle_timeout s then vsf_cmdio_write_exit E FTP_IDLE_TIMEOUT ''Timeout.'' 1
      else if ret = 0 then seq (sysu E (Shutdown VSFTP_COMMAND_FD)) (vsf_sysutil_exit E 1)
      else let (cmd, arg) = split_command line in
        seq (whenp (tunable_log_ftp_protocol E)
               (vsf_log_line E kVSFLogEntryFTPInput
                  (if cmd = ''PASS'' then ''PASS <password>''
                   else cmd @ (if arg = [] then [] else CHR '' '' # arg))))
        (return (cmd, arg)))))))"

section \<open>The control channel keeps every invariant of the session\<close>

lemma keeps_netfd_loop [safes]: "base I \<Longrightarrow> keeps I (str_netfd_alloc_loop E fd left buf)"
proof (induction E fd left buf rule: str_netfd_alloc_loop.induct)
  case (1 E fd left buf)
  show ?case
    by (subst str_netfd_alloc_loop.simps) (intro safes 1; simp add: 1(2))
qed

lemma keeps_handle_io [safes]: "base I \<Longrightarrow> keeps I (handle_io E n fd)"
  unfolding handle_io_def Let_def by (intro safes; simp)

lemma keeps_transport [safes]:
  "base I \<Longrightarrow> keeps I (str_netfd_write E x fd)"
  "base I \<Longrightarrow> keeps I (ftp_write_str E x d)"
  "base I \<Longrightarrow> keeps I (ftp_getline E)"
  unfolding ftp_write_str_def str_netfd_write_def ftp_getline_def str_netfd_alloc_def ssl_write_str_def
  by (intro safes; simp)+

lemma keeps_responses [safes]:
  "base I \<Longrightarrow> keeps I (ftp_write_str_common E n c x)"
  "base I \<Longrightarrow> keeps I (ftp_write_text_common E n x c)"
  "base I \<Longrightarrow> keeps I (vsf_cmdio_write E n x)"
  "base I \<Longrightarrow> keeps I (vsf_cmdio_write_hyphen E n x)"
  "base I \<Longrightarrow> keeps I (vsf_cmdio_write_str E n x)"
  "base I \<Longrightarrow> keeps I (vsf_cmdio_write_str_hyphen E n x)"
  "base I \<Longrightarrow> keeps I (vsf_cmdio_write_raw E x)"
  unfolding ftp_write_str_common_def ftp_write_text_common_def vsf_cmdio_write_def
    vsf_cmdio_write_hyphen_def vsf_cmdio_write_str_def vsf_cmdio_write_str_hyphen_def vsf_cmdio_write_raw_def
  by (intro safes; simp)+

lemma keeps_write_exit [safes]: "base I \<Longrightarrow> keeps I (vsf_cmdio_write_exit E n x k)"
  unfolding vsf_cmdio_write_exit_def by (intro safes; simp)

lemma keeps_commands [safes]:
  "base I \<Longrightarrow> keeps I (vsf_cmdio_get_cmd_and_arg E b)"
  "base I \<Longrightarrow> keeps I (vsf_cmdio_set_alarm E)"
  "base I \<Longrightarrow> keeps I (vsf_cmdio_sock_setup E)"
  unfolding vsf_cmdio_get_cmd_and_arg_def control_getline_def vsf_cmdio_set_alarm_def
    handle_alarm_timeout_def vsf_cmdio_sock_setup_def Let_def
  by (intro safes; simp)+

end
