(* ===== verification/Privsock.thy ===== *)
theory Privsock
  imports Ftpcmdio
begin

text \<open>
  src/privsock.c: messages and descriptors over the socket pair between the unprivileged child and
  its privileged parent. Each direction is a queue of items; an item is a byte, or a byte that
  carries a descriptor (open files are identified with their descriptor numbers, which passing
  keeps). Writing never fails; reading finds what the peer has sent or the end of the stream.
\<close>

section \<open>Integers on the wire\<close>

text \<open>The four bytes of a C int, least significant first, as they lie in memory.\<close>

definition encode_int :: "int \<Rightarrow> string" where
  "encode_int n = map (\<lambda>i. char_of (n div 256 ^ i mod 256)) [0..<4]"

definition decode_int :: "string \<Rightarrow> int" where
  "decode_int b = signed_take_bit 31 (\<Sum>i<4. of_char (b ! i) * 256 ^ i)"

definition is_int :: "int \<Rightarrow> bool" where
  "is_int n \<longleftrightarrow> - (2 ^ 31) \<le> n \<and> n < 2 ^ 31"

text \<open>A codec of fixed width: what a reader needs to find its way through a stream.\<close>

locale fixed_codec =
  fixes enc :: "'a \<Rightarrow> string" and dec :: "string \<Rightarrow> 'a" and width :: nat and valid :: "'a \<Rightarrow> bool"
  assumes enc_width: "length (enc x) = width"
    and dec_enc: "valid x \<Longrightarrow> dec (enc x) = x"
begin

lemma decode_stream: "valid x \<Longrightarrow> dec (take width (enc x @ rest)) = x \<and> drop width (enc x @ rest) = rest"
  by (simp add: enc_width dec_enc)

lemma enc_inj: "valid x \<Longrightarrow> valid y \<Longrightarrow> enc x @ r = enc y @ r' \<Longrightarrow> x = y \<and> r = r'"
  by (metis decode_stream)

end

lemma length_encode_int [simp]: "length (encode_int n) = 4"
  by (simp add: encode_int_def)

lemma of_char_byte: "(of_char (char_of (n mod 256) :: char) :: int) = n mod 256" for n :: int
  by (simp add: of_char_of take_bit_eq_mod)

lemma horner4: "m = 256 * x + a \<Longrightarrow> x = 256 * y + b \<Longrightarrow> y = 256 * d + c \<Longrightarrow>
    a + b * 256 + c * 65536 + d * 16777216 = m" for m :: int
  by simp

lemma mod_split: "0 \<le> c \<Longrightarrow> b * c = m \<Longrightarrow> a div b = q \<Longrightarrow> a mod m = b * (q mod c) + a mod b" for a b c m q :: int
  using zmod_zmult2_eq[of c a b] by (simp only:)

lemma div_div: "n div 256 div 256 = n div 65536" "n div 65536 div 256 = n div 16777216" for n :: int
proof -
  have "n div (256 * 256) = n div 256 div 256" by (rule zdiv_zmult2_eq) simp
  then show "n div 256 div 256 = n div 65536" by simp
  have "n div (65536 * 256) = n div 65536 div 256" by (rule zdiv_zmult2_eq) simp
  then show "n div 65536 div 256 = n div 16777216" by simp
qed

lemma bytes4: "n mod 256 + (n div 256 mod 256) * 256 + (n div 65536 mod 256) * 65536
    + (n div 16777216 mod 256) * 16777216 = n mod 4294967296" for n :: int
proof (rule horner4)
  show "n mod 4294967296 = 256 * (n div 256 mod 16777216) + n mod 256" by (rule mod_split) simp_all
  show "n div 256 mod 16777216 = 256 * (n div 65536 mod 65536) + n div 256 mod 256"
    by (rule mod_split) (simp_all add: div_div)
  show "n div 65536 mod 65536 = 256 * (n div 16777216 mod 256) + n div 65536 mod 256"
    by (rule mod_split) (simp_all add: div_div)
qed

lemma decode_encode_int: "is_int n \<Longrightarrow> decode_int (encode_int n) = n"
proof -
  assume n: "is_int n"
  have "(\<Sum>i<4. of_char (encode_int n ! i) * 256 ^ i)
      = n mod 256 + (n div 256 mod 256) * 256 + (n div 65536 mod 256) * 65536 + (n div 16777216 mod 256) * 16777216"
    by (simp add: encode_int_def of_char_byte eval_nat_numeral)
  also have "\<dots> = n mod 4294967296" by (rule bytes4)
  finally have "(\<Sum>i<4. of_char (encode_int n ! i) * 256 ^ i) = take_bit 32 n"
    by (simp add: take_bit_eq_mod)
  then show "decode_int (encode_int n) = n"
    using n by (simp add: decode_int_def is_int_def signed_take_bit_take_bit signed_take_bit_int_eq_self)
qed

interpretation wire_int: fixed_codec encode_int decode_int 4 is_int
  by unfold_locales (simp_all add: decode_encode_int)

section \<open>The channel\<close>

datatype endpoint = Child_end | Parent_end

fun item_byte :: "item \<Rightarrow> char" where
  "item_byte (Byte c) = c"
| "item_byte (Fd _) = NUL"

definition chan_write :: "endpoint \<Rightarrow> item list \<Rightarrow> unit proc" where
  "chan_write ep items w = (case ep of
     Child_end \<Rightarrow> Done () (w\<lparr>c2p := c2p w @ items\<rparr>)
   | Parent_end \<Rightarrow> Done () (w\<lparr>p2c := p2c w @ items\<rparr>))"

definition chan_read :: "endpoint \<Rightarrow> nat \<Rightarrow> item list option proc" where
  "chan_read ep n w = (case ep of
     Child_end \<Rightarrow> if length (p2c w) < n then Done None w
       else Done (Some (take n (p2c w))) (w\<lparr>p2c := drop n (p2c w)\<rparr>)
   | Parent_end \<Rightarrow> if length (c2p w) < n then Done None w
       else Done (Some (take n (c2p w))) (w\<lparr>c2p := drop n (c2p w)\<rparr>))"

definition read_bytes :: "env \<Rightarrow> endpoint \<Rightarrow> nat \<Rightarrow> string \<Rightarrow> string proc" where
  "read_bytes E ep n msg = bind (chan_read ep n) (\<lambda>r. case r of
     None \<Rightarrow> die E msg | Some items \<Rightarrow> return (map item_byte items))"

section \<open>Requests, results and payloads\<close>

abbreviation (input) PRIV_SOCK_LOGIN :: char where "PRIV_SOCK_LOGIN \<equiv> CHR 0x01"
abbreviation (input) PRIV_SOCK_CHOWN :: char where "PRIV_SOCK_CHOWN \<equiv> CHR 0x02"
abbreviation (input) PRIV_SOCK_GET_DATA_SOCK :: char where "PRIV_SOCK_GET_DATA_SOCK \<equiv> CHR 0x03"
abbreviation (input) PRIV_SOCK_PASV_CLEANUP :: char where "PRIV_SOCK_PASV_CLEANUP \<equiv> CHR 0x0A"
abbreviation (input) PRIV_SOCK_PASV_ACTIVE :: char where "PRIV_SOCK_PASV_ACTIVE \<equiv> CHR 0x0B"
abbreviation (input) PRIV_SOCK_PASV_LISTEN :: char where "PRIV_SOCK_PASV_LISTEN \<equiv> CHR 0x0C"
abbreviation (input) PRIV_SOCK_PASV_ACCEPT :: char where "PRIV_SOCK_PASV_ACCEPT \<equiv> CHR 0x0D"
abbreviation (input) PRIV_SOCK_RESULT_OK :: char where "PRIV_SOCK_RESULT_OK \<equiv> CHR 0x01"
abbreviation (input) PRIV_SOCK_RESULT_BAD :: char where "PRIV_SOCK_RESULT_BAD \<equiv> CHR 0x02"

definition VSFTP_PRIVSOCK_MAXSTR :: nat where "VSFTP_PRIVSOCK_MAXSTR = 131072"

definition priv_sock_send_cmd :: "endpoint \<Rightarrow> char \<Rightarrow> unit proc" where
  "priv_sock_send_cmd ep cmd = chan_write ep [Byte cmd]"

definition priv_sock_send_result :: "endpoint \<Rightarrow> char \<Rightarrow> unit proc" where
  "priv_sock_send_result ep res = chan_write ep [Byte res]"

definition priv_sock_send_int :: "endpoint \<Rightarrow> int \<Rightarrow> unit proc" where
  "priv_sock_send_int ep n = chan_write ep (map Byte (encode_int n))"

definition priv_sock_send_str :: "endpoint \<Rightarrow> string \<Rightarrow> unit proc" where
  "priv_sock_send_str ep s = block [
     priv_sock_send_int ep (int (length s)),
     whenp (s \<noteq> []) (chan_write ep (map Byte s))]"

definition priv_sock_send_fd :: "endpoint \<Rightarrow> int \<Rightarrow> unit proc" where
  "priv_sock_send_fd ep fd = chan_write ep [Fd fd]"

definition priv_sock_get_cmd :: "env \<Rightarrow> endpoint \<Rightarrow> char proc" where
  "priv_sock_get_cmd E ep = bind (read_bytes E ep 1 ''priv_sock_get_cmd'') (\<lambda>b. return (hd b))"

definition priv_sock_get_result :: "env \<Rightarrow> endpoint \<Rightarrow> char proc" where
  "priv_sock_get_result E ep = bind (read_bytes E ep 1 ''priv_sock_get_result'') (\<lambda>b. return (hd b))"

definition priv_sock_get_int :: "env \<Rightarrow> endpoint \<Rightarrow> int proc" where
  "priv_sock_get_int E ep = bind (read_bytes E ep 4 ''priv_sock_get_int'') (\<lambda>b. return (decode_int b))"

text \<open>The length is taken as unsigned before it is compared with the limit.\<close>

definition priv_sock_get_str :: "env \<Rightarrow> endpoint \<Rightarrow> string proc" where
  "priv_sock_get_str E ep = bind (priv_sock_get_int E ep) (\<lambda>n.
     let len = unat (word_of_int n :: u32) in
     if len > VSFTP_PRIVSOCK_MAXSTR then die E ''priv_sock_get_str: too big''
     else if len > 0 then read_bytes E ep len ''priv_sock_get_str: read error''
     else return [])"

definition priv_sock_recv_fd :: "env \<Rightarrow> endpoint \<Rightarrow> int proc" where
  "priv_sock_recv_fd E ep = bind (chan_read ep 1) (\<lambda>r. case r of
     None \<Rightarrow> die E ''recvmsg''
   | Some items \<Rightarrow> (case hd items of
       Fd fd \<Rightarrow> if fd = -1 then die E ''no passed fd'' else return fd
     | Byte _ \<Rightarrow> die E ''no passed fd''))"

text \<open>The same process, seen from the parent's side: its session is the parent's copy.\<close>

definition swap :: "world \<Rightarrow> world" where
  "swap w = w\<lparr>sess := psess w, psess := sess w\<rparr>"

definition as_parent :: "'a proc \<Rightarrow> 'a proc" where
  "as_parent m w = (case m (swap w) of Done x w' \<Rightarrow> Done x (swap w') | Halt h w' \<Rightarrow> Halt h (swap w'))"

section \<open>What is sent is what is received\<close>

lemma read_child_bytes:
  "c2p w = map Byte b @ rest \<Longrightarrow> read_bytes E Parent_end (length b) msg w = Done b (w\<lparr>c2p := rest\<rparr>)"
  "p2c w = map Byte b @ rest \<Longrightarrow> read_bytes E Child_end (length b) msg w = Done b (w\<lparr>p2c := rest\<rparr>)"
  by (simp_all add: read_bytes_def bind_def chan_read_def return_def comp_def)

lemma get_int_sent:
  "is_int n \<Longrightarrow> c2p w = map Byte (encode_int n) @ rest \<Longrightarrow>
     priv_sock_get_int E Parent_end w = Done n (w\<lparr>c2p := rest\<rparr>)"
  "is_int n \<Longrightarrow> p2c w = map Byte (encode_int n) @ rest \<Longrightarrow>
     priv_sock_get_int E Child_end w = Done n (w\<lparr>p2c := rest\<rparr>)"
  using read_child_bytes[of w "encode_int n" rest E "''priv_sock_get_int''"]
  by (simp_all add: priv_sock_get_int_def bind_def return_def decode_encode_int)

lemma get_byte_sent:
  "c2p w = Byte c # rest \<Longrightarrow> priv_sock_get_cmd E Parent_end w = Done c (w\<lparr>c2p := rest\<rparr>)"
  "p2c w = Byte c # rest \<Longrightarrow> priv_sock_get_result E Child_end w = Done c (w\<lparr>p2c := rest\<rparr>)"
  by (simp_all add: priv_sock_get_cmd_def priv_sock_get_result_def read_bytes_def bind_def chan_read_def return_def)

lemma recv_fd_sent:
  "fd \<noteq> -1 \<Longrightarrow> c2p w = Fd fd # rest \<Longrightarrow> priv_sock_recv_fd E Parent_end w = Done fd (w\<lparr>c2p := rest\<rparr>)"
  "fd \<noteq> -1 \<Longrightarrow> p2c w = Fd fd # rest \<Longrightarrow> priv_sock_recv_fd E Child_end w = Done fd (w\<lparr>p2c := rest\<rparr>)"
  by (simp_all add: priv_sock_recv_fd_def bind_def chan_read_def return_def)

lemma get_str_sent:
  assumes "length s \<le> VSFTP_PRIVSOCK_MAXSTR"
    and "c2p w = map Byte (encode_int (int (length s)) @ s) @ rest"
  shows "priv_sock_get_str E Parent_end w = Done s (w\<lparr>c2p := rest\<rparr>)"
proof -
  have n: "length s < 2 ^ 31" using assms(1) by (simp add: VSFTP_PRIVSOCK_MAXSTR_def)
  then have i: "is_int (int (length s))" by (simp add: is_int_def)
  have "c2p w = map Byte (encode_int (int (length s))) @ map Byte s @ rest" using assms(2) by simp
  note g = get_int_sent(1)[OF i this, of E]
  have "read_bytes E Parent_end (length s) ''priv_sock_get_str: read error'' (w\<lparr>c2p := map Byte s @ rest\<rparr>)
      = Done s (w\<lparr>c2p := rest\<rparr>)"
    using read_child_bytes(1)[of "w\<lparr>c2p := map Byte s @ rest\<rparr>" s rest] by simp
  then show ?thesis using g n assms(1)
    by (auto simp: priv_sock_get_str_def bind_def Let_def return_def)
qed

section \<open>The channel keeps every invariant\<close>

lemma base_chan: "chans I \<Longrightarrow> I w \<Longrightarrow> I (w\<lparr>c2p := x\<rparr>)" "chans I \<Longrightarrow> I w \<Longrightarrow> I (w\<lparr>p2c := y\<rparr>)"
proof -
  assume b: "chans I" and w: "I w"
  then have "I (w\<lparr>c2p := x, p2c := p2c w\<rparr>)" unfolding chans_def by blast
  then show "I (w\<lparr>c2p := x\<rparr>)" by simp
next
  assume b: "chans I" and w: "I w"
  then have "I (w\<lparr>c2p := c2p w, p2c := y\<rparr>)" unfolding chans_def by blast
  then show "I (w\<lparr>p2c := y\<rparr>)" by simp
qed

lemma keeps_chan [safes]: "chans I \<Longrightarrow> keeps I (chan_write ep xs)" "chans I \<Longrightarrow> keeps I (chan_read ep n)"
  by (auto simp: keeps_def triple_def chan_write_def chan_read_def base_chan split: endpoint.split)

lemma keeps_read_bytes [safes]: "base I \<Longrightarrow> chans I \<Longrightarrow> keeps I (read_bytes E ep n msg)"
  unfolding read_bytes_def by (intro safes)

lemma keeps_priv_sock [safes]:
  "base I \<Longrightarrow> chans I \<Longrightarrow> keeps I (priv_sock_send_cmd ep c)" "base I \<Longrightarrow> chans I \<Longrightarrow> keeps I (priv_sock_send_result ep c)"
  "base I \<Longrightarrow> chans I \<Longrightarrow> keeps I (priv_sock_send_int ep n)" "base I \<Longrightarrow> chans I \<Longrightarrow> keeps I (priv_sock_send_str ep s)"
  "base I \<Longrightarrow> chans I \<Longrightarrow> keeps I (priv_sock_send_fd ep n)" "base I \<Longrightarrow> chans I \<Longrightarrow> keeps I (priv_sock_get_cmd E ep)"
  "base I \<Longrightarrow> chans I \<Longrightarrow> keeps I (priv_sock_get_result E ep)" "base I \<Longrightarrow> chans I \<Longrightarrow> keeps I (priv_sock_get_int E ep)"
  "base I \<Longrightarrow> chans I \<Longrightarrow> keeps I (priv_sock_get_str E ep)"
  unfolding priv_sock_send_cmd_def priv_sock_send_result_def priv_sock_send_int_def priv_sock_send_str_def
    priv_sock_send_fd_def priv_sock_get_cmd_def priv_sock_get_result_def priv_sock_get_int_def
    priv_sock_get_str_def Let_def
  by (intro safes; simp)+

lemma keeps_recv_fd [safes]: "base I \<Longrightarrow> chans I \<Longrightarrow> keeps I (priv_sock_recv_fd E ep)"
  unfolding priv_sock_recv_fd_def by (intro safes) (auto intro: safes split: item.split)

lemma swap_swap [simp]: "swap (swap w) = w"
  by (simp add: swap_def)

lemma swap_sel [simp]: "sess (swap w) = psess w" "psess (swap w) = sess w" "trace (swap w) = trace w"
  "c2p (swap w) = c2p w" "p2c (swap w) = p2c w"
  by (simp_all add: swap_def)

lemma keeps_as_parent:
  assumes "keeps (\<lambda>w. I (swap w)) m"
  shows "keeps I (as_parent m)"
  unfolding keeps_def
proof (rule tripleI)
  fix w assume "I w"
  then show "case as_parent m w of Done x w' \<Rightarrow> I w' | Halt _ w' \<Rightarrow> I w'"
    using tripleD[OF assms[unfolded keeps_def], of "swap w"]
    by (cases "m (swap w)") (simp_all add: as_parent_def)
qed

end
