(* ===== verification/Sysutil_Io.thy ===== *)
theory Sysutil_Io
  imports Privsock
begin

text \<open>
  The wrappers of src/sysutil.c around system calls, as far as they decide something themselves:
  which failures abort the process, what is masked, and how a stat buffer is read. Write and
  Read_loop stand for the whole loops vsf_sysutil_write_loop and vsf_sysutil_read_loop.
\<close>

section \<open>Files\<close>

definition vsf_sysutil_close :: "env \<Rightarrow> int \<Rightarrow> unit proc" where
  "vsf_sysutil_close E fd = bind (sys_int E (Close fd)) (\<lambda>retval.
     if retval \<noteq> 0 then die E ''close'' else return ())"

definition vsf_sysutil_fstat :: "env \<Rightarrow> int \<Rightarrow> statbuf proc" where
  "vsf_sysutil_fstat E fd = bind (sys_stat E (Fstat fd)) (\<lambda>r. case r of
     None \<Rightarrow> die E ''fstat'' | Some st \<Rightarrow> return st)"

definition vsf_sysutil_fchown :: "env \<Rightarrow> int \<Rightarrow> int \<Rightarrow> int \<Rightarrow> unit proc" where
  "vsf_sysutil_fchown E fd uid gid = bind (sys_int E (Fchown fd uid gid)) (\<lambda>r.
     if r \<noteq> 0 then die E ''fchown'' else return ())"

definition vsf_sysutil_fchmod :: "env \<Rightarrow> int \<Rightarrow> u32 \<Rightarrow> unit proc" where
  "vsf_sysutil_fchmod E fd mode = bind (sys_int E (Fchmod fd (and mode 511))) (\<lambda>r.
     if r \<noteq> 0 then die E ''fchmod'' else return ())"

definition vsf_sysutil_chmod :: "env \<Rightarrow> string \<Rightarrow> u32 \<Rightarrow> int proc" where
  "vsf_sysutil_chmod E p_filename mode = sys_int E (Chmod p_filename (and mode 511))"

definition vsf_sysutil_get_file_offset :: "env \<Rightarrow> int \<Rightarrow> int proc" where
  "vsf_sysutil_get_file_offset E fd = bind (sys_int E (File_offset fd)) (\<lambda>retval.
     if retval < 0 then die E ''lseek'' else return retval)"

definition vsf_sysutil_lseek_to :: "env \<Rightarrow> int \<Rightarrow> int \<Rightarrow> unit proc" where
  "vsf_sysutil_lseek_to E fd seek_pos =
     (if seek_pos < 0 then die E ''negative seek_pos in vsf_sysutil_lseek_to''
      else bind (sys_int E (Lseek_to fd seek_pos)) (\<lambda>retval.
        if retval < 0 then die E ''lseek'' else return ()))"

definition vsf_sysutil_lseek_end :: "env \<Rightarrow> int \<Rightarrow> unit proc" where
  "vsf_sysutil_lseek_end E fd = bind (sys_int E (Lseek_end fd)) (\<lambda>retval.
     if retval < 0 then die E ''lseek'' else return ())"

definition vsf_sysutil_get_error :: "env \<Rightarrow> sys_errno proc" where
  "vsf_sysutil_get_error E = bind (sys E Errno) (\<lambda>r. return (ret_err r))"

section \<open>Stat buffers\<close>

text \<open>The bits of st_mode: S_IFMT and the file types, then the permissions.\<close>

abbreviation (input) S_IFMT :: u32 where "S_IFMT \<equiv> 0xF000"
abbreviation (input) S_IFSOCK :: u32 where "S_IFSOCK \<equiv> 0xC000"
abbreviation (input) S_IFLNK :: u32 where "S_IFLNK \<equiv> 0xA000"
abbreviation (input) S_IFREG :: u32 where "S_IFREG \<equiv> 0x8000"
abbreviation (input) S_IFBLK :: u32 where "S_IFBLK \<equiv> 0x6000"
abbreviation (input) S_IFDIR :: u32 where "S_IFDIR \<equiv> 0x4000"
abbreviation (input) S_IFCHR :: u32 where "S_IFCHR \<equiv> 0x2000"
abbreviation (input) S_IFIFO :: u32 where "S_IFIFO \<equiv> 0x1000"

definition vsf_sysutil_statbuf_is_regfile :: "statbuf \<Rightarrow> bool" where
  "vsf_sysutil_statbuf_is_regfile st \<longleftrightarrow> and (st_mode st) S_IFMT = S_IFREG"

definition vsf_sysutil_statbuf_is_symlink :: "statbuf \<Rightarrow> bool" where
  "vsf_sysutil_statbuf_is_symlink st \<longleftrightarrow> and (st_mode st) S_IFMT = S_IFLNK"

definition vsf_sysutil_statbuf_is_socket :: "statbuf \<Rightarrow> bool" where
  "vsf_sysutil_statbuf_is_socket st \<longleftrightarrow> and (st_mode st) S_IFMT = S_IFSOCK"

definition vsf_sysutil_statbuf_is_dir :: "statbuf \<Rightarrow> bool" where
  "vsf_sysutil_statbuf_is_dir st \<longleftrightarrow> and (st_mode st) S_IFMT = S_IFDIR"

definition vsf_sysutil_statbuf_get_perms :: "statbuf \<Rightarrow> string" where
  "vsf_sysutil_statbuf_get_perms st = (
     let m = st_mode st; t = and m S_IFMT;
         bit = (\<lambda>b c. if and m b \<noteq> 0 then c else CHR ''-'');
         exec = (\<lambda>b s c C. if and m s \<noteq> 0 then (if and m b \<noteq> 0 then c else C) else bit b (CHR ''x''))
     in [if t = S_IFREG then CHR ''-'' else if t = S_IFDIR then CHR ''d''
         else if t = S_IFLNK then CHR ''l'' else if t = S_IFIFO then CHR ''p''
         else if t = S_IFSOCK then CHR ''s'' else if t = S_IFCHR then CHR ''c''
         else if t = S_IFBLK then CHR ''b'' else CHR ''?'',
         bit 256 (CHR ''r''), bit 128 (CHR ''w''), exec 64 2048 (CHR ''s'') (CHR ''S''),
         bit 32 (CHR ''r''), bit 16 (CHR ''w''), exec 8 1024 (CHR ''s'') (CHR ''S''),
         bit 4 (CHR ''r''), bit 2 (CHR ''w''), exec 1 512 (CHR ''t'') (CHR ''T'')])"

definition vsf_sysutil_statbuf_get_size :: "statbuf \<Rightarrow> int res" where
  "vsf_sysutil_statbuf_get_size st =
     (if st_size st < 0 then Inl (Die ''invalid inode size in vsf_sysutil_statbuf_get_size'')
      else Inr (st_size st))"

definition vsf_sysutil_statbuf_is_readable_other :: "statbuf \<Rightarrow> bool" where
  "vsf_sysutil_statbuf_is_readable_other st \<longleftrightarrow> and (st_mode st) 4 \<noteq> 0"

text \<open>Dates are libc's strftime of the modification time.\<close>

definition strftime :: "env \<Rightarrow> string \<Rightarrow> int \<Rightarrow> bool \<Rightarrow> string proc" where
  "strftime E fmt t localt =
     bind (sys_str E (Call ''strftime'' [t, if localt then 1 else 0] [fmt])) (\<lambda>r. case r of
       None \<Rightarrow> die E ''strftime'' | Some d \<Rightarrow> return d)"

definition vsf_sysutil_statbuf_get_date :: "env \<Rightarrow> statbuf \<Rightarrow> bool \<Rightarrow> int \<Rightarrow> string proc" where
  "vsf_sysutil_statbuf_get_date E st use_localtime curr_time =
     strftime E (if st_mtime st > curr_time \<or> curr_time - st_mtime st > 60*60*24*182
                 then ''%b %d  %Y'' else ''%b %d %H:%M'') (st_mtime st) use_localtime"

definition vsf_sysutil_statbuf_get_numeric_date :: "env \<Rightarrow> statbuf \<Rightarrow> bool \<Rightarrow> string proc" where
  "vsf_sysutil_statbuf_get_numeric_date E st use_localtime =
     strftime E ''%Y%m%d%H%M%S'' (st_mtime st) use_localtime"

definition vsf_sysutil_statbuf_get_sortkey_mtime :: "statbuf \<Rightarrow> string" where
  "vsf_sysutil_statbuf_get_sortkey_mtime st = (let n = st_mtime st in
     if n < 0 then CHR ''-'' # (let d = digits 10 (nat (- n)) in replicate (29 - length d) (CHR ''0'') @ d)
     else (let d = digits 10 (nat n) in replicate (30 - length d) (CHR ''0'') @ d))"

section \<open>Sockets\<close>

definition vsf_sysutil_get_ipv4_sock :: "env \<Rightarrow> int proc" where
  "vsf_sysutil_get_ipv4_sock E = bind (sys_int E Socket4) (\<lambda>retval.
     if retval < 0 then die E ''socket'' else return retval)"

definition vsf_sysutil_get_ipv6_sock :: "env \<Rightarrow> int proc" where
  "vsf_sysutil_get_ipv6_sock E = bind (sys_int E Socket6) (\<lambda>retval.
     if retval < 0 then die E ''socket'' else return retval)"

definition vsf_sysutil_get_ipsock :: "env \<Rightarrow> sockaddr \<Rightarrow> int proc" where
  "vsf_sysutil_get_ipsock E p_addr = (case p_addr of
     Sin _ _ \<Rightarrow> vsf_sysutil_get_ipv4_sock E
   | Sin6 _ _ _ \<Rightarrow> vsf_sysutil_get_ipv6_sock E
   | Sa_unspec \<Rightarrow> bug E ''bad family'')"

definition vsf_sysutil_bind :: "env \<Rightarrow> int \<Rightarrow> sockaddr \<Rightarrow> int proc" where
  "vsf_sysutil_bind E fd p_sockptr =
     (if p_sockptr = Sa_unspec then die E ''can only support ipv4 and ipv6 currently''
      else sys_int E (Bind fd p_sockptr))"

definition vsf_sysutil_listen :: "env \<Rightarrow> int \<Rightarrow> int \<Rightarrow> int proc" where
  "vsf_sysutil_listen E fd backlog = bind (sys_int E (Listen fd backlog)) (\<lambda>retval.
     if vsf_sysutil_retval_is_error retval
     then bind (vsf_sysutil_get_error E) (\<lambda>e.
       if e \<noteq> kErrADDRINUSE then die E ''listen'' else return retval)
     else return retval)"

text \<open>Accept and Connect stand for the select and accept, or connect and select, with the timeout.\<close>

definition vsf_sysutil_accept_timeout :: "env \<Rightarrow> int \<Rightarrow> u32 \<Rightarrow> (int \<times> sockaddr) proc" where
  "vsf_sysutil_accept_timeout E fd wait_seconds = bind (sys E (Accept fd wait_seconds)) (\<lambda>r.
     if ret_int r < 0 then return (ret_int r, Sa_unspec)
     else if ret_peer r = Sa_unspec then die E ''can only support ipv4 and ipv6 currently''
     else return (ret_int r, ret_peer r))"

definition vsf_sysutil_connect_timeout :: "env \<Rightarrow> int \<Rightarrow> sockaddr \<Rightarrow> u32 \<Rightarrow> int proc" where
  "vsf_sysutil_connect_timeout E fd p_addr wait_seconds =
     (if p_addr = Sa_unspec then die E ''can only support ipv4 and ipv6 currently''
      else sys_int E (Connect fd p_addr wait_seconds))"

text \<open>An unsigned char.\<close>

definition vsf_sysutil_get_random_byte :: "env \<Rightarrow> 8 word proc" where
  "vsf_sysutil_get_random_byte E = bind (sys_int E Random_byte) (\<lambda>n. return (word_of_int n))"

section \<open>Invariants\<close>

lemma keeps_sysutil_io [safes]:
  "base I \<Longrightarrow> keeps I (vsf_sysutil_close E fd)"
  "base I \<Longrightarrow> keeps I (vsf_sysutil_fstat E fd)"
  "base I \<Longrightarrow> keeps I (vsf_sysutil_get_file_offset E fd)"
  "base I \<Longrightarrow> keeps I (vsf_sysutil_lseek_to E fd pos)"
  "base I \<Longrightarrow> keeps I (vsf_sysutil_lseek_end E fd)"
  "base I \<Longrightarrow> keeps I (vsf_sysutil_get_error E)"
  "base I \<Longrightarrow> keeps I (strftime E fmt t l)"
  "base I \<Longrightarrow> keeps I (vsf_sysutil_get_random_byte E)"
  unfolding vsf_sysutil_close_def vsf_sysutil_fstat_def vsf_sysutil_get_file_offset_def
    vsf_sysutil_lseek_to_def vsf_sysutil_lseek_end_def vsf_sysutil_get_error_def strftime_def
    vsf_sysutil_get_random_byte_def
  by (intro safes; simp)+

lemma keeps_dates [safes]:
  "base I \<Longrightarrow> keeps I (vsf_sysutil_statbuf_get_date E st l t)"
  "base I \<Longrightarrow> keeps I (vsf_sysutil_statbuf_get_numeric_date E st l)"
  unfolding vsf_sysutil_statbuf_get_date_def vsf_sysutil_statbuf_get_numeric_date_def
  by (intro safes; simp)+

lemma keeps_sockets [safes]:
  "base I \<Longrightarrow> keeps I (vsf_sysutil_get_ipv4_sock E)"
  "base I \<Longrightarrow> keeps I (vsf_sysutil_get_ipv6_sock E)"
  "base I \<Longrightarrow> keeps I (vsf_sysutil_listen E fd n)"
  unfolding vsf_sysutil_get_ipv4_sock_def vsf_sysutil_get_ipv6_sock_def vsf_sysutil_listen_def
  by (intro safes; simp)+

lemma keeps_get_ipsock [safes]: "base I \<Longrightarrow> keeps I (vsf_sysutil_get_ipsock E a)"
  unfolding vsf_sysutil_get_ipsock_def by (cases a) (auto intro: safes)

text \<open>The calls that a property may restrict need to be allowed.\<close>

lemma keeps_restricted [safes]:
  "base I \<Longrightarrow> allows I (Bind fd a) \<Longrightarrow> keeps I (vsf_sysutil_bind E fd a)"
  "base I \<Longrightarrow> allows I (Connect fd a t) \<Longrightarrow> keeps I (vsf_sysutil_connect_timeout E fd a t)"
  "base I \<Longrightarrow> allows I (Accept fd t) \<Longrightarrow> keeps I (vsf_sysutil_accept_timeout E fd t)"
  "base I \<Longrightarrow> allows I (Fchown fd u g) \<Longrightarrow> keeps I (vsf_sysutil_fchown E fd u g)"
  "base I \<Longrightarrow> allows I (Fchmod fd (and m 511)) \<Longrightarrow> keeps I (vsf_sysutil_fchmod E fd m)"
  "base I \<Longrightarrow> allows I (Chmod x (and m 511)) \<Longrightarrow> keeps I (vsf_sysutil_chmod E x m)"
  unfolding vsf_sysutil_bind_def vsf_sysutil_connect_timeout_def vsf_sysutil_accept_timeout_def
    vsf_sysutil_fchown_def vsf_sysutil_fchmod_def vsf_sysutil_chmod_def
  by (auto intro!: keeps_if keeps_bind keeps_sys keeps_sys_ops keeps_die keeps_return)

end
