(* ===== verification/Secutil.thy ===== *)
theory Secutil
  imports Sysutil_Io
begin

text \<open>
  src/secutil.c, changing to a less privileged identity, and src/filestr.c, reading a small file
  into a string, with the wrappers of src/sysutil.c they rest on.
\<close>

section \<open>Identity calls\<close>

text \<open>A call whose failure aborts the process.\<close>

definition must_call :: "env \<Rightarrow> syscall \<Rightarrow> string \<Rightarrow> unit proc" where
  "must_call E c msg = bind (sys_int E c) (\<lambda>retval. if retval \<noteq> 0 then die E msg else return ())"

definition vsf_sysutil_setuid_numeric :: "env \<Rightarrow> int \<Rightarrow> unit proc" where
  "vsf_sysutil_setuid_numeric E uid = must_call E (Call ''setuid'' [uid] []) ''setuid''"

definition vsf_sysutil_setgid_numeric :: "env \<Rightarrow> int \<Rightarrow> unit proc" where
  "vsf_sysutil_setgid_numeric E gid = must_call E (Call ''setgid'' [gid] []) ''setgid''"

definition vsf_sysutil_seteuid_numeric :: "env \<Rightarrow> int \<Rightarrow> unit proc" where
  "vsf_sysutil_seteuid_numeric E uid = must_call E (Call ''setreuid'' [-1, uid] []) ''seteuid''"

definition vsf_sysutil_setegid_numeric :: "env \<Rightarrow> int \<Rightarrow> unit proc" where
  "vsf_sysutil_setegid_numeric E gid = must_call E (Call ''setregid'' [-1, gid] []) ''setegid''"

definition vsf_sysutil_clear_supp_groups :: "env \<Rightarrow> unit proc" where
  "vsf_sysutil_clear_supp_groups E = must_call E (Call ''setgroups'' [0] []) ''setgroups''"

definition vsf_sysutil_initgroups :: "env \<Rightarrow> passwd \<Rightarrow> unit proc" where
  "vsf_sysutil_initgroups E p_user = must_call E (Call ''initgroups'' [pw_gid p_user] [pw_name p_user]) ''initgroups''"

definition vsf_sysutil_chroot :: "env \<Rightarrow> string \<Rightarrow> unit proc" where
  "vsf_sysutil_chroot E p_root_path = must_call E (Call ''chroot'' [] [p_root_path]) ''chroot''"

definition vsf_sysutil_geteuid :: "env \<Rightarrow> int proc" where
  "vsf_sysutil_geteuid E = bind (sys_int E (Call ''geteuid'' [] [])) (\<lambda>retval.
     if retval < 0 then die E ''geteuid'' else return retval)"

definition vsf_sysutil_getegid :: "env \<Rightarrow> int proc" where
  "vsf_sysutil_getegid E = bind (sys_int E (Call ''getegid'' [] [])) (\<lambda>retval.
     if retval < 0 then die E ''getegid'' else return retval)"

definition str_getpwnam :: "env \<Rightarrow> string \<Rightarrow> passwd option proc" where
  "str_getpwnam E p_user_str = bind (sys E (Getpwnam (c_text p_user_str))) (\<lambda>r. return (ret_user r))"

section \<open>Changing credentials\<close>

abbreviation (input) VSF_SECUTIL_OPTION_CHROOT :: u32 where "VSF_SECUTIL_OPTION_CHROOT \<equiv> 1"
abbreviation (input) VSF_SECUTIL_OPTION_USE_GROUPS :: u32 where "VSF_SECUTIL_OPTION_USE_GROUPS \<equiv> 2"
abbreviation (input) VSF_SECUTIL_OPTION_CHANGE_EUID :: u32 where "VSF_SECUTIL_OPTION_CHANGE_EUID \<equiv> 4"
abbreviation (input) VSF_SECUTIL_OPTION_NO_FDS :: u32 where "VSF_SECUTIL_OPTION_NO_FDS \<equiv> 8"
abbreviation (input) VSF_SECUTIL_OPTION_NO_PROCS :: u32 where "VSF_SECUTIL_OPTION_NO_PROCS \<equiv> 16"
abbreviation (input) VSF_SECUTIL_OPTION_ALLOW_WRITEABLE_ROOT :: u32 where
  "VSF_SECUTIL_OPTION_ALLOW_WRITEABLE_ROOT \<equiv> 32"

definition option_on :: "u32 \<Rightarrow> u32 \<Rightarrow> bool" where
  "option_on options flag \<longleftrightarrow> and options flag \<noteq> 0"

text \<open>Going to the jail directory, with the target's effective ids if asked, and chroot there.\<close>

definition go_to_directory :: "env \<Rightarrow> passwd \<Rightarrow> string \<Rightarrow> string option \<Rightarrow> u32 \<Rightarrow> unit proc" where
  "go_to_directory E p_user dir_str p_ext_dir_str options =
     bind (if option_on options VSF_SECUTIL_OPTION_CHANGE_EUID
           then bind (vsf_sysutil_geteuid E) (\<lambda>saved_euid. bind (vsf_sysutil_getegid E) (\<lambda>saved_egid.
                  seq (block [vsf_sysutil_setegid_numeric E (pw_gid p_user),
                              vsf_sysutil_seteuid_numeric E (pw_uid p_user)])
                    (return (saved_euid, saved_egid))))
           else return (0, 0)) (\<lambda>(saved_euid, saved_egid). block [
       bind (sys_int E (Chdir (c_text dir_str))) (\<lambda>retval.
         if retval \<noteq> 0 then die2 E ''cannot change directory:'' (Some dir_str) else return ()),
       (case p_ext_dir_str of None \<Rightarrow> return () | Some ext \<Rightarrow>
         if ext = [] then return ()
         else bind (sys_int E (Chdir (c_text ext))) (\<lambda>retval.
           if retval \<noteq> 0 \<and> option_on options VSF_SECUTIL_OPTION_CHROOT
           then die2 E ''cannot change directory:'' (Some ext) else return ())),
       whenp (option_on options VSF_SECUTIL_OPTION_CHANGE_EUID) (block [
         vsf_sysutil_seteuid_numeric E saved_euid,
         vsf_sysutil_setegid_numeric E saved_egid])])"

definition enter_directory :: "env \<Rightarrow> passwd \<Rightarrow> string \<Rightarrow> string option \<Rightarrow> u32 \<Rightarrow> unit proc" where
  "enter_directory E p_user dir_str p_ext_dir_str options = block [
     go_to_directory E p_user dir_str p_ext_dir_str options,
     whenp (option_on options VSF_SECUTIL_OPTION_CHROOT) (vsf_sysutil_chroot E ''.'')]"

text \<open>The last steps, once no privilege is to be kept.\<close>

definition after_setuid :: "env \<Rightarrow> u32 \<Rightarrow> u32 \<Rightarrow> unit proc" where
  "after_setuid E caps options = block [
     whenp (caps \<noteq> 0) (sysu E (Call ''adopt_capabilities'' [uint caps] [])),
     whenp (option_on options VSF_SECUTIL_OPTION_NO_PROCS) (must_call E (Call ''set_no_procs'' [] []) ''setrlimit NPROC''),
     whenp (option_on options VSF_SECUTIL_OPTION_CHROOT
         \<and> \<not> option_on options VSF_SECUTIL_OPTION_ALLOW_WRITEABLE_ROOT)
       (bind (sys_int E (Call ''access_write'' [] [''/''])) (\<lambda>retval.
          if retval = 0 then die E ''vsftpd: refusing to run with writable root inside chroot()''
          else return ()))]"

definition drop_ids :: "env \<Rightarrow> passwd \<Rightarrow> u32 \<Rightarrow> u32 \<Rightarrow> unit proc" where
  "drop_ids E p_user caps options = block [
     vsf_sysutil_setgid_numeric E (pw_gid p_user),
     vsf_sysutil_setuid_numeric E (pw_uid p_user),
     after_setuid E caps options]"

text \<open>A missing directory string (a null pointer) and an empty one both mean the home directory.\<close>

definition vsf_secutil_change_credentials ::
    "env \<Rightarrow> string \<Rightarrow> string \<Rightarrow> string option \<Rightarrow> u32 \<Rightarrow> u32 \<Rightarrow> unit proc" where
  "vsf_secutil_change_credentials E p_user_str p_dir_str p_ext_dir_str caps options =
     bind (sys_int E (Call ''getuid'' [] [])) (\<lambda>uid.
     if uid \<noteq> 0 then bug E ''vsf_secutil_change_credentials: not running as root''
     else bind (str_getpwnam E p_user_str) (\<lambda>u. case u of
       None \<Rightarrow> die2 E ''cannot locate user entry:'' (Some p_user_str)
     | Some p_user \<Rightarrow> seq (block [
         if option_on options VSF_SECUTIL_OPTION_USE_GROUPS then vsf_sysutil_initgroups E p_user
         else vsf_sysutil_clear_supp_groups E,
         enter_directory E p_user (if p_dir_str = [] then c_text (pw_dir p_user) else p_dir_str)
           p_ext_dir_str options,
         whenp (option_on options VSF_SECUTIL_OPTION_NO_FDS) (must_call E (Call ''set_no_fds'' [] []) ''setrlimit NOFILE'')])
         (if caps = 0 then drop_ids E p_user caps options
          else bind (sys_int E (Call ''has_capabilities'' [] [])) (\<lambda>has.
            if has = 0 then return ()
            else bind (sys_int E (Call ''has_capabilities_as_non_root'' [] [])) (\<lambda>non_root.
              if non_root = 0 then sysu E (Call ''adopt_capabilities'' [uint caps] [])
              else seq (sysu E (Call ''keep_capabilities'' [] []))
                     (drop_ids E p_user caps options))))))"

section \<open>Reading a file into a string\<close>

definition VSFTP_CONF_FILE_MAX :: u32 where "VSFTP_CONF_FILE_MAX = 100000"

text \<open>The result is the C return value with the string; the size is taken modulo 2 to the 32.\<close>

definition str_fileread :: "env \<Rightarrow> string \<Rightarrow> u32 \<Rightarrow> (int \<times> string) proc" where
  "str_fileread E p_filename maxsize = bind (sys_int E (Open_readonly (c_text p_filename))) (\<lambda>fd.
     if vsf_sysutil_retval_is_error fd then return (fd, [])
     else bind (vsf_sysutil_fstat E fd) (\<lambda>st.
       if \<not> vsf_sysutil_statbuf_is_regfile st
       then seq (vsf_sysutil_close E fd) (return (0, []))
       else bind (lift_res E (vsf_sysutil_statbuf_get_size st)) (\<lambda>file_size.
         let secbuf_size = min (word_of_int file_size) maxsize in
         bind (sys_str E (Read_loop fd secbuf_size)) (\<lambda>r. case r of
           None \<Rightarrow> seq (vsf_sysutil_close E fd) (return (-1, []))
         | Some d \<Rightarrow>
           if length d \<noteq> unat secbuf_size then die E ''read size mismatch''
           else seq (vsf_sysutil_close E fd) (return (int (length d), d))))))"

lemma keeps_must_call [safes]: "base I \<Longrightarrow> keeps I (must_call E (Call n a b) msg)"
  unfolding must_call_def by (intro safes; simp)

lemma keeps_read_named: "base I \<Longrightarrow> allows I (Open_readonly (c_text f)) \<Longrightarrow> keeps I (str_fileread E f n)"
  unfolding str_fileread_def Let_def
  by (intro keeps_bind keeps_if keeps_seq keeps_return keeps_sysutil_io keeps_lift_res keeps_option
      keeps_die keeps_sys_ops) (simp_all add: base_allows)

lemma keeps_str_fileread [safes]:
  "base I \<Longrightarrow> (\<And>f. allows I (Open_readonly f)) \<Longrightarrow> keeps I (str_fileread E f n)"
  by (rule keeps_read_named)

section \<open>What a completed change of credentials has done\<close>

lemma must_call_Done: "must_call E c msg w = Done x w' \<longleftrightarrow>
    ret_int (os E (trace w) c) = 0 \<and> w' = w\<lparr>trace := (c, os E (trace w) c) # trace w\<rparr>"
  by (auto simp: must_call_def bind_Done sys_int_def sys_def Let_def return_def bug_ends split: if_splits)

lemmas run_simps = bind_Done seq_Done must_call_Done return_def whenp_def sysu_def sys_int_def sys_def Let_def
  bug_ends

definition succeeded :: "syscall \<Rightarrow> event list \<Rightarrow> bool" where
  "succeeded c t \<longleftrightarrow> (\<exists>r. (c, r) \<in> set t \<and> ret_int r = 0)"

text \<open>The trace only grows.\<close>

definition extends :: "event list \<Rightarrow> world \<Rightarrow> bool" where
  "extends t w \<longleftrightarrow> (\<exists>a. trace w = a @ t)"

lemma extends_base [simp, intro]: "base (extends t)"
  by (auto simp: base_def extends_def allows_def)

lemma extends_allows: "allows (extends t) c"
  by (auto simp: extends_def allows_def)

lemma triple_seq: "triple P m (\<lambda>_. Q) R \<Longrightarrow> triple Q n S R \<Longrightarrow> triple P (seq m n) S R"
  unfolding seq_def by (rule triple_bind)

lemma triple_keeps: "keeps I m \<Longrightarrow> triple I m (\<lambda>_. I) (\<lambda>_. True)"
  unfolding keeps_def by (erule triple_weaken) simp_all

lemma triple_must_call:
  assumes "\<And>w r. P w \<Longrightarrow> ret_int r = 0 \<Longrightarrow> Q () (w\<lparr>trace := (c, r) # trace w\<rparr>)"
  shows "triple P (must_call E c msg) Q (\<lambda>_. True)"
proof (rule tripleI)
  fix w assume P: "P w"
  show "case must_call E c msg w of Done x w' \<Rightarrow> Q x w' | Halt _ _ \<Rightarrow> True"
  proof (cases "must_call E c msg w")
    case (Done x w')
    then have "ret_int (os E (trace w) c) = 0" "w' = w\<lparr>trace := (c, os E (trace w) c) # trace w\<rparr>"
      by (simp_all add: must_call_Done)
    then show ?thesis using assms[OF P] Done by simp
  qed simp
qed

lemma go_to_directory_extends: "keeps (extends t) (go_to_directory E u d ext options)"
  unfolding go_to_directory_def vsf_sysutil_geteuid_def vsf_sysutil_getegid_def
    vsf_sysutil_seteuid_numeric_def vsf_sysutil_setegid_numeric_def
  by (intro keeps_bind keeps_if keeps_seq keeps_return keeps_option keeps_prod keeps_die keeps_die2
        keeps_whenp keeps_block_Cons keeps_block_Nil keeps_must_call keeps_sys_ops extends_base extends_allows)

lemma enter_directory_chroot:
  "triple (extends t) (enter_directory E u d ext options)
     (\<lambda>_ w. \<exists>a. trace w = a @ t
        \<and> (option_on options VSF_SECUTIL_OPTION_CHROOT \<longrightarrow> succeeded (Call ''chroot'' [] [''.'']) a)) (\<lambda>_. True)"
    (is "triple _ _ ?Q _")
proof -
  have chroot: "triple (extends t) (whenp (option_on options VSF_SECUTIL_OPTION_CHROOT)
      (vsf_sysutil_chroot E ''.'')) ?Q (\<lambda>_. True)"
    unfolding whenp_def vsf_sysutil_chroot_def
    by (intro triple_if triple_must_call triple_return) (auto simp: extends_def succeeded_def)
  show ?thesis
    unfolding enter_directory_def block.simps
    by (intro triple_seq[OF triple_keeps[OF go_to_directory_extends]] triple_seq[OF chroot] triple_return)
qed

text \<open>The identity calls of \<open>drop_ids\<close>, newest first.\<close>

definition dropped :: "passwd \<Rightarrow> event list \<Rightarrow> event list \<Rightarrow> bool" where
  "dropped u t b \<longleftrightarrow> (\<exists>a r1 r2. t = a @ (Call ''setuid'' [pw_uid u] [], r1) # (Call ''setgid'' [pw_gid u] [], r2) # b
     \<and> ret_int r1 = 0 \<and> ret_int r2 = 0
     \<and> fst ` set a \<subseteq> {Call ''set_no_procs'' [] [], Call ''access_write'' [] [''/'']})"

lemma dropped_Cons:
  assumes "dropped u t b" "c = Call ''set_no_procs'' [] [] \<or> c = Call ''access_write'' [] [''/'']"
  shows "dropped u ((c, r) # t) b"
proof -
  obtain a r1 r2 where "t = a @ (Call ''setuid'' [pw_uid u] [], r1) # (Call ''setgid'' [pw_gid u] [], r2) # b"
    "ret_int r1 = 0" "ret_int r2 = 0" "fst ` set a \<subseteq> {Call ''set_no_procs'' [] [], Call ''access_write'' [] [''/'']}"
    using assms(1) unfolding dropped_def by blast
  then show ?thesis
    unfolding dropped_def using assms(2) by (intro exI[of _ "(c, r) # a"] exI[of _ r1] exI[of _ r2]) auto
qed

lemma after_setuid_dropped:
  "triple (\<lambda>w. dropped u (trace w) b) (after_setuid E 0 options) (\<lambda>_ w. dropped u (trace w) b) (\<lambda>_. True)"
proof -
  let ?I = "\<lambda>w. dropped u (trace w) b"
  have np: "triple ?I (whenp b' (must_call E (Call ''set_no_procs'' [] []) msg)) (\<lambda>_. ?I) (\<lambda>_. True)" for b' msg
    unfolding whenp_def by (intro triple_if triple_must_call triple_return) (simp_all add: dropped_Cons)
  have wr: "triple ?I (whenp b' (bind (sys_int E (Call ''access_write'' [] [''/'']))
      (\<lambda>retval. if retval = 0 then die E msg else return ()))) (\<lambda>_. ?I) (\<lambda>_. True)" for b' msg
  proof -
    have d: "triple ?I (die E msg) (\<lambda>_. ?I) (\<lambda>_. True)"
      by (rule tripleI) (auto simp: bug_ends split: outcome.split)
    show ?thesis
      unfolding whenp_def
      by (intro triple_if triple_bind[OF triple_sys_ops(1)[where Q = "\<lambda>_. ?I"]] triple_return d)
         (simp_all add: dropped_Cons)
  qed
  have nocaps: "triple ?I (whenp (0 \<noteq> (0 :: u32)) m) (\<lambda>_. ?I) (\<lambda>_. True)" for m
    by (simp add: whenp_def triple_return)
  show ?thesis
    unfolding after_setuid_def block.simps
    by (intro triple_seq[OF nocaps] triple_seq[OF np] triple_seq[OF wr] triple_return)
qed

lemma drop_ids_trace:
  "triple (\<lambda>w. trace w = b) (drop_ids E u 0 options) (\<lambda>_ w. dropped u (trace w) b) (\<lambda>_. True)"
proof -
  let ?Q = "\<lambda>w. \<exists>r2. trace w = (Call ''setgid'' [pw_gid u] [], r2) # b \<and> ret_int r2 = 0"
  have g: "triple (\<lambda>w. trace w = b) (must_call E (Call ''setgid'' [pw_gid u] []) msg) (\<lambda>_. ?Q) (\<lambda>_. True)" for msg
    by (rule triple_must_call) auto
  have s: "triple ?Q (must_call E (Call ''setuid'' [pw_uid u] []) msg) (\<lambda>_ w. dropped u (trace w) b) (\<lambda>_. True)" for msg
    by (rule triple_must_call) (fastforce simp: dropped_def)
  show ?thesis
    unfolding drop_ids_def block.simps vsf_sysutil_setgid_numeric_def vsf_sysutil_setuid_numeric_def
    by (intro triple_seq[OF g] triple_seq[OF s] triple_seq[OF after_setuid_dropped] triple_return)
qed

lemma triple_case: "(\<And>t1. C t1 \<Longrightarrow> triple (P t1) m Q R) \<Longrightarrow> triple (\<lambda>w. \<exists>t1. C t1 \<and> P t1 w) m Q R"
  by (auto simp: triple_def)

lemma die_triple:
  "triple P (die2 E m x) Q (\<lambda>_. True)" "triple P (bug E m) Q (\<lambda>_. True)" "triple P (die E m) Q (\<lambda>_. True)"
  by (rule tripleI, auto simp: die2_def bug_ends split: outcome.split)+

definition confined :: "u32 \<Rightarrow> event list \<Rightarrow> world \<Rightarrow> bool" where
  "confined options t w \<longleftrightarrow> (\<exists>b. trace w = b @ t
     \<and> (option_on options VSF_SECUTIL_OPTION_CHROOT \<longrightarrow> succeeded (Call ''chroot'' [] [''.'']) b))"

lemma confined_more: "confined options t w \<Longrightarrow> confined options t (w\<lparr>trace := e # trace w\<rparr>)"
  unfolding confined_def succeeded_def by (fastforce intro: exI[of _ "e # _"])

lemma keeps_confined: "allows (confined options t) c" "keeps (confined options t) (must_call E c m)"
proof -
  show a: "allows (confined options t) c" for c by (simp add: allows_def confined_more)
  have "keeps (confined options t) (die E m)"
    unfolding die_def bug_def vsf_sysutil_exit_def
    by (intro keeps_seq keeps_halt keeps_block_Cons keeps_block_Nil keeps_sys_ops a)
  then show "keeps (confined options t) (must_call E c m)"
    unfolding must_call_def by (intro keeps_bind keeps_if keeps_return keeps_sys_ops a)
qed

text \<open>The steps from the account to the identity.\<close>

lemma preparation_confines:
  "triple (extends t) (block [
       if b then vsf_sysutil_initgroups E v else vsf_sysutil_clear_supp_groups E,
       enter_directory E v d ext options, whenp b' (must_call E c m)])
     (\<lambda>_. confined options t) (\<lambda>_. True)"
proof -
  have grp: "triple (extends t) (if b then vsf_sysutil_initgroups E v else vsf_sysutil_clear_supp_groups E)
      (\<lambda>_. extends t) (\<lambda>_. True)"
    unfolding vsf_sysutil_initgroups_def vsf_sysutil_clear_supp_groups_def
    by (intro triple_keeps keeps_if keeps_must_call extends_base)
  have ent: "triple (extends t) (enter_directory E v d ext options) (\<lambda>_. confined options t) (\<lambda>_. True)"
    by (rule triple_weaken[OF enter_directory_chroot]) (simp_all add: confined_def)
  have nof: "triple (confined options t) (whenp b' (must_call E c m)) (\<lambda>_. confined options t) (\<lambda>_. True)"
    by (intro triple_keeps keeps_whenp keeps_confined)
  show ?thesis
    unfolding block.simps by (intro triple_seq[OF grp] triple_seq[OF ent] triple_seq[OF nof] triple_return)
qed

lemma account_known:
  "triple (extends t) (str_getpwnam E user) (\<lambda>x w. case x of None \<Rightarrow> True | Some u \<Rightarrow>
     \<exists>t1. (\<exists>b. t1 = b @ t \<and> (Getpwnam (c_text user), RUser (Some u)) \<in> set b) \<and> extends t1 w) (\<lambda>_. True)"
proof (rule tripleI)
  fix w assume "extends t w"
  then obtain b where b: "trace w = b @ t" by (auto simp: extends_def)
  let ?c = "Getpwnam (c_text user)"
  let ?r = "os E (trace w) ?c"
  have "ret_user ?r = Some u \<Longrightarrow> ?r = RUser (Some u)" for u
    by (cases ?r) (simp_all add: ret_user_def)
  then show "case str_getpwnam E user w of Done x w' \<Rightarrow> (case x of None \<Rightarrow> True | Some u \<Rightarrow>
      \<exists>t1. (\<exists>b. t1 = b @ t \<and> (?c, RUser (Some u)) \<in> set b) \<and> extends t1 w') | Halt _ _ \<Rightarrow> True"
  proof (cases "ret_user ?r")
    case (Some u)
    let ?b = "(?c, ?r) # b"
    have "(?c, RUser (Some u)) \<in> set ?b" using \<open>\<And>u. ret_user ?r = Some u \<Longrightarrow> ?r = RUser (Some u)\<close>[OF Some] by simp
    moreover have "extends (?b @ t) (w\<lparr>trace := (?c, ?r) # trace w\<rparr>)"
      unfolding extends_def by (rule exI[of _ "[]"]) (simp add: b)
    moreover have "str_getpwnam E user w = Done (Some u) (w\<lparr>trace := (?c, ?r) # trace w\<rparr>)"
      using Some by (simp add: str_getpwnam_def bind_def sys_def Let_def return_def)
    ultimately show ?thesis by (simp only: outcome.case option.case) blast
  qed (simp add: str_getpwnam_def bind_def sys_def Let_def return_def)
qed

text \<open>
  Without capabilities to keep: chroot first when asked, then the group, then the user, for good, both
  those of the account of that name.
\<close>

lemma change_credentials_drops:
  "triple (extends t) (vsf_secutil_change_credentials E user d ext 0 options)
     (\<lambda>_ w. \<exists>u b. dropped u (trace w) (b @ t) \<and> (Getpwnam (c_text user), RUser (Some u)) \<in> set b
        \<and> (option_on options VSF_SECUTIL_OPTION_CHROOT \<longrightarrow> succeeded (Call ''chroot'' [] [''.'']) b)) (\<lambda>_. True)"
    (is "triple _ _ ?Q _")
proof -
  have uid: "triple (extends t) (sys_int E c) (\<lambda>_. extends t) (\<lambda>_. True)" for c
    by (intro triple_keeps keeps_sys_ops extends_allows)
  have drop: "triple (confined options (b @ t)) (drop_ids E u 0 options) ?Q (\<lambda>_. True)"
    if k: "(Getpwnam (c_text user), RUser (Some u)) \<in> set b" for u b
  proof (rule tripleI)
    fix w assume "confined options (b @ t) w"
    then obtain b' where "trace w = (b' @ b) @ t"
      "option_on options VSF_SECUTIL_OPTION_CHROOT \<longrightarrow> succeeded (Call ''chroot'' [] [''.'']) (b' @ b)"
      by (auto simp: confined_def succeeded_def)
    then show "case drop_ids E u 0 options w of Done x w' \<Rightarrow> ?Q x w' | Halt _ _ \<Rightarrow> True"
      using tripleD[OF drop_ids_trace[of "trace w" E u options], of w] k
      by (auto split: outcome.splits intro!: exI[of _ u] exI[of _ "b' @ b"])
  qed
  have user: "triple (\<lambda>w. case x of None \<Rightarrow> True | Some u \<Rightarrow>
       \<exists>t1. (\<exists>b. t1 = b @ t \<and> (Getpwnam (c_text user), RUser (Some u)) \<in> set b) \<and> extends t1 w)
     (case x of None \<Rightarrow> die2 E m y | Some v \<Rightarrow> f v) ?Q (\<lambda>_. True)"
    if "\<And>v b. (Getpwnam (c_text user), RUser (Some v)) \<in> set b \<Longrightarrow> triple (extends (b @ t)) (f v) ?Q (\<lambda>_. True)"
    for x f m y
    using that by (cases x) (auto intro: die_triple intro!: triple_case)
  show ?thesis
    unfolding vsf_secutil_change_credentials_def
    by (intro triple_bind[OF uid] triple_if die_triple triple_bind[OF account_known] user
        triple_seq[OF preparation_confines] drop) simp_all
qed

text \<open>With capabilities to keep, the chroot at least.\<close>

lemma change_credentials_confines:
  "triple (extends t) (vsf_secutil_change_credentials E user d ext caps options)
     (\<lambda>_. confined options t) (\<lambda>_. True)"
proof -
  have uid: "triple (extends t) (sys_int E c) (\<lambda>_. extends t) (\<lambda>_. True)" for c
    by (intro triple_keeps keeps_sys_ops extends_allows)
  have pw: "triple (extends t) (str_getpwnam E user) (\<lambda>_. extends t) (\<lambda>_. True)"
    unfolding str_getpwnam_def by (intro triple_keeps keeps_bind keeps_sys keeps_return extends_allows)
  have d: "keeps (confined options t) (die E m)" for m
    unfolding die_def bug_def vsf_sysutil_exit_def
    by (intro keeps_seq keeps_halt keeps_block_Cons keeps_block_Nil keeps_sys_ops keeps_confined)
  have drop: "keeps (confined options t) (drop_ids E u caps options)" for u
    unfolding drop_ids_def after_setuid_def vsf_sysutil_setgid_numeric_def vsf_sysutil_setuid_numeric_def
    by (intro keeps_block_Cons keeps_block_Nil keeps_whenp keeps_bind keeps_if keeps_return keeps_sys_ops
        keeps_confined d)
  have rest: "triple (confined options t) (if caps = 0 then drop_ids E u caps options
      else bind (sys_int E c1) (\<lambda>has. if has = 0 then return ()
        else bind (sys_int E c2) (\<lambda>non_root.
          if non_root = 0 then sysu E c3 else seq (sysu E c4) (drop_ids E u caps options))))
      (\<lambda>_. confined options t) (\<lambda>_. True)" for u c1 c2 c3 c4
    by (intro triple_keeps keeps_if drop keeps_bind keeps_seq keeps_return keeps_sys_ops keeps_confined)
  have user: "triple (extends t) (case u of None \<Rightarrow> die2 E m x | Some v \<Rightarrow> f v) (\<lambda>_. confined options t) (\<lambda>_. True)"
    if "\<And>v. triple (extends t) (f v) (\<lambda>_. confined options t) (\<lambda>_. True)" for u f m x
    using that die_triple by (cases u) simp_all
  show ?thesis
    unfolding vsf_secutil_change_credentials_def
    by (intro triple_bind[OF uid] triple_if die_triple triple_bind[OF pw] user
        triple_seq[OF preparation_confines] rest)
qed

end
