(* ===== verification/Parseconf.thy ===== *)
theory Parseconf
  imports Secutil Text
begin

text \<open>
  src/parseconf.c: reading the configuration. A setting changes one variable of the tunables; a
  file is the sequence of its lines, without comments and blank lines.
\<close>

section \<open>One setting\<close>

definition strdup_trimmed :: "string \<Rightarrow> string option res" where
  "strdup_trimmed xs = (if xs = [] then Inr None
     else if list_all vsf_sysutil_isspace xs then Inl (Trap ''bounds'')
     else Inr (Some (rev (dropWhile vsf_sysutil_isspace (rev (dropWhile vsf_sysutil_isspace xs))))))"

definition parse_bool :: "string \<Rightarrow> bool option" where
  "parse_bool v = (if upper v \<in> {''YES'', ''TRUE'', ''1''} then Some True
     else if upper v \<in> {''NO'', ''FALSE'', ''0''} then Some False else None)"

definition parse_uint :: "string \<Rightarrow> u32" where
  "parse_uint v = (if v \<noteq> [] \<and> hd v = CHR ''0'' then vsf_sysutil_octal_to_uint v
     else word_of_int (vsf_sysutil_atoi v))"

definition set_str :: "string \<Rightarrow> string option \<Rightarrow> tunables \<Rightarrow> tunables" where
  "set_str x v T = T\<lparr>strs := (strs T)(x := v)\<rparr>"

definition set_bool :: "string \<Rightarrow> bool \<Rightarrow> tunables \<Rightarrow> tunables" where
  "set_bool x v T = T\<lparr>bools := (bools T)(x := v)\<rparr>"

definition set_uint :: "string \<Rightarrow> u32 \<Rightarrow> tunables \<Rightarrow> tunables" where
  "set_uint x v T = T\<lparr>uints := (uints T)(x := v)\<rparr>"

text \<open>
  The loop that steps over leading spaces moves an index that nothing reads afterwards: the name
  is taken from the start of the text.
\<close>

definition vsf_parseconf_load_setting :: "string \<Rightarrow> bool \<Rightarrow> tunables \<Rightarrow> tunables res" where
  "vsf_parseconf_load_setting p_setting errs_fatal T = (
     let (name, val) = split_char (c_text p_setting) (CHR ''='') in
     case map_of parseconf_str_array name of
       Some x \<Rightarrow> rbind (strdup_trimmed val) (\<lambda>t. Inr (set_str x t T))
     | None \<Rightarrow>
       if val = []
       then if errs_fatal then Inl (Die (''missing value in config file for: '' @ c_text name)) else Inr T
       else case map_of parseconf_bool_array name of
         Some x \<Rightarrow> (case parse_bool val of
           Some b \<Rightarrow> Inr (set_bool x b T)
         | None \<Rightarrow> if errs_fatal then Inl (Die (''bad bool value in config file for: '' @ c_text name)) else Inr T)
       | None \<Rightarrow> (case map_of parseconf_uint_array name of
           Some x \<Rightarrow> Inr (set_uint x (parse_uint val) T)
         | None \<Rightarrow> if errs_fatal then Inl (Die (''unrecognised variable in config file: '' @ c_text name))
                   else Inr T))"

section \<open>A file of settings\<close>

definition is_setting_line :: "string \<Rightarrow> bool" where
  "is_setting_line l \<longleftrightarrow> l \<noteq> [] \<and> hd l \<noteq> CHR ''#'' \<and> \<not> list_all vsf_sysutil_isspace l"

primrec load_lines :: "string list \<Rightarrow> bool \<Rightarrow> tunables \<Rightarrow> tunables res" where
  "load_lines [] errs_fatal T = Inr T"
| "load_lines (l # ls) errs_fatal T =
     rbind (if is_setting_line l then vsf_parseconf_load_setting l errs_fatal T else Inr T)
       (load_lines ls errs_fatal)"

definition load_config_file :: "env \<Rightarrow> string \<Rightarrow> bool \<Rightarrow> tunables proc" where
  "load_config_file E p_filename errs_fatal =
     bind (str_fileread E p_filename VSFTP_CONF_FILE_MAX) (\<lambda>(retval, config_file_str).
     if vsf_sysutil_retval_is_error retval
     then if errs_fatal then die2 E ''cannot read config file: '' (Some p_filename) else return (tun E)
     else bind (sys_stat E (Stat (c_text p_filename))) (\<lambda>st.
       bind (case st of None \<Rightarrow> return True | Some b \<Rightarrow>
               bind (sys_int E (Call ''getuid'' [] [])) (\<lambda>uid.
                 return (st_uid b \<noteq> uid \<or> \<not> vsf_sysutil_statbuf_is_regfile b))) (\<lambda>bad.
         if bad then die E ''config file not owned by correct user, or not a file''
         else lift_res E (load_lines (text_lines config_file_str) errs_fatal (tun E)))))"

text \<open>Without a name, the file that was loaded last is loaded again.\<close>

definition vsf_parseconf_load_file :: "env \<Rightarrow> string option \<Rightarrow> bool \<Rightarrow> tunables proc" where
  "vsf_parseconf_load_file E p_filename errs_fatal = seq
     (whenp (p_filename \<noteq> None) (upd (\<lambda>s. s\<lparr>s_p_saved_filename := p_filename\<rparr>)))
     (bind get (\<lambda>s. case s_p_saved_filename s of
        None \<Rightarrow> bug E ''null filename in vsf_parseconf_load_file''
      | Some f \<Rightarrow> load_config_file E f errs_fatal))"

lemma load_named: "vsf_parseconf_load_file E (Some f) b =
    seq (upd (\<lambda>s. s\<lparr>s_p_saved_filename := Some f\<rparr>)) (load_config_file E f b)"
  by (rule ext) (simp add: vsf_parseconf_load_file_def seq_def bind_def upd_def get_def whenp_def)

lemma keeps_load_config: "base I \<Longrightarrow> allows I (Open_readonly (c_text f)) \<Longrightarrow> keeps I (load_config_file E f b)"
  unfolding load_config_file_def
  by (intro keeps_bind keeps_prod keeps_if keeps_return keeps_die2 keeps_die keeps_lift_res keeps_sys_ops keeps_sys
      keeps_option keeps_read_named) (simp_all add: base_allows)

lemma keeps_load_file: "base I \<Longrightarrow> allows I (Open_readonly (c_text f)) \<Longrightarrow>
    keeps I (vsf_parseconf_load_file E (Some f) b)"
  unfolding load_named by (intro keeps_seq keeps_upd_frame keeps_load_config same_core_upd)

section \<open>What a setting does\<close>

lemma split_setting:
  assumes "CHR ''='' \<notin> set n" "NUL \<notin> set n" "NUL \<notin> set v"
  shows "split_char (c_text (n @ CHR ''='' # v)) (CHR ''='') = (n, v)"
proof -
  have "c_text (n @ CHR ''='' # v) = n @ CHR ''='' # v" using assms(2,3) by (intro c_text_id) (auto simp: NUL_def)
  moreover have "takeWhile (\<lambda>x. x \<noteq> CHR ''='') (n @ CHR ''='' # v) = n"
    using assms(1) by (subst takeWhile_append2) auto
  ultimately show ?thesis by (simp add: split_char_eq NUL_def)
qed

lemma load_setting_bool:
  assumes "map_of parseconf_str_array n = None" "map_of parseconf_bool_array n = Some x"
    and "CHR ''='' \<notin> set n" "NUL \<notin> set n" "NUL \<notin> set v" "parse_bool v = Some b"
  shows "vsf_parseconf_load_setting (n @ CHR ''='' # v) fatal T = Inr (set_bool x b T)"
proof -
  have "v \<noteq> []" using assms(6) by (auto simp: parse_bool_def upper_def)
  then show ?thesis using assms by (simp add: vsf_parseconf_load_setting_def split_setting)
qed

lemma load_setting_uint:
  assumes "map_of parseconf_str_array n = None" "map_of parseconf_bool_array n = None"
    and "map_of parseconf_uint_array n = Some x"
    and "CHR ''='' \<notin> set n" "NUL \<notin> set n" "NUL \<notin> set v" "v \<noteq> []"
  shows "vsf_parseconf_load_setting (n @ CHR ''='' # v) fatal T = Inr (set_uint x (parse_uint v) T)"
  using assms by (simp add: vsf_parseconf_load_setting_def split_setting)

text \<open>A setting in a table is the only one it changes; any other text leaves all or is refused.\<close>

definition changes_one :: "tunables \<Rightarrow> tunables \<Rightarrow> bool" where
  "changes_one T T' \<longleftrightarrow> T' = T \<or> (\<exists>x v. T' = set_str x v T) \<or> (\<exists>x b. T' = set_bool x b T) \<or> (\<exists>x n. T' = set_uint x n T)"

lemma load_setting_changes_one:
  "vsf_parseconf_load_setting s fatal T = Inr T' \<Longrightarrow> changes_one T T'"
  unfolding vsf_parseconf_load_setting_def changes_one_def
  by (auto split: prod.splits option.splits if_splits simp: rbind_def split: sum.splits)

text \<open>A file is read as one setting after the other: comments and blank lines count for nothing.\<close>

lemma load_lines_append: "load_lines (xs @ ys) fatal T = rbind (load_lines xs fatal T) (load_lines ys fatal)"
proof (induction xs arbitrary: T)
  case Nil
  then show ?case by (simp add: rbind_def)
next
  case (Cons x xs)
  then show ?case by (auto simp: rbind_def split: sum.split)
qed

lemma load_lines_filter: "load_lines ls fatal T = load_lines (filter is_setting_line ls) fatal T"
  by (induction ls arbitrary: T) (auto simp: rbind_def split: sum.split)

text \<open>Leading spaces are not skipped: an indented setting is not recognised.\<close>

lemma load_setting_unknown:
  assumes "map_of parseconf_str_array n = None" "map_of parseconf_bool_array n = None"
    and "map_of parseconf_uint_array n = None"
    and "CHR ''='' \<notin> set n" "NUL \<notin> set n" "NUL \<notin> set v" "v \<noteq> []"
  shows "vsf_parseconf_load_setting (n @ CHR ''='' # v) True T =
    Inl (Die (''unrecognised variable in config file: '' @ n))"
    and "vsf_parseconf_load_setting (n @ CHR ''='' # v) False T = Inr T"
  using assms by (simp_all add: vsf_parseconf_load_setting_def split_setting c_text_id)

end
