(* ===== verification/Startup.thy ===== *)
theory Startup
  imports Parseconf
begin

text \<open>
  src/main.c from the parsed options to the session: the initial session, the checks on the
  configuration and the identities the session works with.
\<close>

text \<open>The initialiser of \<open>the_session\<close>; an address that is not known yet has no family.\<close>

definition the_session :: vsf_session where
  "the_session = \<lparr>
     p_local_addr = Sa_unspec, p_remote_addr = Sa_unspec, idle_timeout = False, data_timeout = False,
     pasv_listen_fd = -1, p_port_sockaddr = None, data_fd = -1, data_progress = False,
     bw_rate_max = 0, bw_send_start_sec = 0, bw_send_start_usec = 0,
     is_anonymous = True, is_guest = False, user_str = [], anon_pass_str = [],
     restart_pos = 0, is_ascii = True, rnfr_filename_str = [], abor_received = False, epsv_all = False,
     is_http = False, http_get_arg = [], p_visited_dir_list = [],
     anon_ftp_uid = -1, guest_user_uid = -1, anon_upload_chown_uid = -1,
     banned_email_str = [], email_passwords_str = [], userlist_str = [], banner_str = [],
     tcp_wrapper_ok = True, xferlog_fd = -1, vsftpd_log_fd = -1, remote_ip_str = [],
     log_type = 0, log_start_sec = 0, log_start_usec = 0, log_str = [], transfer_size = 0,
     ftp_cmd_str = [], ftp_arg_str = [], num_clients = 0, num_this_ip = 0, home_str = [],
     control_use_ssl = False, data_use_ssl = False, ssl_slave_active = False, login_fails = 0,
     parent_fd = -1, child_fd = -1, newnet_cloneflags_work = -1,
     isolate_all_cloneflags_work = -1, isolate_cloneflags_work = 1, s_p_saved_filename = None,
     s_current_umask = 0, s_timezone = 0\<rparr>"

section \<open>Checks\<close>

definition die_unless_privileged :: "env \<Rightarrow> unit proc" where
  "die_unless_privileged E = bind (sys_int E (Call ''getuid'' [] [])) (\<lambda>uid.
     if uid \<noteq> 0 then die E ''vsftpd: must be started as root (see run_as_launching_user option)''
     else return ())"

definition do_sanity_checks :: "env \<Rightarrow> unit proc" where
  "do_sanity_checks E = block [
     bind (vsf_sysutil_fstat E VSFTP_COMMAND_FD) (\<lambda>st.
       if \<not> vsf_sysutil_statbuf_is_socket st
       then die E ''vsftpd: not configured for standalone, must be started from inetd'' else return ()),
     whenp (tunable_one_process_model E) (block [
       whenp (tunable_local_enable E) (die E ''vsftpd: security: 'one_process_model' is anonymous only''),
       bind (sys_int E (Call ''has_capabilities_as_non_root'' [] [])) (\<lambda>has.
         if has = 0 then die E ''vsftpd: security: 'one_process_model' needs a better OS'' else return ())]),
     whenp (\<not> tunable_local_enable E \<and> \<not> tunable_anonymous_enable E)
       (die E ''vsftpd: both local and anonymous access disabled!''),
     whenp (\<not> tunable_ftp_enable E \<and> \<not> tunable_http_enable E)
       (die E ''vsftpd: both FTP and HTTP disabled!''),
     whenp (tunable_http_enable E \<and> \<not> tunable_one_process_model E)
       (die E ''vsftpd: HTTP needs 'one_process_model' for now'')]"

section \<open>Identities\<close>

text \<open>The uid of a configured user, or the end of the process.\<close>

definition configured_uid :: "env \<Rightarrow> string option \<Rightarrow> string \<Rightarrow> int proc" where
  "configured_uid E username msg =
     bind (case username of None \<Rightarrow> return None
           | Some u \<Rightarrow> bind (sys E (Getpwnam (c_text u))) (\<lambda>r. return (ret_user r))) (\<lambda>p_user. case p_user of
       None \<Rightarrow> die2 E msg username
     | Some u \<Rightarrow> return (pw_uid u))"

definition vsf_sysutil_getaddr :: "env \<Rightarrow> string \<Rightarrow> sockaddr proc" where
  "vsf_sysutil_getaddr E what = bind (sys E (Call what [VSFTP_COMMAND_FD] [])) (\<lambda>r.
     if ret_int r \<noteq> 0 then die E what
     else if ret_peer r = Sa_unspec then die E ''can only support ipv4 and ipv6 currently''
     else return (ret_peer r))"

definition session_init :: "env \<Rightarrow> unit proc" where
  "session_init E = block [
     bind (vsf_sysutil_getaddr E ''getpeername'') (\<lambda>a. upd (\<lambda>s. s\<lparr>p_remote_addr := a\<rparr>)),
     bind (vsf_sysutil_getaddr E ''getsockname'') (\<lambda>a. upd (\<lambda>s. s\<lparr>p_local_addr := a\<rparr>)),
     whenp (tunable_anonymous_enable E)
       (bind (configured_uid E (tunable_ftp_username E)
          ''vsftpd: cannot locate user specified in 'ftp_username':'') (\<lambda>uid.
          upd (\<lambda>s. s\<lparr>anon_ftp_uid := uid\<rparr>))),
     whenp (tunable_guest_enable E)
       (bind (configured_uid E (tunable_guest_username E)
          ''vsftpd: cannot locate user specified in 'guest_username':'') (\<lambda>uid.
          upd (\<lambda>s. s\<lparr>guest_user_uid := uid\<rparr>))),
     whenp (tunable_chown_uploads E)
       (bind (configured_uid E (tunable_chown_username E)
          ''vsftpd: cannot locate user specified in 'chown_username':'') (\<lambda>uid.
          upd (\<lambda>s. s\<lparr>anon_upload_chown_uid := uid\<rparr>)))]"

section \<open>Command line\<close>

definition VSFTP_DEFAULT_CONFIG :: string where "VSFTP_DEFAULT_CONFIG = ''/etc/vsftpd.conf''"

definition with_tun :: "env \<Rightarrow> tunables \<Rightarrow> env" where
  "with_tun E T = E\<lparr>tun := T\<rparr>"

text \<open>The result tells whether a configuration file was named, and the tunables after the arguments.\<close>

primrec parse_args :: "env \<Rightarrow> string list \<Rightarrow> bool \<Rightarrow> (bool \<times> tunables) proc" where
  "parse_args E [] config_loaded = return (config_loaded, tun E)"
| "parse_args E (p_arg # args) config_loaded =
     (if p_arg = [] \<or> hd p_arg \<noteq> CHR ''-''
      then bind (vsf_parseconf_load_file E (Some p_arg) True) (\<lambda>T. parse_args (with_tun E T) args True)
      else if take 1 (tl p_arg) = ''v'' then vsf_exit E (''vsftpd: version 3.0.3'' @ [LF])
      else if take 1 (tl p_arg) = ''o''
      then bind (lift_res E (vsf_parseconf_load_setting (drop 2 p_arg) True (tun E))) (\<lambda>T.
             parse_args (with_tun E T) args config_loaded)
      else die2 E ''unrecognise option: '' (Some p_arg))"

definition load_configuration :: "env \<Rightarrow> string list \<Rightarrow> tunables proc" where
  "load_configuration E args =
     bind (parse_args (with_tun E tunables_load_defaults) args False) (\<lambda>(config_loaded, T).
     if config_loaded then return T
     else bind (sys_stat E (Stat VSFTP_DEFAULT_CONFIG)) (\<lambda>st.
       if st \<noteq> None then vsf_parseconf_load_file (with_tun E T) (Some VSFTP_DEFAULT_CONFIG) True
       else return T))"

text \<open>Files cached before the process may lose sight of them.\<close>

definition cached_file :: "env \<Rightarrow> string option \<Rightarrow> string \<Rightarrow> string proc" where
  "cached_file E f msg =
     bind (case f of None \<Rightarrow> return (-1, []) | Some n \<Rightarrow> str_fileread E n VSFTP_CONF_FILE_MAX) (\<lambda>(retval, s).
     if vsf_sysutil_retval_is_error retval then die2 E msg f else return s)"

definition cache_files :: "env \<Rightarrow> unit proc" where
  "cache_files E = block [
     whenp (tunable_deny_email_enable E)
       (bind (cached_file E (tunable_banned_email_file E) ''cannot read anon e-mail list file:'') (\<lambda>x.
          upd (\<lambda>s. s\<lparr>banned_email_str := x\<rparr>))),
     whenp (tunable_banner_file E \<noteq> None)
       (bind (cached_file E (tunable_banner_file E) ''cannot read banner file:'') (\<lambda>x.
          upd (\<lambda>s. s\<lparr>banner_str := x\<rparr>))),
     whenp (tunable_secure_email_list_enable E)
       (bind (cached_file E (tunable_email_password_file E) ''cannot read email passwords file:'') (\<lambda>x.
          upd (\<lambda>s. s\<lparr>email_passwords_str := x\<rparr>)))]"

section \<open>What the checks establish\<close>

text \<open>A configuration that starts a session.\<close>

definition sane :: "env \<Rightarrow> bool" where
  "sane E \<longleftrightarrow> (tunable_local_enable E \<or> tunable_anonymous_enable E)
     \<and> (tunable_one_process_model E \<longrightarrow> \<not> tunable_local_enable E)
     \<and> (tunable_ftp_enable E \<or> tunable_http_enable E)
     \<and> (tunable_http_enable E \<longrightarrow> tunable_one_process_model E)"

lemma sanity_checks_Done: "do_sanity_checks E w = Done () w' \<Longrightarrow> sane E"
  by (auto simp: do_sanity_checks_def sane_def seq_Done whenp_def return_def bug_ends bind_Done split: if_splits)

end
