(* ===== verification/Ipaddrparse.thy ===== *)
theory Ipaddrparse
  imports Text
begin

text \<open>
  src/ipaddrparse.c: addresses and port numbers from text. The static work strings of the code are
  reset before use, so the functions are pure; a returned buffer is \<open>Some\<close>.
\<close>

section \<open>Numbers between separators\<close>

text \<open>\<open>left\<close> fields remain to be read; a missing or a superfluous field fails.\<close>

fun uchar_fields :: "string \<Rightarrow> char \<Rightarrow> nat \<Rightarrow> int list option" where
  "uchar_fields tmp sep 0 = Some []"
| "uchar_fields tmp sep (Suc left) = (let (field, rhs) = split_char tmp sep in
     if (left > 0 \<and> rhs = []) \<or> (left = 0 \<and> rhs \<noteq> []) then None
     else let this_number = vsf_sysutil_atoi field in
       if this_number < 0 \<or> this_number > 255 then None
       else map_option ((#) this_number) (uchar_fields rhs sep left))"

definition vsf_sysutil_parse_uchar_string_sep :: "string \<Rightarrow> char \<Rightarrow> nat \<Rightarrow> string option" where
  "vsf_sysutil_parse_uchar_string_sep p_str sep items =
     map_option (map (\<lambda>n. char_of (nat n))) (uchar_fields p_str sep items)"

definition vsf_sysutil_parse_ipv4 :: "string \<Rightarrow> string option" where
  "vsf_sysutil_parse_ipv4 p_str = vsf_sysutil_parse_uchar_string_sep p_str (CHR ''.'') 4"

section \<open>IPv6\<close>

definition hex_digit :: "char \<Rightarrow> u32 option" where
  "hex_digit c = (let ch = vsf_sysutil_toupper c in
     if CHR ''0'' \<le> ch \<and> ch \<le> CHR ''9'' then Some (word_of_nat (of_char ch - 48))
     else if CHR ''A'' \<le> ch \<and> ch \<le> CHR ''F'' then Some (word_of_nat (of_char ch - 55))
     else None)"

fun hex_value :: "u32 \<Rightarrow> string \<Rightarrow> u32 option" where
  "hex_value val [] = Some val"
| "hex_value val (c # cs) = (case hex_digit c of None \<Rightarrow> None
     | Some d \<Rightarrow> let val = or (push_bit 4 val) d in
         if val > 0xFFFF then None else hex_value val cs)"

definition low_byte :: "u32 \<Rightarrow> char" where
  "low_byte w = char_of (unat (and w 255))"

definition ipv6_parse_hex :: "string \<Rightarrow> string option" where
  "ipv6_parse_hex p_in_str = map_option (\<lambda>val. [low_byte (drop_bit 8 val), low_byte val]) (hex_value 0 p_in_str)"

text \<open>The dotted quad inside an IPv6 address: value of the field, seen a digit, dots, the quad so far.\<close>

fun dotquad :: "u32 \<Rightarrow> bool \<Rightarrow> nat \<Rightarrow> u32 \<Rightarrow> string \<Rightarrow> u32 option" where
  "dotquad val seen_char dots final_val [] =
     (if dots \<noteq> 3 \<or> \<not> seen_char then None else Some (or (push_bit 8 final_val) val))"
| "dotquad val seen_char dots final_val (ch # cs) =
     (if ch = CHR ''.''
      then if \<not> seen_char \<or> dots = 3 then None
        else dotquad 0 False (dots + 1) (or (push_bit 8 final_val) val) cs
      else if CHR ''0'' \<le> ch \<and> ch \<le> CHR ''9''
      then let val = val * 10 + word_of_nat (of_char ch - 48) in
        if val > 255 then None else dotquad val True dots final_val cs
      else None)"

definition ipv4_parse_dotquad :: "string \<Rightarrow> string option" where
  "ipv4_parse_dotquad p_in_str = map_option (\<lambda>w.
     [low_byte (drop_bit 24 w), low_byte (drop_bit 16 w), low_byte (drop_bit 8 w), low_byte w])
     (dotquad 0 False 0 0 p_in_str)"

function ipv6_parse_main :: "string \<Rightarrow> string \<Rightarrow> string option" where
  "ipv6_parse_main out lhs = (if lhs = [] then Some out
     else let (field, rhs) = split_char lhs (CHR '':'') in
       if field = [] then None
       else case (if locate_char field (CHR ''.'') \<noteq> None then ipv4_parse_dotquad field
                  else ipv6_parse_hex field) of
         None \<Rightarrow> None
       | Some bytes \<Rightarrow> ipv6_parse_main (out @ bytes) rhs)"
  by pat_completeness auto
termination
  by (relation "measure (\<lambda>(_, lhs). length lhs)")
     (auto simp: split_char_eq NUL_def diff_less)

declare ipv6_parse_main.simps [simp del]

text \<open>
  The address must fill the 16 bytes that the bounds cast asks of the buffer: a result that is
  shorter (nothing right of the colons) is a failed check.
\<close>

definition vsf_sysutil_parse_ipv6 :: "string \<Rightarrow> string option res" where
  "vsf_sysutil_parse_ipv6 p_str = (
     let (lhs, rhs) = split_text p_str ''::'' in
     case ipv6_parse_main [] lhs of None \<Rightarrow> Inr None
     | Some ret \<Rightarrow> (case ipv6_parse_main [] rhs of None \<Rightarrow> Inr None
       | Some rhs_ret \<Rightarrow>
         if length ret + length rhs_ret > 16 then Inr None
         else let ret = (if length rhs_ret > 0
                then ret @ replicate (16 - (length ret + length rhs_ret)) NUL @ rhs_ret else ret) in
           if length ret < 16 then Inl (Trap ''bounds'') else Inr (Some (take 16 ret))))"

section \<open>Properties\<close>

lemma uchar_fields_bounds:
  "uchar_fields s sep k = Some ns \<Longrightarrow> length ns = k \<and> (\<forall>n \<in> set ns. 0 \<le> n \<and> n \<le> 255)"
  by (induction s sep k arbitrary: ns rule: uchar_fields.induct)
     (auto simp: Let_def split: prod.splits if_splits)

text \<open>A list of numbers comes back as it was written.\<close>

fun joined :: "char \<Rightarrow> string list \<Rightarrow> string" where
  "joined sep [] = []"
| "joined sep [x] = x"
| "joined sep (x # y # ys) = x @ sep # joined sep (y # ys)"

lemma split_char_joined:
  assumes "sep \<noteq> NUL" "sep \<notin> set x"
  shows "split_char (joined sep (x # xs)) sep = (x, joined sep xs)"
proof (cases xs)
  case Nil
  have "takeWhile (\<lambda>c. c \<noteq> sep) x = x" using assms(2) by (auto simp: takeWhile_eq_all_conv)
  moreover have "split_char x sep = (x, [])"
    unfolding split_char_eq[OF assms(1)] \<open>takeWhile (\<lambda>c. c \<noteq> sep) x = x\<close> by simp
  ultimately show ?thesis using Nil by simp
next
  case (Cons y ys)
  have "takeWhile (\<lambda>c. c \<noteq> sep) (x @ sep # joined sep xs) = x"
    using assms(2) by (subst takeWhile_append2) auto
  then show ?thesis using assms Cons by (simp add: split_char_eq)
qed

lemma joined_digits_nonempty: "joined sep (map (digits 10) (n # ns)) \<noteq> []"
  by (cases ns) simp_all

lemma atoi_digits:
  assumes "n < 2 ^ 31"
  shows "vsf_sysutil_atoi (digits 10 n) = int n"
proof -
  obtain c cs where d: "digits 10 n = c # cs" by (cases "digits 10 n") simp_all
  have "vsf_sysutil_isdigit c" using digits_all_digit[of c n] d by simp
  then have c: "\<not> vsf_sysutil_isspace c" "c \<noteq> CHR ''-''" "c \<noteq> CHR ''+''"
    by (auto simp: isdigit_iff vsf_sysutil_isspace_def)
  have "libc_strtol (digits 10 n) = int n"
    using c assms dec_value_digits[of n] unfolding libc_strtol_def c_text_digits
    by (simp add: d Let_def)
  then show ?thesis using assms by (simp add: vsf_sysutil_atoi_def signed_take_bit_int_eq_self)
qed

lemma parse_joined:
  assumes "sep \<noteq> NUL" "\<not> vsf_sysutil_isdigit sep"
  shows "\<forall>n \<in> set ns. n < 256 \<Longrightarrow> uchar_fields (joined sep (map (digits 10) ns)) sep (length ns) = Some (map int ns)"
proof (induction ns)
  case (Cons n ns)
  have sep: "sep \<notin> set (digits 10 n)" using assms(2) digits_all_digit by blast
  have n: "vsf_sysutil_atoi (digits 10 n) = int n" "int n \<le> 255" using Cons.prems by (simp_all add: atoi_digits)
  have e: "joined sep (map (digits 10) ns) = [] \<longleftrightarrow> ns = []"
    using joined_digits_nonempty by (cases ns) auto
  show ?case
    using Cons n e split_char_joined[OF assms(1) sep, of "map (digits 10) ns"] by simp
qed simp

lemma parse_ipv6_length: "vsf_sysutil_parse_ipv6 s = Inr (Some a) \<Longrightarrow> length a = 16"
  by (auto simp: vsf_sysutil_parse_ipv6_def Let_def split: prod.splits option.splits if_splits)

text \<open>An address that ends at its double colon, as the unspecified address does, aborts the process.\<close>

lemma parse_ipv6_unspecified: "vsf_sysutil_parse_ipv6 ''::'' = Inl (Trap ''bounds'')"
  by (code_simp)

end
