(* ===== verification/Process.thy ===== *)
theory Process
  imports Secutil
begin

text \<open>
  Accounts and processes, from src/sysdeputil.c and src/sysutil.c: the check of a password without
  PAM, forking (into a new network name space where asked), waiting for children and the signals that
  tie the processes of a session together. A fork answers 0 to the child: a run follows one of the
  two processes. What several results of one call stand for is asked for one by one.
\<close>

section \<open>The check of a password\<close>

text \<open>The shell of the account among the permitted ones; \<open>n\<close> bounds their number.\<close>

primrec shell_listed :: "env \<Rightarrow> string \<Rightarrow> nat \<Rightarrow> bool proc" where
  "shell_listed E shell 0 = halt Unfinished"
| "shell_listed E shell (Suc n) = bind (sys_str E (Call ''getusershell'' [] [])) (\<lambda>p_shell. case p_shell of
     None \<Rightarrow> return False
   | Some s \<Rightarrow> if c_text s = c_text shell then return True else shell_listed E shell n)"

text \<open>An expiry date is a day number; a positive maximal age counts from the last change.\<close>

definition shadow_expired :: "int \<Rightarrow> int \<Rightarrow> int \<Rightarrow> int \<Rightarrow> bool" where
  "shadow_expired days sp_expire sp_lstchg sp_max \<longleftrightarrow> sp_expire > 0 \<and> sp_expire < days
     \<or> sp_lstchg > 0 \<and> sp_max > 0 \<and> sp_lstchg + sp_max < days"

text \<open>crypt gives a null pointer for a salt it does not know, which the comparison follows.\<close>

definition password_matches :: "env \<Rightarrow> string \<Rightarrow> string \<Rightarrow> bool proc" where
  "password_matches E p_pass_str stored =
     bind (sys_str E (Call ''crypt'' [] [c_text p_pass_str, c_text stored])) (\<lambda>p_crypted. case p_crypted of
       None \<Rightarrow> halt (Trapped ''null pointer'')
     | Some c \<Rightarrow> return (c_text c = c_text stored))"

definition check_shadow :: "env \<Rightarrow> string \<Rightarrow> string \<Rightarrow> bool option proc" where
  "check_shadow E p_user_str p_pass_str =
     bind (sys_str E (Call ''getspnam'' [] [c_text p_user_str])) (\<lambda>p_spwd. case p_spwd of
       None \<Rightarrow> return None
     | Some sp_pwdp \<Rightarrow>
         bind (sys_int E Time_sec) (\<lambda>curr_time.
         bind (sys_int E (Call ''sp_expire'' [] [])) (\<lambda>sp_expire.
         bind (sys_int E (Call ''sp_lstchg'' [] [])) (\<lambda>sp_lstchg.
         bind (sys_int E (Call ''sp_max'' [] [])) (\<lambda>sp_max.
         let days = sint (word_of_int (curr_time div (60 * 60 * 24)) :: u32) in
         if shadow_expired days sp_expire sp_lstchg sp_max then return (Some False)
         else bind (password_matches E p_pass_str sp_pwdp) (\<lambda>ok.
           return (if ok then Some True else None)))))))"

definition vsf_sysdep_check_auth :: "env \<Rightarrow> string \<Rightarrow> string \<Rightarrow> bool proc" where
  "vsf_sysdep_check_auth E p_user_str p_pass_str =
     bind (sys E (Getpwnam (c_text p_user_str))) (\<lambda>r. case ret_user r of
       None \<Rightarrow> return False
     | Some p_pwd \<Rightarrow>
         bind (if tunable_check_shell E
               then bind (shell_listed E (pw_shell p_pwd) (fuel E)) (\<lambda>ok.
                      seq (sysu E (Call ''endusershell'' [] [])) (return ok))
               else return True) (\<lambda>shell_ok.
         if \<not> shell_ok then return False
         else bind (check_shadow E p_user_str p_pass_str) (\<lambda>decided. case decided of
           Some granted \<Rightarrow> return granted
         | None \<Rightarrow> password_matches E p_pass_str (pw_passwd p_pwd))))"

section \<open>Processes\<close>

definition vsf_sysutil_fork_failok :: "env \<Rightarrow> int proc" where
  "vsf_sysutil_fork_failok E = sys_int E (Fork [])"

definition vsf_sysutil_fork :: "env \<Rightarrow> int proc" where
  "vsf_sysutil_fork E = bind (vsf_sysutil_fork_failok E) (\<lambda>retval.
     if retval < 0 then die E ''fork'' else return retval)"

text \<open>The release of the kernel: the numbers that sscanf finds in it, and how many.\<close>

definition vsf_sysutil_netns_cleanup_is_fast :: "env \<Rightarrow> bool proc" where
  "vsf_sysutil_netns_cleanup_is_fast E = bind (sys_int E (Call ''uname'' [] [])) (\<lambda>u.
     if u \<noteq> 0 then return False
     else bind (sys_int E (Call ''release_count'' [] [])) (\<lambda>n.
       if n < 2 then return False
       else bind (sys_int E (Call ''release_number'' [1] [])) (\<lambda>r1.
            bind (sys_int E (Call ''release_number'' [2] [])) (\<lambda>r2.
            bind (if n < 3 then return 0 else sys_int E (Call ''release_number'' [3] [])) (\<lambda>r3.
              return (or (or (push_bit 16 r1) (push_bit 8 r2)) r3 \<ge> or (or (push_bit 16 2) (push_bit 8 6)) 35))))))"

text \<open>
  A clone with flags the kernel may not know; \<open>None\<close> tells to fall back and not to try again.
\<close>

definition try_clone :: "env \<Rightarrow> string list \<Rightarrow> int option proc" where
  "try_clone E flags = bind (sys_int E (Fork flags)) (\<lambda>ret.
     if ret \<noteq> -1 then return (Some ret)
     else bind (sys_int E (Call ''errno_in'' [] [''EINVAL'', ''EPERM''])) (\<lambda>unsupported.
       return (if unsupported = 0 then Some ret else None)))"

definition vsf_sysutil_fork_newnet :: "env \<Rightarrow> int proc" where
  "vsf_sysutil_fork_newnet E = bind get (\<lambda>s.
     bind (if newnet_cloneflags_work s < 0
           then bind (vsf_sysutil_netns_cleanup_is_fast E) (\<lambda>fast.
                  seq (upd (\<lambda>t. t\<lparr>newnet_cloneflags_work := of_bool fast\<rparr>)) (return (of_bool fast)))
           else return (newnet_cloneflags_work s)) (\<lambda>cloneflags_work.
     bind (if cloneflags_work \<noteq> (0 :: int) then try_clone E [''CLONE_NEWNET''] else return None) (\<lambda>ret. case ret of
       Some pid \<Rightarrow> return pid
     | None \<Rightarrow> seq (whenp (cloneflags_work \<noteq> 0) (upd (\<lambda>t. t\<lparr>newnet_cloneflags_work := 0\<rparr>))) (vsf_sysutil_fork E))))"

text \<open>The listener may put its children into name spaces of their own.\<close>

definition vsf_sysutil_fork_isolate_failok :: "env \<Rightarrow> int proc" where
  "vsf_sysutil_fork_isolate_failok E = bind get (\<lambda>s.
     bind (if isolate_cloneflags_work s \<noteq> 0 then try_clone E [''CLONE_NEWIPC''] else return None) (\<lambda>ret. case ret of
       Some pid \<Rightarrow> return pid
     | None \<Rightarrow> seq (upd (\<lambda>t. t\<lparr>isolate_cloneflags_work := 0\<rparr>)) (vsf_sysutil_fork_failok E)))"

definition vsf_sysutil_fork_isolate_all_failok :: "env \<Rightarrow> int proc" where
  "vsf_sysutil_fork_isolate_all_failok E = bind get (\<lambda>s.
     bind (if isolate_all_cloneflags_work s < 0
           then bind (vsf_sysutil_netns_cleanup_is_fast E) (\<lambda>fast.
                  seq (upd (\<lambda>t. t\<lparr>isolate_all_cloneflags_work := of_bool fast\<rparr>)) (return (of_bool fast)))
           else return (isolate_all_cloneflags_work s)) (\<lambda>cloneflags_work.
     bind (if cloneflags_work \<noteq> (0 :: int) then try_clone E [''CLONE_NEWIPC'', ''CLONE_NEWNET''] else return None) (\<lambda>ret. case ret of
       Some pid \<Rightarrow> return pid
     | None \<Rightarrow> seq (whenp (cloneflags_work \<noteq> 0) (upd (\<lambda>t. t\<lparr>isolate_all_cloneflags_work := 0\<rparr>)))
         (vsf_sysutil_fork_isolate_failok E))))"

text \<open>The result of wait and whether the child exited normally; interrupted waits are restarted.\<close>

definition vsf_sysutil_wait :: "env \<Rightarrow> (int \<times> bool) proc" where
  "vsf_sysutil_wait E = bind (sys_int E (Call ''wait'' [] [])) (\<lambda>retval.
     bind (sys_int E (Call ''wait_exited_normally'' [] [])) (\<lambda>ok. return (retval, ok \<noteq> 0)))"

definition vsf_sysutil_wait_reap_one :: "env \<Rightarrow> int proc" where
  "vsf_sysutil_wait_reap_one E = bind (sys_int E Reap) (\<lambda>retval.
     if retval = 0 then return 0
     else if retval > 0 then return retval
     else bind (sys_int E (Call ''errno_in'' [] [''ECHILD''])) (\<lambda>no_child.
       if no_child \<noteq> 0 then return 0 else die E ''waitpid''))"

definition vsf_set_die_if_parent_dies :: "env \<Rightarrow> unit proc" where
  "vsf_set_die_if_parent_dies E = must_call E (Call ''prctl_pdeathsig'' [] [''SIGKILL'']) ''prctl''"

definition vsf_set_term_if_parent_dies :: "env \<Rightarrow> unit proc" where
  "vsf_set_term_if_parent_dies E = must_call E (Call ''prctl_pdeathsig'' [] [''SIGTERM'']) ''prctl''"

definition vsf_sysutil_unix_stream_socketpair :: "env \<Rightarrow> (int \<times> int) proc" where
  "vsf_sysutil_unix_stream_socketpair E = bind (sys_int E (Call ''socketpair'' [] [])) (\<lambda>sys_retval.
     if sys_retval \<noteq> 0 then die E ''socketpair''
     else bind (sys_int E (Call ''socketpair_fd'' [0] [])) (\<lambda>one.
          bind (sys_int E (Call ''socketpair_fd'' [1] [])) (\<lambda>two. return (one, two))))"

definition vsf_sysutil_install_sighandler :: "env \<Rightarrow> string \<Rightarrow> string \<Rightarrow> bool \<Rightarrow> unit proc" where
  "vsf_sysutil_install_sighandler E realsig handler use_alarm = block [
     sysu E (Sighandler realsig handler),
     whenp (use_alarm \<and> realsig \<noteq> ''SIGALRM'') (sysu E (Sighandler ''SIGALRM'' ''alrm_sighandler''))]"

definition vsf_sysutil_install_null_sighandler :: "env \<Rightarrow> string \<Rightarrow> unit proc" where
  "vsf_sysutil_install_null_sighandler E realsig = sysu E (Sighandler realsig ''common_sighandler'')"

definition vsf_sysutil_make_session_leader :: "env \<Rightarrow> unit proc" where
  "vsf_sysutil_make_session_leader E = seq (sysu E (Call ''setsid'' [] []))
     (bind (sys_int E Getpid) (\<lambda>pid. bind (sys_int E (Call ''getpgrp'' [] [])) (\<lambda>pgrp.
       if pid \<noteq> pgrp then die E ''not session leader'' else return ())))"

section \<open>What a granted login has seen\<close>

text \<open>
  The password given for the account was crypted to the stored one, of the shadow file or of the
  password file.
\<close>

definition verified :: "string \<Rightarrow> event list \<Rightarrow> bool" where
  "verified user h \<longleftrightarrow> (\<exists>p c stored. (Call ''crypt'' [] [p, c_text stored], RStr (Some c)) \<in> set h
     \<and> c_text c = c_text stored
     \<and> ((Call ''getspnam'' [] [c_text user], RStr (Some stored)) \<in> set h
        \<or> (\<exists>u. (Getpwnam (c_text user), RUser (Some u)) \<in> set h \<and> pw_passwd u = stored)))"

lemma verified_later: "verified user h \<Longrightarrow> verified user (b @ h)"
  unfolding verified_def by (metis UnCI set_append)

lemma ret_str_Some: "ret_str r = Some s \<longleftrightarrow> r = RStr (Some s)"
  by (cases r) (simp_all add: ret_str_def)

lemma ret_user_Some: "ret_user r = Some s \<longleftrightarrow> r = RUser (Some s)"
  by (cases r) (simp_all add: ret_user_def)

lemma sys_str_Done: "sys_str E c w = Done x w' \<longleftrightarrow> x = ret_str (os E (trace w) c)
    \<and> w' = w\<lparr>trace := (c, os E (trace w) c) # trace w\<rparr>"
  by (auto simp: sys_str_def sys_def bind_def return_def Let_def)

lemma sys_int_Done: "sys_int E c w = Done x w' \<longleftrightarrow> x = ret_int (os E (trace w) c)
    \<and> w' = w\<lparr>trace := (c, os E (trace w) c) # trace w\<rparr>"
  by (auto simp: sys_int_def sys_def bind_def return_def Let_def)

lemma sys_Done: "sys E c w = Done x w' \<longleftrightarrow> x = os E (trace w) c
    \<and> w' = w\<lparr>trace := (c, os E (trace w) c) # trace w\<rparr>"
  by (auto simp: sys_def Let_def)

text \<open>Everything here only calls the system.\<close>

lemma keeps_password [safes]: "base I \<Longrightarrow> keeps I (password_matches E p s)"
  unfolding password_matches_def by (intro safes; simp)

lemma keeps_shadow [safes]: "base I \<Longrightarrow> keeps I (check_shadow E u p)"
  unfolding check_shadow_def Let_def by (intro safes; simp)

lemma keeps_shell [safes]: "base I \<Longrightarrow> keeps I (shell_listed E s n)"
  by (induction n) (auto intro!: safes)

lemma keeps_check_auth [safes]: "base I \<Longrightarrow> keeps I (vsf_sysdep_check_auth E u p)"
  unfolding vsf_sysdep_check_auth_def by (intro safes; simp)

lemma keeps_netns [safes]: "base I \<Longrightarrow> keeps I (vsf_sysutil_netns_cleanup_is_fast E)"
  unfolding vsf_sysutil_netns_cleanup_is_fast_def by (intro safes; simp)

text \<open>Calls that make a process are no check that every invariant allows.\<close>

lemma keeps_forks:
  assumes b: "base I" and f: "\<And>x. allows I (Fork x)"
  shows "keeps I (try_clone E x)" "keeps I (vsf_sysutil_fork_failok E)" "keeps I (vsf_sysutil_fork E)"
    "keeps I (vsf_sysutil_fork_newnet E)" "keeps I (vsf_sysutil_fork_isolate_failok E)"
    "keeps I (vsf_sysutil_fork_isolate_all_failok E)"
proof -
  show c: "keeps I (try_clone E x)" for x
    unfolding try_clone_def by (intro safes f b; simp)
  show k: "keeps I (vsf_sysutil_fork_failok E)"
    unfolding vsf_sysutil_fork_failok_def by (intro safes f)
  then show g: "keeps I (vsf_sysutil_fork E)"
    unfolding vsf_sysutil_fork_def by (intro safes b)
  show i: "keeps I (vsf_sysutil_fork_isolate_failok E)"
    unfolding vsf_sysutil_fork_isolate_failok_def by (intro safes c k b; simp)
  show "keeps I (vsf_sysutil_fork_newnet E)" "keeps I (vsf_sysutil_fork_isolate_all_failok E)"
    unfolding vsf_sysutil_fork_newnet_def vsf_sysutil_fork_isolate_all_failok_def by (intro safes c g i b; simp)+
qed

lemma keeps_processes [safes]:
  "base I \<Longrightarrow> keeps I (vsf_sysutil_wait E)" "base I \<Longrightarrow> keeps I (vsf_set_die_if_parent_dies E)"
  "base I \<Longrightarrow> keeps I (vsf_set_term_if_parent_dies E)" "base I \<Longrightarrow> keeps I (vsf_sysutil_unix_stream_socketpair E)"
  "base I \<Longrightarrow> keeps I (vsf_sysutil_install_sighandler E s h b)"
  "base I \<Longrightarrow> keeps I (vsf_sysutil_install_null_sighandler E s)"
  "base I \<Longrightarrow> keeps I (vsf_sysutil_make_session_leader E)"
  unfolding vsf_sysutil_wait_def vsf_set_die_if_parent_dies_def vsf_set_term_if_parent_dies_def
    vsf_sysutil_unix_stream_socketpair_def vsf_sysutil_install_sighandler_def
    vsf_sysutil_install_null_sighandler_def vsf_sysutil_make_session_leader_def
  by (intro safes; simp)+

end
