(* ===== verification/Privops.thy ===== *)
theory Privops
  imports Process Text
begin

text \<open>
  src/privops.c: the operations that need privilege. In the two-process model they run in the
  parent on behalf of the unprivileged child; in the one-process model they are called directly.
\<close>

section \<open>Data sockets from a low port\<close>

text \<open>
  At most two attempts to bind: \<open>left\<close> counts those left. The pause is one second and a random
  number of 256ths.
\<close>

primrec bind_attempts :: "env \<Rightarrow> int \<Rightarrow> sockaddr \<Rightarrow> u16 \<Rightarrow> nat \<Rightarrow> unit proc" where
  "bind_attempts E s local_addr port 0 = return ()"
| "bind_attempts E s local_addr port (Suc left) =
     bind (lift_res E (vsf_sysutil_sockaddr_clone local_addr)) (\<lambda>a.
     bind (lift_res E (vsf_sysutil_sockaddr_set_port a port)) (\<lambda>p_sockaddr.
     bind (vsf_sysutil_bind E s p_sockaddr) (\<lambda>retval.
       if retval = 0 then return ()
       else bind (vsf_sysutil_get_error E) (\<lambda>e.
         if e \<noteq> kErrADDRINUSE \<or> left = 0 then die E ''vsf_sysutil_bind''
         else bind (vsf_sysutil_get_random_byte E) (\<lambda>r.
           seq (sysu E (Sleep_256ths (uint r + 256)))
             (bind_attempts E s local_addr port left))))))"

definition vsf_privop_get_ftp_port_sock :: "env \<Rightarrow> u16 \<Rightarrow> bool \<Rightarrow> int proc" where
  "vsf_privop_get_ftp_port_sock E remote_port use_port_sockaddr = bind get (\<lambda>p_sess.
     bind (vsf_sysutil_get_ipsock E (p_local_addr p_sess)) (\<lambda>s.
     if pasv_listen_fd p_sess \<noteq> -1 then die E ''listed fd is active?''
     else if vsf_sysutil_is_port_reserved remote_port then die E ''Illegal port request''
     else
       let port = (if tunable_connect_from_port_20 E then ucast (tunable_ftp_data_port E) else 0) in
       seq (block [
         sysu E (Sockopt ''reuseaddr'' s),
         bind_attempts E s (p_local_addr p_sess) port 2])
       (bind (if use_port_sockaddr
              then (case p_port_sockaddr p_sess of
                      None \<Rightarrow> halt (Trapped ''null pointer'') | Some a \<Rightarrow> return a)
              else bind (lift_res E (vsf_sysutil_sockaddr_set_port (p_remote_addr p_sess) remote_port))
                     (\<lambda>a. seq (upd (\<lambda>t. t\<lparr>p_remote_addr := a\<rparr>)) (return a))) (\<lambda>p_connect_to.
        bind (vsf_sysutil_connect_timeout E s p_connect_to (tunable_connect_timeout E)) (\<lambda>retval.
          if vsf_sysutil_retval_is_error retval
          then seq (vsf_sysutil_close E s) (return (-1))
          else return s)))))"

section \<open>Passive sockets\<close>

definition vsf_privop_pasv_cleanup :: "env \<Rightarrow> unit proc" where
  "vsf_privop_pasv_cleanup E = bind get (\<lambda>p_sess.
     whenp (pasv_listen_fd p_sess \<noteq> -1) (block [
       vsf_sysutil_close E (pasv_listen_fd p_sess),
       upd (\<lambda>t. t\<lparr>pasv_listen_fd := -1\<rparr>)]))"

definition vsf_privop_pasv_active :: "bool proc" where
  "vsf_privop_pasv_active = bind get (\<lambda>p_sess. return (pasv_listen_fd p_sess \<noteq> -1))"

text \<open>The range of ports: the two tunables count only inside 1024 to 65535.\<close>

definition pasv_min_port :: "env \<Rightarrow> u16" where
  "pasv_min_port E = (if tunable_pasv_min_port E > 1024 \<and> tunable_pasv_min_port E \<le> 65535
                      then ucast (tunable_pasv_min_port E) else 1024)"

definition pasv_max_port :: "env \<Rightarrow> u16" where
  "pasv_max_port E = (if tunable_pasv_max_port E \<ge> ucast (pasv_min_port E) \<and> tunable_pasv_max_port E < 65535
                      then ucast (tunable_pasv_max_port E) else 65535)"

text \<open>The doubles of the code are exact: a 16-bit fraction of a number of at most 17 bits.\<close>

definition scaled_port :: "u16 \<Rightarrow> u16 \<Rightarrow> u16 \<Rightarrow> u16" where
  "scaled_port lo hi r = word_of_nat (unat lo + unat r * (unat hi - unat lo + 1) div 65536)"

definition pasv_socket :: "env \<Rightarrow> sockaddr \<Rightarrow> int proc" where
  "pasv_socket E local_addr =
     bind (if vsf_sysutil_sockaddr_is_ipv6 local_addr
           then vsf_sysutil_get_ipv6_sock E else vsf_sysutil_get_ipv4_sock E) (\<lambda>fd.
     seq (block [upd (\<lambda>t. t\<lparr>pasv_listen_fd := fd\<rparr>), sysu E (Sockopt ''reuseaddr'' fd)]) (return fd))"

text \<open>One attempt: the port, the descriptor and the result of bind or listen.\<close>

definition pasv_attempt :: "env \<Rightarrow> u16 \<Rightarrow> u16 \<Rightarrow> sockaddr \<Rightarrow> (u16 \<times> int \<times> int) proc" where
  "pasv_attempt E lo hi local_addr =
     bind (vsf_sysutil_get_random_byte E) (\<lambda>r1.
     bind (vsf_sysutil_get_random_byte E) (\<lambda>r2.
     let the_port = scaled_port lo hi (or (push_bit 8 (ucast r1)) (ucast r2)) in
     bind (pasv_socket E local_addr) (\<lambda>fd.
     bind (lift_res E (vsf_sysutil_sockaddr_clone local_addr)) (\<lambda>a.
     bind (lift_res E (vsf_sysutil_sockaddr_set_port a the_port)) (\<lambda>s_p_sockaddr.
     bind (vsf_sysutil_bind E fd s_p_sockaddr) (\<lambda>bound.
     bind (if vsf_sysutil_retval_is_error bound then return bound else vsf_sysutil_listen E fd 1)
       (\<lambda>retval. return (the_port, fd, retval))))))))"

primrec pasv_listen_loop :: "env \<Rightarrow> u16 \<Rightarrow> u16 \<Rightarrow> sockaddr \<Rightarrow> nat \<Rightarrow> u16 proc" where
  "pasv_listen_loop E lo hi local_addr 0 = die E ''vsf_sysutil_bind''"
| "pasv_listen_loop E lo hi local_addr (Suc attempts) =
     bind (pasv_attempt E lo hi local_addr) (\<lambda>(the_port, fd, retval).
     if \<not> vsf_sysutil_retval_is_error retval then return the_port
     else bind (vsf_sysutil_get_error E) (\<lambda>e.
       if e = kErrADDRINUSE \<or> e = kErrACCES
       then seq (block [vsf_sysutil_close E fd, upd (\<lambda>t. t\<lparr>pasv_listen_fd := -1\<rparr>)])
              (pasv_listen_loop E lo hi local_addr attempts)
       else die E ''vsf_sysutil_bind / listen''))"

text \<open>\<open>bind_retries\<close> starts at 10 and is decremented before each test: nine attempts.\<close>

definition vsf_privop_pasv_listen :: "env \<Rightarrow> u16 proc" where
  "vsf_privop_pasv_listen E = bind get (\<lambda>p_sess.
     if pasv_listen_fd p_sess \<noteq> -1 then die E ''listed fd already active''
     else pasv_listen_loop E (pasv_min_port E) (pasv_max_port E) (p_local_addr p_sess) 9)"

definition vsf_privop_accept_pasv :: "env \<Rightarrow> int proc" where
  "vsf_privop_accept_pasv E = bind get (\<lambda>p_sess.
     if pasv_listen_fd p_sess = -1 then die E ''listed fd not active''
     else bind (vsf_sysutil_accept_timeout E (pasv_listen_fd p_sess) (tunable_accept_timeout E))
       (\<lambda>(remote_fd, p_accept_addr).
         if vsf_sysutil_retval_is_error remote_fd then return (-1)
         else if \<not> tunable_pasv_promiscuous E
             \<and> \<not> vsf_sysutil_sockaddr_addr_equal (p_remote_addr p_sess) p_accept_addr
         then seq (vsf_sysutil_close E remote_fd) (return (-2))
         else return remote_fd))"

section \<open>Giving uploads away\<close>

definition vsf_privop_do_file_chown :: "env \<Rightarrow> int \<Rightarrow> unit proc" where
  "vsf_privop_do_file_chown E fd = bind (vsf_sysutil_fstat E fd) (\<lambda>st. bind get (\<lambda>p_sess.
     if st_uid st = anon_upload_chown_uid p_sess then return ()
     else if anon_upload_chown_uid p_sess = -1 \<or> \<not> vsf_sysutil_statbuf_is_regfile st
       \<or> (st_uid st \<noteq> anon_ftp_uid p_sess \<and> st_uid st \<noteq> guest_user_uid p_sess)
     then die E ''invalid fd in cmd_process_chown''
     else vsf_sysutil_fchown E fd (anon_upload_chown_uid p_sess) (-1)))"

section \<open>Logging in\<close>

datatype EVSFPrivopLoginResult = kVSFLoginNull | kVSFLoginFail | kVSFLoginAnon | kVSFLoginReal

definition VSFTP_USERNAME_MAX :: nat where "VSFTP_USERNAME_MAX = 128"
definition VSFTP_PASSWORD_MAX :: nat where "VSFTP_PASSWORD_MAX = 128"

definition setup_username_globals :: "env \<Rightarrow> string \<Rightarrow> unit proc" where
  "setup_username_globals E p_str = bind get (\<lambda>p_sess. block [
     upd (\<lambda>t. t\<lparr>user_str := p_str\<rparr>),
     whenp (tunable_setproctitle_enable E)
       (sysu E (Call ''proctitle_prefix'' [] [remote_ip_str p_sess @ ''/'' @ p_str]))])"

definition text_or_empty :: "string option \<Rightarrow> string" where
  "text_or_empty p_text = (case p_text of None \<Rightarrow> [] | Some t \<Rightarrow> c_text t)"

definition handle_anonymous_login :: "env \<Rightarrow> string \<Rightarrow> EVSFPrivopLoginResult proc" where
  "handle_anonymous_login E p_pass_str = bind get (\<lambda>p_sess.
     if banned_email_str p_sess \<noteq> [] \<and> p_pass_str \<in> set (text_lines (banned_email_str p_sess))
     then return kVSFLoginFail
     else if email_passwords_str p_sess \<noteq> []
       \<and> (p_pass_str \<notin> set (text_lines (email_passwords_str p_sess)) \<or> p_pass_str = [])
     then return kVSFLoginFail
     else seq (block [
       upd (\<lambda>t. t\<lparr>anon_pass_str :=
         replace_char (replace_char (if p_pass_str = [] then ''?'' else p_pass_str)
           (CHR '' '') (CHR ''_'')) LF (CHR ''?'')\<rparr>),
       setup_username_globals E (text_or_empty (tunable_ftp_username E)),
       upd (\<lambda>t. t\<lparr>banned_email_str := []\<rparr>),
       upd (\<lambda>t. t\<lparr>email_passwords_str := []\<rparr>)])
       (return kVSFLoginAnon))"

definition handle_local_login :: "env \<Rightarrow> string \<Rightarrow> string \<Rightarrow> EVSFPrivopLoginResult proc" where
  "handle_local_login E p_user_str p_pass_str = 
     bind (vsf_sysdep_check_auth E p_user_str p_pass_str) (\<lambda>granted.
       if \<not> granted then return kVSFLoginFail
       else seq (setup_username_globals E p_user_str) (return kVSFLoginReal))"

definition is_anonymous_name :: "string \<Rightarrow> bool" where
  "is_anonymous_name p_user_str \<longleftrightarrow> upper p_user_str = ''FTP'' \<or> upper p_user_str = ''ANONYMOUS''"

definition handle_login :: "env \<Rightarrow> string \<Rightarrow> string \<Rightarrow> EVSFPrivopLoginResult proc" where
  "handle_login E p_user_str p_pass_str =
     (if p_user_str = [] \<or> length p_user_str > VSFTP_USERNAME_MAX then return kVSFLoginFail
      else if \<not> vsf_sysutil_isalnum (hd p_user_str) \<and> hd p_user_str \<noteq> CHR ''_'' \<and> hd p_user_str \<noteq> CHR ''.''
      then return kVSFLoginFail
      else if list_ex vsf_sysutil_isspace p_user_str \<or> list_ex (\<lambda>c. \<not> vsf_sysutil_isprint c) p_user_str
      then return kVSFLoginFail
      else if length p_pass_str > VSFTP_PASSWORD_MAX then return kVSFLoginFail
      else if tunable_anonymous_enable E \<and> is_anonymous_name p_user_str
      then handle_anonymous_login E p_pass_str
      else if \<not> tunable_local_enable E then die E ''unexpected local login in handle_login''
      else handle_local_login E p_user_str p_pass_str)"

definition vsf_privop_do_login :: "env \<Rightarrow> string \<Rightarrow> EVSFPrivopLoginResult proc" where
  "vsf_privop_do_login E p_pass_str = bind get (\<lambda>p_sess.
     bind (handle_login E (user_str p_sess) p_pass_str) (\<lambda>result.
     seq (block [
       vsf_log_start_entry E kVSFLogEntryLogin,
       if result = kVSFLoginFail then block [
         vsf_log_do_log E False,
         whenp (tunable_delay_failed_login E \<noteq> 0)
           (sysu E (Sleep_256ths (uint (tunable_delay_failed_login E) * 256)))]
       else block [
         vsf_log_do_log E True,
         whenp (tunable_delay_successful_login E \<noteq> 0)
           (sysu E (Sleep_256ths (uint (tunable_delay_successful_login E) * 256)))]])
     (return result)))"

section \<open>The passive port range\<close>

lemma unat_lt_16: "unat (w :: u16) < 65536"
proof -
  have "unat w < 2 ^ LENGTH(16)" by (rule unsigned_less)
  then show ?thesis by simp
qed

lemma unat_ucast_u16: "w \<le> 65535 \<Longrightarrow> unat (ucast (w :: u32) :: u16) = unat w"
proof -
  assume "w \<le> 65535"
  then have "unat w < 65536" by (simp add: word_le_nat_alt)
  then show ?thesis by (simp add: unsigned_ucast_eq take_bit_nat_eq_self)
qed

lemma unat_ucast_u32: "unat (ucast (w :: u16) :: u32) = unat w"
proof -
  have "unat w < 65536" by (rule unat_lt_16)
  then show ?thesis by (simp add: unsigned_ucast_eq take_bit_nat_eq_self)
qed

lemma u16_max: "(w :: u16) \<le> 65535"
  using unat_lt_16[of w] by (simp add: word_le_nat_alt)

lemma pasv_range: "pasv_min_port E \<ge> 1024" "pasv_min_port E \<le> pasv_max_port E"
proof -
  show "pasv_min_port E \<ge> 1024"
    using unat_ucast_u16[of "tunable_pasv_min_port E"]
    by (auto simp: pasv_min_port_def word_le_nat_alt word_less_nat_alt)
  have "pasv_min_port E \<le> ucast (tunable_pasv_max_port E)"
    if m: "tunable_pasv_max_port E \<ge> ucast (pasv_min_port E)" "tunable_pasv_max_port E < 65535"
  proof -
    have "tunable_pasv_max_port E \<le> 65535" using m(2) by (simp add: order_less_imp_le)
    then show ?thesis using m(1) by (simp add: word_le_nat_alt unat_ucast_u16 unat_ucast_u32)
  qed
  then show "pasv_min_port E \<le> pasv_max_port E" by (simp add: pasv_max_port_def u16_max)
qed

lemma scaled_port_range:
  assumes "lo \<le> hi"
  shows "lo \<le> scaled_port lo hi r" "scaled_port lo hi r \<le> hi"
proof -
  obtain l where l: "unat lo = l" by simp
  obtain h where h: "unat hi = h" by simp
  obtain x where x: "unat r = x" by simp
  have le: "l \<le> h" and hb: "h < 65536" and xb: "x < 65536"
    using assms l h x unat_lt_16[of hi] unat_lt_16[of r] by (simp_all add: word_le_nat_alt)
  have "x * (h - l + 1) < 65536 * (h - l + 1)" using xb by (intro mult_strict_right_mono) simp_all
  then have "x * (h - l + 1) div 65536 < h - l + 1"
    by (simp only: less_mult_imp_div_less mult.commute)
  then obtain q where q: "x * (h - l + 1) div 65536 = q" "q \<le> h - l" by simp
  have "scaled_port lo hi r = word_of_nat (l + q)"
    using q(1) by (simp only: scaled_port_def l h x)
  moreover have "unat (word_of_nat (l + q) :: u16) = l + q"
    using q(2) le hb by (simp only: unsigned_of_nat) (simp add: take_bit_nat_eq_self)
  ultimately show "lo \<le> scaled_port lo hi r" "scaled_port lo hi r \<le> hi"
    using q(2) le l h by (simp_all add: word_le_nat_alt)
qed

section \<open>What the operations leave alone\<close>

lemma keeps_bind_attempts_frame: "frame I \<Longrightarrow> keeps I (bind_attempts E s a port n)"
proof (induction n)
  case 0
  then show ?case by (simp add: keeps_return)
next
  case (Suc n)
  note f = Suc.prems and IH = Suc.IH[OF Suc.prems]
  show ?case
    unfolding bind_attempts.simps
    by (intro safes frame_base[OF f] frame_allows[OF f] IH keeps_restricted)
qed

lemma keeps_pasv_listen_loop_frame: "frame I \<Longrightarrow> keeps I (pasv_listen_loop E lo hi a n)"
proof (induction n)
  case 0
  then show ?case by (auto intro: safes frames)
next
  case (Suc n)
  note f = Suc.prems and IH = Suc.IH[OF Suc.prems]
  note b = frame_base[OF f] and al = frame_allows[OF f] and up = frame_upd[OF f]
  show ?case
    unfolding pasv_listen_loop.simps pasv_attempt_def pasv_socket_def
    by (intro keeps_let safes b al up IH keeps_restricted)
qed

lemma keeps_privops_frame:
  assumes f: "frame I"
  shows "keeps I (vsf_privop_get_ftp_port_sock E port b)" "keeps I (vsf_privop_pasv_cleanup E)"
    "keeps I vsf_privop_pasv_active" "keeps I (vsf_privop_pasv_listen E)"
    "keeps I (vsf_privop_accept_pasv E)" "keeps I (vsf_privop_do_file_chown E fd)"
  unfolding vsf_privop_get_ftp_port_sock_def vsf_privop_pasv_cleanup_def vsf_privop_pasv_active_def
    vsf_privop_pasv_listen_def vsf_privop_accept_pasv_def vsf_privop_do_file_chown_def Let_def
  by (intro frame_get safes frame_base[OF f] frame_allows[OF f] frame_upd[OF f] keeps_restricted
      keeps_bind_attempts_frame keeps_pasv_listen_loop_frame f; fail)+

text \<open>
  Beyond benign calls the operations bind, connect, accept and give files away; that an invariant
  allows this is \<open>lets_serve\<close>.
\<close>

definition lets_serve :: "(world \<Rightarrow> bool) \<Rightarrow> bool" where
  "lets_serve I \<longleftrightarrow> base I \<and> (\<forall>fd a t. allows I (Connect fd a t)) \<and> (\<forall>fd a. allows I (Bind fd a))
     \<and> (\<forall>fd t. allows I (Accept fd t)) \<and> (\<forall>fd u g. allows I (Fchown fd u g))"

lemma keeps_privileged:
  assumes "lets_serve I"
  shows "keeps I (vsf_privop_accept_pasv E)" "keeps I (vsf_privop_do_file_chown E fd)"
    "(\<And>x. keeps I (upd (\<lambda>s. s\<lparr>p_remote_addr := x\<rparr>))) \<Longrightarrow> keeps I (vsf_privop_get_ftp_port_sock E port False)"
    "keeps I (vsf_privop_get_ftp_port_sock E port True)"
    "(\<And>n. keeps I (upd (\<lambda>s. s\<lparr>pasv_listen_fd := n\<rparr>))) \<Longrightarrow> keeps I (vsf_privop_pasv_listen E)"
    "(\<And>n. keeps I (upd (\<lambda>s. s\<lparr>pasv_listen_fd := n\<rparr>))) \<Longrightarrow> keeps I (vsf_privop_pasv_cleanup E)"
    "keeps I vsf_privop_pasv_active"
proof -
  have b: "base I" and al: "allows I (Connect fd a t)" "allows I (Bind fd a)" "allows I (Accept fd t)"
    "allows I (Fchown fd u g)" for fd a t u g
    using assms by (simp_all add: lets_serve_def)
  show "keeps I (vsf_privop_accept_pasv E)" "keeps I (vsf_privop_do_file_chown E fd)"
    "keeps I vsf_privop_pasv_active"
    unfolding vsf_privop_accept_pasv_def vsf_privop_do_file_chown_def vsf_privop_pasv_active_def
    by (intro al b safes keeps_restricted)+
  have att: "keeps I (bind_attempts E s a p n)" for s a p n
  proof (induction n)
    case (Suc n)
    show ?case unfolding bind_attempts.simps by (intro al b safes Suc.IH keeps_restricted; simp)
  qed (simp add: keeps_return)
  show "keeps I (vsf_privop_get_ftp_port_sock E port False)" if up: "\<And>x. keeps I (upd (\<lambda>s. s\<lparr>p_remote_addr := x\<rparr>))"
    unfolding vsf_privop_get_ftp_port_sock_def Let_def
    by (intro up al b safes keeps_restricted att; simp)
  show "keeps I (vsf_privop_get_ftp_port_sock E port True)"
    unfolding vsf_privop_get_ftp_port_sock_def Let_def if_True
    by (intro al b safes keeps_restricted att; simp)
  assume up: "\<And>n. keeps I (upd (\<lambda>s. s\<lparr>pasv_listen_fd := n\<rparr>))"
  have "keeps I (pasv_listen_loop E lo hi a n)" for lo hi a n
  proof (induction n)
    case (Suc n)
    show ?case
      unfolding pasv_listen_loop.simps pasv_attempt_def pasv_socket_def
      by (intro keeps_let up al b safes Suc.IH keeps_restricted; simp)
  qed (simp add: keeps_die b)
  then show "keeps I (vsf_privop_pasv_listen E)" "keeps I (vsf_privop_pasv_cleanup E)"
    unfolding vsf_privop_pasv_listen_def vsf_privop_pasv_cleanup_def
    by (intro up al b safes; simp)+
qed

section \<open>A passive port is a listening socket\<close>

lemma lift_Done: "lift_res E m w = Done x w' \<longleftrightarrow> m = Inr x \<and> w' = w"
  by (auto simp: lift_res_def return_def bug_ends halt_def split: sum.splits failure.splits)

lemma sock_Done:
  "vsf_sysutil_get_ipv4_sock E w = Done fd w' \<Longrightarrow> fd \<ge> 0"
  "vsf_sysutil_get_ipv6_sock E w = Done fd w' \<Longrightarrow> fd \<ge> 0"
  by (auto simp: vsf_sysutil_get_ipv4_sock_def vsf_sysutil_get_ipv6_sock_def bind_Done sys_int_def sys_def
      Let_def return_def bug_ends split: if_splits)

lemma pasv_socket_Done:
  "pasv_socket E a w = Done fd w' \<Longrightarrow> fd \<ge> 0 \<and> pasv_listen_fd (sess w') = fd"
  by (auto simp: pasv_socket_def bind_Done seq_Done upd_def sysu_def sys_def Let_def return_def
      split: if_splits dest: sock_Done)

text \<open>The last two events are a successful bind of the listening socket to the port and its listen.\<close>

definition listening :: "u16 \<Rightarrow> world \<Rightarrow> bool" where
  "listening p w \<longleftrightarrow> pasv_listen_fd (sess w) \<ge> 0 \<and>
     (\<exists>a r1 r2 t. trace w = (Listen (pasv_listen_fd (sess w)) 1, r2) # (Bind (pasv_listen_fd (sess w)) a, r1) # t
        \<and> port_of a = p \<and> ret_int r1 \<ge> 0 \<and> ret_int r2 \<ge> 0)"

lemma sock_calls_Done:
  "vsf_sysutil_bind E fd a w = Done r w' \<Longrightarrow> r = ret_int (os E (trace w) (Bind fd a))
     \<and> w' = w\<lparr>trace := (Bind fd a, os E (trace w) (Bind fd a)) # trace w\<rparr>"
  "vsf_sysutil_listen E fd n w = Done r w' \<Longrightarrow> r \<ge> 0 \<Longrightarrow> r = ret_int (os E (trace w) (Listen fd n))
     \<and> w' = w\<lparr>trace := (Listen fd n, os E (trace w) (Listen fd n)) # trace w\<rparr>"
  by (auto simp: vsf_sysutil_bind_def vsf_sysutil_listen_def vsf_sysutil_retval_is_error_def bind_Done
      sys_int_def sys_def Let_def return_def bug_ends split: if_splits)

lemma pasv_attempt_Done:
  assumes "pasv_attempt E lo hi a w = Done (p, fd, retval) w'" "lo \<le> hi" "\<not> vsf_sysutil_retval_is_error retval"
  shows "lo \<le> p \<and> p \<le> hi \<and> listening p w'"
proof -
  from assms(1) obtain r v2 b c bound v3 v4 where
    s: "pasv_socket E a v4 = Done fd v2"
    and p: "vsf_sysutil_sockaddr_set_port b p = Inr c" "p = scaled_port lo hi r"
    and bnd: "vsf_sysutil_bind E fd c v2 = Done bound v3"
    and lst: "(if vsf_sysutil_retval_is_error bound then return bound else vsf_sysutil_listen E fd 1) v3 = Done retval w'"
    unfolding pasv_attempt_def Let_def bind_Done lift_Done return_def by blast
  have "\<not> vsf_sysutil_retval_is_error bound" using lst assms(3) by (auto simp: return_def split: if_splits)
  then show ?thesis
    using assms(3) lst pasv_socket_Done[OF s] sock_calls_Done(1)[OF bnd] sock_calls_Done(2)[of E fd 1 v3 retval w']
      set_port_Inr[OF p(1)] p(2) scaled_port_range[OF assms(2)]
    by (simp add: listening_def vsf_sysutil_retval_is_error_def)
qed

lemma pasv_listen_loop_Done:
  "pasv_listen_loop E lo hi a n w = Done p w' \<Longrightarrow> lo \<le> hi \<Longrightarrow> lo \<le> p \<and> p \<le> hi \<and> listening p w'"
proof (induction n arbitrary: w)
  case 0
  then show ?case by (simp add: bug_ends)
next
  case (Suc n)
  note IH = Suc.IH[OF _ Suc.prems(2)]
  from Suc.prems(1) obtain q fd retval v where
    at: "pasv_attempt E lo hi a w = Done (q, fd, retval) v"
    and fin: "(if \<not> vsf_sysutil_retval_is_error retval then return q
        else bind (vsf_sysutil_get_error E) (\<lambda>e.
          if e = kErrADDRINUSE \<or> e = kErrACCES
          then seq (block [vsf_sysutil_close E fd, upd (\<lambda>t. t\<lparr>pasv_listen_fd := -1\<rparr>)])
                 (pasv_listen_loop E lo hi a n)
          else die E ''vsf_sysutil_bind / listen'')) v = Done p w'"
    unfolding pasv_listen_loop.simps bind_Done by (auto split: prod.splits)
  show ?case
  proof (cases "vsf_sysutil_retval_is_error retval")
    case True
    then obtain v5 where "pasv_listen_loop E lo hi a n v5 = Done p w'"
      using fin by (auto simp: bind_Done seq_Done bug_ends split: if_splits)
    then show ?thesis by (rule IH)
  next
    case False
    then show ?thesis using pasv_attempt_Done[OF at Suc.prems(2) False] fin by (simp add: return_def)
  qed
qed

lemma pasv_listen_Done:
  "vsf_privop_pasv_listen E w = Done p w' \<Longrightarrow>
     pasv_min_port E \<le> p \<and> p \<le> pasv_max_port E \<and> listening p w' \<and> pasv_listen_fd (sess w) = -1"
  using pasv_listen_loop_Done[OF _ pasv_range(2)]
  by (auto simp: vsf_privop_pasv_listen_def bind_def get_def bug_ends split: if_splits)

end
