(* ===== verification/Postprivparent.thy ===== *)
theory Postprivparent
  imports Privops
begin

text \<open>
  src/postprivparent.c: the privileged parent after login. It reads one-byte requests from the
  child, carries them out with the operations of Privops and answers. What the child sends is not
  trusted: the theorems here hold for every content of the channel.
\<close>

section \<open>Requests\<close>

definition cmd_process_chown :: "env \<Rightarrow> unit proc" where
  "cmd_process_chown E = bind (priv_sock_recv_fd E Parent_end) (\<lambda>the_fd. block [
     vsf_privop_do_file_chown E the_fd,
     vsf_sysutil_close E the_fd,
     priv_sock_send_result Parent_end PRIV_SOCK_RESULT_OK])"

definition cmd_process_get_data_sock :: "env \<Rightarrow> unit proc" where
  "cmd_process_get_data_sock E = bind (priv_sock_get_int E Parent_end) (\<lambda>port.
     bind (vsf_privop_get_ftp_port_sock E (word_of_int port) False) (\<lambda>sock_fd.
       if sock_fd = -1 then priv_sock_send_result Parent_end PRIV_SOCK_RESULT_BAD
       else block [
         priv_sock_send_result Parent_end PRIV_SOCK_RESULT_OK,
         priv_sock_send_fd Parent_end sock_fd,
         vsf_sysutil_close E sock_fd]))"

definition cmd_process_pasv_cleanup :: "env \<Rightarrow> unit proc" where
  "cmd_process_pasv_cleanup E = block [
     vsf_privop_pasv_cleanup E, priv_sock_send_result Parent_end PRIV_SOCK_RESULT_OK]"

definition cmd_process_pasv_active :: "env \<Rightarrow> unit proc" where
  "cmd_process_pasv_active E = bind vsf_privop_pasv_active (\<lambda>active.
     priv_sock_send_int Parent_end (if active then 1 else 0))"

definition cmd_process_pasv_listen :: "env \<Rightarrow> unit proc" where
  "cmd_process_pasv_listen E = bind (vsf_privop_pasv_listen E) (\<lambda>port.
     priv_sock_send_int Parent_end (uint port))"

definition cmd_process_pasv_accept :: "env \<Rightarrow> unit proc" where
  "cmd_process_pasv_accept E = bind (vsf_privop_accept_pasv E) (\<lambda>fd.
     if fd < 0 then block [
       priv_sock_send_result Parent_end PRIV_SOCK_RESULT_BAD,
       priv_sock_send_int Parent_end fd]
     else block [
       priv_sock_send_result Parent_end PRIV_SOCK_RESULT_OK,
       priv_sock_send_fd Parent_end fd,
       vsf_sysutil_close E fd])"

definition process_post_login_req :: "env \<Rightarrow> unit proc" where
  "process_post_login_req E = bind (priv_sock_get_cmd E Parent_end) (\<lambda>cmd.
     if tunable_chown_uploads E \<and> cmd = PRIV_SOCK_CHOWN then cmd_process_chown E
     else if cmd = PRIV_SOCK_GET_DATA_SOCK then cmd_process_get_data_sock E
     else if cmd = PRIV_SOCK_PASV_CLEANUP then cmd_process_pasv_cleanup E
     else if cmd = PRIV_SOCK_PASV_ACTIVE then cmd_process_pasv_active E
     else if cmd = PRIV_SOCK_PASV_LISTEN then cmd_process_pasv_listen E
     else if cmd = PRIV_SOCK_PASV_ACCEPT then cmd_process_pasv_accept E
     else die E ''bad request in process_post_login_req'')"

text \<open>The endless loop of \<open>vsf_priv_parent_postlogin\<close>, cut after any number of requests.\<close>

primrec priv_parent_requests :: "env \<Rightarrow> nat \<Rightarrow> unit proc" where
  "priv_parent_requests E 0 = return ()"
| "priv_parent_requests E (Suc n) = seq (process_post_login_req E) (priv_parent_requests E n)"

section \<open>What the parent may do\<close>

text \<open>
  The policy of the broker, given the addresses of the control connection and the users: it
  connects to the peer of the control connection only, on ports from 1024; it binds to the local
  address only, on the data port, on any port or inside the passive range; it gives away only a
  regular file that it has just seen to be owned by the anonymous or the guest user, only to the
  user for uploads and only if the configuration asks for it; and it makes no call that changes the file system.
\<close>

record broker =
  peer :: sockaddr
  local_end :: sockaddr
  anon :: int
  guest :: int
  chown_to :: int

definition broker_fchown_ok :: "broker \<Rightarrow> event list \<Rightarrow> int \<Rightarrow> int \<Rightarrow> int \<Rightarrow> bool" where
  "broker_fchown_ok B h fd uid gid \<longleftrightarrow> uid = chown_to B \<and> uid \<noteq> -1 \<and> gid = -1
     \<and> (case h of (Fstat fd', RStat (Some st)) # _ \<Rightarrow>
           fd' = fd \<and> vsf_sysutil_statbuf_is_regfile st \<and> st_uid st \<in> {anon B, guest B}
         | _ \<Rightarrow> False)"

definition broker_port_ok :: "env \<Rightarrow> u16 \<Rightarrow> bool" where
  "broker_port_ok E p \<longleftrightarrow> p = 0
     \<or> tunable_connect_from_port_20 E \<and> p = ucast (tunable_ftp_data_port E)
     \<or> pasv_min_port E \<le> p \<and> p \<le> pasv_max_port E"

fun broker_policy :: "env \<Rightarrow> broker \<Rightarrow> event list \<Rightarrow> event \<Rightarrow> bool" where
  "broker_policy E B h (Connect _ a _, _) = (vsf_sysutil_sockaddr_addr_equal (peer B) a \<and> port_of a \<ge> 1024)"
| "broker_policy E B h (Bind _ a, _) = (vsf_sysutil_sockaddr_addr_equal (local_end B) a \<and> broker_port_ok E (port_of a))"
| "broker_policy E B h (Fchown fd uid gid, _) = (tunable_chown_uploads E \<and> broker_fchown_ok B h fd uid gid)"
| "broker_policy E B h (Accept _ _, _) = True"
| "broker_policy E B h (c, _) = benign c"

text \<open>The parent's session agrees with the broker's data (and its addresses have a family).\<close>

definition broker_sess :: "broker \<Rightarrow> vsf_session \<Rightarrow> bool" where
  "broker_sess B s \<longleftrightarrow> same_host (peer B) (p_remote_addr s)
     \<and> vsf_sysutil_sockaddr_addr_equal (local_end B) (p_local_addr s)
     \<and> anon_ftp_uid s = anon B \<and> guest_user_uid s = guest B \<and> anon_upload_chown_uid s = chown_to B"

abbreviation broker_from :: "event list \<Rightarrow> env \<Rightarrow> broker \<Rightarrow> world \<Rightarrow> bool" where
  "broker_from t E B \<equiv> policy_after t (broker_policy E B) (\<lambda>s _. broker_sess B s)"

abbreviation broker_inv :: "env \<Rightarrow> broker \<Rightarrow> world \<Rightarrow> bool" where
  "broker_inv E B \<equiv> policy (broker_policy E B) (\<lambda>s _. broker_sess B s)"

lemma triple_fstat:
  assumes "base I"
  shows "triple I (vsf_sysutil_fstat E fd)
    (\<lambda>st w. I w \<and> (\<exists>h. trace w = (Fstat fd, RStat (Some st)) # h)) I"
proof (rule tripleI)
  fix w assume w: "I w"
  let ?w = "w\<lparr>trace := (Fstat fd, os E (trace w) (Fstat fd)) # trace w\<rparr>"
  have I: "I ?w" using assms w by (simp add: base_def allows_def)
  then have d: "case (die E ''fstat'' ?w :: (statbuf, world) outcome) of Done x w' \<Rightarrow> I w' | Halt h w' \<Rightarrow> I w'"
    using tripleD[OF keeps_die[OF assms, unfolded keeps_def], of ?w] by simp
  show "case vsf_sysutil_fstat E fd w of
      Done st w' \<Rightarrow> I w' \<and> (\<exists>h. trace w' = (Fstat fd, RStat (Some st)) # h) | Halt _ w' \<Rightarrow> I w'"
  proof (cases "ret_stat (os E (trace w) (Fstat fd))")
    case None
    moreover obtain h w' where "(die E ''fstat'' ?w :: (statbuf, world) outcome) = Halt h w'"
      by (cases "die E ''fstat'' ?w :: (statbuf, world) outcome") (auto simp: bug_ends)
    ultimately show ?thesis using d
      by (simp add: vsf_sysutil_fstat_def sys_stat_def sys_def bind_def return_def Let_def)
  next
    case (Some st)
    then have "os E (trace w) (Fstat fd) = RStat (Some st)" by (simp add: ret_stat_def split: sysret.splits)
    then show ?thesis using I Some
      by (simp add: vsf_sysutil_fstat_def sys_stat_def sys_def bind_def return_def Let_def)
  qed
qed

section \<open>Hosting the privileged operations\<close>

text \<open>A request is kept when its operation is.\<close>

lemma keeps_request:
  assumes b: "base I" and c: "chans I" and ch: "tunable_chown_uploads E \<Longrightarrow> (\<And>fd. keeps I (vsf_privop_do_file_chown E fd))"
    and l: "keeps I (vsf_privop_pasv_listen E)" and cl: "keeps I (vsf_privop_pasv_cleanup E)"
    and ac: "keeps I vsf_privop_pasv_active" and pa: "keeps I (vsf_privop_accept_pasv E)"
    and s: "\<And>port. keeps I (vsf_privop_get_ftp_port_sock E port False)"
  shows "keeps I (process_post_login_req E)"
proof -
  have "keeps I (cmd_process_chown E)" if "tunable_chown_uploads E"
    unfolding cmd_process_chown_def
    by (intro keeps_bind keeps_block_Cons keeps_block_Nil keeps_priv_sock keeps_recv_fd keeps_sysutil_io ch that b c)
  moreover have "keeps I (cmd_process_get_data_sock E)" "keeps I (cmd_process_pasv_cleanup E)"
    "keeps I (cmd_process_pasv_active E)" "keeps I (cmd_process_pasv_listen E)" "keeps I (cmd_process_pasv_accept E)"
    unfolding cmd_process_get_data_sock_def cmd_process_pasv_cleanup_def cmd_process_pasv_active_def
      cmd_process_pasv_listen_def cmd_process_pasv_accept_def
    by (intro keeps_bind keeps_if keeps_block_Cons keeps_block_Nil keeps_priv_sock keeps_sysutil_io l cl ac pa s b c)+
  ultimately show ?thesis
    unfolding process_post_login_req_def
    by (intro keeps_bind keeps_if keeps_die keeps_priv_sock b c) simp_all
qed

text \<open>
  What the operations ask of the process that runs them: an invariant under which they may make
  their calls. The parent is one such process; so is a session that has no parent, and so is the
  session seen while its parent answers.
\<close>

locale broker_host =
  fixes E :: env and B :: broker and I :: "world \<Rightarrow> bool"
  assumes I_base: "base I" and I_chans: "chans I"
    and I_sess: "I w \<Longrightarrow> broker_sess B (sess w)"
    and I_accept: "allows I (Accept fd t)"
    and I_bind: "vsf_sysutil_sockaddr_addr_equal (local_end B) a \<Longrightarrow> broker_port_ok E (port_of a) \<Longrightarrow>
      allows I (Bind fd a)"
    and I_connect: "vsf_sysutil_sockaddr_addr_equal (peer B) a \<Longrightarrow> port_of a \<ge> 1024 \<Longrightarrow>
      allows I (Connect fd a t)"
    and I_listen_fd: "keeps I (upd (\<lambda>s. s\<lparr>pasv_listen_fd := n\<rparr>))"
    and I_remote: "same_host (peer B) a \<Longrightarrow> keeps I (upd (\<lambda>s. s\<lparr>p_remote_addr := a\<rparr>))"
    and I_fchown: "tunable_chown_uploads E \<Longrightarrow> I w \<Longrightarrow> broker_fchown_ok B (trace w) fd uid gid \<Longrightarrow>
      I (w\<lparr>trace := (Fchown fd uid gid, r) # trace w\<rparr>)"
begin

lemma clone_equal: "vsf_sysutil_sockaddr_clone a = Inr b \<Longrightarrow>
    vsf_sysutil_sockaddr_addr_equal p b = vsf_sysutil_sockaddr_addr_equal p a"
  by (cases a; cases p) (auto simp: vsf_sysutil_sockaddr_clone_def vsf_sysutil_sockaddr_addr_equal_def
      vsf_sysutil_sockaddr_ipv6_v4_def)

lemma bind_loop:
  assumes a: "vsf_sysutil_sockaddr_addr_equal (local_end B) a" and p: "broker_port_ok E port"
  shows "keeps I (bind_attempts E s a port n)"
proof (induction n)
  case 0
  then show ?case by (simp add: keeps_return)
next
  case (Suc n)
  show ?case
    unfolding bind_attempts.simps
    by (intro keeps_lift_bind I_base keeps_bind keeps_restricted keeps_if keeps_return safes I_bind Suc)
       (use a p in \<open>auto simp: clone_equal set_port_Inr\<close>)
qed

lemma listen_loop:
  assumes a: "vsf_sysutil_sockaddr_addr_equal (local_end B) a" and r: "lo \<le> hi"
    and p: "\<And>q. lo \<le> q \<Longrightarrow> q \<le> hi \<Longrightarrow> broker_port_ok E q"
  shows "keeps I (pasv_listen_loop E lo hi a n)"
proof (induction n)
  case 0
  then show ?case by (simp add: keeps_die I_base)
next
  case (Suc n)
  show ?case
    unfolding pasv_listen_loop.simps pasv_attempt_def pasv_socket_def
    by (intro keeps_prod keeps_lift_bind keeps_let I_base keeps_restricted keeps_bind keeps_if keeps_return
          I_listen_fd I_bind safes Suc)
       (use a in \<open>auto simp: clone_equal set_port_Inr intro!: p scaled_port_range[OF r]\<close>)
qed

lemma data_sock:
  assumes target: "\<And>w a fd t. use_target \<Longrightarrow> I w \<Longrightarrow> p_port_sockaddr (sess w) = Some a \<Longrightarrow>
    allows I (Connect fd a t)"
  shows "keeps I (vsf_privop_get_ftp_port_sock E port use_target)"
proof -
  have q: "broker_port_ok E (if tunable_connect_from_port_20 E then ucast (tunable_ftp_data_port E) else 0)"
    by (simp add: broker_port_ok_def)
  have assoc: "bind (bind m f) k = bind m (\<lambda>x. bind (f x) k)" for m :: "'x proc" and f :: "'x \<Rightarrow> 'y proc" and k :: "'y \<Rightarrow> 'z proc"
    by (rule ext) (auto simp: bind_def split: outcome.split)
  have seq: "bind (seq m (return x)) k = seq m (k x)" and ret: "bind (return x) k = k x"
    and hlt: "bind (halt h) k = halt h" for m and x :: 'x and k :: "'x \<Rightarrow> 'y proc" and h
    by (rule ext, simp add: bind_def seq_def return_def halt_def split: outcome.split)+
  have step: "keeps I (bind (vsf_sysutil_connect_timeout E s a (tunable_connect_timeout E)) (\<lambda>retval.
      if vsf_sysutil_retval_is_error retval then seq (vsf_sysutil_close E s) (return (-1)) else return s))"
    if "\<And>fd t. allows I (Connect fd a t)" for a s
    by (intro keeps_bind keeps_restricted keeps_if keeps_seq keeps_return keeps_sysutil_io I_base that)
  show ?thesis
    unfolding vsf_privop_get_ftp_port_sock_def Let_def
  proof (rule keeps_get, goal_cases)
    case (1 w)
    then have s: "same_host (peer B) (p_remote_addr (sess w))"
      "vsf_sysutil_sockaddr_addr_equal (local_end B) (p_local_addr (sess w))"
      using I_sess by (auto simp: broker_sess_def)
    have "keeps I (bind (if use_target
              then (case p_port_sockaddr (sess w) of
                      None \<Rightarrow> halt (Trapped ''null pointer'') | Some a \<Rightarrow> return a)
              else bind (lift_res E (vsf_sysutil_sockaddr_set_port (p_remote_addr (sess w)) port))
                     (\<lambda>a. seq (upd (\<lambda>t. t\<lparr>p_remote_addr := a\<rparr>)) (return a))) (\<lambda>a.
           bind (vsf_sysutil_connect_timeout E fd a (tunable_connect_timeout E)) (\<lambda>retval.
             if vsf_sysutil_retval_is_error retval then seq (vsf_sysutil_close E fd) (return (-1)) else return fd)))"
      if port: "\<not> vsf_sysutil_is_port_reserved port" for fd
    proof (cases use_target)
      case True
      then show ?thesis
        using target[OF True 1] by (cases "p_port_sockaddr (sess w)") (auto simp: hlt ret keeps_halt intro!: step)
    next
      case False
      have p: "port \<ge> 1024" using port by (simp add: vsf_sysutil_is_port_reserved_def)
      show ?thesis
        unfolding if_not_P[OF False] assoc seq
        by (intro keeps_lift_bind keeps_seq I_base I_remote step I_connect) (use s p in \<open>auto simp: set_port_Inr
             dest: same_host_set_port intro: same_host_addr_equal\<close>)
    qed
    then show ?case
      using s(2) q by (intro keeps_bind[of _ "vsf_sysutil_get_ipsock E _"] keeps_if keeps_die keeps_get_ipsock
        keeps_seq keeps_block_Cons keeps_block_Nil I_base bind_loop keeps_sys_ops base_allows) auto
  qed
qed

text \<open>The check and the change of owner are adjacent in the trace.\<close>

lemma file_chown:
  assumes on: "tunable_chown_uploads E"
  shows "keeps I (vsf_privop_do_file_chown E fd)"
proof -
  have d: "triple I (die E t) (\<lambda>_. I) I" for t
    using keeps_die[OF I_base] by (simp add: keeps_def)
  have "triple (\<lambda>w. I w \<and> (\<exists>h. trace w = (Fstat fd, RStat (Some st)) # h))
      (bind get (\<lambda>p_sess.
         if st_uid st = anon_upload_chown_uid p_sess then return ()
         else if anon_upload_chown_uid p_sess = -1 \<or> \<not> vsf_sysutil_statbuf_is_regfile st
           \<or> (st_uid st \<noteq> anon_ftp_uid p_sess \<and> st_uid st \<noteq> guest_user_uid p_sess)
         then die E ''invalid fd in cmd_process_chown''
         else vsf_sysutil_fchown E fd (anon_upload_chown_uid p_sess) (-1))) (\<lambda>_. I) I" for st
  proof (rule triple_get, intro triple_if)
    fix w
    assume w: "I w \<and> (\<exists>h. trace w = (Fstat fd, RStat (Some st)) # h)"
    let ?s = "sess w"
    show "triple (\<lambda>w. I w \<and> (\<exists>h. trace w = (Fstat fd, RStat (Some st)) # h)) (return ()) (\<lambda>_. I) I"
      by (rule triple_return) simp
    show "triple (\<lambda>w. I w \<and> (\<exists>h. trace w = (Fstat fd, RStat (Some st)) # h))
        (die E ''invalid fd in cmd_process_chown'') (\<lambda>_. I) I"
      by (rule triple_weaken[OF d]) simp_all
    assume c: "\<not> (anon_upload_chown_uid ?s = -1 \<or> \<not> vsf_sysutil_statbuf_is_regfile st
           \<or> (st_uid st \<noteq> anon_ftp_uid ?s \<and> st_uid st \<noteq> guest_user_uid ?s))"
    show "triple (\<lambda>w. I w \<and> (\<exists>h. trace w = (Fstat fd, RStat (Some st)) # h))
        (vsf_sysutil_fchown E fd (anon_upload_chown_uid ?s) (-1)) (\<lambda>_. I) I"
      unfolding vsf_sysutil_fchown_def
    proof (rule triple_bind[where Q = "\<lambda>_. I"])
      show "triple I (if x \<noteq> 0 then die E ''fchown'' else return ()) (\<lambda>_. I) I" for x
        using d by (auto intro: triple_if triple_return)
      show "triple (\<lambda>w. I w \<and> (\<exists>h. trace w = (Fstat fd, RStat (Some st)) # h))
          (sys_int E (Fchown fd (anon_upload_chown_uid ?s) (-1))) (\<lambda>_. I) I"
        using c I_sess[of w] w
        by (intro triple_sys_ops(1) I_fchown[OF on]) (auto simp: broker_sess_def broker_fchown_ok_def)
    qed
  qed
  then show ?thesis
    unfolding keeps_def vsf_privop_do_file_chown_def
    by (intro triple_bind[OF triple_fstat[OF I_base]])
qed

lemma passive_ops:
  "keeps I (vsf_privop_pasv_listen E)" "keeps I (vsf_privop_pasv_cleanup E)"
  "keeps I vsf_privop_pasv_active" "keeps I (vsf_privop_accept_pasv E)"
proof -
  show "keeps I (vsf_privop_pasv_listen E)"
    unfolding vsf_privop_pasv_listen_def
    by (rule keeps_get, intro keeps_if keeps_die I_base listen_loop)
       (auto simp: broker_sess_def broker_port_ok_def pasv_range dest!: I_sess)
  show "keeps I (vsf_privop_pasv_cleanup E)"
    unfolding vsf_privop_pasv_cleanup_def
    by (rule keeps_get, intro keeps_whenp keeps_block_Cons keeps_block_Nil keeps_sysutil_io I_base I_listen_fd)
  show "keeps I vsf_privop_pasv_active"
    unfolding vsf_privop_pasv_active_def by (rule keeps_get, rule keeps_return)
  show "keeps I (vsf_privop_accept_pasv E)"
    unfolding vsf_privop_accept_pasv_def
    by (rule keeps_get, intro safes I_base I_accept keeps_restricted)
qed

lemma request: "keeps I (process_post_login_req E)"
  by (intro keeps_request I_base I_chans file_chown passive_ops data_sock) simp_all

end

section \<open>The parent\<close>

lemma broker_benign: "benign c \<Longrightarrow> broker_policy E B h (c, r)"
  by (cases c) auto

interpretation parent_host: broker_host E B "broker_from t0 E B" for t0 E B
proof
  show "base (broker_from t0 E B)"
    by (rule policy_after_base) (auto simp: broker_benign broker_sess_def same_core_def)
  show "allows (broker_from t0 E B) (Accept fd t)" for fd t
    by (rule policy_after_allows) simp
  show "allows (broker_from t0 E B) (Bind fd a)"
    if "vsf_sysutil_sockaddr_addr_equal (local_end B) a" "broker_port_ok E (port_of a)" for a fd
    by (rule policy_after_allows) (simp add: that)
  show "allows (broker_from t0 E B) (Connect fd a t)"
    if "vsf_sysutil_sockaddr_addr_equal (peer B) a" "port_of a \<ge> 1024" for a fd t
    by (rule policy_after_allows) (simp add: that)
  show "keeps (broker_from t0 E B) (upd (\<lambda>s. s\<lparr>pasv_listen_fd := n\<rparr>))" for n
    by (rule policy_after_upd) (simp add: broker_sess_def)
  show "keeps (broker_from t0 E B) (upd (\<lambda>s. s\<lparr>p_remote_addr := a\<rparr>))"
    if "same_host (peer B) a" for a
    by (rule policy_after_upd) (simp add: broker_sess_def that)
qed (simp_all add: policy_after_def)

lemma broker_loop_from: "keeps (broker_from t0 E B) (priv_parent_requests E n)"
  by (induction n) (simp_all add: keeps_return keeps_seq parent_host.request)

lemma broker_loop: "keeps (broker_inv E B) (priv_parent_requests E n)"
  using broker_loop_from[of "[]"] by (simp add: policy_after_Nil)

end
