(* ===== verification/Twoprocess.thy ===== *)
theory Twoprocess
  imports Postprivparent
begin

text \<open>
  The privileged services as the unprivileged code sees them: src/twoprocess.c, requests to the
  parent, and src/oneprocess.c, direct calls. Where the child blocks for the answer, the parent
  serves one request; the end of the parent is the end of the session.
\<close>

section \<open>Two processes\<close>

text \<open>The parent's turn.\<close>

definition parent_turn :: "env \<Rightarrow> unit proc" where
  "parent_turn E = as_parent (process_post_login_req E)"

definition port_sockaddr_port :: "env \<Rightarrow> u16 proc" where
  "port_sockaddr_port E = bind get (\<lambda>p_sess. case p_port_sockaddr p_sess of
     None \<Rightarrow> halt (Trapped ''null pointer'')
   | Some a \<Rightarrow> lift_res E (vsf_sysutil_sockaddr_get_port a))"

definition vsf_two_process_get_priv_data_sock :: "env \<Rightarrow> int proc" where
  "vsf_two_process_get_priv_data_sock E = bind (port_sockaddr_port E) (\<lambda>port.
     seq (block [
       priv_sock_send_cmd Child_end PRIV_SOCK_GET_DATA_SOCK,
       priv_sock_send_int Child_end (uint port),
       parent_turn E])
     (bind (priv_sock_get_result E Child_end) (\<lambda>res.
       if res = PRIV_SOCK_RESULT_BAD then return (-1)
       else if res \<noteq> PRIV_SOCK_RESULT_OK then die E ''could not get privileged socket''
       else priv_sock_recv_fd E Child_end)))"

definition vsf_two_process_pasv_cleanup :: "env \<Rightarrow> unit proc" where
  "vsf_two_process_pasv_cleanup E =
     seq (block [priv_sock_send_cmd Child_end PRIV_SOCK_PASV_CLEANUP, parent_turn E])
     (bind (priv_sock_get_result E Child_end) (\<lambda>res.
       if res \<noteq> PRIV_SOCK_RESULT_OK then die E ''could not clean up socket'' else return ()))"

definition vsf_two_process_pasv_active :: "env \<Rightarrow> int proc" where
  "vsf_two_process_pasv_active E =
     seq (block [priv_sock_send_cmd Child_end PRIV_SOCK_PASV_ACTIVE, parent_turn E])
       (priv_sock_get_int E Child_end)"

definition vsf_two_process_listen :: "env \<Rightarrow> u16 proc" where
  "vsf_two_process_listen E =
     seq (block [priv_sock_send_cmd Child_end PRIV_SOCK_PASV_LISTEN, parent_turn E])
       (bind (priv_sock_get_int E Child_end) (\<lambda>n. return (word_of_int n)))"

definition vsf_two_process_get_pasv_fd :: "env \<Rightarrow> int proc" where
  "vsf_two_process_get_pasv_fd E =
     seq (block [priv_sock_send_cmd Child_end PRIV_SOCK_PASV_ACCEPT, parent_turn E])
     (bind (priv_sock_get_result E Child_end) (\<lambda>res.
       if res = PRIV_SOCK_RESULT_BAD then priv_sock_get_int E Child_end
       else if res \<noteq> PRIV_SOCK_RESULT_OK then die E ''could not accept on listening socket''
       else priv_sock_recv_fd E Child_end))"

definition vsf_two_process_chown_upload :: "env \<Rightarrow> int \<Rightarrow> unit proc" where
  "vsf_two_process_chown_upload E fd =
     seq (block [priv_sock_send_cmd Child_end PRIV_SOCK_CHOWN, priv_sock_send_fd Child_end fd, parent_turn E])
     (bind (priv_sock_get_result E Child_end) (\<lambda>res.
       if res \<noteq> PRIV_SOCK_RESULT_OK
       then die E ''unexpected failure in vsf_two_process_chown_upload'' else return ()))"

section \<open>One process\<close>

definition vsf_one_process_get_priv_data_sock :: "env \<Rightarrow> int proc" where
  "vsf_one_process_get_priv_data_sock E = bind (port_sockaddr_port E) (\<lambda>port.
     vsf_privop_get_ftp_port_sock E port True)"

definition vsf_one_process_pasv_cleanup :: "env \<Rightarrow> unit proc" where
  "vsf_one_process_pasv_cleanup E = vsf_privop_pasv_cleanup E"

definition vsf_one_process_pasv_active :: "env \<Rightarrow> int proc" where
  "vsf_one_process_pasv_active E = bind vsf_privop_pasv_active (\<lambda>b. return (if b then 1 else 0))"

definition vsf_one_process_listen :: "env \<Rightarrow> u16 proc" where
  "vsf_one_process_listen E = vsf_privop_pasv_listen E"

definition vsf_one_process_get_pasv_fd :: "env \<Rightarrow> int proc" where
  "vsf_one_process_get_pasv_fd E = vsf_privop_accept_pasv E"

definition vsf_one_process_chown_upload :: "env \<Rightarrow> int \<Rightarrow> unit proc" where
  "vsf_one_process_chown_upload E fd = vsf_privop_do_file_chown E fd"

section \<open>Invariants across a request\<close>

lemma keeps_requests:
  assumes b: "base I" and c: "chans I" and t: "keeps I (parent_turn E)"
  shows "keeps I (vsf_two_process_get_priv_data_sock E)" "keeps I (vsf_two_process_pasv_cleanup E)"
    "keeps I (vsf_two_process_pasv_active E)" "keeps I (vsf_two_process_listen E)"
    "keeps I (vsf_two_process_get_pasv_fd E)" "keeps I (vsf_two_process_chown_upload E fd)"
  unfolding vsf_two_process_get_priv_data_sock_def vsf_two_process_pasv_cleanup_def
    vsf_two_process_pasv_active_def vsf_two_process_listen_def vsf_two_process_get_pasv_fd_def
    vsf_two_process_chown_upload_def port_sockaddr_port_def
  by (intro keeps_seq keeps_bind keeps_if keeps_option keeps_return keeps_halt keeps_get_any keeps_lift_res
      keeps_block_Cons keeps_block_Nil keeps_priv_sock keeps_recv_fd keeps_die t b c)+

text \<open>The parent's operations, for an invariant that lets it serve.\<close>

lemma keeps_parent_turn:
  assumes s: "lets_serve (\<lambda>w. I (swap w))" and c: "chans I"
    and l: "\<And>n. keeps (\<lambda>w. I (swap w)) (upd (\<lambda>s. s\<lparr>pasv_listen_fd := n\<rparr>))"
    and r: "\<And>x. keeps (\<lambda>w. I (swap w)) (upd (\<lambda>s. s\<lparr>p_remote_addr := x\<rparr>))"
  shows "keeps I (parent_turn E)"
proof -
  have "base (\<lambda>w. I (swap w))" using s by (simp add: lets_serve_def)
  moreover have "chans (\<lambda>w. I (swap w))"
    unfolding chans_def
  proof (intro allI impI)
    fix w x y assume "I (swap w)"
    then have "I (swap w\<lparr>c2p := x, p2c := y\<rparr>)" using c by (simp add: chans_def)
    also have "swap w\<lparr>c2p := x, p2c := y\<rparr> = swap (w\<lparr>c2p := x, p2c := y\<rparr>)" by (simp add: swap_def)
    finally show "I (swap (w\<lparr>c2p := x, p2c := y\<rparr>))" .
  qed
  ultimately show ?thesis
    unfolding parent_turn_def by (intro keeps_as_parent keeps_request keeps_privileged s l r)
qed

lemma keeps_directs:
  assumes s: "lets_serve I" and l: "\<And>n. keeps I (upd (\<lambda>s. s\<lparr>pasv_listen_fd := n\<rparr>))"
  shows "keeps I (vsf_one_process_get_priv_data_sock E)" "keeps I (vsf_one_process_pasv_cleanup E)"
    "keeps I (vsf_one_process_pasv_active E)" "keeps I (vsf_one_process_listen E)"
    "keeps I (vsf_one_process_get_pasv_fd E)" "keeps I (vsf_one_process_chown_upload E fd)"
proof -
  have b: "base I" using s by (simp add: lets_serve_def)
  show "keeps I (vsf_one_process_get_priv_data_sock E)" "keeps I (vsf_one_process_pasv_cleanup E)"
    "keeps I (vsf_one_process_pasv_active E)" "keeps I (vsf_one_process_listen E)"
    "keeps I (vsf_one_process_get_pasv_fd E)" "keeps I (vsf_one_process_chown_upload E fd)"
    unfolding vsf_one_process_get_priv_data_sock_def vsf_one_process_pasv_cleanup_def
      vsf_one_process_pasv_active_def vsf_one_process_listen_def vsf_one_process_get_pasv_fd_def
      vsf_one_process_chown_upload_def port_sockaddr_port_def
    by (intro keeps_bind keeps_option keeps_return keeps_halt keeps_get_any keeps_lift_res keeps_privileged s l b)+
qed

section \<open>A request runs the operation in the parent\<close>

text \<open>With nothing in flight, the operations leave the channel empty.\<close>

definition quiet :: "world \<Rightarrow> bool" where
  "quiet w \<longleftrightarrow> c2p w = [] \<and> p2c w = []"

lemma quiet_frame: "frame quiet"
  by (simp add: frame_def quiet_def)

lemma quiet_Done: "keeps quiet m \<Longrightarrow> quiet w \<Longrightarrow> m w = Done x w' \<Longrightarrow> quiet w'"
  using tripleD[of quiet m "\<lambda>_. quiet" quiet w] by (simp add: keeps_def)

lemma parent_turn_request:
  assumes q: "quiet w"
  shows "seq (block [priv_sock_send_cmd Child_end c, parent_turn E]) k w
    = (case (if tunable_chown_uploads E \<and> c = PRIV_SOCK_CHOWN then cmd_process_chown E
       else if c = PRIV_SOCK_GET_DATA_SOCK then cmd_process_get_data_sock E
       else if c = PRIV_SOCK_PASV_CLEANUP then cmd_process_pasv_cleanup E
       else if c = PRIV_SOCK_PASV_ACTIVE then cmd_process_pasv_active E
       else if c = PRIV_SOCK_PASV_LISTEN then cmd_process_pasv_listen E
       else if c = PRIV_SOCK_PASV_ACCEPT then cmd_process_pasv_accept E
       else die E ''bad request in process_post_login_req'') (swap w) of
       Done _ w' \<Rightarrow> k (swap w') | Halt h w' \<Rightarrow> Halt h (swap w'))"
proof -
  have "priv_sock_get_cmd E Parent_end (swap (w\<lparr>c2p := [Byte c]\<rparr>)) = Done c (swap w)"
    using get_byte_sent(1)[of "swap (w\<lparr>c2p := [Byte c]\<rparr>)" c "[]" E] q
    by (simp add: swap_def quiet_def)
  then show ?thesis
    using q
    by (simp add: seq_def bind_def priv_sock_send_cmd_def chan_write_def quiet_def parent_turn_def
        as_parent_def process_post_login_req_def return_def split: outcome.split)
qed

text \<open>The parent's answer, as its child reads it.\<close>

lemma answer_int: "is_int n \<Longrightarrow> quiet v \<Longrightarrow>
    priv_sock_send_int Parent_end n v = Done () (v\<lparr>p2c := map Byte (encode_int n)\<rparr>)
  \<and> priv_sock_get_int E Child_end (swap (v\<lparr>p2c := map Byte (encode_int n)\<rparr>)) = Done n (swap v)"
  using get_int_sent(2)[of n "swap (v\<lparr>p2c := map Byte (encode_int n)\<rparr>)" "[]" E]
  by (simp add: priv_sock_send_int_def chan_write_def bind_def quiet_def swap_def)

lemma answer_result: "quiet v \<Longrightarrow>
    priv_sock_send_result Parent_end c v = Done () (v\<lparr>p2c := [Byte c]\<rparr>)
  \<and> priv_sock_get_result E Child_end (swap (v\<lparr>p2c := Byte c # items\<rparr>)) = Done c (swap (v\<lparr>p2c := items\<rparr>))"
  using get_byte_sent(2)[of "swap (v\<lparr>p2c := Byte c # items\<rparr>)" c items E]
  by (simp add: priv_sock_send_result_def chan_write_def quiet_def swap_def)

lemma quiet_swap [simp]: "quiet (swap w) = quiet w"
  by (simp add: quiet_def)

lemma quiet_id: "quiet v \<Longrightarrow> v\<lparr>p2c := []\<rparr> = v"
  by (simp add: quiet_def)

lemma uint_u16_is_int: "is_int (uint (p :: u16))"
proof -
  obtain n where n: "unat p = n" by simp
  then have "n < 65536" using unat_lt_16[of p] by (simp only:)
  moreover have "uint p = int n" using n by (simp only: uint_nat)
  ultimately show ?thesis by (simp add: is_int_def)
qed

lemma request_listen:
  assumes q: "quiet w"
  shows "vsf_two_process_listen E w = as_parent (vsf_privop_pasv_listen E) w"
proof (cases "vsf_privop_pasv_listen E (swap w)")
  case (Done p v)
  then have v: "quiet v" using q quiet_Done[OF keeps_privops_frame(4)[OF quiet_frame], of "swap w"] by simp
  show ?thesis
    unfolding vsf_two_process_listen_def parent_turn_request[OF q] as_parent_def
    using Done answer_int[OF uint_u16_is_int v, of p E]
    by (simp add: cmd_process_pasv_listen_def bind_def return_def)
next
  case (Halt h v)
  then show ?thesis
    unfolding vsf_two_process_listen_def parent_turn_request[OF q] as_parent_def
    by (simp add: cmd_process_pasv_listen_def bind_def)
qed

lemma request_active:
  assumes q: "quiet w"
  shows "vsf_two_process_pasv_active E w = as_parent (vsf_one_process_pasv_active E) w"
proof -
  have i: "is_int 1" "is_int 0" by (simp_all add: is_int_def)
  have "quiet (swap w)" using q by simp
  note a = answer_int[OF i(1) this, of E] answer_int[OF i(2) this, of E]
  show ?thesis
    unfolding vsf_two_process_pasv_active_def parent_turn_request[OF q] as_parent_def
    using a by (simp add: cmd_process_pasv_active_def vsf_privop_pasv_active_def
        vsf_one_process_pasv_active_def bind_def return_def get_def)
qed

lemma request_cleanup:
  assumes q: "quiet w"
  shows "vsf_two_process_pasv_cleanup E w = as_parent (vsf_privop_pasv_cleanup E) w"
proof (cases "vsf_privop_pasv_cleanup E (swap w)")
  case (Done p v)
  then have v: "quiet v" using q quiet_Done[OF keeps_privops_frame(2)[OF quiet_frame], of "swap w"] by simp
  show ?thesis
    unfolding vsf_two_process_pasv_cleanup_def parent_turn_request[OF q] as_parent_def
    using Done answer_result[OF v, of PRIV_SOCK_RESULT_OK E "[]"] v
    by (simp add: cmd_process_pasv_cleanup_def bind_def seq_def return_def quiet_id)
next
  case (Halt h v)
  then show ?thesis
    unfolding vsf_two_process_pasv_cleanup_def parent_turn_request[OF q] as_parent_def
    by (simp add: cmd_process_pasv_cleanup_def bind_def seq_def)
qed

text \<open>
  A descriptor that is passed to the child is closed in the parent: the answer to a successful
  request is the operation followed by that close.
\<close>

definition handing_over :: "env \<Rightarrow> int proc \<Rightarrow> int proc" where
  "handing_over E m = bind m (\<lambda>fd.
     if fd < 0 then return fd else seq (vsf_sysutil_close E fd) (return fd))"

lemma close_Done: "vsf_sysutil_close E fd w = Done x w' \<longleftrightarrow>
    ret_int (os E (trace w) (Close fd)) = 0 \<and> w' = w\<lparr>trace := (Close fd, os E (trace w) (Close fd)) # trace w\<rparr>"
  by (auto simp: vsf_sysutil_close_def bind_Done sys_int_def sys_def Let_def return_def bug_ends split: if_splits)

lemma answer_fd: "fd \<noteq> -1 \<Longrightarrow> priv_sock_recv_fd E Child_end (swap (v\<lparr>p2c := [Fd fd]\<rparr>)) = Done fd (swap (v\<lparr>p2c := []\<rparr>))"
  using recv_fd_sent(2)[of fd "swap (v\<lparr>p2c := [Fd fd]\<rparr>)" "[]" E] by (simp add: swap_def)

lemma accept_pasv_range: "vsf_privop_accept_pasv E w = Done fd w' \<Longrightarrow> fd \<in> {-1, -2} \<or> fd \<ge> 0"
  by (auto simp: vsf_privop_accept_pasv_def bind_Done seq_Done return_def get_def bug_ends
      vsf_sysutil_retval_is_error_def split: if_splits prod.splits)

lemma get_sock_range: "vsf_privop_get_ftp_port_sock E port b w = Done fd w' \<Longrightarrow> fd = -1 \<or> fd \<ge> 0"
proof -
  have r: "vsf_sysutil_get_ipsock E a v = Done s v' \<Longrightarrow> s \<ge> 0" for a v s v'
    by (auto simp: vsf_sysutil_get_ipsock_def vsf_sysutil_get_ipv4_sock_def vsf_sysutil_get_ipv6_sock_def
        bind_Done return_def bug_ends split: sockaddr.splits if_splits)
  assume "vsf_privop_get_ftp_port_sock E port b w = Done fd w'"
  then show ?thesis
    unfolding vsf_privop_get_ftp_port_sock_def Let_def
    by (auto simp: bind_Done seq_Done return_def get_def bug_ends split: if_splits dest!: r)
qed

text \<open>What the parent sends for a descriptor, and what the child makes of it.\<close>

lemma hand_over:
  assumes v: "quiet v" and fd: "fd \<ge> 0"
  shows "(\<exists>v'. block [priv_sock_send_result Parent_end PRIV_SOCK_RESULT_OK, priv_sock_send_fd Parent_end fd,
            vsf_sysutil_close E fd] v = Done () v'
          \<and> bind (priv_sock_get_result E Child_end) (\<lambda>res. if res = PRIV_SOCK_RESULT_BAD then k
             else if res \<noteq> PRIV_SOCK_RESULT_OK then die E msg else priv_sock_recv_fd E Child_end) (swap v')
             = Done x w')
     \<longleftrightarrow> seq (vsf_sysutil_close E fd) (return fd) v = Done x (swap w')"
proof -
  let ?t = "(Close fd, os E (trace v) (Close fd)) # trace v"
  let ?v = "v\<lparr>trace := ?t\<rparr>"
  have q: "quiet ?v" using v by (simp add: quiet_def)
  have sent: "block [priv_sock_send_result Parent_end PRIV_SOCK_RESULT_OK, priv_sock_send_fd Parent_end fd,
      vsf_sysutil_close E fd] v = Done () v' \<longleftrightarrow>
      ret_int (os E (trace v) (Close fd)) = 0 \<and> v' = ?v\<lparr>p2c := [Byte PRIV_SOCK_RESULT_OK, Fd fd]\<rparr>" for v'
    using v by (auto simp: seq_Done return_def priv_sock_send_result_def priv_sock_send_fd_def
        chan_write_def quiet_def close_Done)
  have got: "bind (priv_sock_get_result E Child_end) (\<lambda>res. if res = PRIV_SOCK_RESULT_BAD then k
      else if res \<noteq> PRIV_SOCK_RESULT_OK then die E msg else priv_sock_recv_fd E Child_end)
      (swap (?v\<lparr>p2c := [Byte PRIV_SOCK_RESULT_OK, Fd fd]\<rparr>)) = Done fd (swap ?v)"
    using answer_result[OF q, of PRIV_SOCK_RESULT_OK E "[Fd fd]"] answer_fd[of fd E ?v] fd quiet_id[OF q]
    by (simp add: bind_def)
  have sw: "swap ?v = w' \<longleftrightarrow> ?v = swap w'" by (metis swap_swap)
  have "seq (vsf_sysutil_close E fd) (return fd) v = Done x (swap w')
      \<longleftrightarrow> ret_int (os E (trace v) (Close fd)) = 0 \<and> fd = x \<and> ?v = swap w'"
    by (auto simp: seq_Done close_Done return_def)
  then show ?thesis
    unfolding sent by (simp only: conj_assoc ex_simps simp_thms got outcome.inject sw)
qed

lemma as_parent_Done: "as_parent m w = Done x w' \<longleftrightarrow> m (swap w) = Done x (swap w')"
  by (auto simp: as_parent_def split: outcome.splits)

lemma turn_Done:
  "(case m of Done _ v \<Rightarrow> k (swap v) | Halt h v \<Rightarrow> Halt h (swap v)) = Done x w' \<longleftrightarrow>
     (\<exists>v. m = Done () v \<and> k (swap v) = Done x w')"
  by (cases m) simp_all

lemma request_accept:
  assumes q: "quiet w"
  shows "vsf_two_process_get_pasv_fd E w = Done x w' \<longleftrightarrow>
    as_parent (handing_over E (vsf_privop_accept_pasv E)) w = Done x w'"
proof (cases "vsf_privop_accept_pasv E (swap w)")
  case (Done fd v)
  then have v: "quiet v" using q quiet_Done[OF keeps_privops_frame(5)[OF quiet_frame], of "swap w"] by simp
  show ?thesis
  proof (cases "fd < 0")
    case True
    then have i: "is_int fd" using accept_pasv_range[OF Done] by (auto simp: is_int_def)
    have "block [priv_sock_send_result Parent_end PRIV_SOCK_RESULT_BAD, priv_sock_send_int Parent_end fd] v
        = Done () (v\<lparr>p2c := Byte PRIV_SOCK_RESULT_BAD # map Byte (encode_int fd)\<rparr>)"
      using v by (simp add: seq_def bind_def return_def priv_sock_send_result_def priv_sock_send_int_def
          chan_write_def quiet_def)
    then show ?thesis
      unfolding vsf_two_process_get_pasv_fd_def parent_turn_request[OF q]
      using Done True answer_int[OF i v, of E] answer_result[OF v, of PRIV_SOCK_RESULT_BAD E]
      by (simp add: cmd_process_pasv_accept_def handing_over_def as_parent_def bind_def return_def)
  next
    case False
    have "cmd_process_pasv_accept E (swap w) = block [priv_sock_send_result Parent_end PRIV_SOCK_RESULT_OK,
        priv_sock_send_fd Parent_end fd, vsf_sysutil_close E fd] v"
      using Done False by (simp add: cmd_process_pasv_accept_def bind_def del: block.simps)
    moreover have "handing_over E (vsf_privop_accept_pasv E) (swap w) = seq (vsf_sysutil_close E fd) (return fd) v"
      using Done False by (simp add: handing_over_def bind_def)
    ultimately show ?thesis
      unfolding vsf_two_process_get_pasv_fd_def parent_turn_request[OF q] as_parent_Done
      using hand_over[OF v, of fd] False by (simp add: turn_Done del: block.simps)
  qed
next
  case (Halt h v)
  then show ?thesis
    unfolding vsf_two_process_get_pasv_fd_def parent_turn_request[OF q] as_parent_def
    by (simp add: cmd_process_pasv_accept_def handing_over_def bind_def)
qed

lemma request_data_sock:
  assumes q: "quiet w" and a: "p_port_sockaddr (sess w) = Some a" "vsf_sysutil_sockaddr_get_port a = Inr port"
  shows "vsf_two_process_get_priv_data_sock E w = Done x w' \<longleftrightarrow>
    as_parent (handing_over E (vsf_privop_get_ftp_port_sock E port False)) w = Done x w'"
proof -
  let ?k = "bind (priv_sock_get_result E Child_end) (\<lambda>res. if res = PRIV_SOCK_RESULT_BAD then return (-1)
      else if res \<noteq> PRIV_SOCK_RESULT_OK then die E ''could not get privileged socket''
      else priv_sock_recv_fd E Child_end)"
  let ?w = "w\<lparr>c2p := Byte PRIV_SOCK_GET_DATA_SOCK # map Byte (encode_int (uint port))\<rparr>"
  have sw: "swap (w\<lparr>c2p := xs\<rparr>) = swap w\<lparr>c2p := xs\<rparr>" "swap w\<lparr>c2p := []\<rparr> = swap w" for xs
    using q by (simp_all add: swap_def quiet_def)
  have cmd: "priv_sock_get_cmd E Parent_end (swap ?w)
      = Done PRIV_SOCK_GET_DATA_SOCK (swap (w\<lparr>c2p := map Byte (encode_int (uint port))\<rparr>))"
    using get_byte_sent(1)[of "swap ?w" PRIV_SOCK_GET_DATA_SOCK "map Byte (encode_int (uint port))" E]
    by (simp add: sw)
  have int: "priv_sock_get_int E Parent_end (swap (w\<lparr>c2p := map Byte (encode_int (uint port))\<rparr>))
      = Done (uint port) (swap w)"
    using get_int_sent(1)[OF uint_u16_is_int, of "swap (w\<lparr>c2p := map Byte (encode_int (uint port))\<rparr>)" port "[]" E]
    by (simp add: sw)
  have turn: "vsf_two_process_get_priv_data_sock E w
    = (case cmd_process_get_data_sock E (swap (w\<lparr>c2p := map Byte (encode_int (uint port))\<rparr>)) of
         Done _ v \<Rightarrow> ?k (swap v) | Halt h v \<Rightarrow> Halt h (swap v))"
    using q a cmd
    by (simp add: vsf_two_process_get_priv_data_sock_def port_sockaddr_port_def bind_def get_def lift_res_def
        return_def seq_def priv_sock_send_cmd_def priv_sock_send_int_def chan_write_def quiet_def
        parent_turn_def as_parent_def process_post_login_req_def split: outcome.split)
  show ?thesis
  proof (cases "vsf_privop_get_ftp_port_sock E port False (swap w)")
    case (Done fd v)
    then have v: "quiet v" using q quiet_Done[OF keeps_privops_frame(1)[OF quiet_frame], of "swap w"] by simp
    show ?thesis
    proof (cases "fd = -1")
      case True
      then show ?thesis
        using Done int answer_result[OF v, of PRIV_SOCK_RESULT_BAD E "[]"] quiet_id[OF v]
        unfolding turn as_parent_def
        by (simp add: cmd_process_get_data_sock_def handing_over_def bind_def return_def)
    next
      case False
      then have fd: "fd \<ge> 0" using get_sock_range[OF Done] by simp
      have "cmd_process_get_data_sock E (swap (w\<lparr>c2p := map Byte (encode_int (uint port))\<rparr>))
          = block [priv_sock_send_result Parent_end PRIV_SOCK_RESULT_OK, priv_sock_send_fd Parent_end fd,
              vsf_sysutil_close E fd] v"
        using Done False int by (simp add: cmd_process_get_data_sock_def bind_def del: block.simps)
      moreover have "handing_over E (vsf_privop_get_ftp_port_sock E port False) (swap w)
          = seq (vsf_sysutil_close E fd) (return fd) v"
        using Done fd by (simp add: handing_over_def bind_def)
      ultimately show ?thesis
        unfolding turn as_parent_Done
        using hand_over[OF v fd] by (simp add: turn_Done del: block.simps)
    qed
  next
    case (Halt h v)
    then show ?thesis
      using int unfolding turn as_parent_def
      by (simp add: cmd_process_get_data_sock_def handing_over_def bind_def)
  qed
qed

section \<open>The passive service, whatever the process model\<close>

text \<open>
  What src/postlogin.c and src/ftpdataio.c rely on: the service says truly whether it is active,
  listening makes it active on a port of the range, cleaning up makes it inactive. \<open>ready\<close> are
  the worlds it can be called in.
\<close>

locale passive_service =
  fixes E :: env and ready :: "world \<Rightarrow> bool" and on :: "world \<Rightarrow> bool"
    and active :: "int proc" and listen :: "u16 proc" and cleanup :: "unit proc"
  assumes active_tells: "ready w \<Longrightarrow> active w = Done (if on w then 1 else 0) w"
    and listen_on: "ready w \<Longrightarrow> listen w = Done p w' \<Longrightarrow>
      ready w' \<and> on w' \<and> pasv_min_port E \<le> p \<and> p \<le> pasv_max_port E"
    and listen_once: "ready w \<Longrightarrow> on w \<Longrightarrow> listen w \<noteq> Done p w'"
    and cleanup_off: "ready w \<Longrightarrow> cleanup w = Done () w' \<Longrightarrow> ready w' \<and> \<not> on w'"
begin

lemma cleanup_inactive: "ready w \<Longrightarrow> cleanup w = Done () w' \<Longrightarrow> active w' = Done 0 w'"
  using cleanup_off active_tells[of w'] by auto

lemma listen_active: "ready w \<Longrightarrow> listen w = Done p w' \<Longrightarrow> active w' = Done 1 w'"
  using listen_on active_tells[of w'] by auto

lemma restart:
  assumes "ready w" "seq cleanup listen w = Done p w'"
  shows "active w' = Done 1 w' \<and> pasv_min_port E \<le> p \<and> p \<le> pasv_max_port E"
proof -
  obtain v where "cleanup w = Done () v" "listen v = Done p w'"
    using assms(2) by (auto simp: seq_Done)
  then show ?thesis
    using assms(1) cleanup_off[of w v] listen_on[of v p w'] listen_active[of v p w'] by blast
qed

lemma no_second_listen: "ready w \<Longrightarrow> listen w = Done p w' \<Longrightarrow> listen w' \<noteq> Done q w''"
  using listen_on listen_once by blast

end

definition one_on :: "world \<Rightarrow> bool" where
  "one_on w \<longleftrightarrow> pasv_listen_fd (sess w) \<noteq> -1"

definition two_on :: "world \<Rightarrow> bool" where
  "two_on w \<longleftrightarrow> pasv_listen_fd (psess w) \<noteq> -1"

lemma pasv_cleanup_Done: "vsf_privop_pasv_cleanup E w = Done x w' \<Longrightarrow> pasv_listen_fd (sess w') = -1"
  by (auto simp: vsf_privop_pasv_cleanup_def bind_Done seq_Done get_def whenp_def return_def upd_def split: if_splits)

interpretation one_passive: passive_service E "\<lambda>_. True" one_on
  "vsf_one_process_pasv_active E" "vsf_one_process_listen E" "vsf_one_process_pasv_cleanup E" for E
proof
  show "vsf_one_process_pasv_active E w = Done (if one_on w then 1 else 0) w" for w
    by (simp add: vsf_one_process_pasv_active_def vsf_privop_pasv_active_def bind_def get_def return_def one_on_def)
qed (auto simp: vsf_one_process_listen_def one_on_def vsf_one_process_pasv_cleanup_def listening_def
      dest!: pasv_listen_Done pasv_cleanup_Done)

interpretation two_passive: passive_service E quiet two_on
  "vsf_two_process_pasv_active E" "vsf_two_process_listen E" "vsf_two_process_pasv_cleanup E" for E
proof
  fix w w' :: world and p
  assume q: "quiet w"
  show "vsf_two_process_pasv_active E w = Done (if two_on w then 1 else 0) w"
    using q by (simp add: request_active as_parent_def vsf_one_process_pasv_active_def vsf_privop_pasv_active_def
        bind_def get_def return_def two_on_def)
  have quiet: "quiet w'" if "m (swap w) = Done x (swap w')" "keeps quiet m" for m :: "'a proc" and x
    using quiet_Done[OF that(2) _ that(1)] q by simp
  show "quiet w' \<and> two_on w' \<and> pasv_min_port E \<le> p \<and> p \<le> pasv_max_port E"
    if "vsf_two_process_listen E w = Done p w'"
    using that q pasv_listen_Done[of E "swap w" p "swap w'"] quiet[OF _ keeps_privops_frame(4)[OF quiet_frame]]
    by (auto simp: request_listen as_parent_Done two_on_def listening_def)
  show "vsf_two_process_listen E w \<noteq> Done p w'" if "two_on w"
    using that q pasv_listen_Done[of E "swap w" p "swap w'"]
    by (auto simp: request_listen as_parent_Done two_on_def)
  show "quiet w' \<and> \<not> two_on w'" if "vsf_two_process_pasv_cleanup E w = Done () w'"
    using that q pasv_cleanup_Done[of E "swap w" "()" "swap w'"] quiet[OF _ keeps_privops_frame(2)[OF quiet_frame]]
    by (auto simp: request_cleanup as_parent_Done two_on_def)
qed

end
