(* ===== verification/File_Filter.thy ===== *)
theory File_Filter
  imports Privops
begin

text \<open>
  The file name patterns of src/ls.c and the access rules of src/access.c that use them. A name is
  first resolved by the system, then matched; \<open>iters\<close> counts the rounds of the matcher over all its
  recursive calls and ends it at VSFTP_MATCHITERS_MAX.
\<close>

definition VSFTP_MATCHITERS_MAX :: nat where "VSFTP_MATCHITERS_MAX = 1000"

section \<open>Resolving a name\<close>

text \<open>
  The branch for a name that may not exist yet resolves the directory, composes a path and
  returns a null pointer instead of it.
\<close>

definition vsf_sysutil_realpath :: "env \<Rightarrow> string \<Rightarrow> bool \<Rightarrow> string option proc" where
  "vsf_sysutil_realpath E path may_be_fresh = bind (sys_str E (Realpath path)) (\<lambda>resolved.
     if resolved \<noteq> None then return resolved
     else bind (vsf_sysutil_get_error E) (\<lambda>e.
       if e \<noteq> kErrNOENT \<or> \<not> may_be_fresh then return None
       else let dir = (if CHR ''/'' \<in> set path
                       then rev (dropWhile (\<lambda>c. c \<noteq> CHR ''/'') (rev path)) else ''.'') in
         bind (sys_str E (Realpath dir)) (\<lambda>resolved_dir. return None)))"

definition str_getcwd :: "env \<Rightarrow> string proc" where
  "str_getcwd E = bind (sys_str E Getcwd) (\<lambda>r. return (case r of None \<Rightarrow> [] | Some t \<Rightarrow> c_text t))"

text \<open>The part of the name that the filter speaks of.\<close>

definition filter_name :: "env \<Rightarrow> string \<Rightarrow> string \<Rightarrow> string proc" where
  "filter_name E filter_str normal =
     (if filter_str \<noteq> [] \<and> normal \<noteq> []
      then if hd filter_str = CHR ''/''
        then if hd normal \<noteq> CHR ''/''
          then bind (str_getcwd E) (\<lambda>cwd.
                 return (cwd @ (if length cwd > 1 then ''/'' else []) @ normal))
          else return normal
        else return (if hd filter_str \<noteq> CHR ''{'' then basename normal else normal)
      else return normal)"

section \<open>Matching\<close>

text \<open>What is left after the last of the successive occurrences of a text. (Names and patterns hold no NUL.)\<close>

function (sequential) greedy_rest :: "string \<Rightarrow> string \<Rightarrow> string" where
  "greedy_rest needed scan = (if needed = [] then scan
     else case locate_text scan needed of
       None \<Rightarrow> scan
     | Some i \<Rightarrow> greedy_rest needed (drop (i + length needed) scan))"
  by pat_completeness auto
termination
proof (relation "measure (\<lambda>(_, scan). length scan)")
  fix needed scan :: string and i
  assume "needed \<noteq> []" and l: "locate_text scan needed = Some i"
  then have "i + length needed \<le> length scan" "0 < length needed"
    by (auto simp: locate_text_Some occurs_at_def)
  then have "length scan - (i + length needed) < length scan" by linarith
  then show "((needed, drop (i + length needed) scan), needed, scan) \<in> measure (\<lambda>(_, scan). length scan)"
    by simp
qed simp

declare greedy_rest.simps [simp del]

text \<open>Consuming the text before a wildcard; \<open>None\<close> is a failed match.\<close>

definition consume :: "string \<Rightarrow> bool \<Rightarrow> string \<Rightarrow> string option" where
  "consume needed must_match_at_current_pos name =
     (if needed = [] then Some name
      else case locate_text name needed of
        None \<Rightarrow> None
      | Some i \<Rightarrow>
        if must_match_at_current_pos
        then if i > 0 then None else Some (drop (length needed) name)
        else Some (greedy_rest needed (drop (i + length needed) name)))"

text \<open>Up to the next special character: the text, the character (NUL if there is none), the rest.\<close>

definition next_token :: "string \<Rightarrow> string \<times> char \<times> string" where
  "next_token f = (case locate_chars f ''*?{'' of
     Some i \<Rightarrow> (take i f, f ! i, drop (Suc i) f)
   | None \<Rightarrow> (f, NUL, []))"

lemma locate_chars_bound: "locate_chars f cs = Some i \<Longrightarrow> i < length f"
  unfolding locate_chars_def by (auto simp: find_Some_iff)

lemma next_token_length: "next_token f = (n, t, r) \<Longrightarrow> f \<noteq> [] \<Longrightarrow> length r < length f"
  by (auto simp: next_token_def dest: locate_chars_bound split: option.splits)

lemma split_char_length:
  assumes "split_char s c = (l, r)" "c \<noteq> NUL"
  shows "length l + length r \<le> length s" "c \<in> set s \<Longrightarrow> length l + length r < length s"
    "l \<noteq> [] \<Longrightarrow> length r < length s"
proof -
  let ?l = "takeWhile (\<lambda>x. x \<noteq> c) s"
  have l: "l = ?l" "r = drop (Suc (length ?l)) s" using assms by (auto simp: split_char_eq)
  have "length ?l \<le> length s" by (rule length_takeWhile_le)
  then show "length l + length r \<le> length s" "l \<noteq> [] \<Longrightarrow> length r < length s"
    using l by (auto intro: diff_less)
  show "length l + length r < length s" if "c \<in> set s"
  proof -
    have "?l \<noteq> s" using that by (metis (mono_tags) set_takeWhileD)
    then have "length ?l < length s" by (metis length_takeWhile_le nat_less_le takeWhile_eq_take take_all_iff)
    then show ?thesis using l by auto
  qed
qed

lemma split_brace: "split_char s (CHR ''}'') = (l, r) \<Longrightarrow> CHR ''}'' \<in> set s \<Longrightarrow> length l + length r < length s"
  by (rule split_char_length(2)) (simp_all add: NUL_def)

lemma split_comma: "split_char s (CHR '','') = (l, r) \<Longrightarrow> l \<noteq> [] \<Longrightarrow>
    length l + length r \<le> length s \<and> length r < length s"
  using split_char_length(1,3)[of s "CHR '',''" l r] by (simp add: NUL_def)

text \<open>
  The three recursive parts: the whole routine, which resolves the name and starts the loop; the
  loop over the filter; and the alternatives of a brace, tried with the rest of the filter. The
  result is the answer with the rounds counted so far.
\<close>

function (sequential) filename_passes :: "env \<Rightarrow> string \<Rightarrow> string \<Rightarrow> nat \<Rightarrow> (bool \<times> nat) proc"
  and filter_loop :: "env \<Rightarrow> string \<Rightarrow> string \<Rightarrow> char \<Rightarrow> bool \<Rightarrow> nat \<Rightarrow> (bool \<times> nat) proc"
  and brace_loop :: "env \<Rightarrow> string \<Rightarrow> string \<Rightarrow> string \<Rightarrow> nat \<Rightarrow> (bool \<times> nat) proc" where
  "filename_passes E name filter_str iters =
     bind (vsf_sysutil_realpath E name True) (\<lambda>normname. case normname of
       None \<Rightarrow> return (False, iters)
     | Some normal \<Rightarrow> bind (filter_name E filter_str (c_text normal)) (\<lambda>remain.
         filter_loop E filter_str remain NUL True iters))"
| "filter_loop E filter_str name last_token must iters =
     (if filter_str = [] \<or> iters \<ge> VSFTP_MATCHITERS_MAX
      then return (\<not> (name \<noteq> [] \<and> last_token \<noteq> CHR ''*'') \<and> iters \<noteq> VSFTP_MATCHITERS_MAX, iters)
      else let (needed, tok, rest) = next_token filter_str in
        (case consume needed must name of
           None \<Rightarrow> return (False, Suc iters)
         | Some remain \<Rightarrow>
           if tok = CHR ''?''
           then if remain = [] then return (False, Suc iters)
             else filter_loop E rest (tl remain) tok True (Suc iters)
           else if tok = CHR ''{''
           then if CHR ''}'' \<in> set rest
             then let (braces, after) = split_char rest (CHR ''}'') in
               brace_loop E braces after remain (Suc iters)
             else if remain = [] \<or> hd remain \<noteq> CHR ''{'' then return (False, Suc iters)
             else filter_loop E rest (tl remain) tok True (Suc iters)
           else filter_loop E rest remain tok False (Suc iters)))"
| "brace_loop E braces after name iters =
     (let (item, more_items) = split_char braces (CHR '','') in
      if item = [] then return (False, iters)
      else bind (filename_passes E name (item @ after) iters) (\<lambda>(ok, n).
        if ok then return (True, n) else brace_loop E more_items after name n))"
  by pat_completeness auto
termination
proof (relation "measure (\<lambda>x. case x of
    Inl (_, _, f, _) \<Rightarrow> 2 * length f + 1
  | Inr (Inl (_, f, _, _, _, _)) \<Rightarrow> 2 * length f
  | Inr (Inr (_, b, a, _, _)) \<Rightarrow> 2 * (length b + length a) + 2)")
qed (auto dest!: next_token_length split_brace split_comma sym[of "(_, _)" "split_char _ _"] sym[of "(_, _, _)" "next_token _"])

declare filename_passes.simps [simp del] filter_loop.simps [simp del] brace_loop.simps [simp del]

definition vsf_filename_passes_filter :: "env \<Rightarrow> string \<Rightarrow> string \<Rightarrow> bool proc" where
  "vsf_filename_passes_filter E name filter_str =
     bind (filename_passes E name filter_str 0) (\<lambda>(ok, _). return ok)"

section \<open>Access rules\<close>

definition vsf_match_filter :: "env \<Rightarrow> string \<Rightarrow> string \<Rightarrow> bool proc" where
  "vsf_match_filter E p_filename_str p_access_str =
     bind (vsf_filename_passes_filter E p_filename_str p_access_str) (\<lambda>ok.
       if ok then return True else return (locate_text p_filename_str p_access_str \<noteq> None))"

definition vsf_access_check_file :: "env \<Rightarrow> string \<Rightarrow> bool proc" where
  "vsf_access_check_file E p_filename_str = (case tunable_deny_file E of
     None \<Rightarrow> return True
   | Some f \<Rightarrow> bind (vsf_match_filter E p_filename_str (c_text f)) (\<lambda>m. return (\<not> m)))"

definition vsf_access_check_file_visible :: "env \<Rightarrow> string \<Rightarrow> bool proc" where
  "vsf_access_check_file_visible E p_filename_str = (case tunable_hide_file E of
     None \<Rightarrow> return True
   | Some f \<Rightarrow> bind (vsf_match_filter E p_filename_str (c_text f)) (\<lambda>m. return (\<not> m)))"

definition vsf_access_check_file_upload :: "env \<Rightarrow> string \<Rightarrow> bool proc" where
  "vsf_access_check_file_upload E p_filename_str = (case tunable_upload_file E of
     None \<Rightarrow> return True | Some f \<Rightarrow> vsf_match_filter E p_filename_str (c_text f))"

definition vsf_access_check_file_download :: "env \<Rightarrow> string \<Rightarrow> bool proc" where
  "vsf_access_check_file_download E p_filename_str = (case tunable_download_file E of
     None \<Rightarrow> return True | Some f \<Rightarrow> vsf_match_filter E p_filename_str (c_text f))"

section \<open>The matcher in a session\<close>

lemma keeps_realpath [safes]: "base I \<Longrightarrow> keeps I (vsf_sysutil_realpath E p b)"
  unfolding vsf_sysutil_realpath_def Let_def by (intro safes; simp)

lemma keeps_getcwd [safes]: "base I \<Longrightarrow> keeps I (str_getcwd E)"
  unfolding str_getcwd_def by (intro safes; simp)

lemma keeps_filter_name [safes]: "base I \<Longrightarrow> keeps I (filter_name E f n)"
  unfolding filter_name_def by (intro safes; simp)

lemma keeps_matcher:
  assumes "base I"
  shows "keeps I (filename_passes E name f iters)"
    and "keeps I (filter_loop E f name tok must iters)"
    and "keeps I (brace_loop E b a name iters)"
proof (induction E name f iters and E f name tok must iters and E b a name iters
    rule: filename_passes_filter_loop_brace_loop.induct)
  case (1 E name filter_str iters)
  then show ?case
    unfolding filename_passes.simps[of E name]
    by (intro keeps_bind keeps_option keeps_return keeps_realpath keeps_filter_name assms) auto
next
  case (2 E filter_str name last_token must iters)
  show ?case
  proof (cases "filter_str = [] \<or> iters \<ge> VSFTP_MATCHITERS_MAX")
    case True
    then show ?thesis by (simp add: filter_loop.simps[of E filter_str] keeps_return)
  next
    case False
    obtain needed tok rest where t: "next_token filter_str = (needed, tok, rest)" by (metis prod_cases3)
    show ?thesis
    proof (cases "consume needed must name")
      case None
      then show ?thesis using False t by (simp add: filter_loop.simps[of E filter_str] keeps_return)
    next
      case (Some remain)
      obtain br af where b: "split_char rest (CHR ''}'') = (br, af)" by fastforce
      note IH = 2[OF False t[symmetric] refl refl Some]
      show ?thesis
        using False t Some b IH(1) IH(2)[OF _ _ _ b[symmetric] refl] IH(3) IH(4)
        by (auto simp: filter_loop.simps[of E filter_str] keeps_return)
    qed
  qed
next
  case (3 E braces after name iters)
  obtain item more_items where t: "split_char braces (CHR '','') = (item, more_items)" by fastforce
  show ?case
  proof (cases "item = []")
    case True
    then show ?thesis using t by (simp add: brace_loop.simps[of E braces] keeps_return)
  next
    case False
    note IH = 3[OF t[symmetric] refl False]
    show ?thesis
      using False t IH by (auto simp: brace_loop.simps[of E braces] intro!: keeps_bind keeps_prod keeps_if keeps_return)
  qed
qed

lemma keeps_access [safes]:
  assumes "base I"
  shows "keeps I (vsf_filename_passes_filter E n f)" "keeps I (vsf_match_filter E n f)"
    "keeps I (vsf_access_check_file E n)" "keeps I (vsf_access_check_file_visible E n)"
    "keeps I (vsf_access_check_file_upload E n)" "keeps I (vsf_access_check_file_download E n)"
proof -
  show f: "keeps I (vsf_filename_passes_filter E n f)" for n f
    unfolding vsf_filename_passes_filter_def
    by (intro keeps_bind keeps_prod keeps_return keeps_matcher assms)
  show m: "keeps I (vsf_match_filter E n f)" for n f
    unfolding vsf_match_filter_def by (intro keeps_bind keeps_if keeps_return f)
  show "keeps I (vsf_access_check_file E n)" "keeps I (vsf_access_check_file_visible E n)"
    "keeps I (vsf_access_check_file_upload E n)" "keeps I (vsf_access_check_file_download E n)"
    unfolding vsf_access_check_file_def vsf_access_check_file_visible_def
      vsf_access_check_file_upload_def vsf_access_check_file_download_def
    by (intro keeps_option keeps_bind keeps_return m)+
qed

section \<open>Patterns without braces\<close>

text \<open>What a pattern of texts and wildcards is to match.\<close>

fun glob :: "string \<Rightarrow> string \<Rightarrow> bool" where
  "glob [] n = (n = [])"
| "glob (c # f) n =
     (if c = CHR ''*'' then \<exists>k\<le>length n. glob f (drop k n)
      else n \<noteq> [] \<and> (c = CHR ''?'' \<or> hd n = c) \<and> glob f (tl n))"

definition plain :: "string \<Rightarrow> bool" where
  "plain s \<longleftrightarrow> CHR ''*'' \<notin> set s \<and> CHR ''?'' \<notin> set s \<and> CHR ''{'' \<notin> set s"

lemma glob_plain: "plain t \<Longrightarrow> glob (t @ f) (t @ n) = glob f n"
  by (induction t) (auto simp: plain_def)

lemma glob_plain_self: "plain t \<Longrightarrow> glob t t"
  using glob_plain[of t "[]" "[]"] by simp

lemma next_token_cases:
  assumes "next_token f = (n, t, r)"
  obtains "f = n" "t = NUL" "r = []" "plain n" | "f = n @ t # r" "t \<in> {CHR ''*'', CHR ''?'', CHR ''{''}" "plain n"
proof (cases "locate_chars f ''*?{''")
  case None
  then have "\<forall>i<length f. f ! i \<notin> set ''*?{''" by (auto simp: locate_chars_def find_None_iff)
  then have "plain f" by (auto simp: plain_def in_set_conv_nth)
  then show ?thesis using assms None that(1) by (auto simp: next_token_def)
next
  case (Some i)
  then have i: "i < length f" "f ! i \<in> set ''*?{''" "\<forall>j<i. f ! j \<notin> set ''*?{''"
    by (auto simp: locate_chars_def find_Some_iff)
  have "f = take i f @ f ! i # drop (Suc i) f" using i(1) by (rule id_take_nth_drop)
  moreover have "plain (take i f)" using i by (auto simp: plain_def in_set_conv_nth)
  ultimately show ?thesis using assms Some i that(2) by (auto simp: next_token_def)
qed

lemma greedy_rest_suffix: "needed \<noteq> [] \<Longrightarrow> greedy_rest needed b = b \<or> (\<exists>k. drop k b = needed @ greedy_rest needed b)"
proof (induction needed b rule: greedy_rest.induct)
  case (1 needed scan)
  show ?case
  proof (cases "locate_text scan needed")
    case None
    then show ?thesis by (simp add: greedy_rest.simps)
  next
    case (Some i)
    then have eq: "greedy_rest needed scan = greedy_rest needed (drop (i + length needed) scan)"
      using 1(2) by (subst greedy_rest.simps) simp
    have d: "drop i scan = needed @ drop (i + length needed) scan"
      using Some by (simp add: locate_text_Some occurs_at_def) (metis add.commute append_take_drop_id drop_drop)
    from 1(1)[OF 1(2) Some 1(2)] show ?thesis
    proof
      assume "greedy_rest needed (drop (i + length needed) scan) = drop (i + length needed) scan"
      then show ?thesis using eq d by metis
    next
      assume "\<exists>k. drop k (drop (i + length needed) scan) = needed @ greedy_rest needed (drop (i + length needed) scan)"
      then show ?thesis using eq by (metis drop_drop)
    qed
  qed
qed

lemma consume_Some:
  assumes "consume t must name = Some r"
  shows "must \<Longrightarrow> name = t @ r" "\<exists>k\<le>length name. drop k name = t @ r"
proof -
  have occ: "drop i name = t @ drop (i + length t) name" if "locate_text name t = Some i" for i
    using that by (simp add: locate_text_Some occurs_at_def) (metis add.commute append_take_drop_id drop_drop)
  show "name = t @ r" if must
    using assms that occ[of 0] by (auto simp: consume_def split: if_splits option.splits)
  have "\<exists>k. drop k name = t @ r"
  proof (cases "t = []")
    case True
    then show ?thesis using assms by (auto simp: consume_def intro: exI[of _ 0])
  next
    case False
    then obtain i where i: "locate_text name t = Some i"
      using assms by (auto simp: consume_def split: option.splits)
    let ?b = "drop (i + length t) name"
    have "r = drop (length t) name \<and> i = 0 \<or> r = greedy_rest t ?b"
      using assms False i by (auto simp: consume_def split: if_splits)
    then show ?thesis
    proof
      assume "r = drop (length t) name \<and> i = 0"
      then show ?thesis using occ[OF i] by (intro exI[of _ 0]) simp
    next
      assume r: "r = greedy_rest t ?b"
      from greedy_rest_suffix[OF False, of ?b] show ?thesis
      proof
        assume "greedy_rest t ?b = ?b"
        then show ?thesis using occ[OF i] r by metis
      next
        assume "\<exists>k. drop k ?b = t @ greedy_rest t ?b"
        then show ?thesis using r by (metis drop_drop)
      qed
    qed
  qed
  then obtain k where "drop k name = t @ r" by blast
  then show "\<exists>k\<le>length name. drop k name = t @ r"
    by (cases "k \<le> length name") (auto intro: exI[of _ "length name"])
qed

lemma filter_loop_sound:
  "filter_loop E f name tok must iters w = Done (True, n) w' \<Longrightarrow> CHR ''{'' \<notin> set f \<Longrightarrow>
     iters \<le> VSFTP_MATCHITERS_MAX \<Longrightarrow> must \<longrightarrow> tok \<noteq> CHR ''*'' \<Longrightarrow> \<not> must \<longrightarrow> tok = CHR ''*'' \<or> f = [] \<Longrightarrow>
     if tok = CHR ''*'' then \<exists>k\<le>length name. glob f (drop k name) else glob f name"
proof (induction "length f" arbitrary: f name tok must iters rule: less_induct)
  case less
  note run = less.prems(1)
  show ?case
  proof (cases "f = [] \<or> iters \<ge> VSFTP_MATCHITERS_MAX")
    case True
    then have "\<not> (name \<noteq> [] \<and> tok \<noteq> CHR ''*'')" "iters \<noteq> VSFTP_MATCHITERS_MAX"
      using run by (auto simp: filter_loop.simps[of E f] return_def)
    then show ?thesis using True less.prems(3) by auto
  next
    case False
    obtain t c r where nt: "next_token f = (t, c, r)" by (metis prod_cases3)
    have len: "length r < length f" using next_token_length[OF nt] False by simp
    obtain remain where rem: "consume t must name = Some remain"
      using run False nt by (auto simp: filter_loop.simps[of E f] return_def split: option.splits)
    have it: "Suc iters \<le> VSFTP_MATCHITERS_MAX" using False by simp
    note step = run[unfolded filter_loop.simps[of E f]]
    have g: "glob f (t @ remain)"
      using nt
    proof (cases rule: next_token_cases)
      case 1
      then have "filter_loop E [] remain NUL False (Suc iters) w = Done (True, n) w'"
        using step False nt rem by (simp add: NUL_def)
      from less.hyps[OF _ this] len 1 it have "glob [] remain" by (simp add: NUL_def)
      then show ?thesis using 1 glob_plain_self[of t] by simp
    next
      case 2
      have nb: "CHR ''{'' \<notin> set r" "c \<noteq> CHR ''{''" using less.prems(2) 2(1) by auto
      show ?thesis
      proof (cases "c = CHR ''?''")
        case True
        then have run2: "remain \<noteq> []" "filter_loop E r (tl remain) c True (Suc iters) w = Done (True, n) w'"
          using step False nt rem by (auto simp: return_def split: if_splits)
        from less.hyps[OF len run2(2) nb(1) it] True have "glob r (tl remain)" by simp
        then show ?thesis using 2 True run2(1) glob_plain[OF 2(3), of "c # r" remain] by simp
      next
        case False': False
        then have c: "c = CHR ''*''" using 2(2) nb(2) by simp
        then have run2: "filter_loop E r remain c False (Suc iters) w = Done (True, n) w'"
          using step False nt rem by simp
        from less.hyps[OF len run2 nb(1) it] c have "\<exists>k\<le>length remain. glob r (drop k remain)" by simp
        then show ?thesis using 2 c glob_plain[OF 2(3), of "c # r" remain] by simp
      qed
    qed
    show ?thesis
    proof (cases must)
      case True
      then show ?thesis using g consume_Some(1)[OF rem] less.prems(4) by simp
    next
      case False'': False
      then have "tok = CHR ''*''" using less.prems(5) False by simp
      then show ?thesis using g consume_Some(2)[OF rem] by metis
    qed
  qed
qed

text \<open>A filter without braces is a glob for the part of the resolved name that it speaks of.\<close>

lemma filename_passes_sound:
  assumes "filename_passes E name f 0 w = Done (True, n) w'" "CHR ''{'' \<notin> set f"
  shows "\<exists>normal v remain v'. vsf_sysutil_realpath E name True w = Done (Some normal) v
    \<and> filter_name E f (c_text normal) v = Done remain v' \<and> glob f remain"
proof -
  obtain normal remain v v' where r: "vsf_sysutil_realpath E name True w = Done (Some normal) v"
    and fn: "filter_name E f (c_text normal) v = Done remain v'"
    and run: "filter_loop E f remain NUL True 0 v' = Done (True, n) w'"
    using assms(1) unfolding filename_passes.simps[of E name]
    by (auto simp: bind_Done return_def split: option.splits)
  show ?thesis using r fn filter_loop_sound[OF run assms(2)] by (auto simp: NUL_def)
qed

section \<open>The number of rounds\<close>

lemma matcher_rounds:
  "filename_passes E name f iters w = Done (ok, n) w' \<Longrightarrow> iters \<le> VSFTP_MATCHITERS_MAX \<Longrightarrow> n \<le> VSFTP_MATCHITERS_MAX"
  "filter_loop E f name tok must iters w = Done (ok, n) w' \<Longrightarrow> iters \<le> VSFTP_MATCHITERS_MAX \<Longrightarrow> n \<le> VSFTP_MATCHITERS_MAX"
  "brace_loop E b a name iters w = Done (ok, n) w' \<Longrightarrow> iters \<le> VSFTP_MATCHITERS_MAX \<Longrightarrow> n \<le> VSFTP_MATCHITERS_MAX"
proof (induction E name f iters and E f name tok must iters and E b a name iters
    arbitrary: w ok n w' and w ok n w' and w ok n w'
    rule: filename_passes_filter_loop_brace_loop.induct)
  case (1 E name filter_str iters)
  then show ?case
    unfolding filename_passes.simps[of E name]
    by (auto simp: bind_Done return_def split: option.splits)
next
  case (2 E f name tok must iters)
  show ?case
  proof (cases "f = [] \<or> iters \<ge> VSFTP_MATCHITERS_MAX")
    case True
    then show ?thesis using 2(5,6) by (auto simp: filter_loop.simps[of E f] return_def)
  next
    case False
    obtain t c r where t: "next_token f = (t, c, r)" by (metis prod_cases3)
    obtain br af where b: "split_char r (CHR ''}'') = (br, af)" by fastforce
    show ?thesis
    proof (cases "consume t must name")
      case None
      then show ?thesis using False t 2(5) by (simp add: filter_loop.simps[of E f] return_def)
    next
      case (Some remain)
      have it: "Suc iters \<le> VSFTP_MATCHITERS_MAX" using False by simp
      note IH = 2(1-4)[OF False t[symmetric] refl refl Some]
      show ?thesis
        using False t Some b it IH(1) IH(2)[OF _ _ _ b[symmetric] refl] IH(3) IH(4) 2(5)
        by (auto simp: filter_loop.simps[of E f] return_def split: if_splits)
    qed
  qed
next
  case (3 E braces after name iters)
  obtain item more_items where t: "split_char braces (CHR '','') = (item, more_items)" by fastforce
  show ?case
  proof (cases "item = []")
    case True
    then show ?thesis using t 3(3,4) by (simp add: brace_loop.simps[of E braces] return_def)
  next
    case False
    note IH = 3(1,2)[OF t[symmetric] refl False]
    from 3(3) False t obtain k m v where
      run: "filename_passes E name (item @ after) iters w = Done (k, m) v"
      and cont: "(if k then return (True, m) else brace_loop E more_items after name m) v = Done (ok, n) w'"
      by (auto simp: brace_loop.simps[of E braces] bind_Done split: prod.splits)
    have m: "m \<le> VSFTP_MATCHITERS_MAX" using IH(1) run 3(4) by blast
    then show ?thesis using cont IH(2)[OF refl, of k m v ok n w'] by (auto simp: return_def split: if_splits)
  qed
qed

section \<open>A name that does not exist yet\<close>

text \<open>
  Its resolution fails whatever the pattern, so only the literal text of the rule can match it.
\<close>

lemma fresh_name_fails:
  assumes "ret_str (os E (trace w) (Realpath name)) = None"
  obtains w' where "vsf_filename_passes_filter E name f w = Done False w'"
proof -
  have "\<exists>w'. vsf_sysutil_realpath E name True w = Done None w'"
    using assms by (auto simp: vsf_sysutil_realpath_def sys_str_def sys_def bind_def Let_def return_def
        vsf_sysutil_get_error_def)
  then show ?thesis using that
    by (auto simp: vsf_filename_passes_filter_def filename_passes.simps bind_def return_def)
qed

lemma fresh_name_access:
  assumes "ret_str (os E (trace w) (Realpath name)) = None" "tunable_deny_file E = Some f"
  shows "\<exists>w'. vsf_access_check_file E name w = Done (locate_text name (c_text f) = None) w'"
proof -
  obtain w' where "vsf_filename_passes_filter E name (c_text f) w = Done False w'"
    using fresh_name_fails[OF assms(1)] .
  then show ?thesis using assms(2)
    by (auto simp: vsf_access_check_file_def vsf_match_filter_def bind_def return_def)
qed

end
