(* ===== verification/Str.thy ===== *)
theory Str
  imports Text
begin

text \<open>
  src/str.c at the level of its buffers. A \<open>mystr\<close> is the C struct: a heap block of
  \<open>alloc_bytes + 1\<close> cells (\<open>None\<close> is a byte never written), the length and the allocation as
  32-bit words. Every read and write goes through the bounds the Checked C types declare; a
  failed check is a \<open>Trap\<close>. malloc and realloc are taken to succeed below INT_MAX, as the code
  dies otherwise. The lemmas show that a string satisfying \<open>str_ok\<close> never traps and that each
  operation computes its counterpart of Text.
\<close>

section \<open>The buffer\<close>

type_synonym cells = "char option list"

record mystr =
  p_buf :: "cells option"
  len :: u32
  alloc_bytes :: u32

definition INIT_MYSTR :: mystr where
  "INIT_MYSTR = \<lparr>p_buf = None, len = 0, alloc_bytes = 0\<rparr>"

text \<open>A block of fresh, unwritten memory; realloc keeps the old contents.\<close>

definition vsf_sysutil_malloc :: "u32 \<Rightarrow> cells res" where
  "vsf_sysutil_malloc sz =
     (if sz = 0 \<or> unat sz > INT_MAX then Inl (Bug ''zero or big size in vsf_sysutil_malloc'')
      else Inr (replicate (unat sz) None))"

definition vsf_sysutil_realloc :: "cells option \<Rightarrow> u32 \<Rightarrow> cells res" where
  "vsf_sysutil_realloc p sz =
     (if sz = 0 \<or> unat sz > INT_MAX then Inl (Bug ''zero or big size in vsf_sysutil_realloc'')
      else let old = (case p of None \<Rightarrow> [] | Some b \<Rightarrow> b) in
        Inr (take (unat sz) (old @ replicate (unat sz) None)))"

text \<open>Reading \<open>n\<close> bytes at \<open>off\<close>: the dynamic bounds cast, then every cell must be initialised.\<close>

fun init_cells :: "cells \<Rightarrow> string res" where
  "init_cells [] = Inr []"
| "init_cells (None # cs) = Inl (Trap ''uninitialised byte'')"
| "init_cells (Some c # cs) = rbind (init_cells cs) (\<lambda>s. Inr (c # s))"

definition mem_read :: "mystr \<Rightarrow> nat \<Rightarrow> nat \<Rightarrow> string res" where
  "mem_read s off n =
     (if off + n > unat (alloc_bytes s) then Inl (Trap ''bounds'')
      else case p_buf s of
        None \<Rightarrow> if n = 0 then Inr [] else Inl (Trap ''null'')
      | Some b \<Rightarrow> init_cells (take n (drop off b)))"

definition mem_load :: "mystr \<Rightarrow> nat \<Rightarrow> char res" where
  "mem_load s i =
     (case p_buf s of None \<Rightarrow> Inl (Trap ''null'')
      | Some b \<Rightarrow> if i \<le> unat (alloc_bytes s) \<and> i < length b
          then (case b ! i of None \<Rightarrow> Inl (Trap ''uninitialised byte'') | Some c \<Rightarrow> Inr c)
          else Inl (Trap ''bounds''))"

text \<open>A null-terminated array may be written at its end only with the terminator.\<close>

definition mem_store :: "mystr \<Rightarrow> nat \<Rightarrow> char \<Rightarrow> mystr res" where
  "mem_store s i c =
     (case p_buf s of None \<Rightarrow> Inl (Trap ''null'')
      | Some b \<Rightarrow> if (i < unat (alloc_bytes s) \<or> i = unat (alloc_bytes s) \<and> c = NUL) \<and> i < length b
          then Inr (s\<lparr>p_buf := Some (b[i := Some c])\<rparr>)
          else Inl (Trap ''bounds''))"

definition mem_copy :: "mystr \<Rightarrow> nat \<Rightarrow> string \<Rightarrow> mystr res" where
  "mem_copy s off src =
     (if off + length src > unat (alloc_bytes s) then Inl (Trap ''bounds'')
      else if src = [] then Inr s
      else if length src > INT_MAX then Inl (Die ''possible negative value to memcpy?'')
      else case p_buf s of None \<Rightarrow> Inl (Trap ''null'')
        | Some b \<Rightarrow> Inr (s\<lparr>p_buf := Some (take off b @ map Some src @ drop (off + length src) b)\<rparr>))"

section \<open>Allocation\<close>

definition str_free :: "mystr \<Rightarrow> mystr" where
  "str_free s = s\<lparr>alloc_bytes := 0, p_buf := None, len := 0\<rparr>"

definition s_setbuf :: "mystr \<Rightarrow> cells \<Rightarrow> u32 \<Rightarrow> mystr res" where
  "s_setbuf s newbuf n =
     (if p_buf s \<noteq> None then Inl (Bug ''p_buf not NULL when setting it'')
      else Inr (s\<lparr>alloc_bytes := n, p_buf := Some newbuf\<rparr>))"

definition private_str_alloc_memchunk :: "mystr \<Rightarrow> string \<Rightarrow> mystr res" where
  "private_str_alloc_memchunk s src = (let n = u32 (length src) in
     if n + 1 < n then Inl (Bug ''integer overflow'')
     else let buf_needed = n + 1 in
       rbind (if buf_needed > alloc_bytes s
              then rbind (vsf_sysutil_malloc (buf_needed + 1)) (\<lambda>arr.
                     s_setbuf (str_free s) (arr[unat buf_needed := Some NUL]) buf_needed)
              else Inr s)
       (\<lambda>s. rbind (mem_copy s 0 src)
       (\<lambda>s. rbind (mem_store s (unat n) NUL)
       (\<lambda>s. Inr (s\<lparr>len := n\<rparr>)))))"

definition private_str_append_memchunk :: "mystr \<Rightarrow> string \<Rightarrow> mystr res" where
  "private_str_append_memchunk s src = (let n = u32 (length src) in
     if n + len s < n then Inl (Bug ''integer overflow'')
     else if (n + len s) + 1 < n + len s then Inl (Bug ''integer overflow'')
     else let buf_needed = n + len s + 1 in
       rbind (if buf_needed > alloc_bytes s
              then rbind (vsf_sysutil_realloc (p_buf s) (buf_needed + 1)) (\<lambda>arr.
                     Inr (s\<lparr>alloc_bytes := buf_needed,
                            p_buf := Some (arr[unat buf_needed := Some NUL])\<rparr>))
              else Inr s)
       (\<lambda>s. rbind (mem_copy s (unat (len s)) src)
       (\<lambda>s. rbind (mem_store s (unat (len s + n)) NUL)
       (\<lambda>s. Inr (s\<lparr>len := len s + n\<rparr>)))))"

definition str_trunc :: "mystr \<Rightarrow> u32 \<Rightarrow> mystr res" where
  "str_trunc s trunc_len =
     (if trunc_len \<ge> alloc_bytes s then Inl (Bug ''trunc_len not smaller than alloc_bytes in str_trunc'')
      else mem_store (s\<lparr>len := trunc_len\<rparr>) (unat trunc_len) NUL)"

definition str_reserve :: "mystr \<Rightarrow> u32 \<Rightarrow> mystr res" where
  "str_reserve s res = (let res_len = res + 1 in
     if res_len = 0 then Inl (Bug ''integer overflow'')
     else rbind (if res_len > alloc_bytes s
            then rbind (vsf_sysutil_realloc (p_buf s) (res_len + 1)) (\<lambda>arr.
                   Inr (s\<lparr>alloc_bytes := res_len, p_buf := Some (arr[unat res_len := Some NUL])\<rparr>))
            else Inr s)
       (\<lambda>s. mem_store s (unat (res_len - 1)) NUL))"

text \<open>\<open>str_getbuf\<close> allocates an empty buffer where there is none, and yields the contents.\<close>

definition str_getbuf :: "mystr \<Rightarrow> (string \<times> mystr) res" where
  "str_getbuf s = rbind
     (if p_buf s = None
      then if len s \<noteq> 0 \<or> alloc_bytes s \<noteq> 0
           then Inl (Bug ''p_buf NULL and len or alloc_bytes != 0 in str_getbuf'')
           else private_str_alloc_memchunk s []
      else Inr s)
     (\<lambda>s. rbind (mem_read s 0 (unat (len s))) (\<lambda>b. Inr (b, s)))"

definition str_empty :: "mystr \<Rightarrow> mystr res" where
  "str_empty s = rbind (str_getbuf s) (\<lambda>(_, s). str_trunc s 0)"

definition str_isempty :: "mystr \<Rightarrow> bool" where
  "str_isempty s \<longleftrightarrow> len s = 0"

definition str_getlen :: "mystr \<Rightarrow> u32" where
  "str_getlen s = len s"

section \<open>Copying and appending\<close>

definition str_alloc_text :: "mystr \<Rightarrow> string \<Rightarrow> mystr res" where
  "str_alloc_text s p_src =
     rbind (vsf_sysutil_strlen p_src) (\<lambda>n. private_str_alloc_memchunk s (take (unat n) p_src))"

definition str_copy :: "mystr \<Rightarrow> mystr \<Rightarrow> mystr res" where
  "str_copy dest src = rbind (mem_read src 0 (unat (len src))) (private_str_alloc_memchunk dest)"

definition str_append_str :: "mystr \<Rightarrow> mystr \<Rightarrow> mystr res" where
  "str_append_str s other =
     rbind (mem_read other 0 (unat (len other))) (private_str_append_memchunk s)"

definition str_append_text :: "mystr \<Rightarrow> string \<Rightarrow> mystr res" where
  "str_append_text s p_src =
     rbind (vsf_sysutil_strlen p_src) (\<lambda>n. private_str_append_memchunk s (take (unat n) p_src))"

definition str_append_char :: "mystr \<Rightarrow> char \<Rightarrow> mystr res" where
  "str_append_char s c = private_str_append_memchunk s [c]"

definition str_alloc_ulong :: "mystr \<Rightarrow> u64 \<Rightarrow> mystr res" where
  "str_alloc_ulong s n = str_alloc_text s (vsf_sysutil_ulong_to_str n)"

definition str_append_ulong :: "mystr \<Rightarrow> u64 \<Rightarrow> mystr res" where
  "str_append_ulong s n = str_append_text s (vsf_sysutil_ulong_to_str n)"

definition str_alloc_filesize_t :: "mystr \<Rightarrow> int \<Rightarrow> mystr res" where
  "str_alloc_filesize_t s n = str_alloc_text s (vsf_sysutil_filesize_t_to_str n)"

definition str_append_filesize_t :: "mystr \<Rightarrow> int \<Rightarrow> mystr res" where
  "str_append_filesize_t s n = str_append_text s (vsf_sysutil_filesize_t_to_str n)"

section \<open>The invariant and the contents\<close>

definition str_ok :: "mystr \<Rightarrow> bool" where
  "str_ok s \<longleftrightarrow> (case p_buf s of None \<Rightarrow> len s = 0 \<and> alloc_bytes s = 0
     | Some b \<Rightarrow> length b = Suc (unat (alloc_bytes s)) \<and> unat (alloc_bytes s) < INT_MAX
         \<and> unat (len s) < unat (alloc_bytes s)
         \<and> None \<notin> set (take (unat (len s)) b)
         \<and> b ! unat (len s) = Some NUL \<and> b ! unat (alloc_bytes s) = Some NUL)"

definition str_abs :: "mystr \<Rightarrow> string" where
  "str_abs s = (case p_buf s of None \<Rightarrow> [] | Some b \<Rightarrow> map the (take (unat (len s)) b))"

definition str_rel :: "mystr \<Rightarrow> string \<Rightarrow> bool" where
  "str_rel s xs \<longleftrightarrow> str_ok s \<and> str_abs s = xs"

definition yields :: "mystr res \<Rightarrow> string \<Rightarrow> bool" where
  "yields m xs \<longleftrightarrow> (\<exists>s. m = Inr s \<and> str_rel s xs)"

definition fits :: "nat \<Rightarrow> bool" where
  "fits n \<longleftrightarrow> n + 2 \<le> INT_MAX"

lemma map_Some_the: "None \<notin> set xs \<Longrightarrow> map Some (map the xs) = xs"
  by (induction xs) auto

lemma init_cells_map [simp]: "init_cells (map Some xs) = Inr xs"
  by (induction xs) simp_all

lemma str_rel_None: "p_buf s = None \<Longrightarrow> str_rel s xs \<longleftrightarrow> xs = [] \<and> len s = 0 \<and> alloc_bytes s = 0"
  by (auto simp: str_rel_def str_ok_def str_abs_def)

lemma str_rel_Some:
  "p_buf s = Some b \<Longrightarrow> str_rel s xs \<longleftrightarrow>
     (\<exists>r. b = map Some xs @ Some NUL # r) \<and> length b = Suc (unat (alloc_bytes s))
     \<and> unat (alloc_bytes s) < INT_MAX \<and> length xs = unat (len s) \<and> length xs < unat (alloc_bytes s)
     \<and> b ! unat (alloc_bytes s) = Some NUL"
proof
  assume b: "p_buf s = Some b" and "str_rel s xs"
  then have *: "length b = Suc (unat (alloc_bytes s))" "unat (alloc_bytes s) < INT_MAX"
    "unat (len s) < unat (alloc_bytes s)" "None \<notin> set (take (unat (len s)) b)"
    "b ! unat (len s) = Some NUL" "b ! unat (alloc_bytes s) = Some NUL"
    "xs = map the (take (unat (len s)) b)"
    by (auto simp: str_rel_def str_ok_def str_abs_def)
  then have "take (unat (len s)) b = map Some xs" by (metis map_Some_the)
  moreover have "b = take (unat (len s)) b @ b ! unat (len s) # drop (Suc (unat (len s))) b"
    using * by (intro id_take_nth_drop) simp
  ultimately have "b = map Some xs @ Some NUL # drop (Suc (unat (len s))) b"
    using *(5) by (metis (no_types))
  with * show "(\<exists>r. b = map Some xs @ Some NUL # r) \<and> length b = Suc (unat (alloc_bytes s))
     \<and> unat (alloc_bytes s) < INT_MAX \<and> length xs = unat (len s) \<and> length xs < unat (alloc_bytes s)
     \<and> b ! unat (alloc_bytes s) = Some NUL" by auto
next
  assume b: "p_buf s = Some b" and "(\<exists>r. b = map Some xs @ Some NUL # r)
     \<and> length b = Suc (unat (alloc_bytes s))
     \<and> unat (alloc_bytes s) < INT_MAX \<and> length xs = unat (len s) \<and> length xs < unat (alloc_bytes s)
     \<and> b ! unat (alloc_bytes s) = Some NUL"
  then obtain r where r: "b = map Some xs @ Some NUL # r" and l: "length xs = unat (len s)"
    and rest: "length b = Suc (unat (alloc_bytes s))" "unat (alloc_bytes s) < INT_MAX"
      "length xs < unat (alloc_bytes s)" "b ! unat (alloc_bytes s) = Some NUL" by blast
  have "take (unat (len s)) b = map Some xs" "b ! unat (len s) = Some NUL"
    by (simp_all add: r l[symmetric] nth_append)
  then show "str_rel s xs" using b l rest
    by (auto simp: str_rel_def str_ok_def str_abs_def comp_def)
qed

lemma str_rel_len: "str_rel s xs \<Longrightarrow> unat (len s) = length xs"
  by (cases "p_buf s") (auto simp: str_rel_None str_rel_Some)

lemma str_rel_fits: "str_rel s xs \<Longrightarrow> fits (length xs)"
  by (cases "p_buf s") (auto simp: str_rel_None str_rel_Some fits_def INT_MAX_def)

lemma str_rel_lenw: "str_rel s xs \<Longrightarrow> len s = u32 (length xs)"
  by (metis str_rel_len u32_unat)

lemma fits_u32: "fits n \<Longrightarrow> n < 2 ^ 32"
  by (simp add: fits_def INT_MAX_def)

lemma INIT_MYSTR_rel [simp]: "str_rel INIT_MYSTR []"
  by (simp add: str_rel_None INIT_MYSTR_def)

lemma str_free_rel [simp]: "str_rel (str_free s) []"
  by (simp add: str_rel_None str_free_def)

lemma mem_read_rel:
  "str_rel s xs \<Longrightarrow> off + n \<le> length xs \<Longrightarrow> mem_read s off n = Inr (take n (drop off xs))"
proof (cases "p_buf s")
  case (Some b)
  moreover assume "str_rel s xs" and le: "off + n \<le> length xs"
  ultimately obtain r where b: "b = map Some xs @ Some NUL # r" and lt: "length xs < unat (alloc_bytes s)"
    by (auto simp: str_rel_Some)
  have "take n (drop off b) = map Some (take n (drop off xs))"
    using le by (simp add: b take_map drop_map)
  then show ?thesis using Some lt le by (simp add: mem_read_def)
qed (simp add: mem_read_def str_rel_None)

lemma mem_read_all: "str_rel s xs \<Longrightarrow> mem_read s 0 (unat (len s)) = Inr xs"
  by (simp add: mem_read_rel str_rel_len)

lemma mem_load_rel: "str_rel s xs \<Longrightarrow> i < length xs \<Longrightarrow> mem_load s i = Inr (xs ! i)"
  by (cases "p_buf s") (auto simp: mem_load_def str_rel_None str_rel_Some nth_append)

lemma mem_store_rel:
  "str_rel s xs \<Longrightarrow> i < length xs \<Longrightarrow> yields (mem_store s i c) (xs[i := c])"
proof (cases "p_buf s")
  case (Some b)
  moreover assume "str_rel s xs" and i: "i < length xs"
  ultimately obtain r where b: "b = map Some xs @ Some NUL # r"
    and *: "length b = Suc (unat (alloc_bytes s))"
     "unat (alloc_bytes s) < INT_MAX" "length xs = unat (len s)" "length xs < unat (alloc_bytes s)"
     "b ! unat (alloc_bytes s) = Some NUL"
    by (auto simp: str_rel_Some)
  let ?s = "s\<lparr>p_buf := Some (b[i := Some c])\<rparr>"
  have ex: "\<exists>r. b[i := Some c] = map Some (xs[i := c]) @ Some NUL # r"
    using i by (simp add: b list_update_append map_update)
  have "str_rel ?s (xs[i := c])"
    by (subst str_rel_Some[of _ "b[i := Some c]"]) (use ex * i in simp_all)
  moreover have "mem_store s i c = Inr ?s" using Some * i by (simp add: mem_store_def)
  ultimately show ?thesis by (auto simp: yields_def)
qed (simp add: str_rel_None)

section \<open>Allocation and growth compute the abstract operations\<close>

text \<open>The common tail of both primitives: copy, terminate, set the length.\<close>

lemma write_phase:
  assumes "p_buf s = Some b" "length b = Suc (unat (alloc_bytes s))" "unat (alloc_bytes s) < INT_MAX"
    and "b ! unat (alloc_bytes s) = Some NUL" "take (length xs) b = map Some xs"
    and fit: "length xs + length src < unat (alloc_bytes s)"
    and n: "unat n = length xs + length src"
  shows "yields (rbind (mem_copy s (length xs) src) (\<lambda>s. rbind (mem_store s (unat n) NUL)
           (\<lambda>s. Inr (s\<lparr>len := n\<rparr>)))) (xs @ src)"
proof -
  let ?c = "take (length xs) b @ map Some src @ drop (unat n) b"
  have small: "length src \<le> INT_MAX" using fit assms(3) by simp
  have c0: "mem_copy s (length xs) src = Inr (s\<lparr>p_buf := Some ?c\<rparr>)"
  proof (cases "src = []")
    case True
    then have "?c = b" using n by simp
    then show ?thesis using True fit assms(1) by (simp add: mem_copy_def)
  qed (use assms small in \<open>simp add: mem_copy_def\<close>)
  have lenc: "length ?c = Suc (unat (alloc_bytes s))" using assms by simp
  have drop: "drop (unat n) b = b ! unat n # drop (Suc (unat n)) b"
    using assms by (simp add: Cons_nth_drop_Suc)
  have upd: "?c[unat n := Some NUL] = map Some (xs @ src) @ Some NUL # drop (Suc (unat n)) b"
    unfolding drop using assms by (simp add: list_update_append)
  have "?c ! unat (alloc_bytes s) = drop (unat n) b ! (unat (alloc_bytes s) - unat n)"
    using assms by (auto simp: nth_append)
  then have nth: "?c[unat n := Some NUL] ! unat (alloc_bytes s) = Some NUL"
    using assms lenc by simp
  let ?s = "s\<lparr>p_buf := Some (?c[unat n := Some NUL]), len := n\<rparr>"
  have ex: "\<exists>r. ?c[unat n := Some NUL] = map Some (xs @ src) @ Some NUL # r"
    using upd by blast
  have "str_rel ?s (xs @ src)"
    by (subst str_rel_Some[of _ "?c[unat n := Some NUL]"]) (use ex lenc nth fit n assms(3) in simp_all)
  moreover have "mem_store (s\<lparr>p_buf := Some ?c\<rparr>) (unat n) NUL = Inr (s\<lparr>p_buf := Some (?c[unat n := Some NUL])\<rparr>)"
    using lenc fit n by (simp add: mem_store_def)
  ultimately show ?thesis by (simp add: c0 yields_def)
qed

lemma alloc_memchunk_rel [str_rels]:
  assumes "str_rel s ys" "fits (length src)"
  shows "yields (private_str_alloc_memchunk s src) src"
proof -
  have fit: "length src + 2 \<le> INT_MAX" "INT_MAX < 2 ^ 32"
    using assms(2) by (simp_all add: fits_def INT_MAX_def)
  obtain n where n: "u32 (length src) = n" "unat n = length src" using fit by simp
  obtain a where a: "n + 1 = a" "unat a = Suc (length src)" using fit n by (simp add: unat_Suc_u32)
  obtain a2 where a2: "a + 1 = a2" "unat a2 = Suc (Suc (length src))" using fit a by (simp add: unat_Suc_u32)
  have no: "\<not> a < n" by (simp add: word_less_nat_alt a n)
  have def: "private_str_alloc_memchunk s src =
     rbind (if a > alloc_bytes s
              then rbind (vsf_sysutil_malloc a2) (\<lambda>arr.
                     s_setbuf (str_free s) (arr[unat a := Some NUL]) a)
              else Inr s)
       (\<lambda>s. rbind (mem_copy s 0 src) (\<lambda>s. rbind (mem_store s (unat n) NUL) (\<lambda>s. Inr (s\<lparr>len := n\<rparr>))))"
    using no unfolding private_str_alloc_memchunk_def Let_def n(1) a(1) a2(1) by simp
  show ?thesis
  proof (cases "a > alloc_bytes s")
    case True
    obtain r where r: "r = (replicate (unat a2) None :: cells)" "length r = unat a2" by simp
    let ?b = "r[unat a := Some NUL]"
    let ?s = "(str_free s)\<lparr>alloc_bytes := a, p_buf := Some ?b\<rparr>"
    have "a2 \<noteq> 0" using a2(2) by (metis nat.distinct(1) unsigned_0)
    then have "vsf_sysutil_malloc a2 = Inr r"
      using a2(2) fit by (simp add: vsf_sysutil_malloc_def r(1))
    moreover have "p_buf (str_free s) = None" by (simp add: str_free_def)
    moreover have "length ?b = Suc (unat a)" "?b ! unat a = Some NUL" using a(2) a2(2) r(2) by simp_all
    ultimately show ?thesis
      using write_phase[of ?s ?b "[]" src n] True fit n(2) a(2) unfolding def
      by (simp add: s_setbuf_def)
  next
    case False
    then have lt: "length src < unat (alloc_bytes s)"
      using a by (simp add: word_less_nat_alt)
    then obtain b where b: "p_buf s = Some b"
      using assms(1) by (cases "p_buf s") (auto simp: str_rel_None)
    then show ?thesis
      using write_phase[of s b "[]" src n] assms(1) lt n(2) False unfolding def
      by (simp add: str_rel_Some)
  qed
qed

lemma append_memchunk_rel [str_rels]:
  assumes "str_rel s xs" "fits (length xs + length src)"
  shows "yields (private_str_append_memchunk s src) (xs @ src)"
proof -
  have fit: "length xs + length src + 2 \<le> INT_MAX" "INT_MAX < 2 ^ 32"
    using assms(2) by (simp_all add: fits_def INT_MAX_def)
  have lenx: "unat (len s) = length xs" using assms(1) by (rule str_rel_len)
  obtain n0 where n0: "u32 (length src) = n0" "unat n0 = length src" using fit by simp
  obtain n where n: "n0 + len s = n" "unat n = length xs + length src"
    using fit n0 lenx by (simp add: unat_add_u32)
  obtain a where a: "n + 1 = a" "unat a = Suc (unat n)" using fit n by (simp add: unat_Suc_u32)
  obtain a2 where a2: "a + 1 = a2" "unat a2 = Suc (unat a)" using fit a n by (simp add: unat_Suc_u32)
  have comm: "len s + n0 = n" using n(1) by (simp add: add.commute)
  have no: "\<not> n < n0" "\<not> a < n" by (simp_all add: word_less_nat_alt a n n0)
  have copy_len: "len t = len s \<Longrightarrow> rbind (mem_copy t (unat (len s)) src)
       (\<lambda>s. rbind (mem_store s (unat (len s + n0)) NUL) (\<lambda>s. Inr (s\<lparr>len := len s + n0\<rparr>)))
     = rbind (mem_copy t (length xs) src)
       (\<lambda>s. rbind (mem_store s (unat n) NUL) (\<lambda>s. Inr (s\<lparr>len := n\<rparr>)))" for t
    using comm lenx by (auto simp: mem_copy_def mem_store_def split: option.splits)
  let ?body = "\<lambda>s. rbind (mem_copy s (length xs) src)
      (\<lambda>s. rbind (mem_store s (unat n) NUL) (\<lambda>s. Inr (s\<lparr>len := n\<rparr>)))"
  show ?thesis
  proof (cases "a > alloc_bytes s")
    case True
    obtain old where old: "(case p_buf s of None \<Rightarrow> [] | Some b \<Rightarrow> b) = old" by blast
    obtain r where r: "r = take (unat a2) (old @ replicate (unat a2) None)" "length r = unat a2" by simp
    have old_pre: "take (length xs) old = map Some xs" "length old \<le> Suc (unat (alloc_bytes s))" "length xs \<le> length old"
      using assms(1) old by (cases "p_buf s"; auto simp: str_rel_None str_rel_Some)+
    let ?b = "r[unat a := Some NUL]"
    let ?s = "s\<lparr>alloc_bytes := a, p_buf := Some ?b\<rparr>"
    have "a2 \<noteq> 0" using a2(2) by (metis nat.distinct(1) unsigned_0)
    then have re: "vsf_sysutil_realloc (p_buf s) a2 = Inr r"
      using a2(2) a(2) n(2) fit by (simp add: vsf_sysutil_realloc_def r(1) old Let_def)
    have pre: "take (length xs) ?b = map Some xs"
      using old_pre n(2) a(2) a2(2) r(1) by (simp add: min_def)
    have "length ?b = Suc (unat a)" "?b ! unat a = Some NUL" using a2(2) r(2) by simp_all
    then have "yields (?body ?s) (xs @ src)"
      using pre fit n(2) a(2) by (intro write_phase[of ?s ?b xs src n]) simp_all
    moreover have "private_str_append_memchunk s src = ?body ?s"
      using no True unfolding private_str_append_memchunk_def Let_def n0(1) n(1) a(1) a2(1)
      by (simp add: re copy_len)
    ultimately show ?thesis by simp
  next
    case False
    then have lt: "unat n < unat (alloc_bytes s)"
      using a by (simp add: word_less_nat_alt)
    then obtain b where b: "p_buf s = Some b"
      using assms(1) by (cases "p_buf s") (auto simp: str_rel_None)
    have "private_str_append_memchunk s src = ?body s"
      using no False unfolding private_str_append_memchunk_def Let_def n0(1) n(1) a(1) a2(1)
      by (simp add: copy_len)
    moreover have "yields (?body s) (xs @ src)"
      using b assms(1) lt n(2) by (intro write_phase[of s b xs src n]) (auto simp: str_rel_Some)
    ultimately show ?thesis by simp
  qed
qed

lemma str_trunc_rel:
  assumes "str_rel s xs" "p_buf s \<noteq> None" "unat n \<le> length xs"
  shows "yields (str_trunc s n) (take (unat n) xs)"
proof -
  obtain b where b: "p_buf s = Some b" using assms(2) by auto
  with assms obtain r where r: "b = map Some xs @ Some NUL # r" and l: "length xs = unat (len s)"
    and rest: "length b = Suc (unat (alloc_bytes s))" "unat (alloc_bytes s) < INT_MAX"
      "length xs < unat (alloc_bytes s)" "b ! unat (alloc_bytes s) = Some NUL"
    by (auto simp: str_rel_Some)
  let ?b = "b[unat n := Some NUL]"
  let ?s = "s\<lparr>len := n, p_buf := Some ?b\<rparr>"
  have "b = take (unat n) b @ b ! unat n # drop (Suc (unat n)) b"
    using rest assms(3) by (intro id_take_nth_drop) simp
  moreover have "take (unat n) b = map Some (take (unat n) xs)"
    using assms(3) by (simp add: r take_map)
  ultimately have ex: "\<exists>r. ?b = map Some (take (unat n) xs) @ Some NUL # r"
    using assms(3) rest(1,3) by (metis upd_conv_take_nth_drop less_SucI order_le_less_trans)
  have "str_rel ?s (take (unat n) xs)"
    by (subst str_rel_Some[of _ ?b]) (use ex rest assms(3) in simp_all)
  moreover have "str_trunc s n = Inr ?s"
    using b rest assms(3) by (simp add: str_trunc_def mem_store_def word_le_nat_alt)
  ultimately show ?thesis by (auto simp: yields_def)
qed

lemma yields_bind: "yields m xs \<Longrightarrow> (\<And>s. str_rel s xs \<Longrightarrow> yields (f s) ys) \<Longrightarrow> yields (rbind m f) ys"
  by (auto simp: yields_def)

lemma alloc_memchunk_buf: "private_str_alloc_memchunk s src = Inr s' \<Longrightarrow> p_buf s' \<noteq> None"
  by (auto simp: private_str_alloc_memchunk_def Let_def rbind_Inr_iff mem_store_def
      split: if_splits option.splits)

lemma str_getbuf_rel:
  assumes "str_rel s xs"
  shows "\<exists>s'. str_getbuf s = Inr (xs, s') \<and> str_rel s' xs \<and> p_buf s' \<noteq> None"
proof (cases "p_buf s")
  case None
  then have s: "xs = []" "len s = 0" "alloc_bytes s = 0" using assms by (simp_all add: str_rel_None)
  obtain s' where s': "private_str_alloc_memchunk s [] = Inr s'" "str_rel s' []"
    using alloc_memchunk_rel[OF assms, of "[]"] by (auto simp: yields_def fits_def INT_MAX_def)
  then show ?thesis
    using None s alloc_memchunk_buf[OF s'(1)] mem_read_all[OF s'(2)] by (simp add: str_getbuf_def)
next
  case (Some b)
  then show ?thesis using assms mem_read_all[OF assms] by (simp add: str_getbuf_def)
qed

lemma str_empty_rel [str_rels]: "str_rel s xs \<Longrightarrow> yields (str_empty s) []"
  using str_getbuf_rel[of s xs] str_trunc_rel[of _ xs 0] by (fastforce simp: str_empty_def)

lemma strlen_rel: "fits (8 * length (c_text t)) \<Longrightarrow>
   vsf_sysutil_strlen t = Inr (u32 (length (c_text t))) \<and> take (unat (u32 (length (c_text t)))) t = c_text t"
  by (auto simp: vsf_sysutil_strlen_def Let_def fits_def INT_MAX_def c_text_def takeWhile_eq_take[symmetric])

end
