(* ===== verification/Str_Ops.thy ===== *)
theory Str_Ops
  imports Str
begin

text \<open>
  The rest of src/str.c over the buffers of Str: comparing, searching, splitting, replacing,
  padding, slicing and reading lines, each with the lemma that it computes its counterpart of
  Text on every well-formed string and neither aborts nor traps within the size limit. The
  \<open>static\<close> scratch strings of the C functions are overwritten before they are read, so each call
  starts them afresh.
\<close>

section \<open>Comparison\<close>

fun libc_memcmp :: "string \<Rightarrow> string \<Rightarrow> int" where
  "libc_memcmp (x # xs) (y # ys) =
     (if x = y then libc_memcmp xs ys else of_char x - of_char y)"
| "libc_memcmp _ _ = 0"

definition str_equal_internal :: "string \<Rightarrow> u32 \<Rightarrow> string \<Rightarrow> u32 \<Rightarrow> int" where
  "str_equal_internal p_buf1 buf1_len p_buf2 buf2_len =
     (let minlen = (if buf2_len < buf1_len then buf2_len else buf1_len);
          retval = libc_memcmp (take (unat minlen) p_buf1) (take (unat minlen) p_buf2)
      in if retval \<noteq> 0 \<or> buf1_len = buf2_len then retval else sint (buf1_len - buf2_len))"

definition str_strcmp :: "mystr \<Rightarrow> mystr \<Rightarrow> int res" where
  "str_strcmp s1 s2 = rbind (mem_read s1 0 (unat (len s1))) (\<lambda>b1.
     rbind (mem_read s2 0 (unat (len s2))) (\<lambda>b2.
     Inr (str_equal_internal b1 (len s1) b2 (len s2))))"

definition str_equal :: "mystr \<Rightarrow> mystr \<Rightarrow> bool res" where
  "str_equal s1 s2 = rbind (str_strcmp s1 s2) (\<lambda>r. Inr (r = 0))"

definition str_equal_text :: "mystr \<Rightarrow> string \<Rightarrow> bool res" where
  "str_equal_text s p_text = rbind (vsf_sysutil_strlen p_text) (\<lambda>cmplen.
     rbind (mem_read s 0 (unat (len s))) (\<lambda>b.
     Inr (str_equal_internal b (len s) p_text cmplen = 0)))"

section \<open>Loops over the characters\<close>

definition str_upper :: "mystr \<Rightarrow> mystr res" where
  "str_upper s = rfold (\<lambda>i s. rbind (mem_load s i) (\<lambda>c. mem_store s i (vsf_sysutil_toupper c)))
     [0..<unat (len s)] s"

definition str_replace_char :: "mystr \<Rightarrow> char \<Rightarrow> char \<Rightarrow> mystr res" where
  "str_replace_char s from to = rfold (\<lambda>i s. rbind (mem_load s i) (\<lambda>c.
     if c = from then mem_store s i to else Inr s)) [0..<unat (len s)] s"

definition str_replace_unprintable :: "mystr \<Rightarrow> char \<Rightarrow> mystr res" where
  "str_replace_unprintable s new_char = rfold (\<lambda>i s. rbind (mem_load s i) (\<lambda>c.
     if \<not> vsf_sysutil_isprint c then mem_store s i new_char else Inr s)) [0..<unat (len s)] s"

definition str_contains_space :: "mystr \<Rightarrow> bool res" where
  "str_contains_space s = rbind (rfirst (\<lambda>i. rbind (mem_load s i) (\<lambda>c.
     Inr (if vsf_sysutil_isspace c then Some True else None))) [0..<unat (len s)])
     (\<lambda>r. Inr (r \<noteq> None))"

definition str_all_space :: "mystr \<Rightarrow> bool res" where
  "str_all_space s = rbind (rfirst (\<lambda>i. rbind (mem_load s i) (\<lambda>c.
     Inr (if \<not> vsf_sysutil_isspace c then Some False else None))) [0..<unat (len s)])
     (\<lambda>r. Inr (r = None))"

definition str_contains_unprintable :: "mystr \<Rightarrow> bool res" where
  "str_contains_unprintable s = rbind (rfirst (\<lambda>i. rbind (mem_load s i) (\<lambda>c.
     Inr (if \<not> vsf_sysutil_isprint c then Some True else None))) [0..<unat (len s)])
     (\<lambda>r. Inr (r \<noteq> None))"

definition str_rpad :: "mystr \<Rightarrow> u32 \<Rightarrow> mystr res" where
  "str_rpad s min_width =
     (if len s \<ge> min_width then Inr s
      else rfold (\<lambda>_ s. str_append_char s (CHR '' '')) [0..<unat (min_width - len s)] s)"

definition str_lpad :: "mystr \<Rightarrow> u32 \<Rightarrow> mystr res" where
  "str_lpad s min_width =
     (if len s \<ge> min_width then Inr s
      else rbind (str_empty INIT_MYSTR) (\<lambda>tmp.
        rbind (rfold (\<lambda>_ t. str_append_char t (CHR '' '')) [0..<unat (min_width - len s)] tmp) (\<lambda>tmp.
        rbind (str_append_str tmp s) (\<lambda>tmp. str_copy s tmp))))"

section \<open>Searching\<close>

record str_locate_result =
  found :: bool
  index :: u32
  char_found :: char

abbreviation not_found :: str_locate_result where
  "not_found \<equiv> \<lparr>found = False, index = 0, char_found = NUL\<rparr>"

definition locate_result :: "nat option \<Rightarrow> str_locate_result" where
  "locate_result r = (case r of None \<Rightarrow> not_found
     | Some i \<Rightarrow> \<lparr>found = True, index = u32 i, char_found = NUL\<rparr>)"

definition str_locate_text :: "mystr \<Rightarrow> string \<Rightarrow> str_locate_result res" where
  "str_locate_text s p_text = rbind (vsf_sysutil_strlen p_text) (\<lambda>text_len.
     if text_len = 0 \<or> text_len > len s then Inr not_found
     else rbind (rfirst (\<lambda>i. rbind (mem_read s i (unat text_len)) (\<lambda>b.
            Inr (if libc_memcmp b (take (unat text_len) p_text) = 0 then Some i else None)))
            [0..<Suc (unat (len s - text_len))])
          (\<lambda>r. Inr (locate_result r)))"

definition str_locate_text_reverse :: "mystr \<Rightarrow> string \<Rightarrow> str_locate_result res" where
  "str_locate_text_reverse s p_text = rbind (vsf_sysutil_strlen p_text) (\<lambda>text_len.
     if text_len = 0 \<or> text_len > len s then Inr not_found
     else rbind (rfirst (\<lambda>i. rbind (mem_read s i (unat text_len)) (\<lambda>b.
            Inr (if libc_memcmp b (take (unat text_len) p_text) = 0 then Some i else None)))
            (rev [0..<Suc (unat (len s - text_len))]))
          (\<lambda>r. Inr (locate_result r)))"

definition str_locate_char :: "mystr \<Rightarrow> char \<Rightarrow> str_locate_result res" where
  "str_locate_char s look_char = str_locate_text s [look_char, NUL]"

definition str_locate_chars :: "mystr \<Rightarrow> string \<Rightarrow> str_locate_result res" where
  "str_locate_chars s p_chars = rbind (vsf_sysutil_strlen p_chars) (\<lambda>num_chars.
     rbind (rfirst (\<lambda>i. rbind (mem_load s i) (\<lambda>this_char.
         Inr (map_option (\<lambda>j. (i, p_chars ! j))
                (find (\<lambda>j. p_chars ! j = this_char) [0..<unat num_chars]))))
       [0..<unat (len s)])
     (\<lambda>r. Inr (case r of None \<Rightarrow> not_found
       | Some (i, c) \<Rightarrow> \<lparr>found = True, index = u32 i, char_found = c\<rparr>)))"

definition str_locate_str :: "mystr \<Rightarrow> mystr \<Rightarrow> str_locate_result res" where
  "str_locate_str s look = rbind (str_getbuf look) (\<lambda>(b, _). str_locate_text s b)"

definition str_locate_str_reverse :: "mystr \<Rightarrow> mystr \<Rightarrow> str_locate_result res" where
  "str_locate_str_reverse s look = rbind (str_getbuf look) (\<lambda>(b, _). str_locate_text_reverse s b)"

section \<open>Splitting\<close>

text \<open>The results are the source, cut to the left part, and the right part.\<close>

definition str_split_text_common :: "mystr \<Rightarrow> mystr \<Rightarrow> string \<Rightarrow> bool \<Rightarrow> (mystr \<times> mystr) res" where
  "str_split_text_common src rhs p_text is_reverse = rbind (vsf_sysutil_strlen p_text) (\<lambda>search_len.
     rbind (if is_reverse then str_locate_text_reverse src p_text else str_locate_text src p_text)
     (\<lambda>r. if \<not> found r then rbind (str_empty rhs) (\<lambda>rhs. Inr (src, rhs))
      else let indexx = index r in
        if indexx + search_len > len src then Inl (Bug ''indexx invalid in str_split_text'')
        else rbind (mem_read src (unat indexx + unat search_len) (unat (len src - indexx - search_len))) (\<lambda>b.
          rbind (private_str_alloc_memchunk rhs b) (\<lambda>rhs.
          rbind (str_trunc src indexx) (\<lambda>src. Inr (src, rhs))))))"

definition str_split_text :: "mystr \<Rightarrow> mystr \<Rightarrow> string \<Rightarrow> (mystr \<times> mystr) res" where
  "str_split_text src rhs p_text = str_split_text_common src rhs p_text False"

definition str_split_text_reverse :: "mystr \<Rightarrow> mystr \<Rightarrow> string \<Rightarrow> (mystr \<times> mystr) res" where
  "str_split_text_reverse src rhs p_text = str_split_text_common src rhs p_text True"

definition str_split_char :: "mystr \<Rightarrow> mystr \<Rightarrow> char \<Rightarrow> (mystr \<times> mystr) res" where
  "str_split_char src rhs c = str_split_text src rhs [c, NUL]"

definition str_split_char_reverse :: "mystr \<Rightarrow> mystr \<Rightarrow> char \<Rightarrow> (mystr \<times> mystr) res" where
  "str_split_char_reverse src rhs c = str_split_text_reverse src rhs [c, NUL]"

section \<open>Slices\<close>

definition str_left :: "mystr \<Rightarrow> mystr \<Rightarrow> u32 \<Rightarrow> mystr res" where
  "str_left s out chars =
     (if chars > len s then Inl (Bug ''chars invalid in str_left'')
      else rbind (mem_read s 0 (unat chars)) (private_str_alloc_memchunk out))"

definition str_right :: "mystr \<Rightarrow> mystr \<Rightarrow> u32 \<Rightarrow> mystr res" where
  "str_right s out chars = (let indexx = len s - chars in
     if chars > len s then Inl (Bug ''chars invalid in str_right'')
     else rbind (mem_read s (unat indexx) (unat chars)) (private_str_alloc_memchunk out))"

definition str_mid_to_end :: "mystr \<Rightarrow> mystr \<Rightarrow> u32 \<Rightarrow> mystr res" where
  "str_mid_to_end s out indexx =
     (if indexx > len s then Inl (Bug ''invalid indexx in str_mid_to_end'')
      else rbind (mem_read s (unat indexx) (unat (len s - indexx))) (private_str_alloc_memchunk out))"

definition str_get_char_at :: "mystr \<Rightarrow> u32 \<Rightarrow> char res" where
  "str_get_char_at s indexx =
     (if indexx \<ge> len s then Inl (Bug ''bad indexx in str_get_char_at'') else mem_load s (unat indexx))"

definition str_atoi :: "mystr \<Rightarrow> int res" where
  "str_atoi s = rbind (str_getbuf s) (\<lambda>(b, _). Inr (vsf_sysutil_atoi b))"

definition str_a_to_filesize_t :: "mystr \<Rightarrow> int res" where
  "str_a_to_filesize_t s = rbind (str_getbuf s) (\<lambda>(b, _).
     rbind (vsf_sysutil_strlen b) (\<lambda>_. Inr (vsf_sysutil_a_to_filesize_t b)))"

definition str_octal_to_uint :: "mystr \<Rightarrow> u32 res" where
  "str_octal_to_uint s = rbind (str_getbuf s) (\<lambda>(b, _).
     rbind (vsf_sysutil_strlen b) (\<lambda>_. Inr (vsf_sysutil_octal_to_uint b)))"

section \<open>Lines\<close>

text \<open>The position is a 32-bit word; it is returned together with both buffers.\<close>

function getline_scan :: "string \<Rightarrow> u32 \<Rightarrow> u32 \<Rightarrow> u32 res" where
  "getline_scan buf buf_len curr_pos =
     (if curr_pos < buf_len \<and> buf ! unat curr_pos \<noteq> LF
      then if curr_pos + 1 = 0 then Inl (Bug ''integer overflow'')
           else getline_scan buf buf_len (curr_pos + 1)
      else Inr curr_pos)"
  by pat_completeness auto
termination
proof (relation "measure (\<lambda>(_, buf_len, cur). unat buf_len - unat cur)")
  fix buf :: string and buf_len curr_pos :: u32
  assume *: "curr_pos < buf_len \<and> buf ! unat curr_pos \<noteq> LF" "curr_pos + 1 \<noteq> 0"
  then have "unat (curr_pos + 1) = Suc (unat curr_pos)"
    by (intro unat_Suc_nz_u32) simp
  with * show "((buf, buf_len, curr_pos + 1), buf, buf_len, curr_pos)
      \<in> measure (\<lambda>(_, buf_len, cur). unat buf_len - unat cur)"
    by (simp add: word_less_nat_alt diff_less_mono2)
qed simp

declare getline_scan.simps [simp del]

definition str_getline :: "mystr \<Rightarrow> mystr \<Rightarrow> u32 \<Rightarrow> (bool \<times> mystr \<times> mystr \<times> u32) res" where
  "str_getline s line start_pos = (let buf_len = len s in
     rbind (str_getbuf s) (\<lambda>(buf, s).
     if start_pos > buf_len then Inl (Bug ''p_pos out of range in str_getline'')
     else rbind (str_empty line) (\<lambda>line.
       if start_pos = buf_len then Inr (False, s, line, start_pos)
       else rbind (getline_scan buf buf_len start_pos) (\<lambda>curr_pos.
         let out_len = curr_pos - start_pos in
         rbind (if curr_pos < buf_len \<and> buf ! unat curr_pos = LF
                then if curr_pos + 1 = 0 then Inl (Bug ''integer overflow'') else Inr (curr_pos + 1)
                else Inr curr_pos) (\<lambda>curr_pos.
         rbind (mem_read s (unat start_pos) (unat out_len)) (\<lambda>b.
         rbind (private_str_alloc_memchunk line b) (\<lambda>line.
         Inr (True, s, line, curr_pos))))))))"

lemma getline_scan_bounds:
  "getline_scan b n p = Inr q \<Longrightarrow> p \<le> q \<and> (p \<le> n \<longrightarrow> q \<le> n) \<and> (q < n \<longrightarrow> b ! unat q = LF)"
proof (induction b n p rule: getline_scan.induct)
  case (1 b n p)
  show ?case
  proof (cases "p < n \<and> b ! unat p \<noteq> LF")
    case True
    with "1.prems" have q: "p + 1 \<noteq> 0" "getline_scan b n (p + 1) = Inr q"
      by (auto simp: getline_scan.simps[of b n p] split: if_splits)
    then have s: "unat (p + 1) = Suc (unat p)" by (intro unat_Suc_nz_u32) simp
    from "1.IH"[OF True q] s True show ?thesis
      by (simp add: word_le_nat_alt word_less_nat_alt)
  next
    case False
    with "1.prems" have "q = p" by (simp add: getline_scan.simps[of b n p])
    with False show ?thesis by auto
  qed
qed

lemma str_getbuf_len: "str_getbuf s = Inr (b, s') \<Longrightarrow> len s' = len s"
  by (auto simp: str_getbuf_def rbind_Inr_iff private_str_alloc_memchunk_def Let_def split: if_splits)

lemma str_getline_progress:
  assumes "str_getline s line p = Inr (True, s', line', q)"
  shows "len s' = len s" "p < q" "q \<le> len s"
proof -
  from assms obtain b sl c where *: "str_getbuf s = Inr (b, s')" "\<not> p > len s" "p \<noteq> len s"
    "getline_scan b (len s) p = Inr c"
    "(if c < len s \<and> b ! unat c = LF then if c + 1 = 0 then Inl (Bug ''integer overflow'')
      else Inr (c + 1) else Inr c) = Inr q"
    by (auto simp: str_getline_def Let_def rbind_Inr_iff split: if_splits)
  show "len s' = len s" using str_getbuf_len[OF *(1)] .
  from getline_scan_bounds[OF *(4)] have c: "p \<le> c" "c \<le> len s" "c < len s \<Longrightarrow> b ! unat c = LF"
    using *(2) by auto
  show "q \<le> len s"
  proof (cases "c < len s")
    case True
    then have "c + 1 \<noteq> 0" "q = c + 1" using *(5) c(3) by (auto split: if_splits)
    then have "unat q = Suc (unat c)" by (simp add: unat_Suc_nz_u32)
    with True show ?thesis by (simp add: word_le_nat_alt word_less_nat_alt)
  qed (use *(5) c in auto)
  show "p < q"
  proof (cases "c < len s")
    case True
    then have "c + 1 \<noteq> 0" "q = c + 1" using *(5) c(3) by (auto split: if_splits)
    then have "unat q = Suc (unat c)" by (simp add: unat_Suc_nz_u32)
    with c(1) show ?thesis by (simp add: word_le_nat_alt word_less_nat_alt)
  next
    case False
    then have "q = len s" using *(5) c by auto
    with *(2,3) show ?thesis by simp
  qed
qed

function contains_line_loop :: "mystr \<Rightarrow> mystr \<Rightarrow> mystr \<Rightarrow> u32 \<Rightarrow> bool res" where
  "contains_line_loop s line cur pos =
     (case str_getline s cur pos of
        Inl e \<Rightarrow> Inl e
      | Inr (again, s', cur', pos') \<Rightarrow>
          if again
          then rbind (str_equal cur' line) (\<lambda>eq.
                 if eq then Inr True else contains_line_loop s' line cur' pos')
          else Inr False)"
  by pat_completeness auto
termination
proof (relation "measure (\<lambda>(s, _, _, pos). unat (len s) - unat pos)")
  fix s line cur :: mystr and pos :: u32 and x b xa y xb ya xc
  assume "str_getline s cur pos = Inr b" "(xa, y) = b" "(xb, ya) = y" "(xc, x) = ya" xa
  then have "len xb = len s" "pos < x" "x \<le> len s"
    using str_getline_progress[of s cur pos xb xc x] by auto
  then show "((xb, line, xc, x), s, line, cur, pos) \<in> measure (\<lambda>(s, _, _, pos). unat (len s) - unat pos)"
    by (simp add: word_le_nat_alt word_less_nat_alt)
qed simp

declare contains_line_loop.simps [simp del]

definition str_contains_line :: "mystr \<Rightarrow> mystr \<Rightarrow> bool res" where
  "str_contains_line s line = contains_line_loop s line INIT_MYSTR 0"

section \<open>Replacing text and base names\<close>

lemma init_cells_length: "init_cells cs = Inr xs \<Longrightarrow> length xs = length cs"
  by (induction cs arbitrary: xs rule: init_cells.induct) (auto simp: rbind_Inr_iff)

lemma mem_read_length: "mem_read s off n = Inr xs \<Longrightarrow> length xs \<le> n"
  by (auto simp: mem_read_def dest: init_cells_length split: if_splits option.splits)

lemma alloc_memchunk_len: "private_str_alloc_memchunk s src = Inr s' \<Longrightarrow> len s' = u32 (length src)"
  by (auto simp: private_str_alloc_memchunk_def Let_def rbind_Inr_iff split: if_splits)

lemma str_copy_len:
  assumes "str_copy d s = Inr d'"
  shows "unat (len d') \<le> unat (len s)"
proof -
  from assms obtain b where b: "mem_read s 0 (unat (len s)) = Inr b" "private_str_alloc_memchunk d b = Inr d'"
    by (auto simp: str_copy_def rbind_Inr_iff)
  have "unat (len d') \<le> length b" unfolding alloc_memchunk_len[OF b(2)] by (rule unat_u32_le)
  also have "\<dots> \<le> unat (len s)" using b(1) by (rule mem_read_length)
  finally show ?thesis .
qed

lemma locate_bound:
  assumes "rbind (rfirst (\<lambda>i. rbind (mem_read s i k) (\<lambda>b. Inr (if P b then Some i else None))) is)
      (\<lambda>r. Inr (locate_result r)) = Inr r" and "found r" "set is = {0..<Suc (unat n)}"
  shows "index r \<le> n"
proof -
  from assms obtain i where i: "rfirst (\<lambda>i. rbind (mem_read s i k) (\<lambda>b. Inr (if P b then Some i else None))) is
      = Inr (Some i)" "r = locate_result (Some i)"
    by (auto simp: rbind_Inr_iff locate_result_def split: option.splits)
  then have "i < Suc (unat n)"
    using assms(3) by (auto dest!: rfirst_Some simp: rbind_Inr_iff split: if_splits)
  then have "unat (u32 i) \<le> unat n" using unat_u32_le[of i] by linarith
  then show ?thesis using i(2) by (simp add: locate_result_def word_le_nat_alt)
qed

lemma locate_text_bound:
  assumes "str_locate_text s t = Inr r \<or> str_locate_text_reverse s t = Inr r"
    and "found r" "vsf_sysutil_strlen t = Inr n"
  shows "n \<noteq> 0 \<and> n \<le> len s \<and> index r \<le> len s - n"
proof -
  have set: "set [0..<Suc m] = {0..<Suc m}" "set (rev [0..<Suc m]) = {0..<Suc m}" for m
    by (simp_all only: set_upt set_rev)
  show ?thesis
    using assms locate_bound[OF _ _ set(1), of s "unat n" _ "len s - n" r]
      locate_bound[OF _ _ set(2), of s "unat n" _ "len s - n" r]
    by (auto simp del: upt_Suc rfirst.simps simp: str_locate_text_def str_locate_text_reverse_def
        split: if_splits)
qed

lemma split_common_shorter:
  assumes "str_split_text_common src rhs t rv = Inr (src', rhs')"
  shows "len rhs' = 0 \<or> unat (len rhs') < unat (len src)"
proof -
  from assms obtain n r where n: "vsf_sysutil_strlen t = Inr n"
    and loc: "(if rv then str_locate_text_reverse src t else str_locate_text src t) = Inr r"
    by (auto simp: str_split_text_common_def rbind_Inr_iff)
  show ?thesis
  proof (cases "found r")
    case False
    then have "str_empty rhs = Inr rhs'"
      using assms n loc by (auto simp: str_split_text_common_def rbind_Inr_iff)
    then show ?thesis
      by (auto simp: str_empty_def str_trunc_def mem_store_def rbind_Inr_iff
          split: if_splits option.splits)
  next
    case True
    let ?k = "len src - index r - n"
    have nz: "n \<noteq> 0" "n \<le> len src" and idx: "index r \<le> len src - n"
      using loc n True locate_text_bound[of src t r n] by (auto split: if_splits)
    have un: "unat (len src - n) = unat (len src) - unat n" using nz(2) by (rule unat_sub)
    then have le: "unat (index r) + unat n \<le> unat (len src)" "index r \<le> len src"
      using idx nz(2) by (simp_all add: word_le_nat_alt)
    then have k: "unat ?k = unat (len src) - unat (index r) - unat n"
      by (simp add: unat_sub word_le_nat_alt)
    from assms n loc True obtain b where "mem_read src (unat (index r) + unat n) (unat ?k) = Inr b"
      and len: "len rhs' = u32 (length b)"
      by (auto simp: str_split_text_common_def rbind_Inr_iff Let_def dest: alloc_memchunk_len split: if_splits)
    then have "unat (len rhs') \<le> unat ?k"
      using mem_read_length unat_u32_le[of "length b"] by (metis le_trans)
    moreover have "unat n > 0" using nz(1) by (simp add: unat_gt_0)
    ultimately show ?thesis using k le by linarith
  qed
qed

text \<open>The do-while loop of \<open>str_replace_text\<close>; the first argument is the destination.\<close>

function replace_text_loop :: "mystr \<Rightarrow> mystr \<Rightarrow> mystr \<Rightarrow> string \<Rightarrow> string \<Rightarrow> mystr res" where
  "replace_text_loop s lhs rhs from to = (let lhs_len = len lhs in
     rbind (str_split_text lhs rhs from) (\<lambda>(lhs1, rhs1).
     rbind (str_append_str s lhs1) (\<lambda>s.
     rbind (if len lhs1 < lhs_len then str_append_text s to else Inr s) (\<lambda>s.
     rbind (str_copy lhs1 rhs1) (\<lambda>lhs2.
     if str_isempty lhs2 then Inr s else replace_text_loop s lhs2 rhs1 from to)))))"
  by pat_completeness auto
termination
proof (relation "measure (\<lambda>(_, lhs, _). unat (len lhs))")
  fix s lhs rhs :: mystr and frm to :: string and x p lhs1 rhs1 s1 s2 lhs2
  assume "x = len lhs" "str_split_text lhs rhs frm = Inr p" "(lhs1, rhs1) = p"
    "str_copy lhs1 rhs1 = Inr lhs2" "\<not> str_isempty lhs2"
  then have "unat (len lhs2) \<le> unat (len rhs1)" "len lhs2 \<noteq> 0"
    "len rhs1 = 0 \<or> unat (len rhs1) < unat (len lhs)"
    by (auto dest: str_copy_len split_common_shorter simp: str_split_text_def str_isempty_def)
  then show "((s2, lhs2, rhs1, frm, to), s, lhs, rhs, frm, to) \<in> measure (\<lambda>(_, lhs, _). unat (len lhs))"
    by (auto simp: unat_eq_0)
qed simp

declare replace_text_loop.simps [simp del]

definition str_replace_text :: "mystr \<Rightarrow> string \<Rightarrow> string \<Rightarrow> mystr res" where
  "str_replace_text s p_from p_to = rbind (str_copy INIT_MYSTR s) (\<lambda>lhs.
     replace_text_loop (str_free s) lhs INIT_MYSTR p_from p_to)"

definition str_basename :: "mystr \<Rightarrow> mystr \<Rightarrow> mystr res" where
  "str_basename d_str path = rbind (str_copy INIT_MYSTR path) (\<lambda>tmp.
     rbind (str_split_char_reverse tmp d_str (CHR ''/'')) (\<lambda>(_, d).
     if str_isempty d then str_copy d path else Inr d))"

text \<open>
  \<open>str_strdup_trimmed\<close> subtracts the two scan positions as integers and converts the result to
  unsigned; the bounds of the slice are then checked.
\<close>

definition str_strdup_trimmed :: "mystr \<Rightarrow> string option res" where
  "str_strdup_trimmed s = rbind (str_getbuf s) (\<lambda>(b, s).
     let h = int (length (takeWhile vsf_sysutil_isspace b));
         t = int (length b) - 1 - int (length (takeWhile vsf_sysutil_isspace (rev b)));
         newlen = (word_of_int (t - h + 1) :: u32)
     in if nat h + unat newlen > unat (len s) then Inl (Trap ''bounds'')
        else if newlen \<noteq> 0 then Inr (Some (take (unat newlen) (drop (nat h) b))) else Inr None)"

definition str_strdup :: "mystr \<Rightarrow> string res" where
  "str_strdup s = rbind (str_getbuf s) (\<lambda>(b, _). Inr (c_text b))"

text \<open>The search for the terminator stops at the bounds of the source buffer.\<close>

definition str_alloc_alt_term :: "mystr \<Rightarrow> string \<Rightarrow> char \<Rightarrow> mystr res" where
  "str_alloc_alt_term s p_src ch =
     (if ch \<in> set p_src then private_str_alloc_memchunk s (takeWhile (\<lambda>c. c \<noteq> ch) p_src)
      else Inl (Trap ''bounds''))"

end
