(* ===== verification/Str_Refine.thy ===== *)
theory Str_Refine
  imports Str_Ops
begin

text \<open>
  Every operation of src/str.c, on well-formed buffers within the size limit, returns (it neither
  aborts nor fails a bounds check) and computes the corresponding function of Text.
\<close>

definition cfits :: "string \<Rightarrow> bool" where
  "cfits t \<longleftrightarrow> length (c_text t) \<le> INT_MAX div 8"

lemma strlen_cfits:
  assumes "cfits t"
  obtains n where "vsf_sysutil_strlen t = Inr n" "unat n = length (c_text t)"
    "take (length (c_text t)) t = c_text t" "n = 0 \<longleftrightarrow> c_text t = []" "fits (length (c_text t))"
proof -
  have "length (c_text t) < 2 ^ 32" using assms by (simp add: cfits_def INT_MAX_def)
  then have "unat (u32 (length (c_text t))) = length (c_text t)" by simp
  moreover have "take (length (c_text t)) t = c_text t"
    by (simp add: c_text_def takeWhile_eq_take[symmetric])
  moreover have "fits (length (c_text t))" using assms by (simp add: cfits_def fits_def INT_MAX_def)
  ultimately show ?thesis
    using assms that[of "u32 (length (c_text t))"]
    by (auto simp: vsf_sysutil_strlen_def Let_def cfits_def unat_eq_0[symmetric])
qed

lemma mem_read_abs: "str_rel s xs \<Longrightarrow> mem_read s 0 (length xs) = Inr xs"
  by (simp add: mem_read_rel)

section \<open>Copying and appending\<close>

lemma str_alloc_text_rel [str_rels]:
  assumes "str_rel s ys" "cfits t"
  shows "yields (str_alloc_text s t) (c_text t)"
  using assms(2) by (rule strlen_cfits) (simp add: str_alloc_text_def alloc_memchunk_rel[OF assms(1)])

lemma str_copy_rel [str_rels]: "str_rel d ys \<Longrightarrow> str_rel s xs \<Longrightarrow> yields (str_copy d s) xs"
  by (simp add: str_copy_def mem_read_all alloc_memchunk_rel str_rel_fits)

lemma str_append_str_rel [str_rels]:
  "str_rel s xs \<Longrightarrow> str_rel t ys \<Longrightarrow> fits (length xs + length ys) \<Longrightarrow> yields (str_append_str s t) (xs @ ys)"
  by (simp add: str_append_str_def mem_read_all append_memchunk_rel)

lemma str_append_text_rel [str_rels]:
  assumes "str_rel s xs" "cfits t" "fits (length xs + length (c_text t))"
  shows "yields (str_append_text s t) (xs @ c_text t)"
  using assms(2) by (rule strlen_cfits) (simp add: str_append_text_def append_memchunk_rel assms)

lemma str_append_char_rel [str_rels]:
  "str_rel s xs \<Longrightarrow> fits (Suc (length xs)) \<Longrightarrow> yields (str_append_char s c) (xs @ [c])"
  using append_memchunk_rel[of s xs "[c]"] by (simp add: str_append_char_def)

section \<open>Comparison\<close>

lemma memcmp_eq_0: "length xs = length ys \<Longrightarrow> libc_memcmp xs ys = 0 \<longleftrightarrow> xs = ys"
  by (induction xs ys rule: libc_memcmp.induct) auto

lemma str_equal_internal_eq_0:
  assumes "unat m = length xs" "unat n = length ys"
  shows "str_equal_internal xs m ys n = 0 \<longleftrightarrow> xs = ys"
proof (cases "m = n")
  case True
  then show ?thesis using assms by (simp add: str_equal_internal_def memcmp_eq_0)
next
  case False
  then have "length xs \<noteq> length ys" using assms by (metis word_unat_eq_iff)
  moreover have "sint (m - n) \<noteq> 0" using False signed_eq_0_iff[of "m - n"] by simp
  ultimately show ?thesis using False by (auto simp: str_equal_internal_def Let_def)
qed

lemma str_equal_internal_take:
  "str_equal_internal xs m (take (unat n) ys) n = str_equal_internal xs m ys n"
proof -
  have "unat (if n < m then n else m) \<le> unat n" by (simp add: word_less_nat_alt)
  then show ?thesis by (simp add: str_equal_internal_def Let_def min_def)
qed

lemma str_equal_rel:
  assumes "str_rel s xs" "str_rel t ys"
  shows "str_equal s t = Inr (xs = ys)"
  using assms str_equal_internal_eq_0[of "len s" xs "len t" ys]
  by (simp add: str_equal_def str_strcmp_def mem_read_abs str_rel_len)

lemma str_equal_text_rel:
  assumes "str_rel s xs" "cfits t"
  shows "str_equal_text s t = Inr (xs = c_text t)"
proof -
  obtain n where n: "vsf_sysutil_strlen t = Inr n" "unat n = length (c_text t)"
    "take (length (c_text t)) t = c_text t"
    using assms(2) by (rule strlen_cfits)
  have "str_equal_internal xs (len s) t n = 0 \<longleftrightarrow> xs = c_text t"
    using str_equal_internal_take[of xs "len s" n t] str_equal_internal_eq_0[of "len s" xs n "c_text t"]
      n assms(1) by (simp add: str_rel_len)
  then show ?thesis
    using assms n(1) by (simp add: str_equal_text_def mem_read_all)
qed

text \<open>The sign of \<open>str_strcmp\<close> is the lexicographic order of the byte strings.\<close>

lemma memcmp_sign:
  "length xs = length ys \<Longrightarrow> libc_memcmp xs ys < 0 \<longleftrightarrow> xs \<noteq> ys \<and> (\<exists>l x y r r'. xs = l @ x # r \<and> ys = l @ y # r' \<and> x < y)"
proof (induction xs ys rule: libc_memcmp.induct)
  case (1 x xs y ys)
  show ?case
  proof (cases "x = y")
    case True
    have "(\<exists>l a b r r'. x # xs = l @ a # r \<and> x # ys = l @ b # r' \<and> a < b)
      \<longleftrightarrow> (\<exists>l a b r r'. xs = l @ a # r \<and> ys = l @ b # r' \<and> a < b)"
      by (auto simp: Cons_eq_append_conv) (metis append_Cons)
    then show ?thesis using 1 True by simp
  next
    case False
    have "(\<exists>l a b r r'. x # xs = l @ a # r \<and> y # ys = l @ b # r' \<and> a < b) \<longleftrightarrow> x < y"
      using False by (auto simp: Cons_eq_append_conv)
    moreover have "(of_char x :: int) < of_char y \<longleftrightarrow> x < y"
      by (metis less_char_def of_nat_less_iff of_nat_of_char)
    ultimately show ?thesis using False by simp
  qed
qed auto

section \<open>Loops\<close>

lemma map_loop_rel:
  assumes "str_rel s xs"
    and step: "\<And>i t ys. str_rel t ys \<Longrightarrow> i < length ys \<Longrightarrow> yields (f i t) (ys[i := g (ys ! i)])"
  shows "yields (rfold f [0..<unat (len s)] s) (map g xs)"
proof -
  have "\<exists>s'. rfold f [0..<length xs] s = Inr s'
      \<and> str_rel s' (map g (take (length xs) xs) @ drop (length xs) xs)"
  proof (rule rfold_inv[where I = "\<lambda>i t. str_rel t (map g (take i xs) @ drop i xs)"])
    show "str_rel s (map g (take 0 xs) @ drop 0 xs)" using assms(1) by simp
  next
    fix i t assume i: "i < length xs" and t: "str_rel t (map g (take i xs) @ drop i xs)"
    have upd: "(map g (take i xs) @ drop i xs)[i := g (xs ! i)] = map g (take (Suc i) xs) @ drop (Suc i) xs"
      using i by (simp add: list_update_append take_Suc_conv_app_nth Cons_nth_drop_Suc[symmetric])
    from step[OF t, of i] i upd show "\<exists>s'. f i t = Inr s' \<and> str_rel s' (map g (take (Suc i) xs) @ drop (Suc i) xs)"
      by (auto simp: yields_def nth_append)
  qed
  then show ?thesis using str_rel_len[OF assms(1)] by (simp add: yields_def)
qed

lemma yields_Inr: "str_rel s xs \<Longrightarrow> yields (Inr s) xs"
  by (simp add: yields_def)

lemma str_upper_rel [str_rels]: "str_rel s xs \<Longrightarrow> yields (str_upper s) (upper xs)"
  unfolding str_upper_def upper_def
  by (rule map_loop_rel) (simp_all add: mem_load_rel mem_store_rel)

lemma str_replace_char_rel [str_rels]:
  "str_rel s xs \<Longrightarrow> yields (str_replace_char s a b) (replace_char xs a b)"
  unfolding str_replace_char_def replace_char_def
  by (rule map_loop_rel) (auto simp: mem_load_rel mem_store_rel yields_Inr)

lemma str_replace_unprintable_rel [str_rels]:
  "str_rel s xs \<Longrightarrow> yields (str_replace_unprintable s c) (replace_unprintable xs c)"
  unfolding str_replace_unprintable_def replace_unprintable_def
  by (rule map_loop_rel) (auto simp: mem_load_rel mem_store_rel yields_Inr)

lemma search_loop_rel:
  assumes "str_rel s xs"
  shows "rfirst (\<lambda>i. rbind (mem_load s i) (\<lambda>c. Inr (if P c then Some y else None))) [0..<unat (len s)]
     = Inr (if list_ex P xs then Some y else None)"
proof -
  have "rfirst (\<lambda>i. rbind (mem_load s i) (\<lambda>c. Inr (if P c then Some y else None))) [0..<length xs]
     = Inr (map_option (\<lambda>_. y) (find (\<lambda>i. P (xs ! i)) [0..<length xs]))"
    by (rule rfirst_find) (use assms in \<open>simp add: mem_load_rel\<close>)
  moreover have "find (\<lambda>i. P (xs ! i)) [0..<length xs] = None \<longleftrightarrow> \<not> list_ex P xs"
    by (auto simp add: find_None_iff list_ex_iff all_set_conv_all_nth)
  ultimately show ?thesis using str_rel_len[OF assms] by auto
qed

lemma str_contains_space_rel:
  "str_rel s xs \<Longrightarrow> str_contains_space s = Inr (list_ex vsf_sysutil_isspace xs)"
  by (auto simp: str_contains_space_def search_loop_rel)

lemma str_all_space_rel:
  "str_rel s xs \<Longrightarrow> str_all_space s = Inr (list_all vsf_sysutil_isspace xs)"
  by (auto simp: str_all_space_def search_loop_rel list_ex_iff list_all_iff)

lemma str_contains_unprintable_rel:
  "str_rel s xs \<Longrightarrow> str_contains_unprintable s = Inr (list_ex (\<lambda>c. \<not> vsf_sysutil_isprint c) xs)"
  using search_loop_rel[of s xs "\<lambda>c. \<not> vsf_sysutil_isprint c" True]
  by (auto simp: str_contains_unprintable_def)

lemma append_loop_rel:
  assumes "str_rel s xs" "fits (length xs + n)"
  shows "yields (rfold (\<lambda>_ s. str_append_char s c) [0..<n] s) (xs @ replicate n c)"
proof -
  have "\<exists>s'. rfold (\<lambda>_ s. str_append_char s c) [0..<n] s = Inr s' \<and> str_rel s' (xs @ replicate n c)"
  proof (rule rfold_inv[where I = "\<lambda>i t. str_rel t (xs @ replicate i c)"])
    fix i t assume "i < n" and t: "str_rel t (xs @ replicate i c)"
    then have "fits (Suc (length (xs @ replicate i c)))" using assms(2) by (simp add: fits_def)
    from str_append_char_rel[OF t this, of c]
    show "\<exists>s'. str_append_char t c = Inr s' \<and> str_rel s' (xs @ replicate (Suc i) c)"
      by (simp add: yields_def replicate_append_same)
  qed (use assms in simp)
  then show ?thesis by (simp add: yields_def)
qed

lemma str_rpad_rel [str_rels]:
  assumes "str_rel s xs" "fits (unat w)"
  shows "yields (str_rpad s w) (pad_right xs (unat w))"
proof (cases "len s \<ge> w")
  case True
  then show ?thesis using assms str_rel_len[OF assms(1)]
    by (simp add: str_rpad_def pad_right_def word_le_nat_alt yields_Inr)
next
  case False
  then have "unat (w - len s) = unat w - length xs" "length xs + (unat w - length xs) = unat w"
    using str_rel_len[OF assms(1)] by (simp_all add: unat_sub word_le_nat_alt)
  then show ?thesis using False assms append_loop_rel[OF assms(1), of "unat w - length xs"]
    by (simp add: str_rpad_def pad_right_def)
qed

lemma str_lpad_rel [str_rels]:
  assumes "str_rel s xs" "fits (unat w)"
  shows "yields (str_lpad s w) (pad_left xs (unat w))"
proof (cases "len s \<ge> w")
  case True
  then show ?thesis using assms str_rel_len[OF assms(1)]
    by (simp add: str_lpad_def pad_left_def word_le_nat_alt yields_Inr)
next
  case False
  let ?k = "unat w - length xs"
  have k: "unat (w - len s) = ?k" "?k + length xs = unat w"
    using False str_rel_len[OF assms(1)] by (simp_all add: unat_sub word_le_nat_alt)
  have fit: "fits (0 + ?k)" "fits (?k + length xs)" using assms(2) k by (simp_all add: fits_def)
  have "yields (rbind (str_empty INIT_MYSTR) (\<lambda>tmp.
        rbind (rfold (\<lambda>_ t. str_append_char t (CHR '' '')) [0..<?k] tmp) (\<lambda>tmp.
        rbind (str_append_str tmp s) (\<lambda>tmp. str_copy s tmp)))) (pad_left xs (unat w))"
    unfolding pad_left_def
    apply (rule yields_bind[OF str_empty_rel[OF INIT_MYSTR_rel]])
    apply (rule yields_bind[where xs = "replicate ?k (CHR '' '')"])
    subgoal for t using append_loop_rel[of t "[]" ?k "CHR '' ''"] fit by simp
    apply (rule yields_bind[where xs = "replicate ?k (CHR '' '') @ xs"])
    subgoal for t u using str_append_str_rel[of u _ s xs] assms fit by simp
    subgoal for t u v using str_copy_rel[OF assms(1)] by simp
    done
  then show ?thesis using False by (simp add: str_lpad_def k)
qed

section \<open>Searching\<close>

lemma memcmp_occurs:
  assumes "str_rel s xs" "i + length t \<le> length xs"
  shows "rbind (mem_read s i (length t)) (\<lambda>b. Inr (if libc_memcmp b t = 0 then Some i else None))
     = Inr (if occurs_at t xs i then Some i else None)"
  using assms by (simp add: mem_read_rel memcmp_eq_0 occurs_at_def)

lemma locate_loop:
  assumes "str_rel s xs" "length t \<le> length xs" "set is = {0..<Suc (length xs - length t)}"
  shows "rfirst (\<lambda>i. rbind (mem_read s i (length t)) (\<lambda>b. Inr (if libc_memcmp b t = 0 then Some i else None))) is
    = Inr (find (occurs_at t xs) is)"
proof -
  have "rfirst (\<lambda>i. rbind (mem_read s i (length t)) (\<lambda>b. Inr (if libc_memcmp b t = 0 then Some i else None))) is
    = Inr (map_option (\<lambda>i. i) (find (occurs_at t xs) is))"
    by (rule rfirst_find) (use assms in \<open>auto simp: memcmp_occurs\<close>)
  then show ?thesis by (simp add: option.map_ident)
qed

lemma str_locate_text_rel:
  assumes "str_rel s xs" "cfits t"
  shows "str_locate_text s t = Inr (locate_result (locate_text xs (c_text t)))"
    and "str_locate_text_reverse s t = Inr (locate_result (locate_text_reverse xs (c_text t)))"
proof -
  obtain n where n: "vsf_sysutil_strlen t = Inr n" "unat n = length (c_text t)"
    "take (length (c_text t)) t = c_text t" "n = 0 \<longleftrightarrow> c_text t = []"
    using assms(2) by (rule strlen_cfits)
  have l: "unat (len s) = length xs" using assms(1) by (rule str_rel_len)
  have none: "n > len s \<Longrightarrow> locate_text xs (c_text t) = None \<and> locate_text_reverse xs (c_text t) = None"
    using n l by (auto simp: locate_text_None locate_text_reverse_None occurs_at_def word_less_nat_alt)
  have sub: "\<not> n > len s \<Longrightarrow> unat (len s - n) = length xs - length (c_text t) \<and> length (c_text t) \<le> length xs"
    using n l by (simp add: unat_sub word_le_nat_alt not_less)
  then have Suc: "\<not> n > len s \<Longrightarrow> Suc (length xs) - length (c_text t) = Suc (length xs - length (c_text t))"
    using Suc_diff_le by blast
  have set: "set [0..<Suc m] = {0..<Suc m}" "set (rev [0..<Suc m]) = {0..<Suc m}" for m
    by (simp_all only: set_upt set_rev)
  show "str_locate_text s t = Inr (locate_result (locate_text xs (c_text t)))"
    using n none sub Suc locate_loop[OF assms(1) _ set(1), of "c_text t"]
    by (auto simp: str_locate_text_def locate_text_def locate_result_def simp del: upt_Suc rfirst.simps)
  show "str_locate_text_reverse s t = Inr (locate_result (locate_text_reverse xs (c_text t)))"
    using n none sub Suc locate_loop[OF assms(1) _ set(2), of "c_text t"]
    by (auto simp: str_locate_text_reverse_def locate_text_reverse_def locate_result_def
        simp del: upt_Suc rfirst.simps)
qed

lemma c_text_append_NUL: "c_text (s @ NUL # r) = c_text s"
  by (induction s) (simp_all add: c_text_def)

lemma str_locate_char_rel:
  "str_rel s xs \<Longrightarrow> str_locate_char s c = Inr (locate_result (locate_char xs c))"
  using str_locate_text_rel(1)[of s xs "[c, NUL]"] c_text_append_NUL[of "[c]" "[]"]
  by (simp add: str_locate_char_def locate_char_def cfits_def c_text_def INT_MAX_def)

section \<open>Splitting\<close>

definition yields2 :: "(mystr \<times> mystr) res \<Rightarrow> string \<times> string \<Rightarrow> bool" where
  "yields2 m p \<longleftrightarrow> (\<exists>a b. m = Inr (a, b) \<and> str_rel a (fst p) \<and> str_rel b (snd p))"

lemma split_common_rel:
  assumes "str_rel s xs" "str_rel r ys" "cfits t"
  shows "yields2 (str_split_text_common s r t rv)
    (case (if rv then locate_text_reverse xs (c_text t) else locate_text xs (c_text t)) of
       None \<Rightarrow> (xs, []) | Some i \<Rightarrow> (take i xs, drop (i + length (c_text t)) xs))"
proof -
  let ?loc = "if rv then locate_text_reverse xs (c_text t) else locate_text xs (c_text t)"
  obtain n where n: "vsf_sysutil_strlen t = Inr n" "unat n = length (c_text t)"
    using assms(3) by (rule strlen_cfits)
  have loc: "(if rv then str_locate_text_reverse s t else str_locate_text s t) = Inr (locate_result ?loc)"
    using str_locate_text_rel[OF assms(1,3)] by simp
  show ?thesis
  proof (cases ?loc)
    case None
    obtain r' where "str_empty r = Inr r'" "str_rel r' []"
      using str_empty_rel[OF assms(2)] by (auto simp: yields_def)
    then show ?thesis using None assms(1) n loc
      by (simp add: str_split_text_common_def locate_result_def yields2_def del: if_split)
  next
    case (Some i)
    let ?k = "length (c_text t)" and ?i = "u32 i"
    from Some have occ: "c_text t \<noteq> []" "i + ?k \<le> length xs"
      by (auto simp: locate_text_Some locate_text_reverse_Some occurs_at_def split: if_splits)
    have l: "unat (len s) = length xs" using assms(1) by (rule str_rel_len)
    have "length xs < 2 ^ 32" using str_rel_fits[OF assms(1)] by (rule fits_u32)
    then have i: "unat ?i = i" and sum: "unat (?i + n) = i + ?k"
      using occ n by (simp_all add: unat_add_u32)
    have le: "?i \<le> len s" "n \<le> len s - ?i"
      using i occ l n by (simp_all add: word_le_nat_alt unat_sub)
    have rest: "unat (len s - ?i - n) = length xs - i - ?k"
      using le i l n by (simp add: unat_sub)
    have inb: "\<not> ?i + n > len s" using sum occ l by (simp add: word_less_nat_alt)
    have rd: "mem_read s (i + ?k) (length xs - i - ?k) = Inr (drop (i + ?k) xs)"
      using occ mem_read_rel[OF assms(1), of "i + ?k" "length xs - i - ?k"] by simp
    have "fits (length (drop (i + ?k) xs))" using str_rel_fits[OF assms(1)] by (simp add: fits_def)
    then obtain r' where r': "private_str_alloc_memchunk r (drop (i + ?k) xs) = Inr r'"
      "str_rel r' (drop (i + ?k) xs)"
      using alloc_memchunk_rel[OF assms(2), of "drop (i + ?k) xs"] by (auto simp: yields_def)
    have "p_buf s \<noteq> None"
    proof
      assume "p_buf s = None"
      then have "xs = []" using assms(1) by (simp add: str_rel_None)
      then show False using occ by simp
    qed
    then obtain s' where s': "str_trunc s ?i = Inr s'" "str_rel s' (take i xs)"
      using str_trunc_rel[OF assms(1), of ?i] i occ by (auto simp: yields_def)
    show ?thesis using Some n loc inb rest rd r' s' i
      by (simp add: str_split_text_common_def locate_result_def Let_def yields2_def del: if_split)
  qed
qed

lemma str_split_text_rel:
  assumes "str_rel s xs" "str_rel r ys" "cfits t"
  shows "yields2 (str_split_text s r t) (split_text xs (c_text t))"
    and "yields2 (str_split_text_reverse s r t) (split_text_reverse xs (c_text t))"
  using split_common_rel[OF assms, of False] split_common_rel[OF assms, of True]
  by (simp_all add: str_split_text_def str_split_text_reverse_def split_text_def split_text_reverse_def)

lemma cfits_single: "cfits [c, NUL]" "c_text [c, NUL] = c_text [c]"
  by (simp_all add: cfits_def c_text_def INT_MAX_def)

lemma str_split_char_rel:
  assumes "str_rel s xs" "str_rel r ys"
  shows "yields2 (str_split_char s r c) (split_char xs c)"
    and "yields2 (str_split_char_reverse s r c) (split_char_reverse xs c)"
  using str_split_text_rel[OF assms cfits_single(1)[of c]]
  by (simp_all add: str_split_char_def str_split_char_reverse_def split_char_def
      split_char_reverse_def cfits_single)

section \<open>Slices\<close>

lemma str_slices_rel:
  assumes "str_rel s xs" "str_rel out ys" "unat n \<le> length xs"
  shows str_left_rel: "yields (str_left s out n) (take (unat n) xs)"
    and str_right_rel: "yields (str_right s out n) (drop (length xs - unat n) xs)"
    and str_mid_to_end_rel: "yields (str_mid_to_end s out n) (drop (unat n) xs)"
proof -
  have l: "unat (len s) = length xs" using assms(1) by (rule str_rel_len)
  have in': "\<not> n > len s" "n \<le> len s" using l assms(3) by (simp_all add: word_less_nat_alt word_le_nat_alt)
  have fit: "k \<le> length xs \<Longrightarrow> fits k" for k using str_rel_fits[OF assms(1)] by (simp add: fits_def)
  have sub: "unat (len s - n) = length xs - unat n" using in' l by (simp add: unat_sub)
  show "yields (str_left s out n) (take (unat n) xs)"
    using in' assms by (simp add: str_left_def mem_read_rel alloc_memchunk_rel fit)
  show "yields (str_right s out n) (drop (length xs - unat n) xs)"
    using in' assms sub by (simp add: str_right_def Let_def mem_read_rel alloc_memchunk_rel fit)
  show "yields (str_mid_to_end s out n) (drop (unat n) xs)"
    using in' assms sub by (simp add: str_mid_to_end_def mem_read_rel alloc_memchunk_rel fit)
qed

lemma str_get_char_at_rel:
  "str_rel s xs \<Longrightarrow> unat i < length xs \<Longrightarrow> str_get_char_at s i = Inr (xs ! unat i)"
  using str_rel_len[of s xs] by (simp add: str_get_char_at_def mem_load_rel word_le_nat_alt)

section \<open>Lines\<close>

lemma getline_scan_eq:
  assumes "unat n = length b" "unat p \<le> length b"
  shows "\<exists>q. getline_scan b n p = Inr q
    \<and> unat q = unat p + length (takeWhile (\<lambda>c. c \<noteq> LF) (drop (unat p) b))"
  using assms
proof (induction b n p rule: getline_scan.induct)
  case (1 b n p)
  show ?case
  proof (cases "p < n \<and> b ! unat p \<noteq> LF")
    case True
    then have lt: "unat p < length b" using "1.prems" by (simp add: word_less_nat_alt)
    then have "Suc (unat p) < 2 ^ 32"
      using "1.prems"(1) unat_lt_32[of n] by (simp del: unat_lt_32)
    then have s: "unat (p + 1) = Suc (unat p)" by (rule unat_Suc_u32)
    then have nz: "p + 1 \<noteq> 0" by (metis nat.distinct(1) unsigned_0)
    from "1.IH"[OF True nz] "1.prems"(1) lt s obtain q where q: "getline_scan b n (p + 1) = Inr q"
      "unat q = Suc (unat p) + length (takeWhile (\<lambda>c. c \<noteq> LF) (drop (Suc (unat p)) b))" by auto
    have "drop (unat p) b = b ! unat p # drop (Suc (unat p)) b"
      using lt by (simp add: Cons_nth_drop_Suc)
    then show ?thesis using q True nz by (simp add: getline_scan.simps[of b n p])
  next
    case False
    have "takeWhile (\<lambda>c. c \<noteq> LF) (drop (unat p) b) = []"
    proof (cases "unat p < length b")
      case True
      then have "drop (unat p) b = b ! unat p # drop (Suc (unat p)) b"
        by (simp add: Cons_nth_drop_Suc)
      then show ?thesis using False True "1.prems" by (simp add: word_less_nat_alt)
    qed simp
    then show ?thesis using False by (auto simp: getline_scan.simps[of b n p])
  qed
qed

lemma str_getline_rel:
  assumes "str_rel s xs" "str_rel l ys" "unat p \<le> length xs"
  shows "\<exists>s' l' q. str_getline s l p = Inr (getline xs (unat p) \<noteq> None, s', l', q) \<and> str_rel s' xs
    \<and> (case getline xs (unat p) of None \<Rightarrow> str_rel l' [] \<and> q = p
         | Some (line, pos) \<Rightarrow> str_rel l' line \<and> unat q = pos)"
proof -
  have l: "unat (len s) = length xs" using assms(1) by (rule str_rel_len)
  obtain s' where s': "str_getbuf s = Inr (xs, s')" "str_rel s' xs"
    using str_getbuf_rel[OF assms(1)] by auto
  obtain l1 where l1: "str_empty l = Inr l1" "str_rel l1 []"
    using str_empty_rel[OF assms(2)] by (auto simp: yields_def)
  have inr: "\<not> p > len s" using l assms(3) by (simp add: word_less_nat_alt)
  show ?thesis
  proof (cases "p = len s")
    case True
    then show ?thesis using s' l1 l inr by (simp add: str_getline_def Let_def getline_def)
  next
    case False
    then have lt: "unat p < length xs"
      using inr l by (metis le_neq_implies_less not_less word_less_nat_alt word_unat_eq_iff assms(3))
    let ?line = "takeWhile (\<lambda>c. c \<noteq> LF) (drop (unat p) xs)"
    obtain c where c: "getline_scan xs (len s) p = Inr c" "unat c = unat p + length ?line"
      using getline_scan_eq[of "len s" xs p] l assms(3) by auto
    have le: "unat c \<le> length xs"
      using c(2) length_takeWhile_le[of "\<lambda>c. c \<noteq> LF" "drop (unat p) xs"] lt by simp
    have "p \<le> c" using c(2) by (simp add: word_le_nat_alt)
    then have sub: "unat (c - p) = length ?line" using c(2) by (simp add: unat_sub)
    have "take (length ?line) (drop (unat p) xs) = ?line" by (simp add: takeWhile_eq_take[symmetric])
    then have rd: "mem_read s' (unat p) (length ?line) = Inr ?line"
      using mem_read_rel[OF s'(2), of "unat p" "length ?line"] le c(2) by simp
    have "fits (length ?line)" using str_rel_fits[OF assms(1)] le c(2) by (simp add: fits_def)
    then obtain l2 where l2: "private_str_alloc_memchunk l1 ?line = Inr l2" "str_rel l2 ?line"
      using alloc_memchunk_rel[OF l1(2), of ?line] by (auto simp: yields_def)
    have lf: "c < len s \<Longrightarrow> xs ! unat c = LF" using getline_scan_bounds[OF c(1)] by simp
    have nz: "c < len s \<Longrightarrow> c + 1 \<noteq> 0 \<and> unat (c + 1) = Suc (unat c)"
    proof -
      assume "c < len s"
      then have "Suc (unat c) < 2 ^ 32"
        using l unsigned_less[of "len s", where ?'a = nat] by (simp add: word_less_nat_alt del: unsigned_less unat_lt_32)
      then have "unat (c + 1) = Suc (unat c)" by (rule unat_Suc_u32)
      moreover from this have "c + 1 \<noteq> 0" by (metis nat.distinct(1) unsigned_0)
      ultimately show ?thesis by simp
    qed
    have ltc: "c < len s \<longleftrightarrow> unat c < length xs" using l by (simp add: word_less_nat_alt)
    let ?q = "if c < len s then c + 1 else c"
    have "(if c < len s \<and> xs ! unat c = LF then if c + 1 = 0 then Inl (Bug ''integer overflow'') else Inr (c + 1)
        else Inr c) = Inr ?q" using lf nz by simp
    then have "str_getline s l p = Inr (True, s', l2, ?q)"
      using s'(1) l1(1) inr False c(1) sub rd l2(1) by (simp add: str_getline_def Let_def)
    moreover have "getline xs (unat p) = Some (?line, unat ?q)"
      using lt nz ltc c(2) by (auto simp: getline_def Let_def)
    ultimately show ?thesis using s'(2) l2(2) by auto
  qed
qed

lemma contains_line_loop_rel:
  assumes "str_rel s xs" "str_rel line zs" "str_rel cur ys" "unat p \<le> length xs"
  shows "contains_line_loop s line cur p = Inr (zs \<in> set (text_lines (drop (unat p) xs)))"
  using assms
proof (induction "length xs - unat p" arbitrary: s cur p ys rule: less_induct)
  case less
  show ?case
  proof (cases "getline xs (unat p)")
    case None
    then show ?thesis
      using str_getline_rel[OF less.prems(1,3,4)] getline_None[of xs "unat p"]
      by (auto simp: contains_line_loop.simps)
  next
    case (Some lp)
    obtain l pos where lp: "lp = (l, pos)" by fastforce
    obtain s' c' q where q: "str_getline s cur p = Inr (True, s', c', q)" "str_rel s' xs"
      "str_rel c' l" "unat q = pos"
      using str_getline_rel[OF less.prems(1,3,4)] Some lp by auto
    note g = getline_Some[OF Some[unfolded lp]]
    have "contains_line_loop s' line c' q = Inr (zs \<in> set (text_lines (drop (unat q) xs)))"
      by (rule less.hyps[OF _ q(2) less.prems(2) q(3)]) (use g q(4) in auto)
    then show ?thesis
      using q g(1) str_equal_rel[OF q(3) less.prems(2)] by (auto simp: contains_line_loop.simps[of s])
  qed
qed

lemma str_contains_line_rel:
  "str_rel s xs \<Longrightarrow> str_rel line zs \<Longrightarrow> str_contains_line s line = Inr (zs \<in> set (text_lines xs))"
  using contains_line_loop_rel[of s xs line zs INIT_MYSTR "[]" 0] by (simp add: str_contains_line_def)

section \<open>Replacing text and base names\<close>

lemma replace_text_loop_rel:
  assumes "str_rel s xs" "str_rel lhs ys" "str_rel rhs zs" "cfits fr" "cfits to"
    and "fits (length xs + length (replace_text ys (c_text fr) (c_text to)))"
  shows "yields (replace_text_loop s lhs rhs fr to) (xs @ replace_text ys (c_text fr) (c_text to))"
  using assms
proof (induction "length ys" arbitrary: s xs lhs ys rhs zs rule: less_induct)
  case less
  obtain l r where lr: "split_text ys (c_text fr) = (l, r)" by fastforce
  let ?hit = "if length l < length ys then c_text to else []"
  let ?rest = "if r = [] then [] else replace_text r (c_text fr) (c_text to)"
  have eq: "replace_text ys (c_text fr) (c_text to) = l @ ?hit @ ?rest"
    by (subst replace_text.simps) (simp add: lr Let_def)
  have fit: "fits (length xs + length l)" "fits (length xs + length l + length ?hit)"
    "fits (length xs + length l + length ?hit + length ?rest)"
    using less.prems(6) by (simp_all add: eq fits_def)
  have shorter: "r \<noteq> [] \<Longrightarrow> length r < length ys"
    using split_text_shorter[of ys "c_text fr"] lr by simp
  have lenlt: "str_rel a l \<Longrightarrow> len a < len lhs \<longleftrightarrow> length l < length ys" for a
    using less.prems(2) by (simp add: word_less_nat_alt str_rel_len)
  obtain a b where ab: "str_split_text lhs rhs fr = Inr (a, b)" "str_rel a l" "str_rel b r"
    using str_split_text_rel(1)[OF less.prems(2,3,4)] lr by (auto simp: yields2_def)
  obtain t where t: "str_append_str s a = Inr t" "str_rel t (xs @ l)"
    using str_append_str_rel[OF less.prems(1) ab(2) fit(1)] by (auto simp: yields_def)
  have "yields (if len a < len lhs then str_append_text t to else Inr t) ((xs @ l) @ ?hit)"
    using str_append_text_rel[OF t(2) less.prems(5)] fit(2) t(2) lenlt[OF ab(2)] by (auto simp: yields_Inr)
  then obtain u where u: "(if len a < len lhs then str_append_text t to else Inr t) = Inr u"
    "str_rel u ((xs @ l) @ ?hit)" unfolding yields_def by blast
  obtain v where v: "str_copy a b = Inr v" "str_rel v r"
    using str_copy_rel[OF ab(2,3)] by (auto simp: yields_def)
  have e: "str_isempty v \<longleftrightarrow> r = []"
    using str_rel_len[OF v(2)] by (auto simp: str_isempty_def unat_eq_0[symmetric])
  have step: "replace_text_loop s lhs rhs fr to
      = (if r = [] then Inr u else replace_text_loop u v b fr to)"
    by (simp add: replace_text_loop.simps[of s] Let_def ab(1) t(1) u(1) v(1) e del: if_split)
  show ?case
  proof (cases "r = []")
    case True
    then show ?thesis using u(2) by (simp add: step eq yields_Inr)
  next
    case False
    then show ?thesis
      using less.hyps[OF shorter[OF False] u(2) v(2) ab(3) less.prems(4,5)] fit(3)
      by (simp add: step eq add.assoc)
  qed
qed

lemma str_replace_text_rel [str_rels]:
  assumes "str_rel s xs" "cfits fr" "cfits to" "fits (length (replace_text xs (c_text fr) (c_text to)))"
  shows "yields (str_replace_text s fr to) (replace_text xs (c_text fr) (c_text to))"
  unfolding str_replace_text_def
  by (rule yields_bind[OF str_copy_rel[OF INIT_MYSTR_rel assms(1)]])
     (use replace_text_loop_rel[OF str_free_rel _ INIT_MYSTR_rel assms(2,3)] assms(4) in simp)

lemma str_basename_rel [str_rels]:
  assumes "str_rel d ys" "str_rel s xs"
  shows "yields (str_basename d s) (basename xs)"
proof -
  obtain l r where lr: "split_char_reverse xs (CHR ''/'') = (l, r)" by fastforce
  obtain t where t: "str_copy INIT_MYSTR s = Inr t" "str_rel t xs"
    using str_copy_rel[OF INIT_MYSTR_rel assms(2)] by (auto simp: yields_def)
  obtain a b where b: "str_split_char_reverse t d (CHR ''/'') = Inr (a, b)" "str_rel b r"
    using str_split_char_rel(2)[OF t(2) assms(1), of "CHR ''/''"] lr by (auto simp: yields2_def)
  have "str_isempty b \<longleftrightarrow> r = []"
    using str_rel_len[OF b(2)] by (auto simp: str_isempty_def unat_eq_0[symmetric])
  then show ?thesis
    using b str_copy_rel[OF b(2) assms(2)] t(1) by (simp add: str_basename_def basename_def lr yields_Inr)
qed

section \<open>The interface of a text buffer\<close>

text \<open>
  What the rest of the program relies on when it builds a message: an empty start, and appends
  that either keep every character or stop the process. The bound is the provider's.
\<close>

locale text_buffer =
  fixes rel :: "'b \<Rightarrow> string \<Rightarrow> bool"
    and bound :: nat
    and init :: 'b
    and app :: "'b \<Rightarrow> string \<Rightarrow> 'b res"
    and clear :: "'b \<Rightarrow> 'b res"
  assumes rel_init: "rel init []"
    and app_ok: "rel s xs \<Longrightarrow> length xs + length ys \<le> bound \<Longrightarrow> \<exists>s'. app s ys = Inr s' \<and> rel s' (xs @ ys)"
    and clear_ok: "rel s xs \<Longrightarrow> \<exists>s'. clear s = Inr s' \<and> rel s' []"
    and rel_unique: "rel s xs \<Longrightarrow> rel s ys \<Longrightarrow> xs = ys"
begin

lemma build_text:
  "rel s xs \<Longrightarrow> length xs + length (concat ts) \<le> bound \<Longrightarrow>
     \<exists>s'. rfold (\<lambda>t s. app s t) ts s = Inr s' \<and> rel s' (xs @ concat ts)"
proof (induction ts arbitrary: s xs)
  case (Cons t ts)
  then obtain s1 where s1: "app s t = Inr s1" "rel s1 (xs @ t)"
    using app_ok[of s xs t] by auto
  from Cons.IH[OF s1(2)] Cons.prems(2) obtain s2 where
    "rfold (\<lambda>t s. app s t) ts s1 = Inr s2" "rel s2 ((xs @ t) @ concat ts)" by auto
  then show ?case using s1 by simp
qed simp

lemma rebuild_text:
  assumes "rel s xs" "length (concat ts) \<le> bound"
  shows "\<exists>s'. rbind (clear s) (rfold (\<lambda>t s. app s t) ts) = Inr s' \<and> rel s' (concat ts)"
proof -
  obtain s1 where s1: "clear s = Inr s1" "rel s1 []" using clear_ok[OF assms(1)] by auto
  from build_text[OF s1(2), of ts] assms(2) s1(1) show ?thesis by simp
qed

end

interpretation mystr_buffer: text_buffer str_rel "INT_MAX - 2" INIT_MYSTR private_str_append_memchunk str_empty
proof
  show "str_rel INIT_MYSTR []" by simp
next
  fix s :: mystr and xs ys :: string
  assume "str_rel s xs" "length xs + length ys \<le> INT_MAX - 2"
  then show "\<exists>s'. private_str_append_memchunk s ys = Inr s' \<and> str_rel s' (xs @ ys)"
    using append_memchunk_rel[of s xs ys] by (simp add: yields_def fits_def INT_MAX_def)
next
  fix s :: mystr and xs :: string
  assume "str_rel s xs"
  then show "\<exists>s'. str_empty s = Inr s' \<and> str_rel s' []"
    using str_empty_rel by (simp add: yields_def)
qed (simp add: str_rel_def)

section \<open>The error branches\<close>

text \<open>Whatever the state, a successful append never wraps the 32-bit length.\<close>

lemma append_len_exact:
  assumes "private_str_append_memchunk s src = Inr s'" "length src < 2 ^ 32"
  shows "unat (len s') = unat (len s) + length src"
proof -
  obtain n where n: "u32 (length src) = n" "unat n = length src" using assms(2) by simp
  from assms(1) have "len s' = len s + n" "\<not> n + len s < n"
    by (auto simp: private_str_append_memchunk_def Let_def rbind_Inr_iff n(1) mem_copy_def mem_store_def
        split: if_splits option.splits)
  moreover from this have "unat (n + len s) = unat n + unat (len s)"
    using unat_lt_32[of "len s"]
    by (simp add: word_less_nat_alt unat_plus_if' del: unat_lt_32 split: if_splits)
  ultimately show ?thesis using n(2) by (simp add: add.commute)
qed

lemma str_strdup_trimmed_rel:
  assumes "str_rel s xs"
  shows "str_strdup_trimmed s =
    (if xs = [] then Inr None
     else if list_all vsf_sysutil_isspace xs then Inl (Trap ''bounds'')
     else Inr (Some (rev (dropWhile vsf_sysutil_isspace (rev (dropWhile vsf_sysutil_isspace xs))))))"
proof -
  let ?P = vsf_sysutil_isspace
  let ?h = "length (takeWhile ?P xs)" and ?k = "length (takeWhile ?P (rev xs))"
  have lt: "length xs < 2 ^ 31" using str_rel_fits[OF assms] by (simp add: fits_def INT_MAX_def)
  obtain s' where s': "str_getbuf s = Inr (xs, s')" "str_rel s' xs"
    using str_getbuf_rel[OF assms] by auto
  have l: "unat (len s') = length xs" using s'(2) by (rule str_rel_len)
  let ?v = "int (length xs) - 1 - int ?k - int ?h + 1"
  obtain w :: u32 where w: "word_of_int ?v = w" by blast
  have uw: "unat w = nat (?v mod 2 ^ 32)"
    by (simp add: w[symmetric] unsigned_of_int take_bit_eq_mod del: of_int_diff of_int_add of_int_of_nat_eq)
  have eq: "str_strdup_trimmed s = (if ?h + unat w > length xs then Inl (Trap ''bounds'')
      else if w \<noteq> 0 then Inr (Some (take (unat w) (drop ?h xs))) else Inr None)"
    unfolding str_strdup_trimmed_def s'(1) rbind_simps prod.case Let_def w nat_int l by simp
  consider (e) "xs = []" | (sp) "xs \<noteq> []" "list_all ?P xs" | (ok) "\<not> list_all ?P xs" by blast
  then show ?thesis
  proof cases
    case e
    then show ?thesis using s' by (simp add: str_strdup_trimmed_def Let_def)
  next
    case sp
    then have tw: "takeWhile ?P xs = xs" "takeWhile ?P (rev xs) = rev xs"
      by (simp_all add: takeWhile_eq_all_conv list_all_iff)
    have "(- int (length xs)) mod 2 ^ 32 = (2 ^ 32 - int (length xs)) mod 2 ^ 32"
      by (metis add.commute diff_conv_add_uminus mod_add_self1)
    also have "\<dots> = 2 ^ 32 - int (length xs)"
      using lt sp(1) by (intro mod_pos_pos_trivial) simp_all
    finally have "unat w = nat (2 ^ 32 - int (length xs))" unfolding uw tw by simp
    then have "?h + unat w > length xs" using lt sp(1) unfolding tw by simp
    then show ?thesis using sp by (simp add: eq)
  next
    case ok
    then obtain c where c: "c \<in> set xs" "\<not> ?P c" by (auto simp: list_all_iff)
    have dw: "dropWhile ?P xs = drop ?h xs" by (simp add: dropWhile_eq_drop)
    then have "c \<in> set (rev (drop ?h xs))"
      using c by (metis set_dropWhileD set_rev Un_iff set_append takeWhile_dropWhile_id set_takeWhileD)
    moreover have "rev xs = rev (drop ?h xs) @ rev (take ?h xs)"
      by (metis append_take_drop_id rev_append)
    ultimately have tw: "takeWhile ?P (rev (drop ?h xs)) = takeWhile ?P (rev xs)"
      using c(2) by (simp add: takeWhile_append1)
    have hk: "?h + ?k \<le> length xs"
      using length_takeWhile_le[of ?P "rev (drop ?h xs)"] length_takeWhile_le[of ?P xs]
      unfolding tw by simp
    have "rev (dropWhile ?P (rev (dropWhile ?P xs))) = take (length xs - ?h - ?k) (drop ?h xs)"
      unfolding dw dropWhile_eq_drop[of ?P "rev (drop ?h xs)"] tw
      using rev_drop[of ?k "rev (drop ?h xs)"] by (simp add: diff_commute)
    moreover have "?v = int (length xs - ?h - ?k)" using hk by simp
    then have "unat w = length xs - ?h - ?k" using lt unfolding uw by simp
    moreover have "length xs - ?h - ?k \<noteq> 0"
    proof
      assume "length xs - ?h - ?k = 0"
      then have "length (takeWhile ?P (rev (drop ?h xs))) = length (rev (drop ?h xs))"
        using hk by (simp add: tw)
      then have "takeWhile ?P (rev (drop ?h xs)) = rev (drop ?h xs)"
        by (metis append_eq_conv_conj takeWhile_eq_take take_all order_refl)
      then show False using \<open>c \<in> set (rev (drop ?h xs))\<close> c(2) by (simp add: takeWhile_eq_all_conv)
    qed
    moreover have "xs \<noteq> []" using c by auto
    ultimately show ?thesis
      using hk ok by (simp add: eq unat_eq_0[symmetric])
  qed
qed

end
