(* ===== verification/Strlist.thy ===== *)
theory Strlist
  imports Str_Refine "HOL-Library.Multiset"
begin

text \<open>
  src/strlist.c: a growing array of strings, each with a sort key. The array is the list of its
  used nodes with the number of allocated ones.
\<close>

section \<open>The list\<close>

record mystr_list_node =
  node_str :: string
  sort_key_str :: string

record mystr_list =
  alloc_len :: nat
  nodes :: "mystr_list_node list"

definition INIT_STRLIST :: mystr_list where
  "INIT_STRLIST = \<lparr>alloc_len = 0, nodes = []\<rparr>"

definition kMaxStrlist :: nat where "kMaxStrlist = 10 * 1000 * 1000"

definition str_list_free :: "mystr_list \<Rightarrow> mystr_list" where
  "str_list_free p_list = p_list\<lparr>alloc_len := 0, nodes := []\<rparr>"

definition str_list_get_length :: "mystr_list \<Rightarrow> nat" where
  "str_list_get_length p_list = length (nodes p_list)"

definition str_list_contains_str :: "mystr_list \<Rightarrow> string \<Rightarrow> bool" where
  "str_list_contains_str p_list p_str = list_ex (\<lambda>n. p_str = node_str n) (nodes p_list)"

text \<open>No sort key is a null pointer in the code, an empty one here: they mean the same.\<close>

definition str_list_add :: "mystr_list \<Rightarrow> string \<Rightarrow> string \<Rightarrow> mystr_list res" where
  "str_list_add p_list p_str p_sort_key_str = (
     let l = length (nodes p_list); node = \<lparr>node_str = p_str, sort_key_str = p_sort_key_str\<rparr> in
     rbind (if l = alloc_len p_list
            then if alloc_len p_list = 0 then Inr 32
              else if alloc_len p_list * 2 > kMaxStrlist then Inl (Die ''excessive strlist'')
              else Inr (alloc_len p_list * 2)
            else Inr (alloc_len p_list)) (\<lambda>n.
       if l < n then Inr (p_list\<lparr>alloc_len := n, nodes := nodes p_list @ [node]\<rparr>)
       else Inl (Trap ''bounds'')))"

definition str_list_get_pstr :: "mystr_list \<Rightarrow> nat \<Rightarrow> string res" where
  "str_list_get_pstr p_list indexx =
     (if indexx \<ge> length (nodes p_list) then Inl (Bug ''indexx out of range in str_list_get_str'')
      else Inr (node_str (nodes p_list ! indexx)))"

section \<open>Sorting\<close>

text \<open>The key of a node, and strings compared as \<open>str_strcmp\<close> does: bytes first, then lengths.\<close>

definition node_key :: "mystr_list_node \<Rightarrow> string" where
  "node_key n = (if sort_key_str n \<noteq> [] then sort_key_str n else node_str n)"

definition text_strcmp :: "string \<Rightarrow> string \<Rightarrow> int" where
  "text_strcmp s t = (let m = min (length s) (length t);
     r = libc_memcmp (take m s) (take m t) in if r \<noteq> 0 \<or> length s = length t then r
     else int (length s) - int (length t))"

text \<open>\<open>a\<close> may come before \<open>b\<close>.\<close>

definition sort_before :: "bool \<Rightarrow> mystr_list_node \<Rightarrow> mystr_list_node \<Rightarrow> bool" where
  "sort_before reverse a b \<longleftrightarrow>
     (if reverse then text_strcmp (node_key b) (node_key a) else text_strcmp (node_key a) (node_key b)) \<le> 0"

primrec insert_node :: "bool \<Rightarrow> mystr_list_node \<Rightarrow> mystr_list_node list \<Rightarrow> mystr_list_node list" where
  "insert_node reverse x [] = [x]"
| "insert_node reverse x (y # ys) =
     (if sort_before reverse x y then x # y # ys else y # insert_node reverse x ys)"

text \<open>libc's qsort orders the nodes; nodes with equal keys, which it may exchange, keep their order here.\<close>

definition str_list_sort :: "mystr_list \<Rightarrow> bool \<Rightarrow> mystr_list" where
  "str_list_sort p_list reverse = p_list\<lparr>nodes := foldr (insert_node reverse) (nodes p_list) []\<rparr>"

section \<open>Growth\<close>

text \<open>The allocation is nothing or 32 doubled some times, and never more than the limit.\<close>

definition strlist_ok :: "mystr_list \<Rightarrow> bool" where
  "strlist_ok l \<longleftrightarrow> length (nodes l) \<le> alloc_len l \<and> (alloc_len l = 0 \<or> (\<exists>k. alloc_len l = 32 * 2 ^ k))
     \<and> alloc_len l \<le> kMaxStrlist"

lemma strlist_ok_INIT [simp]: "strlist_ok INIT_STRLIST" "strlist_ok (str_list_free l)"
  by (simp_all add: strlist_ok_def INIT_STRLIST_def str_list_free_def)

lemma str_list_add_ok:
  assumes "strlist_ok l" "str_list_add l s k = Inr l'"
  shows "strlist_ok l' \<and> nodes l' = nodes l @ [\<lparr>node_str = s, sort_key_str = k\<rparr>]"
proof -
  let ?n = "length (nodes l)" and ?a = "alloc_len l"
  have shape: "m = 0 \<or> (\<exists>k. m = 32 * 2 ^ k) \<Longrightarrow> (if m = 0 then 32 else m * 2) = 0 \<or> (\<exists>k. (if m = 0 then 32 else m * 2) = 32 * 2 ^ k)" for m :: nat
  proof (elim disjE exE)
    show ?thesis if "m = 0" using that by (simp add: exI[of _ 0])
    show ?thesis if "m = 32 * 2 ^ j" for j using that by (auto intro: exI[of _ "Suc j"])
  qed
  obtain b where b: "l' = l\<lparr>alloc_len := b, nodes := nodes l @ [\<lparr>node_str = s, sort_key_str = k\<rparr>]\<rparr>" "?n < b"
    "b = ?a \<or> b = (if ?a = 0 then 32 else ?a * 2) \<and> (?a = 0 \<or> ?a * 2 \<le> kMaxStrlist)"
    using assms(2)
  proof (cases l)
    case (fields a ns)
    then show ?thesis using assms(2) that[of "alloc_len l'"]
      by (auto simp: str_list_add_def Let_def split: if_splits)
  qed
  have "b = 0 \<or> (\<exists>j. b = 32 * 2 ^ j)"
    using assms(1) b(3) shape[of ?a] unfolding strlist_ok_def by metis
  moreover have "b \<le> kMaxStrlist"
    using assms(1) b(3) by (auto simp: strlist_ok_def kMaxStrlist_def)
  ultimately show ?thesis using b by (simp add: strlist_ok_def)
qed

text \<open>The bounds check of the code never fails; only the limit can end the process.\<close>

lemma str_list_add_total:
  assumes "strlist_ok l"
  shows "(\<exists>l'. str_list_add l s k = Inr l') \<or>
    str_list_add l s k = Inl (Die ''excessive strlist'') \<and> 2 * length (nodes l) > kMaxStrlist"
  using assms by (auto simp: str_list_add_def Let_def strlist_ok_def)

section \<open>Order\<close>

fun text_before :: "string \<Rightarrow> string \<Rightarrow> bool" where
  "text_before [] t = True"
| "text_before (x # s) [] = False"
| "text_before (x # s) (y # t) = (x < y \<or> x = y \<and> text_before s t)"

lemma char_le_int: "(of_char x :: int) \<le> of_char y \<longleftrightarrow> x = y \<or> x < y"
proof -
  have lt: "(of_char a :: int) < of_char b \<longleftrightarrow> a < b" for a b :: char
    by (metis less_char_def of_nat_less_iff of_nat_of_char)
  show ?thesis using lt[of y x] by (auto simp flip: not_less)
qed

lemma text_strcmp_before: "text_strcmp s t \<le> 0 \<longleftrightarrow> text_before s t"
proof (induction s t rule: text_before.induct)
  case (3 x s y t)
  have "text_strcmp (x # s) (y # t) = (if x = y then text_strcmp s t else of_char x - of_char y)"
    by (simp add: text_strcmp_def Let_def)
  moreover have "(of_char x :: int) \<le> of_char y \<longleftrightarrow> x = y \<or> x < y" by (rule char_le_int)
  ultimately show ?case using 3 by simp
qed (auto simp: text_strcmp_def)

lemma text_before_total: "text_before s t \<or> text_before t s"
  by (induction s t rule: text_before.induct) auto

lemma text_before_trans: "text_before s t \<Longrightarrow> text_before t u \<Longrightarrow> text_before s u"
proof (induction s t arbitrary: u rule: text_before.induct)
  case (3 x s y t)
  then show ?case by (cases u) auto
qed auto

lemma sort_before_iff: "sort_before r a b \<longleftrightarrow>
    (if r then text_before (node_key b) (node_key a) else text_before (node_key a) (node_key b))"
  by (simp add: sort_before_def text_strcmp_before)

lemma sort_before_total: "sort_before r a b \<or> sort_before r b a"
  using text_before_total by (auto simp: sort_before_iff)

lemma sort_before_trans: "sort_before r a b \<Longrightarrow> sort_before r b c \<Longrightarrow> sort_before r a c"
  by (auto simp: sort_before_iff split: if_splits intro: text_before_trans)

lemma set_insert_node: "set (insert_node r x ys) = insert x (set ys)"
  by (induction ys) auto

lemma insert_node_sorted: "sorted_wrt (sort_before r) ys \<Longrightarrow> sorted_wrt (sort_before r) (insert_node r x ys)"
proof (induction ys)
  case (Cons y ys)
  then show ?case
    using sort_before_total[of r x y] by (auto simp: set_insert_node intro: sort_before_trans)
qed simp

lemma mset_insert_node: "mset (insert_node r x ys) = add_mset x (mset ys)"
  by (induction ys) auto

lemma str_list_sort_sorts:
  "sorted_wrt (sort_before r) (nodes (str_list_sort l r))" "mset (nodes (str_list_sort l r)) = mset (nodes l)"
proof -
  have "sorted_wrt (sort_before r) (foldr (insert_node r) xs [])
      \<and> mset (foldr (insert_node r) xs []) = mset xs" for xs
    by (induction xs) (auto simp: insert_node_sorted mset_insert_node)
  then show "sorted_wrt (sort_before r) (nodes (str_list_sort l r))" "mset (nodes (str_list_sort l r)) = mset (nodes l)"
    by (simp_all add: str_list_sort_def)
qed

end
