(* ===== verification/Ls.thy ===== *)
theory Ls
  imports File_Filter Strlist
begin

text \<open>
  Directory listings: src/ls.c. A directory is read entry by entry; each entry is looked at with
  lstat when the listing needs it, formatted, and added to a list that is sorted at the end.
\<close>

section \<open>One line of a listing\<close>

definition vsf_sysutil_getpwuid :: "env \<Rightarrow> int \<Rightarrow> passwd option proc" where
  "vsf_sysutil_getpwuid E uid =
     (if uid < 0 then bug E ''negative uid in vsf_sysutil_getpwuid''
      else bind (sys E (Getpwuid uid)) (\<lambda>r. return (ret_user r)))"

text \<open>The name of a group.\<close>

definition vsf_sysutil_getgrgid :: "env \<Rightarrow> int \<Rightarrow> string option proc" where
  "vsf_sysutil_getgrgid E gid =
     (if gid < 0 then die E ''negative gid in vsf_sysutil_getgrgid'' else sys_str E (Getgrgid gid))"

definition user_column :: "env \<Rightarrow> int \<Rightarrow> string proc" where
  "user_column E uid = (if tunable_hide_ids E then return ''ftp''
     else bind (if tunable_text_userdb_names E then vsf_sysutil_getpwuid E uid else return None) (\<lambda>p_user.
       return (case p_user of None \<Rightarrow> vsf_sysutil_ulong_to_str (word_of_int uid) | Some u \<Rightarrow> c_text (pw_name u))))"

definition group_column :: "env \<Rightarrow> int \<Rightarrow> string proc" where
  "group_column E gid = (if tunable_hide_ids E then return ''ftp''
     else bind (if tunable_text_userdb_names E then vsf_sysutil_getgrgid E gid else return None) (\<lambda>p_group.
       return (case p_group of None \<Rightarrow> vsf_sysutil_ulong_to_str (word_of_int gid) | Some g \<Rightarrow> c_text g)))"

definition build_dir_line :: "env \<Rightarrow> string \<Rightarrow> statbuf \<Rightarrow> int \<Rightarrow> string proc" where
  "build_dir_line E p_filename_str st curr_time =
     bind (lift_res E (vsf_sysutil_statbuf_get_size st)) (\<lambda>file_size.
     bind (user_column E (st_uid st)) (\<lambda>user.
     bind (group_column E (st_gid st)) (\<lambda>grp.
     bind (vsf_sysutil_statbuf_get_date E st (tunable_use_localtime E) curr_time) (\<lambda>date.
     return (vsf_sysutil_statbuf_get_perms st @ '' ''
       @ pad_left (vsf_sysutil_ulong_to_str (ucast (st_nlink st))) 4 @ '' ''
       @ pad_right user 8 @ '' '' @ pad_right grp 8 @ '' ''
       @ pad_left (vsf_sysutil_filesize_t_to_str file_size) 8 @ '' ''
       @ c_text date @ '' '' @ p_filename_str @ [CR, LF])))))"

section \<open>Options\<close>

record ls_options =
  a_option :: bool
  r_option :: bool
  t_option :: bool
  F_option :: bool
  verbose :: bool
  do_stat :: bool

definition ls_opts :: "string \<Rightarrow> string \<Rightarrow> bool \<Rightarrow> bool \<Rightarrow> ls_options" where
  "ls_opts p_option_str p_filter_str is_verbose want_subdirs = (
     let has = (\<lambda>c. locate_char p_option_str c \<noteq> None);
         t = has (CHR ''t''); v = (is_verbose \<or> has (CHR ''l'')) in
     \<lparr>a_option = has (CHR ''a'') \<or> (p_filter_str \<noteq> [] \<and> hd p_filter_str = CHR ''.''),
      r_option = (if t then \<not> has (CHR ''r'') else has (CHR ''r'')),
      t_option = t, F_option = has (CHR ''F''), verbose = v,
      do_stat = v \<or> t \<or> has (CHR ''F'') \<or> want_subdirs\<rparr>)"

text \<open>Dot files are shown on demand, the two links to directories only with \<open>-a\<close>.\<close>

definition shows_dot_file :: "env \<Rightarrow> ls_options \<Rightarrow> string \<Rightarrow> bool" where
  "shows_dot_file E opts name \<longleftrightarrow> hd name \<noteq> CHR ''.'' \<or> a_option opts
     \<or> (tunable_force_dot_files E \<and> name \<noteq> ''.'' \<and> name \<noteq> ''..'')"

definition normalised_base_dir :: "string \<Rightarrow> string" where
  "normalised_base_dir p_base_dir_str = (if p_base_dir_str = ''.'' \<or> p_base_dir_str = [] then []
     else if last p_base_dir_str \<noteq> CHR ''/'' then p_base_dir_str @ ''/'' else p_base_dir_str)"

section \<open>One entry\<close>

definition when_stat :: "(statbuf \<Rightarrow> bool) \<Rightarrow> statbuf option \<Rightarrow> bool" where
  "when_stat p st = (case st of None \<Rightarrow> False | Some b \<Rightarrow> p b)"

definition str_readlink :: "env \<Rightarrow> string \<Rightarrow> string option proc" where
  "str_readlink E p_filename_str = bind (sys_str E (Readlink (c_text p_filename_str))) (\<lambda>r.
     return (case r of None \<Rightarrow> None | Some t \<Rightarrow> Some (c_text (take 4095 t))))"

text \<open>The line of an entry, given its path and what lstat said of it.\<close>

definition entry_line :: "env \<Rightarrow> ls_options \<Rightarrow> string \<Rightarrow> string \<Rightarrow> statbuf option \<Rightarrow> int \<Rightarrow> string proc" where
  "entry_line E opts name path st curr_time =
     (if verbose opts
      then (case st of None \<Rightarrow> halt (Trapped ''null pointer'')
        | Some b \<Rightarrow>
          bind (if vsf_sysutil_statbuf_is_symlink b then str_readlink E path else return None) (\<lambda>target.
          build_dir_line E
            (name @ (case target of Some t \<Rightarrow> if t \<noteq> [] then '' -> '' @ t else [] | None \<Rightarrow> [])
              @ (if F_option opts \<and> vsf_sysutil_statbuf_is_dir b then ''/'' else []))
            b curr_time))
      else return (path
        @ (if F_option opts
           then if when_stat vsf_sysutil_statbuf_is_dir st then ''/''
             else if when_stat vsf_sysutil_statbuf_is_symlink st then ''@'' else []
           else [])
        @ [CR, LF]))"

text \<open>Whether the entry is listed at all: not hidden, not filtered out.\<close>

definition entry_passes :: "env \<Rightarrow> ls_options \<Rightarrow> string \<Rightarrow> string \<Rightarrow> bool proc" where
  "entry_passes E opts p_filter_str name =
     (if \<not> shows_dot_file E opts name then return False
      else bind (vsf_access_check_file_visible E name) (\<lambda>visible.
        if \<not> visible then return False
        else if p_filter_str = [] then return True
        else vsf_filename_passes_filter E name p_filter_str))"

definition list_entry :: "env \<Rightarrow> ls_options \<Rightarrow> string \<Rightarrow> bool \<Rightarrow> string \<Rightarrow> int \<Rightarrow>
    mystr_list \<times> mystr_list \<Rightarrow> (mystr_list \<times> mystr_list) proc" where
  "list_entry E opts base_str want_subdirs name curr_time both = (
     let path = base_str @ name; (p_list, p_subdir_list) = both in
     bind (if do_stat opts then sys_stat E (Lstat (c_text path)) else return None) (\<lambda>st.
     if do_stat opts \<and> st = None then return both
     else bind (entry_line E opts name path st curr_time) (\<lambda>dirline.
       let mtime = (if t_option opts
             then (case st of None \<Rightarrow> [] | Some b \<Rightarrow> vsf_sysutil_statbuf_get_sortkey_mtime b) else []) in
       bind (lift_res E (str_list_add p_list dirline (if t_option opts then mtime else name))) (\<lambda>l.
       bind (if want_subdirs \<and> when_stat vsf_sysutil_statbuf_is_dir st
             then lift_res E (str_list_add p_subdir_list name mtime) else return p_subdir_list) (\<lambda>subs.
         return (l, subs))))))"

section \<open>The whole directory\<close>

definition str_next_dirent :: "env \<Rightarrow> int \<Rightarrow> string proc" where
  "str_next_dirent E p_dir = bind (sys_str E (Readdir p_dir)) (\<lambda>r.
     return (case r of None \<Rightarrow> [] | Some t \<Rightarrow> c_text t))"

primrec dir_loop :: "env \<Rightarrow> ls_options \<Rightarrow> string \<Rightarrow> string \<Rightarrow> bool \<Rightarrow> int \<Rightarrow> int \<Rightarrow> nat \<Rightarrow>
    mystr_list \<times> mystr_list \<Rightarrow> (mystr_list \<times> mystr_list) proc" where
  "dir_loop E opts base_str p_filter_str want_subdirs p_dir curr_time 0 both = halt Unfinished"
| "dir_loop E opts base_str p_filter_str want_subdirs p_dir curr_time (Suc n) both =
     bind (str_next_dirent E p_dir) (\<lambda>name.
     if name = [] then return both
     else bind (entry_passes E opts p_filter_str name) (\<lambda>ok.
       bind (if ok then list_entry E opts base_str want_subdirs name curr_time both else return both)
         (dir_loop E opts base_str p_filter_str want_subdirs p_dir curr_time n)))"

definition vsf_ls_populate_dir_list :: "env \<Rightarrow> mystr_list \<Rightarrow> mystr_list \<Rightarrow> bool \<Rightarrow> int \<Rightarrow> string \<Rightarrow> string \<Rightarrow>
    string \<Rightarrow> bool \<Rightarrow> (mystr_list \<times> mystr_list) proc" where
  "vsf_ls_populate_dir_list E p_list p_subdir_list want_subdirs p_dir p_base_dir_str p_option_str
      p_filter_str is_verbose = (
     let opts = ls_opts p_option_str p_filter_str is_verbose want_subdirs in
     bind (if verbose opts then sys_int E Time_sec else return 0) (\<lambda>curr_time.
     bind (dir_loop E opts (normalised_base_dir p_base_dir_str) p_filter_str want_subdirs p_dir curr_time
             (fuel E) (p_list, p_subdir_list)) (\<lambda>(l, subs).
       return (str_list_sort l (r_option opts),
         if want_subdirs then str_list_sort subs (r_option opts) else subs))))"

section \<open>Invariants\<close>

lemma keeps_columns [safes]:
  "base I \<Longrightarrow> keeps I (vsf_sysutil_getpwuid E u)" "base I \<Longrightarrow> keeps I (vsf_sysutil_getgrgid E g)"
  "base I \<Longrightarrow> keeps I (user_column E u)" "base I \<Longrightarrow> keeps I (group_column E g)"
  unfolding user_column_def group_column_def vsf_sysutil_getpwuid_def vsf_sysutil_getgrgid_def
  by (intro safes; simp)+

lemma keeps_build_dir_line [safes]: "base I \<Longrightarrow> keeps I (build_dir_line E n st t)"
  unfolding build_dir_line_def by (intro safes)

lemma keeps_entry_line [safes]: "base I \<Longrightarrow> keeps I (entry_line E opts name path st t)"
  unfolding entry_line_def str_readlink_def by (intro safes; simp)

lemma keeps_entry [safes]:
  "base I \<Longrightarrow> keeps I (entry_passes E opts f name)" "base I \<Longrightarrow> keeps I (list_entry E opts b s name t ls)"
  unfolding entry_passes_def list_entry_def Let_def by (intro safes; simp)+

lemma keeps_dir_loop [safes]: "base I \<Longrightarrow> keeps I (dir_loop E opts b f s d t n ls)"
proof (induction n arbitrary: ls)
  case 0
  then show ?case by (simp add: keeps_halt)
next
  case (Suc n)
  have next_name: "keeps I (str_next_dirent E d)"
    unfolding str_next_dirent_def using Suc.prems by (intro safes; simp)
  show ?case
    unfolding dir_loop.simps
    by (intro keeps_bind keeps_if keeps_return next_name keeps_entry Suc)
qed

lemma keeps_populate [safes]: "base I \<Longrightarrow> keeps I (vsf_ls_populate_dir_list E l m s d b opt f v)"
  unfolding vsf_ls_populate_dir_list_def Let_def by (intro safes; simp)

section \<open>A listing ends\<close>

text \<open>A directory that has no more than \<open>k\<close> entries: after \<open>k\<close> reads there is nothing to read.\<close>

definition reads :: "int \<Rightarrow> event list \<Rightarrow> nat" where
  "reads d h = length (filter (\<lambda>e. fst e = Readdir d) h)"

definition dir_bound :: "env \<Rightarrow> int \<Rightarrow> nat \<Rightarrow> bool" where
  "dir_bound E d k \<longleftrightarrow> (\<forall>h. reads d h \<ge> k \<longrightarrow> ret_str (os E h (Readdir d)) = None)"

text \<open>Runs that do not stop for want of fuel, and in which the reads of \<open>d\<close> never become fewer.\<close>

definition ends :: "'a proc \<Rightarrow> bool" where
  "ends m \<longleftrightarrow> (\<forall>w w'. m w \<noteq> Halt Unfinished w')"

lemma ends_bind: "ends m \<Longrightarrow> (\<And>x. ends (f x)) \<Longrightarrow> ends (bind m f)"
  by (auto simp: ends_def bind_def split: outcome.split)

lemma ends_seq: "ends m \<Longrightarrow> ends n \<Longrightarrow> ends (seq m n)"
  unfolding seq_def by (rule ends_bind)

lemma ends_basic: "ends (return x)" "ends get" "ends (upd g)" "ends (sys E c)" "ends (halt (Exited n))" "ends (halt (Trapped t))"
  by (simp_all add: ends_def return_def get_def upd_def sys_def Let_def halt_def)

lemma ends_sys: "ends (sys_int E c)" "ends (sys_str E c)" "ends (sys_stat E c)" "ends (sysu E c)"
  unfolding sys_int_def sys_str_def sys_stat_def sysu_def by (intro ends_bind ends_basic)+

lemma ends_die: "ends (bug E t)" "ends (die E t)" "ends (die2 E t u)"
  unfolding die2_def die_def bug_def vsf_sysutil_exit_def block.simps
  by (intro ends_seq ends_sys ends_basic)+

lemma ends_if: "(b \<Longrightarrow> ends m) \<Longrightarrow> (\<not> b \<Longrightarrow> ends n) \<Longrightarrow> ends (if b then m else n)"
  by simp

lemma ends_option: "ends m \<Longrightarrow> (\<And>y. ends (f y)) \<Longrightarrow> ends (case x of None \<Rightarrow> m | Some y \<Rightarrow> f y)"
  by (cases x) simp_all

lemma ends_lift: "ends (lift_res E m)"
  unfolding lift_res_def by (cases m) (auto split: failure.split intro: ends_die ends_basic)

lemma ends_prod: "(\<And>a b. ends (f a b)) \<Longrightarrow> ends (case p of (a, b) \<Rightarrow> f a b)"
  by (cases p) simp

lemmas ends_rules = ends_bind ends_seq ends_basic ends_sys ends_die ends_if ends_option ends_lift ends_prod

lemma ends_matcher:
  "ends (filename_passes E name f iters)" "ends (filter_loop E f name tok must iters)" "ends (brace_loop E b a name iters)"
proof (induction E name f iters and E f name tok must iters and E b a name iters
    rule: filename_passes_filter_loop_brace_loop.induct)
  case (1 E name filter_str iters)
  then show ?case
    unfolding filename_passes.simps[of E name] vsf_sysutil_realpath_def vsf_sysutil_get_error_def
      filter_name_def str_getcwd_def Let_def
    by (intro ends_rules) auto
next
  case (2 E filter_str name last_token must iters)
  show ?case
  proof (cases "filter_str = [] \<or> iters \<ge> VSFTP_MATCHITERS_MAX")
    case True
    then show ?thesis by (simp add: filter_loop.simps[of E filter_str] ends_basic)
  next
    case False
    obtain needed tok rest where t: "next_token filter_str = (needed, tok, rest)" by (metis prod_cases3)
    show ?thesis
    proof (cases "consume needed must name")
      case None
      then show ?thesis using False t by (simp add: filter_loop.simps[of E filter_str] ends_basic)
    next
      case (Some remain)
      obtain br af where b: "split_char rest (CHR ''}'') = (br, af)" by fastforce
      note IH = 2[OF False t[symmetric] refl refl Some]
      show ?thesis
        using False t Some b IH(1) IH(2)[OF _ _ _ b[symmetric] refl] IH(3) IH(4)
        by (auto simp: filter_loop.simps[of E filter_str] ends_basic)
    qed
  qed
next
  case (3 E braces after name iters)
  obtain item more_items where t: "split_char braces (CHR '','') = (item, more_items)" by fastforce
  show ?case
  proof (cases "item = []")
    case True
    then show ?thesis using t by (simp add: brace_loop.simps[of E braces] ends_basic)
  next
    case False
    note IH = 3[OF t[symmetric] refl False]
    show ?thesis
      using False t IH by (auto simp: brace_loop.simps[of E braces] intro!: ends_bind ends_prod ends_if ends_basic)
  qed
qed

lemma ends_entry: "ends (entry_passes E opts f name)" "ends (list_entry E opts b s name t ls)"
proof -
  have p: "ends (vsf_filename_passes_filter E n g)" for n g
    unfolding vsf_filename_passes_filter_def by (intro ends_rules ends_matcher)
  show "ends (entry_passes E opts f name)"
    unfolding entry_passes_def vsf_access_check_file_visible_def vsf_match_filter_def
    by (intro ends_rules p)
  show "ends (list_entry E opts b s name t ls)"
    unfolding list_entry_def entry_line_def str_readlink_def build_dir_line_def user_column_def
      group_column_def vsf_sysutil_getpwuid_def vsf_sysutil_getgrgid_def vsf_sysutil_statbuf_get_date_def
      strftime_def Let_def
    by (intro ends_rules)
qed

text \<open>The reads of a directory never become fewer: an invariant of every part of an entry.\<close>

lemma reads_base: "base (\<lambda>w. reads d (trace w) \<ge> k)"
  by (auto simp: base_def allows_def reads_def)

lemma reads_mono: "m w = Done x w' \<Longrightarrow> (\<And>k. keeps (\<lambda>w. reads d (trace w) \<ge> k) m) \<Longrightarrow> reads d (trace w) \<le> reads d (trace w')"
  using tripleD[of "\<lambda>v. reads d (trace v) \<ge> reads d (trace w)" m "\<lambda>_ v. reads d (trace v) \<ge> reads d (trace w)"
      "\<lambda>v. reads d (trace v) \<ge> reads d (trace w)" w]
  by (simp add: keeps_def)

lemma bind_Unfinished: "bind m f w = Halt Unfinished w' \<Longrightarrow> ends m \<Longrightarrow> \<exists>x v. m w = Done x v \<and> f x v = Halt Unfinished w'"
  by (auto simp: bind_def ends_def split: outcome.splits)

lemma dir_loop_ends:
  assumes "dir_bound E d k"
  shows "reads d (trace w) + n > k \<Longrightarrow> n > 0 \<Longrightarrow> dir_loop E opts b f s d t n ls w \<noteq> Halt Unfinished w'"
proof (induction n arbitrary: ls w)
  case (Suc n)
  show ?case
  proof
    assume run: "dir_loop E opts b f s d t (Suc n) ls w = Halt Unfinished w'"
    have nd: "ends (str_next_dirent E d)" unfolding str_next_dirent_def by (intro ends_rules)
    from bind_Unfinished[OF run[unfolded dir_loop.simps] nd] obtain name v where
      next_name: "str_next_dirent E d w = Done name v"
      and cont: "(if name = [] then return ls
        else bind (entry_passes E opts f name) (\<lambda>ok.
          bind (if ok then list_entry E opts b s name t ls else return ls) (dir_loop E opts b f s d t n))) v = Halt Unfinished w'"
      by blast
    have v: "reads d (trace v) = Suc (reads d (trace w))"
      using next_name by (auto simp: str_next_dirent_def sys_str_def sys_def bind_def return_def Let_def reads_def)
    have name: "name \<noteq> []" using cont by (auto simp: return_def split: if_splits)
    then have "reads d (trace w) < k"
      using next_name assms unfolding dir_bound_def
      by (cases "reads d (trace w) \<ge> k") (auto simp: str_next_dirent_def sys_str_def sys_def bind_def return_def Let_def)
    then have n: "n > 0" using Suc.prems by simp
    obtain ok v2 where ok: "entry_passes E opts f name v = Done ok v2"
      and cont2: "bind (if ok then list_entry E opts b s name t ls else return ls) (dir_loop E opts b f s d t n) v2 = Halt Unfinished w'"
      using cont name bind_Unfinished[OF _ ends_entry(1), of E opts f name _ v w'] by (simp only: if_False) blast
    have "ends (if ok then list_entry E opts b s name t ls else return ls)" by (intro ends_rules ends_entry)
    from bind_Unfinished[OF cont2 this] obtain ls' v3 where
      e: "(if ok then list_entry E opts b s name t ls else return ls) v2 = Done ls' v3"
      and cont3: "dir_loop E opts b f s d t n ls' v3 = Halt Unfinished w'"
      by blast
    have "reads d (trace v) \<le> reads d (trace v2)"
      using ok by (rule reads_mono[where m = "entry_passes E opts f name"]) (intro keeps_entry reads_base)
    also have "\<dots> \<le> reads d (trace v3)"
      using e
      by (rule reads_mono[where m = "if ok then list_entry E opts b s name t ls else return ls"])
        (intro keeps_if keeps_return keeps_entry reads_base)
    finally have "reads d (trace v3) + n > k" using v Suc.prems(1) by simp
    then show False using Suc.IH n cont3 by blast
  qed
qed simp

lemma populate_ends:
  assumes "dir_bound E d k" "fuel E > k"
  shows "vsf_ls_populate_dir_list E l m sub d b opt f v w \<noteq> Halt Unfinished w'"
proof
  let ?opts = "ls_opts opt f v sub"
  assume "vsf_ls_populate_dir_list E l m sub d b opt f v w = Halt Unfinished w'"
  then obtain t v1 where run: "bind (dir_loop E ?opts (normalised_base_dir b) f sub d t (fuel E) (l, m)) (\<lambda>(l, subs).
       return (str_list_sort l (r_option ?opts), if sub then str_list_sort subs (r_option ?opts) else subs)) v1
     = Halt Unfinished w'"
    unfolding vsf_ls_populate_dir_list_def Let_def
    using bind_Unfinished[of "if verbose ?opts then sys_int E Time_sec else return 0" _ w w']
    by (meson ends_if ends_basic(1) ends_sys(1))
  then show False
    using dir_loop_ends[OF assms(1), of v1 "fuel E"] assms(2)
    by (auto simp: bind_def return_def split: outcome.splits prod.splits)
qed

end
