(* ===== verification/Ascii.thy ===== *)
theory Ascii
  imports Prelude
begin

text \<open>
  src/ascii.c: the two conversions of ASCII transfers, on buffers in one memory (a list of
  characters; a pointer is an offset into it), so that a caller which passes the same buffer twice
  is covered. Every access is checked against the count the parameter declares, as the Checked C
  compiler does; a failed check kills the process.
\<close>

section \<open>Lines ending in CR LF become lines ending in LF\<close>

definition checked_load :: "string \<Rightarrow> nat \<Rightarrow> nat \<Rightarrow> char res" where
  "checked_load buf count i = (if i < count \<and> i < length buf then Inr (buf ! i) else Inl (Trap ''bounds''))"

text \<open>\<open>p_out\<close> has the bounds p_buf + 1 to p_buf + in_len.\<close>

definition store_out :: "string \<Rightarrow> nat \<Rightarrow> nat \<Rightarrow> char \<Rightarrow> string res" where
  "store_out buf in_len p_out c =
     (if 1 \<le> p_out \<and> p_out < in_len \<and> p_out < length buf then Inr (buf[p_out := c]) else Inl (Trap ''bounds''))"

record ascii_to_bin_ret =
  a_buf :: string
  a_stored :: nat
  a_last_was_cr :: bool
  a_p_buf :: nat

function ascii_to_bin_loop ::
  "string \<Rightarrow> nat \<Rightarrow> nat \<Rightarrow> nat \<Rightarrow> nat \<Rightarrow> bool \<Rightarrow> ascii_to_bin_ret res" where
  "ascii_to_bin_loop buf in_len indexx p_out written last_was_cr =
     (if indexx < in_len
      then rbind (checked_load buf in_len (indexx + 1)) (\<lambda>the_char.
        if the_char \<noteq> CR
        then rbind (store_out buf in_len p_out the_char) (\<lambda>buf.
               ascii_to_bin_loop buf in_len (indexx + 1) (p_out + 1) (written + 1) last_was_cr)
        else if indexx = in_len - 1
        then ascii_to_bin_loop buf in_len (indexx + 1) p_out written True
        else rbind (checked_load buf in_len (indexx + 2)) (\<lambda>next.
          if next \<noteq> LF
          then rbind (store_out buf in_len p_out the_char) (\<lambda>buf.
                 ascii_to_bin_loop buf in_len (indexx + 1) (p_out + 1) (written + 1) last_was_cr)
          else ascii_to_bin_loop buf in_len (indexx + 1) p_out written last_was_cr))
      else Inr \<lparr>a_buf = buf, a_stored = written, a_last_was_cr = last_was_cr, a_p_buf = p_out\<rparr>)"
  by pat_completeness auto
termination
  by (relation "measure (\<lambda>(_, in_len, indexx, _). in_len - indexx)") auto

declare ascii_to_bin_loop.simps [simp del]

text \<open>The null pointer \<open>p_out\<close> is read when a CR is pending and the buffer is not empty.\<close>

definition vsf_ascii_ascii_to_bin :: "string \<Rightarrow> nat \<Rightarrow> bool \<Rightarrow> ascii_to_bin_ret res" where
  "vsf_ascii_ascii_to_bin p_buf in_len prev_cr =
     (if prev_cr
      then if in_len = 0
        then rbind (if 0 < in_len \<and> p_buf \<noteq> [] then Inr (p_buf[0 := CR]) else Inl (Trap ''bounds'')) (\<lambda>buf.
               ascii_to_bin_loop buf in_len 0 0 1 False)
        else Inl (Trap ''null pointer'')
      else ascii_to_bin_loop p_buf in_len 0 1 0 False)"

section \<open>Lines ending in LF become lines ending in CR LF\<close>

record bin_to_ascii_ret =
  b_stored :: nat
  b_last_was_cr :: bool

definition store_buf :: "string \<Rightarrow> nat \<Rightarrow> nat \<Rightarrow> nat \<Rightarrow> char \<Rightarrow> string res" where
  "store_buf mem p_buf count i c =
     (if i < count \<and> p_buf + i < length mem then Inr (mem[p_buf + i := c]) else Inl (Trap ''bounds''))"

function bin_to_ascii_loop ::
  "nat \<Rightarrow> nat \<Rightarrow> nat \<Rightarrow> string \<Rightarrow> nat \<Rightarrow> nat \<Rightarrow> char \<Rightarrow> bool \<Rightarrow> (string \<times> bin_to_ascii_ret) res" where
  "bin_to_ascii_loop p_in p_buf in_len mem indexx written last_char cr =
     (if indexx < in_len
      then rbind (checked_load (drop p_in mem) in_len indexx) (\<lambda>the_char.
        rbind (if the_char = LF \<and> last_char \<noteq> CR
               then rbind (store_buf mem p_buf (2 * in_len) written CR) (\<lambda>mem. Inr (mem, written + 1))
               else Inr (mem, written)) (\<lambda>(mem, written).
        rbind (store_buf mem p_buf (2 * in_len) written the_char) (\<lambda>mem.
          bin_to_ascii_loop p_in p_buf in_len mem (indexx + 1) (written + 1) the_char (the_char = CR))))
      else Inr (mem, \<lparr>b_stored = written, b_last_was_cr = cr\<rparr>))"
  by pat_completeness auto
termination
  by (relation "measure (\<lambda>(_, _, in_len, _, indexx, _). in_len - indexx)") auto

declare bin_to_ascii_loop.simps [simp del]

definition vsf_ascii_bin_to_ascii ::
  "string \<Rightarrow> nat \<Rightarrow> nat \<Rightarrow> nat \<Rightarrow> bool \<Rightarrow> (string \<times> bin_to_ascii_ret) res" where
  "vsf_ascii_bin_to_ascii mem p_in p_buf in_len prev_cr =
     bin_to_ascii_loop p_in p_buf in_len mem 0 0 (if prev_cr then CR else NUL) prev_cr"

section \<open>The conversion of uploads is never completed\<close>

lemma ascii_to_bin_loop_traps:
  "indexx < in_len \<Longrightarrow> ascii_to_bin_loop buf in_len indexx p_out written cr \<noteq> Inr r"
proof (induction "in_len - indexx" arbitrary: buf indexx p_out written cr rule: less_induct)
  case less
  have IH: "ascii_to_bin_loop b in_len (indexx + 1) q n d \<noteq> Inr r" if "indexx + 1 < in_len" for b q n d
    using less.hyps[OF _ that] that by simp
  show ?case
  proof (cases "indexx + 1 < in_len")
    case True
    note step = ascii_to_bin_loop.simps[of buf in_len indexx]
    show ?thesis
      unfolding step using IH[OF True] less.prems
      by (auto simp: rbind_Inr_iff simp del: One_nat_def add_Suc_right add_0_right)
  next
    case False
    then show ?thesis
      using less.prems by (simp add: ascii_to_bin_loop.simps[of buf in_len indexx] checked_load_def)
  qed
qed

lemma ascii_to_bin_returns:
  "(\<exists>r. vsf_ascii_ascii_to_bin buf in_len prev_cr = Inr r) \<longleftrightarrow> in_len = 0 \<and> \<not> prev_cr"
proof (cases "in_len = 0")
  case False
  then show ?thesis using ascii_to_bin_loop_traps[of 0 in_len] by (simp add: vsf_ascii_ascii_to_bin_def)
qed (simp add: vsf_ascii_ascii_to_bin_def ascii_to_bin_loop.simps)

section \<open>What the conversion of downloads means\<close>

text \<open>A CR goes before every LF that has none; \<open>prev\<close>: the text follows a CR.\<close>

primrec crlf :: "bool \<Rightarrow> string \<Rightarrow> string" where
  "crlf prev [] = []"
| "crlf prev (c # cs) = (if c = LF \<and> \<not> prev then [CR, LF] else [c]) @ crlf (c = CR) cs"

primrec ends_in_cr :: "bool \<Rightarrow> string \<Rightarrow> bool" where
  "ends_in_cr prev [] = prev"
| "ends_in_cr prev (c # cs) = ends_in_cr (c = CR) cs"

lemma crlf_append: "crlf prev (s @ t) = crlf prev s @ crlf (ends_in_cr prev s) t"
  by (induction s arbitrary: prev) simp_all

lemma ends_in_cr_append [simp]: "ends_in_cr prev (s @ t) = ends_in_cr (ends_in_cr prev s) t"
  by (induction s arbitrary: prev) simp_all

lemma length_crlf: "length (crlf prev s) \<le> 2 * length s"
  by (induction s arbitrary: prev) (auto simp: le_SucI)

lemma CR_LF [simp]: "CR \<noteq> LF" "LF \<noteq> CR" "CR \<noteq> NUL" "NUL \<noteq> CR" "LF \<noteq> NUL" "NUL \<noteq> LF"
  by (simp_all add: CR_def LF_def NUL_def)

lemma crlf_idem: "crlf prev (crlf prev s) = crlf prev s"
  by (induction s arbitrary: prev) simp_all

text \<open>No LF of the result stands without a CR before it.\<close>

primrec bare_lf :: "bool \<Rightarrow> string \<Rightarrow> bool" where
  "bare_lf prev [] = False"
| "bare_lf prev (c # cs) = (c = LF \<and> \<not> prev \<or> bare_lf (c = CR) cs)"

lemma crlf_no_bare_lf: "\<not> bare_lf prev (crlf prev s)"
  by (induction s arbitrary: prev) simp_all

lemma crlf_fixpoint: "\<not> bare_lf prev s \<Longrightarrow> crlf prev s = s"
  by (induction s arbitrary: prev) auto

text \<open>A file sent in chunks, the pending CR carried along.\<close>

primrec crlf_chunks :: "bool \<Rightarrow> string list \<Rightarrow> string" where
  "crlf_chunks prev [] = []"
| "crlf_chunks prev (c # cs) = crlf prev c @ crlf_chunks (ends_in_cr prev c) cs"

lemma crlf_chunks_concat: "crlf_chunks prev cs = crlf prev (concat cs)"
  by (induction cs arbitrary: prev) (simp_all add: crlf_append)

text \<open>With separate buffers the code computes it, and reports the pending CR.\<close>

definition separate :: "nat \<Rightarrow> nat \<Rightarrow> nat \<Rightarrow> bool" where
  "separate p_in p_buf n \<longleftrightarrow> p_in + n \<le> p_buf \<or> p_buf + 2 * n \<le> p_in"

lemma store_buf_separate:
  assumes "separate p_in p_buf n" "w < 2 * n" "p_buf + 2 * n \<le> length mem"
  shows "\<exists>mem'. store_buf mem p_buf (2 * n) w c = Inr mem' \<and> length mem' = length mem
    \<and> take n (drop p_in mem') = take n (drop p_in mem)
    \<and> take (Suc w) (drop p_buf mem') = take w (drop p_buf mem) @ [c]"
proof -
  have "take n (drop p_in (mem[p_buf + w := c])) = take n (drop p_in mem)"
  proof (cases "p_in + n \<le> p_buf")
    case True
    then show ?thesis by (auto simp: list_eq_iff_nth_eq)
  next
    case False
    then show ?thesis using assms by (auto simp: separate_def list_eq_iff_nth_eq)
  qed
  moreover have "take (Suc w) (drop p_buf (mem[p_buf + w := c])) = take w (drop p_buf mem) @ [c]"
    using assms(2,3) by (simp add: take_Suc_conv_app_nth drop_update_swap)
  ultimately show ?thesis using assms by (simp add: store_buf_def)
qed

lemma bin_to_ascii_loop_rel:
  assumes "separate p_in p_buf n" "p_buf + 2 * n \<le> length mem" "take n (drop p_in mem) = src"
    and "length src = n" "i \<le> n" "w \<le> 2 * i" "cr \<longleftrightarrow> last_char = CR"
  shows "\<exists>mem'. bin_to_ascii_loop p_in p_buf n mem i w last_char cr
      = Inr (mem', \<lparr>b_stored = w + length (crlf cr (drop i src)), b_last_was_cr = ends_in_cr cr (drop i src)\<rparr>)
    \<and> take (w + length (crlf cr (drop i src))) (drop p_buf mem') = take w (drop p_buf mem) @ crlf cr (drop i src)"
  using assms(2,3,5-)
proof (induction "n - i" arbitrary: i w mem last_char cr)
  case 0
  then show ?case using assms(4) by (simp add: bin_to_ascii_loop.simps)
next
  case (Suc k)
  note mem = Suc.prems(1,2) and w = Suc.prems(4) and cr = Suc.prems(5)
  obtain c where c: "src ! i = c" by simp
  obtain rest where rest: "drop (Suc i) src = rest" by simp
  have i: "i < n" using Suc.hyps(2) by simp
  then have d: "drop i src = c # rest" using assms(4) c rest by (metis Cons_nth_drop_Suc)
  obtain ins where ins: "ins \<longleftrightarrow> c = LF \<and> last_char \<noteq> CR" by simp
  have "length (drop p_in mem) \<ge> n" using mem(2) assms(4) by (metis length_take min.cobounded1)
  moreover have "drop p_in mem ! i = c" using c mem(2) i by (metis nth_take)
  ultimately have ld: "checked_load (drop p_in mem) n i = Inr c" using i by (simp add: checked_load_def)
  have "\<exists>m1 w1. (if ins then rbind (store_buf mem p_buf (2 * n) w CR) (\<lambda>mem. Inr (mem, w + 1)) else Inr (mem, w))
      = Inr (m1, w1) \<and> length m1 = length mem \<and> take n (drop p_in m1) = src
      \<and> take w1 (drop p_buf m1) = take w (drop p_buf mem) @ (if ins then [CR] else [])
      \<and> w1 = w + (if ins then 1 else 0)"
  proof (cases ins)
    case True
    have "w < 2 * n" using w i by simp
    from store_buf_separate[OF assms(1) this mem(1), of CR] mem(2) show ?thesis
      using True by (auto simp: rbind_def)
  next
    case False
    then show ?thesis using mem(2) by simp
  qed
  then obtain m1 w1 where m1: "(if ins then rbind (store_buf mem p_buf (2 * n) w CR) (\<lambda>mem. Inr (mem, w + 1))
      else Inr (mem, w)) = Inr (m1, w1)" "length m1 = length mem" "take n (drop p_in m1) = src"
    "take w1 (drop p_buf m1) = take w (drop p_buf mem) @ (if ins then [CR] else [])" "w1 = w + (if ins then 1 else 0)"
    by blast
  have w1: "w1 < 2 * n" "Suc w1 \<le> 2 * Suc i" using m1(5) w i by (auto split: if_splits)
  have "p_buf + 2 * n \<le> length m1" using mem(1) m1(2) by simp
  from store_buf_separate[OF assms(1) w1(1) this, of c] m1(2,3)
  obtain m2 where m2: "store_buf m1 p_buf (2 * n) w1 c = Inr m2" "length m2 = length mem"
    "take n (drop p_in m2) = src" "take (Suc w1) (drop p_buf m2) = take w1 (drop p_buf m1) @ [c]"
    by auto
  have step: "bin_to_ascii_loop p_in p_buf n mem i w last_char cr
      = bin_to_ascii_loop p_in p_buf n m2 (Suc i) (Suc w1) c (c = CR)"
    using i m1(1)[unfolded ins]
    by (subst bin_to_ascii_loop.simps) (simp only: if_True ld rbind_simps prod.case m2(1) Suc_eq_plus1)
  have "p_buf + 2 * n \<le> length m2" "Suc i \<le> n" "k = n - Suc i" using mem(1) m2(2) i Suc.hyps(2) by simp_all
  from Suc.hyps(1)[OF this(3,1) m2(3) this(2) w1(2) refl]
  obtain m3 where m3: "bin_to_ascii_loop p_in p_buf n m2 (Suc i) (Suc w1) c (c = CR)
      = Inr (m3, \<lparr>b_stored = Suc w1 + length (crlf (c = CR) rest), b_last_was_cr = ends_in_cr (c = CR) rest\<rparr>)"
    "take (Suc w1 + length (crlf (c = CR) rest)) (drop p_buf m3)
      = take (Suc w1) (drop p_buf m2) @ crlf (c = CR) rest"
    unfolding rest by blast
  have crlf: "crlf cr (drop i src) = (if ins then [CR] else []) @ [c] @ crlf (c = CR) rest"
    unfolding d using cr ins by auto
  have e: "ends_in_cr cr (drop i src) = ends_in_cr (c = CR) rest" unfolding d by simp
  have len: "w + length (crlf cr (drop i src)) = Suc w1 + length (crlf (c = CR) rest)"
    unfolding crlf using m1(5) by simp
  show ?case
    unfolding step len e using m3 m2(4) m1(4) crlf by simp
qed

lemma bin_to_ascii_separate:
  assumes "separate p_in p_buf n" "p_buf + 2 * n \<le> length mem" "p_in + n \<le> length mem"
    and "src = take n (drop p_in mem)"
  shows "\<exists>mem'. vsf_ascii_bin_to_ascii mem p_in p_buf n prev
      = Inr (mem', \<lparr>b_stored = length (crlf prev src), b_last_was_cr = ends_in_cr prev src\<rparr>)
    \<and> take (length (crlf prev src)) (drop p_buf mem') = crlf prev src"
  using bin_to_ascii_loop_rel[OF assms(1,2), of src 0 0 prev "if prev then CR else NUL"] assms(3,4)
  by (simp add: vsf_ascii_bin_to_ascii_def)

end
