(* ===== verification/Ftpdataio.thy ===== *)
theory Ftpdataio
  imports Twoprocess Ls Ascii
begin

text \<open>
  src/ftpdataio.c with the sendfile loop of src/sysdeputil.c: opening, watching and closing a data
  connection, files and directories over it. Signals that are pending when a data call returns are
  asked of the oracle (\<open>pending_sigalrm\<close>, \<open>pending_sigurg\<close>) and handled there, as
  vsf_sysutil_check_pending_actions does. SSL is not compiled in.
\<close>

definition VSFTP_DATA_BUFSIZE :: nat where "VSFTP_DATA_BUFSIZE = 65536"
definition VSFTP_DIR_BUFSIZE :: nat where "VSFTP_DIR_BUFSIZE = 16384"

section \<open>The data alarm and urgent data\<close>

definition start_data_alarm :: "env \<Rightarrow> unit proc" where
  "start_data_alarm E =
     (if tunable_data_connection_timeout E > 0 then block [
        sysu E (Sighandler ''SIGALRM'' ''handle_sigalrm''),
        sysu E (Set_alarm (uint (tunable_data_connection_timeout E)))]
      else whenp (tunable_idle_session_timeout E > 0) (sysu E Clear_alarm))"

definition handle_sigalrm :: "env \<Rightarrow> unit proc" where
  "handle_sigalrm E = bind get (\<lambda>p_sess.
     if \<not> data_progress p_sess then block [
       upd (\<lambda>s. s\<lparr>data_timeout := True\<rparr>),
       sysu E (Shutdown (data_fd p_sess)),
       sysu E (Shutdown_read VSFTP_COMMAND_FD),
       sysu E (Sockopt ''nonblock'' VSFTP_COMMAND_FD)]
     else block [
       upd (\<lambda>s. s\<lparr>data_progress := False\<rparr>),
       start_data_alarm E])"

text \<open>src/postlogin.c: the command that comes with urgent data, behind four telnet characters.\<close>

definition handle_sigurg :: "env \<Rightarrow> unit proc" where
  "handle_sigurg E = bind get (\<lambda>p_sess.
     if data_fd p_sess = -1 then return ()
     else bind (vsf_cmdio_get_cmd_and_arg E False) (\<lambda>(async_cmd_str, async_arg_str).
       if (if length async_cmd_str \<ge> 4 then drop 4 async_cmd_str else []) = ''ABOR''
       then block [
         upd (\<lambda>s. s\<lparr>abor_received := True\<rparr>),
         sysu E (Shutdown (data_fd p_sess))]
       else vsf_cmdio_write E FTP_BADCMD ''Unknown command.''))"

definition check_pending_actions :: "env \<Rightarrow> int \<Rightarrow> int \<Rightarrow> unit proc" where
  "check_pending_actions E retval fd = block [
     handle_io E retval fd,
     whenp (tunable_data_connection_timeout E > 0)
       (bind (sys_int E (Call ''pending_sigalrm'' [] [])) (\<lambda>fired. whenp (fired > 0) (handle_sigalrm E))),
     bind get (\<lambda>p_sess. whenp (tunable_async_abor_enable E \<and> \<not> control_use_ssl p_sess)
       (bind (sys_int E (Call ''pending_sigurg'' [] [])) (\<lambda>fired. whenp (fired > 0) (handle_sigurg E))))]"

section \<open>Opening and closing a data connection\<close>

definition init_data_sock_params :: "env \<Rightarrow> int \<Rightarrow> unit proc" where
  "init_data_sock_params E sock_fd = bind get (\<lambda>p_sess.
     if data_fd p_sess \<noteq> -1 then bug E ''data descriptor still present in init_data_sock_params''
     else block [
       upd (\<lambda>s. s\<lparr>data_fd := sock_fd\<rparr>),
       upd (\<lambda>s. s\<lparr>data_progress := False\<rparr>),
       sysu E (Sockopt ''keepalive'' sock_fd),
       sysu E (Sockopt ''iptos_throughput'' sock_fd),
       start_data_alarm E])"

definition vsf_ftpdataio_get_pasv_fd :: "env \<Rightarrow> int proc" where
  "vsf_ftpdataio_get_pasv_fd E =
     bind (if tunable_one_process_model E then vsf_one_process_get_pasv_fd E
           else vsf_two_process_get_pasv_fd E) (\<lambda>remote_fd.
       if remote_fd = -1
       then seq (vsf_cmdio_write E FTP_BADSENDCONN ''Failed to establish connection.'') (return remote_fd)
       else if remote_fd = -2
       then seq (vsf_cmdio_write E FTP_BADSENDCONN ''Security: Bad IP connecting.'') (return (-1))
       else seq (init_data_sock_params E remote_fd) (return remote_fd))"

definition vsf_ftpdataio_get_port_fd :: "env \<Rightarrow> int proc" where
  "vsf_ftpdataio_get_port_fd E =
     bind (if tunable_one_process_model E \<or> tunable_port_promiscuous E
           then vsf_one_process_get_priv_data_sock E
           else vsf_two_process_get_priv_data_sock E) (\<lambda>remote_fd.
       if vsf_sysutil_retval_is_error remote_fd
       then seq (vsf_cmdio_write E FTP_BADSENDCONN ''Failed to establish connection.'') (return (-1))
       else seq (init_data_sock_params E remote_fd) (return remote_fd))"

text \<open>Without SSL support ssl_accept only answers -1, and no connection has SSL state to close.\<close>

definition ssl_accept :: "int proc" where "ssl_accept = return (-1)"

definition vsf_ftpdataio_post_mark_connect :: "env \<Rightarrow> int proc" where
  "vsf_ftpdataio_post_mark_connect E = bind get (\<lambda>p_sess.
     if \<not> data_use_ssl p_sess then return 1
     else bind (if \<not> ssl_slave_active p_sess then ssl_accept
                else bind (sys_int E (Ssl_slave 6 [])) (\<lambda>res. return (if res = 1 then 1 else 0))) (\<lambda>ret.
       if ret = 1 then return ret
       else if tunable_require_ssl_reuse E
       then vsf_cmdio_write_exit E FTP_DATATLSBAD ''SSL connection failed: session reuse required'' 1
       else seq (vsf_cmdio_write E FTP_DATATLSBAD ''SSL connection failed'') (return ret)))"

definition vsf_ftpdataio_dispose_transfer_fd :: "env \<Rightarrow> int proc" where
  "vsf_ftpdataio_dispose_transfer_fd E = bind get (\<lambda>p_sess.
     if data_fd p_sess = -1 then bug E ''no data descriptor in vsf_ftpdataio_dispose_transfer_fd''
     else bind (if data_use_ssl p_sess \<and> ssl_slave_active p_sess
                then seq (start_data_alarm E) (bind (sys_int E (Ssl_slave 7 [])) (\<lambda>res.
                       return (if res = 1 then 1 else 0)))
                else return 1) (\<lambda>dispose_ret.
     seq (block [
       whenp (\<not> abor_received p_sess \<and> \<not> data_timeout p_sess \<and> dispose_ret = 1) (block [
         start_data_alarm E,
         sysu E (Sockopt ''linger'' (data_fd p_sess))]),
       bind (sys_int E (Close (data_fd p_sess))) (\<lambda>retval.
         whenp (vsf_sysutil_retval_is_error retval) (block [
           sysu E (Sockopt ''nolinger'' (data_fd p_sess)),
           sysu E (Close (data_fd p_sess))])),
       upd (\<lambda>s. s\<lparr>data_fd := -1\<rparr>),
       whenp (tunable_data_connection_timeout E > 0) (sysu E Clear_alarm)])
     (return (if abor_received p_sess \<or> data_timeout p_sess then 0 else dispose_ret))))"

section \<open>Reading and writing data\<close>

text \<open>
  A read is the bytes that came, or an error; the kernel gives no more than it was asked for.
\<close>

definition vsf_sysutil_read :: "env \<Rightarrow> int \<Rightarrow> nat \<Rightarrow> string option proc" where
  "vsf_sysutil_read E fd n = bind (sys_str E (Read fd (int n))) (\<lambda>r.
     seq (check_pending_actions E (case r of None \<Rightarrow> -1 | Some d \<Rightarrow> int (length (take n d))) fd)
       (return (map_option (take n) r)))"

definition vsf_sysutil_write_loop :: "env \<Rightarrow> int \<Rightarrow> string \<Rightarrow> int proc" where
  "vsf_sysutil_write_loop E fd d = bind (sys_int E (Write fd d)) (\<lambda>retval.
     seq (check_pending_actions E retval fd) (return retval))"

definition ftp_read_data :: "env \<Rightarrow> nat \<Rightarrow> string option proc" where
  "ftp_read_data E n = bind get (\<lambda>p_sess.
     if data_use_ssl p_sess \<and> ssl_slave_active p_sess
     then bind (sys_str E (Call ''ssl_slave_read'' [int n] [])) (\<lambda>r.
       seq (check_pending_actions E (case r of None \<Rightarrow> -1 | Some d \<Rightarrow> int (length (take n d))) (data_fd p_sess))
         (return (map_option (take n) r)))
     else if data_use_ssl p_sess then return None
     else vsf_sysutil_read E (data_fd p_sess) n)"

definition ftp_write_data :: "env \<Rightarrow> string \<Rightarrow> int proc" where
  "ftp_write_data E d = bind get (\<lambda>p_sess.
     if data_use_ssl p_sess \<and> ssl_slave_active p_sess
     then bind (sys_int E (Ssl_slave 9 d)) (\<lambda>ret.
       seq (check_pending_actions E ret (data_fd p_sess)) (return ret))
     else if data_use_ssl p_sess then return (-1)
     else vsf_sysutil_write_loop E (data_fd p_sess) d)"

section \<open>Sending a file\<close>

record vsf_transfer_ret =
  retval :: int
  transferred :: int

definition get_chunk_size :: "env \<Rightarrow> nat" where
  "get_chunk_size E = (let t = unat (tunable_trans_chunk_size E) in
     if t < VSFTP_DATA_BUFSIZE \<and> t > 0 then (if t < 4096 then 4096 else t) else VSFTP_DATA_BUFSIZE)"

text \<open>
  What a round of the read-write loop sends, and whether a CR is pending. In ASCII mode the read
  buffer is handed to the conversion as its output too, and what is sent comes from another buffer,
  p_asciibuf, which nothing ever writes to: mapped pages, all NUL.
\<close>

definition outgoing :: "bool \<Rightarrow> bool \<Rightarrow> string \<Rightarrow> (string \<times> bool) res" where
  "outgoing ascii prev_cr d =
     (if ascii
      then if 2 * length d > VSFTP_DATA_BUFSIZE then Inl (Trap ''bounds'')
        else rbind (vsf_ascii_bin_to_ascii (d @ replicate (VSFTP_DATA_BUFSIZE - length d) NUL) 0 0 (length d) prev_cr)
          (\<lambda>(_, ret). Inr (replicate (b_stored ret) NUL, b_last_was_cr ret))
      else Inr (d, prev_cr))"

primrec send_rwloop :: "env \<Rightarrow> int \<Rightarrow> bool \<Rightarrow> nat \<Rightarrow> bool \<Rightarrow> int \<Rightarrow> vsf_transfer_ret proc" where
  "send_rwloop E file_fd ascii 0 prev_cr moved = halt Unfinished"
| "send_rwloop E file_fd ascii (Suc n) prev_cr moved =
     bind (vsf_sysutil_read E file_fd (get_chunk_size E)) (\<lambda>r. case r of
       None \<Rightarrow> return \<lparr>retval = -1, transferred = moved\<rparr>
     | Some d \<Rightarrow> if d = [] then return \<lparr>retval = 0, transferred = moved\<rparr>
         else bind (lift_res E (outgoing ascii prev_cr d)) (\<lambda>(out, cr).
           bind (ftp_write_data E out) (\<lambda>ret.
             let moved = (if vsf_sysutil_retval_is_error ret then moved else moved + ret) in
             if vsf_sysutil_retval_is_error ret \<or> ret \<noteq> int (length out)
             then return \<lparr>retval = -2, transferred = moved\<rparr>
             else send_rwloop E file_fd ascii n cr moved)))"

definition do_file_send_rwloop :: "env \<Rightarrow> int \<Rightarrow> bool \<Rightarrow> vsf_transfer_ret proc" where
  "do_file_send_rwloop E file_fd ascii = send_rwloop E file_fd ascii (fuel E) False 0"

text \<open>
  One piece by sendfile. Where the system has none, or refuses this file, the code falls back on a
  buffer of 65536 bytes that it casts to 65537: the cast fails. (That a missing sendfile is
  remembered is not modelled: each call finds out again.)
\<close>

definition do_sendfile :: "env \<Rightarrow> int \<Rightarrow> int \<Rightarrow> int \<Rightarrow> int \<Rightarrow> int proc" where
  "do_sendfile E out_fd in_fd num_send start_pos =
     (let fall_back = (if VSFTP_DATA_BUFSIZE < 65537 then halt (Trapped ''bounds'') else return (-1)) in
      if tunable_use_sendfile E
      then bind (sys_int E (Sendfile out_fd in_fd start_pos num_send 0)) (\<lambda>ret.
        bind (vsf_sysutil_get_error E) (\<lambda>e.
        seq (check_pending_actions E ret out_fd)
          (if \<not> vsf_sysutil_retval_is_error ret then return ret
           else if e \<noteq> kErrNOSYS \<and> e \<noteq> kErrINVAL \<and> e \<noteq> kErrOPNOTSUPP then return ret
           else fall_back)))
      else fall_back)"

text \<open>The result is that of the last piece, with the offset reached.\<close>

function sendfile_loop :: "env \<Rightarrow> int \<Rightarrow> int \<Rightarrow> int \<Rightarrow> int \<Rightarrow> int \<Rightarrow> (int \<times> int) proc" where
  "sendfile_loop E out_fd in_fd offset num_send max_chunk =
     (if num_send > 0
      then seq (vsf_sysutil_lseek_to E in_fd offset)
        (bind (do_sendfile E out_fd in_fd (min num_send max_chunk) offset) (\<lambda>ret.
          if vsf_sysutil_retval_is_error ret \<or> ret = 0 then return (ret, offset)
          else sendfile_loop E out_fd in_fd (offset + ret) (num_send - ret) max_chunk))
      else return (0, offset))"
  by pat_completeness auto
termination
  by (relation "measure (\<lambda>(_, _, _, _, num_send, _). nat num_send)") (auto simp: vsf_sysutil_retval_is_error_def)

declare sendfile_loop.simps [simp del]

definition vsf_sysutil_sendfile :: "env \<Rightarrow> int \<Rightarrow> int \<Rightarrow> int \<Rightarrow> int \<Rightarrow> int \<Rightarrow> (int \<times> int) proc" where
  "vsf_sysutil_sendfile E out_fd in_fd offset num_send max_chunk =
     (if offset < 0 \<or> num_send < 0 then die E ''invalid offset or send count in vsf_sysutil_sendfile''
      else sendfile_loop E out_fd in_fd offset num_send
        (if max_chunk = 0 then int INT_MAX else max_chunk))"

definition do_file_send_sendfile :: "env \<Rightarrow> int \<Rightarrow> int \<Rightarrow> int \<Rightarrow> int \<Rightarrow> vsf_transfer_ret proc" where
  "do_file_send_sendfile E net_fd file_fd curr_file_offset bytes_to_send = bind get (\<lambda>p_sess.
     bind (vsf_sysutil_sendfile E net_fd file_fd curr_file_offset bytes_to_send
             (if bw_rate_max p_sess \<noteq> 0 then int (get_chunk_size E) else 0)) (\<lambda>(ret, reached).
       let bytes_sent = reached - curr_file_offset in
       return \<lparr>retval = (if vsf_sysutil_retval_is_error ret \<or> bytes_sent \<noteq> bytes_to_send then -2 else 0),
               transferred = bytes_sent\<rparr>))"

definition calc_num_send :: "env \<Rightarrow> int \<Rightarrow> int \<Rightarrow> int proc" where
  "calc_num_send E file_fd init_offset = bind (vsf_sysutil_fstat E file_fd) (\<lambda>st.
     bind (lift_res E (vsf_sysutil_statbuf_get_size st)) (\<lambda>bytes_to_send.
       if init_offset < 0 \<or> bytes_to_send < 0
       then die E ''calc_num_send: negative file offset or send count''
       else return (if init_offset > bytes_to_send then 0 else bytes_to_send - init_offset)))"

section \<open>Receiving a file\<close>

text \<open>
  The data of a round stands behind one spare byte. In ASCII mode the conversion is given the whole
  buffer with the count of the data alone, and its result is cast to the size of the buffer.
\<close>

definition incoming :: "bool \<Rightarrow> bool \<Rightarrow> string \<Rightarrow> (string \<times> bool) res" where
  "incoming ascii prev_cr d =
     (if ascii
      then rbind (vsf_ascii_ascii_to_bin (NUL # d) (length d) prev_cr) (\<lambda>ret.
        if a_stored ret < VSFTP_DATA_BUFSIZE then Inl (Trap ''bounds'')
        else Inr (take (a_stored ret) (drop (a_p_buf ret) (a_buf ret)), a_last_was_cr ret))
      else Inr (d, prev_cr))"

primrec recv_loop :: "env \<Rightarrow> int \<Rightarrow> bool \<Rightarrow> nat \<Rightarrow> bool \<Rightarrow> int \<Rightarrow> vsf_transfer_ret proc" where
  "recv_loop E file_fd ascii 0 prev_cr moved = halt Unfinished"
| "recv_loop E file_fd ascii (Suc n) prev_cr moved =
     bind (ftp_read_data E (get_chunk_size E)) (\<lambda>r. case r of
       None \<Rightarrow> return \<lparr>retval = -2, transferred = moved\<rparr>
     | Some d \<Rightarrow> if d = [] \<and> \<not> prev_cr then return \<lparr>retval = 0, transferred = moved\<rparr>
         else let moved = moved + int (length d) in
         bind (lift_res E (incoming ascii prev_cr d)) (\<lambda>(out, cr).
           bind (vsf_sysutil_write_loop E file_fd out) (\<lambda>ret.
             if vsf_sysutil_retval_is_error ret \<or> ret \<noteq> int (length out)
             then return \<lparr>retval = -1, transferred = moved\<rparr>
             else recv_loop E file_fd ascii n cr moved)))"

definition do_file_recv :: "env \<Rightarrow> int \<Rightarrow> bool \<Rightarrow> vsf_transfer_ret proc" where
  "do_file_recv E file_fd ascii = recv_loop E file_fd ascii (fuel E) False 0"

definition vsf_ftpdataio_transfer_file :: "env \<Rightarrow> int \<Rightarrow> int \<Rightarrow> bool \<Rightarrow> bool \<Rightarrow> vsf_transfer_ret proc" where
  "vsf_ftpdataio_transfer_file E remote_fd file_fd is_recv ascii =
     (if \<not> is_recv
      then bind get (\<lambda>p_sess.
        if ascii \<or> data_use_ssl p_sess then do_file_send_rwloop E file_fd ascii
        else bind (vsf_sysutil_get_file_offset E file_fd) (\<lambda>curr_offset.
          bind (calc_num_send E file_fd curr_offset) (\<lambda>num_send.
            do_file_send_sendfile E remote_fd file_fd curr_offset num_send)))
      else do_file_recv E file_fd ascii)"

section \<open>Sending a directory\<close>

text \<open>Lines are collected into as few writes as the buffer allows.\<close>

fun coalesce :: "string \<Rightarrow> string list \<Rightarrow> string list" where
  "coalesce buf_str [] = []"
| "coalesce buf_str [line] = [buf_str @ line]"
| "coalesce buf_str (line # next # lines) =
     (if length (buf_str @ line) + length next > VSFTP_DIR_BUFSIZE
      then (buf_str @ line) # coalesce [] (next # lines)
      else coalesce (buf_str @ line) (next # lines))"

primrec write_all :: "env \<Rightarrow> bool \<Rightarrow> string list \<Rightarrow> bool proc" where
  "write_all E is_control [] = return False"
| "write_all E is_control (b # bs) = bind (ftp_write_str E b (\<not> is_control)) (\<lambda>writeret.
     if writeret \<noteq> 0 then return True else write_all E is_control bs)"

text \<open>The result is true when a write failed.\<close>

definition write_dir_list :: "env \<Rightarrow> bool \<Rightarrow> mystr_list \<Rightarrow> bool proc" where
  "write_dir_list E is_control p_dir_list = write_all E is_control (coalesce [] (map node_str (nodes p_dir_list)))"

definition vsf_sysutil_closedir :: "env \<Rightarrow> int \<Rightarrow> unit proc" where
  "vsf_sysutil_closedir E p_dir = bind (sys_int E (Closedir p_dir)) (\<lambda>retval.
     if retval \<noteq> 0 then die E ''closedir'' else return ())"

text \<open>The answer of opendir is a number for the open directory, negative when it fails.\<close>

definition str_opendir :: "env \<Rightarrow> string \<Rightarrow> int option proc" where
  "str_opendir E p_str = bind (sys_int E (Opendir (c_text p_str))) (\<lambda>d. return (if d < 0 then None else Some d))"

primrec subdir_loop :: "env \<Rightarrow> (int \<Rightarrow> string \<Rightarrow> bool proc) \<Rightarrow> bool \<Rightarrow> string \<Rightarrow> string list \<Rightarrow> bool proc" where
  "subdir_loop E recurse is_control p_base_dir_str [] = return False"
| "subdir_loop E recurse is_control p_base_dir_str (name # names) =
     (if name = ''.'' \<or> name = ''..'' then subdir_loop E recurse is_control p_base_dir_str names
      else let sub_str = p_base_dir_str @ ''/'' @ name in
        bind (str_opendir E sub_str) (\<lambda>p_subdir. case p_subdir of
          None \<Rightarrow> subdir_loop E recurse is_control p_base_dir_str names
        | Some d \<Rightarrow> bind (ftp_write_str E [CR, LF] (\<not> is_control)) (\<lambda>ret.
            if ret \<noteq> 0 then seq (vsf_sysutil_closedir E d) (return True)
            else bind (recurse d sub_str) (\<lambda>failed. seq (vsf_sysutil_closedir E d)
              (if failed then return True else subdir_loop E recurse is_control p_base_dir_str names)))))"

text \<open>\<open>depth\<close> bounds how deep directories may nest.\<close>

primrec transfer_dir_internal :: "env \<Rightarrow> bool \<Rightarrow> string \<Rightarrow> string \<Rightarrow> bool \<Rightarrow> nat \<Rightarrow> int \<Rightarrow> string \<Rightarrow> bool proc" where
  "transfer_dir_internal E is_control p_option_str p_filter_str is_verbose 0 p_dir p_base_dir_str = halt Unfinished"
| "transfer_dir_internal E is_control p_option_str p_filter_str is_verbose (Suc depth) p_dir p_base_dir_str = (
     let recursive = (locate_char p_option_str (CHR ''R'') \<noteq> None \<and> tunable_ls_recurse_enable E) in
     bind (vsf_ls_populate_dir_list E INIT_STRLIST INIT_STRLIST recursive p_dir p_base_dir_str
             p_option_str p_filter_str is_verbose) (\<lambda>(dir_list, subdir_list).
     bind (if recursive then ftp_write_str E (p_base_dir_str @ '':'' @ [CR, LF]) (\<not> is_control)
           else return 0) (\<lambda>ret.
     bind (if ret \<noteq> 0 then return True else write_dir_list E is_control dir_list) (\<lambda>failed.
     if failed then return True
     else subdir_loop E (transfer_dir_internal E is_control p_option_str p_filter_str is_verbose depth)
            is_control p_base_dir_str (map node_str (nodes subdir_list))))))"

definition vsf_ftpdataio_transfer_dir :: "env \<Rightarrow> bool \<Rightarrow> int \<Rightarrow> string \<Rightarrow> string \<Rightarrow> string \<Rightarrow> bool \<Rightarrow> int proc" where
  "vsf_ftpdataio_transfer_dir E is_control p_dir p_base_dir_str p_option_str p_filter_str is_verbose =
     bind (transfer_dir_internal E is_control p_option_str p_filter_str is_verbose (fuel E) p_dir p_base_dir_str)
       (\<lambda>failed. return (if failed then -1 else 0))"

section \<open>Invariants\<close>

lemma keeps_signals [safes]:
  "base I \<Longrightarrow> keeps I (start_data_alarm E)"
  "base I \<Longrightarrow> keeps I (handle_sigalrm E)"
  "base I \<Longrightarrow> keeps I (handle_sigurg E)"
  "base I \<Longrightarrow> keeps I (check_pending_actions E n fd)"
  unfolding check_pending_actions_def handle_sigalrm_def handle_sigurg_def start_data_alarm_def
  by (intro safes; simp)+

lemma keeps_data_io [safes]:
  "base I \<Longrightarrow> keeps I (vsf_sysutil_read E fd n)"
  "base I \<Longrightarrow> keeps I (vsf_sysutil_write_loop E fd d)"
  "base I \<Longrightarrow> keeps I (ftp_read_data E n)"
  "base I \<Longrightarrow> keeps I (ftp_write_data E d)"
  unfolding ftp_read_data_def ftp_write_data_def vsf_sysutil_read_def vsf_sysutil_write_loop_def
  by (intro safes; simp)+

lemma keeps_rwloops [safes]:
  "base I \<Longrightarrow> keeps I (send_rwloop E fd ascii n cr moved)"
  "base I \<Longrightarrow> keeps I (recv_loop E fd ascii n cr moved)"
  by (induction n arbitrary: cr moved) (auto simp: Let_def intro!: safes)

lemma keeps_sendfile_loop [safes]: "base I \<Longrightarrow> keeps I (sendfile_loop E o_fd i_fd off n m)"
proof (induction E o_fd i_fd off n m rule: sendfile_loop.induct)
  case (1 E o_fd i_fd off n m)
  note b = 1(2)
  have d: "keeps I (do_sendfile E o_fd i_fd k p)" for k p
    unfolding do_sendfile_def Let_def using b by (intro safes; simp)
  show ?case
    by (subst sendfile_loop.simps)
       (use 1(1)[OF _ _ b] in \<open>intro keeps_if keeps_seq keeps_bind keeps_return keeps_sysutil_io b d; simp\<close>)
qed

lemma keeps_transfer_file [safes]: "base I \<Longrightarrow> keeps I (vsf_ftpdataio_transfer_file E fd file_fd r ascii)"
  unfolding vsf_ftpdataio_transfer_file_def do_file_send_rwloop_def do_file_recv_def
    do_file_send_sendfile_def calc_num_send_def vsf_sysutil_sendfile_def Let_def
  by (intro safes; simp)

lemma keeps_write_all [safes]: "base I \<Longrightarrow> keeps I (write_all E c bs)"
  by (induction bs) (auto intro!: safes)

lemma keeps_dir_io [safes]:
  "base I \<Longrightarrow> keeps I (vsf_sysutil_closedir E d)"
  "base I \<Longrightarrow> (\<And>x. allows I (Opendir x)) \<Longrightarrow> keeps I (str_opendir E x)"
  unfolding vsf_sysutil_closedir_def str_opendir_def
  by (intro safes; simp) (intro keeps_bind keeps_sys_ops keeps_return; simp)

lemma keeps_subdir_loop:
  "base I \<Longrightarrow> (\<And>x. allows I (Opendir x)) \<Longrightarrow> (\<And>d x. keeps I (recurse d x)) \<Longrightarrow>
     keeps I (subdir_loop E recurse c b names)"
  by (induction names) (auto simp: Let_def intro!: keeps_if keeps_bind keeps_option keeps_seq keeps_return
      keeps_dir_io keeps_transport)

lemma keeps_transfer_dir_internal:
  "base I \<Longrightarrow> (\<And>x. allows I (Opendir x)) \<Longrightarrow> keeps I (transfer_dir_internal E c opts f v n d b)"
  by (induction n arbitrary: d b)
     (auto simp: Let_def write_dir_list_def intro!: keeps_halt keeps_bind keeps_prod keeps_if keeps_return
        keeps_transport keeps_write_all keeps_subdir_loop keeps_populate)

lemma keeps_transfer_dir [safes]:
  "base I \<Longrightarrow> (\<And>x. allows I (Opendir x)) \<Longrightarrow> keeps I (vsf_ftpdataio_transfer_dir E c d b opts f v)"
  unfolding vsf_ftpdataio_transfer_dir_def by (intro keeps_bind keeps_transfer_dir_internal keeps_return)

text \<open>The descriptor of the data connection is the one field of the core that these routines change.\<close>

lemma keeps_data_fd:
  assumes b: "base I" and d: "\<And>n. keeps I (upd (\<lambda>s. s\<lparr>data_fd := n\<rparr>))"
  shows "keeps I (init_data_sock_params E fd)" "keeps I (vsf_ftpdataio_dispose_transfer_fd E)"
    "keeps I (vsf_ftpdataio_post_mark_connect E)"
  unfolding init_data_sock_params_def vsf_ftpdataio_dispose_transfer_fd_def
    vsf_ftpdataio_post_mark_connect_def ssl_accept_def
  by (intro d safes b; simp)+

end
