(* ===== verification/Banner.thy ===== *)
theory Banner
  imports File_Filter Secutil
begin

text \<open>
  src/banner.c: multi-line texts as continued responses, and the message file of a directory that
  is entered for the first time.
\<close>

definition VSFTP_MAX_VISIT_REMEMBER :: nat where "VSFTP_MAX_VISIT_REMEMBER = 100"
definition VSFTP_MAX_MSGFILE_SIZE :: u32 where "VSFTP_MAX_MSGFILE_SIZE = 4000"

primrec write_lines :: "env \<Rightarrow> nat \<Rightarrow> string list \<Rightarrow> unit proc" where
  "write_lines E ftpcode [] = return ()"
| "write_lines E ftpcode (line # lines) =
     seq (vsf_cmdio_write_str_hyphen E ftpcode line) (write_lines E ftpcode lines)"

definition vsf_banner_write :: "env \<Rightarrow> string \<Rightarrow> nat \<Rightarrow> unit proc" where
  "vsf_banner_write E p_str ftpcode = write_lines E ftpcode (text_lines p_str)"

text \<open>The list of the directories seen: the order is that of the visits, and it stops growing at the cap.\<close>

definition remember_dir :: "string \<Rightarrow> string list \<Rightarrow> string list" where
  "remember_dir dir_str visited =
     (if length visited < VSFTP_MAX_VISIT_REMEMBER then visited @ [dir_str] else visited)"

definition vsf_banner_dir_changed :: "env \<Rightarrow> nat \<Rightarrow> unit proc" where
  "vsf_banner_dir_changed E ftpcode =
     (if \<not> tunable_dirmessage_enable E then return ()
      else bind (str_getcwd E) (\<lambda>dir_str. bind get (\<lambda>p_sess.
        if dir_str \<in> set (p_visited_dir_list p_sess) then return ()
        else seq (upd (\<lambda>s. s\<lparr>p_visited_dir_list := remember_dir dir_str (p_visited_dir_list s)\<rparr>))
          (bind (case tunable_message_file E of None \<Rightarrow> return []
                 | Some f \<Rightarrow> bind (str_fileread E f VSFTP_MAX_MSGFILE_SIZE) (\<lambda>(n, text). return text))
            (\<lambda>msg_file_str. vsf_banner_write E msg_file_str ftpcode)))))"

lemma keeps_write_lines [safes]: "base I \<Longrightarrow> keeps I (write_lines E n ls)"
  by (induction ls) (auto intro: safes)

lemma keeps_banner [safes]:
  "base I \<Longrightarrow> keeps I (vsf_banner_write E x n)"
  "base I \<Longrightarrow> (\<And>f. allows I (Open_readonly f)) \<Longrightarrow> keeps I (vsf_banner_dir_changed E n)"
proof -
  show w: "base I \<Longrightarrow> keeps I (vsf_banner_write E x n)" for x n
    by (simp add: vsf_banner_write_def keeps_write_lines)
  assume b: "base I" and o: "\<And>f. allows I (Open_readonly f)"
  have u: "keeps I (upd (\<lambda>s. s\<lparr>p_visited_dir_list := f (p_visited_dir_list s)\<rparr>))" for f
    using b by (intro keeps_upd_frame) (simp_all add: same_core_def)
  show "keeps I (vsf_banner_dir_changed E n)"
    unfolding vsf_banner_dir_changed_def
    by (intro keeps_if keeps_return keeps_bind keeps_seq keeps_option keeps_prod keeps_getcwd keeps_get_any
        keeps_str_fileread b o u w)
qed

lemma remember_dir_bounds:
  "length v \<le> VSFTP_MAX_VISIT_REMEMBER \<Longrightarrow> length (remember_dir d v) \<le> VSFTP_MAX_VISIT_REMEMBER"
  "distinct v \<Longrightarrow> d \<notin> set v \<Longrightarrow> distinct (remember_dir d v)"
  by (auto simp: remember_dir_def)

end
