(* ===== verification/Filecmds.thy ===== *)
theory Filecmds
  imports Ftpdataio Banner Ipaddrparse
begin

text \<open>
  The commands of src/postlogin.c that need no data connection: names and paths, directories,
  deleting, renaming, modes, dates, status, with src/features.c and src/opts.c. The argument of the
  command is \<open>ftp_arg_str\<close> of the session, as in the code.
\<close>

section \<open>Wrappers\<close>

definition str_chdir :: "env \<Rightarrow> string \<Rightarrow> int proc" where
  "str_chdir E p_str = sys_int E (Chdir (c_text p_str))"

definition str_mkdir :: "env \<Rightarrow> string \<Rightarrow> u32 \<Rightarrow> int proc" where
  "str_mkdir E p_str mode = sys_int E (Mkdir (c_text p_str) mode)"

definition str_rmdir :: "env \<Rightarrow> string \<Rightarrow> int proc" where
  "str_rmdir E p_str = sys_int E (Rmdir (c_text p_str))"

definition str_unlink :: "env \<Rightarrow> string \<Rightarrow> int proc" where
  "str_unlink E p_str = sys_int E (Unlink (c_text p_str))"

definition str_rename :: "env \<Rightarrow> string \<Rightarrow> string \<Rightarrow> int proc" where
  "str_rename E p_from_str p_to_str = sys_int E (Rename (c_text p_from_str) (c_text p_to_str))"

definition str_chmod :: "env \<Rightarrow> string \<Rightarrow> u32 \<Rightarrow> int proc" where
  "str_chmod E p_str mode = vsf_sysutil_chmod E (c_text p_str) mode"

definition str_stat :: "env \<Rightarrow> string \<Rightarrow> statbuf option proc" where
  "str_stat E p_str = sys_stat E (Stat (c_text p_str))"

definition str_open :: "env \<Rightarrow> string \<Rightarrow> int proc" where
  "str_open E p_str = sys_int E (Open_readonly (c_text p_str))"

definition str_create_exclusive :: "env \<Rightarrow> string \<Rightarrow> int proc" where
  "str_create_exclusive E p_str = sys_int E (Create_exclusive (c_text p_str))"

definition str_create :: "env \<Rightarrow> string \<Rightarrow> int proc" where
  "str_create E p_str = sys_int E (Create_or_open (c_text p_str) (tunable_file_open_mode E))"

definition vsf_sysutil_ftruncate :: "env \<Rightarrow> int \<Rightarrow> unit proc" where
  "vsf_sysutil_ftruncate E fd = bind (sys_int E (Ftruncate fd)) (\<lambda>ret.
     if ret \<noteq> 0 then die E ''ftruncate'' else return ())"

definition vsf_sysutil_deactivate_noblock :: "env \<Rightarrow> int \<Rightarrow> unit proc" where
  "vsf_sysutil_deactivate_noblock E fd = bind (sys_int E (Sockopt ''block'' fd)) (\<lambda>r.
     if r \<noteq> 0 then die E ''fcntl'' else return ())"

definition vsf_sysutil_dir_stat :: "env \<Rightarrow> int \<Rightarrow> statbuf proc" where
  "vsf_sysutil_dir_stat E p_dir = bind (sys_int E (Call ''dirfd'' [p_dir] [])) (vsf_sysutil_fstat E)"

definition vsf_sysutil_get_umask :: "u32 proc" where
  "vsf_sysutil_get_umask = bind get (\<lambda>s. return (s_current_umask s))"

definition vsf_sysutil_set_umask :: "env \<Rightarrow> u32 \<Rightarrow> unit proc" where
  "vsf_sysutil_set_umask E new_umask = block [
     upd (\<lambda>s. s\<lparr>s_current_umask := and new_umask 511\<rparr>),
     sysu E (Set_umask (uint (and new_umask 511)))]"

text \<open>
  A field of a date: vsf_sysutil_strcpy is given the number of digits as the size of its buffer
  and keeps one character less. The fields go to mktime.
\<close>

definition time_field :: "string \<Rightarrow> nat \<Rightarrow> nat \<Rightarrow> int" where
  "time_field p_text pos size_max = vsf_sysutil_atoi (c_text (take (size_max - 1) (drop pos p_text)))"

definition vsf_sysutil_parse_time :: "env \<Rightarrow> string \<Rightarrow> int proc" where
  "vsf_sysutil_parse_time E p_text = (
     let t = c_text p_text;
         day = (if length t \<ge> 8 then [time_field t 0 4 - 1900, time_field t 4 2 - 1, time_field t 6 2] else [0, 0, 0]);
         hour = (if length t \<ge> 14 then [time_field t 8 2, time_field t 10 2, time_field t 12 2] else [0, 0, 0])
     in sys_int E (Call ''mktime'' (day @ hour) []))"

definition vsf_sysutil_setmodtime :: "env \<Rightarrow> string \<Rightarrow> int \<Rightarrow> bool \<Rightarrow> int proc" where
  "vsf_sysutil_setmodtime E p_file the_time is_localtime = bind get (\<lambda>s.
     sys_int E (Setmodtime (c_text p_file) (if is_localtime then the_time else the_time - s_timezone s)))"

section \<open>Names\<close>

definition resolve_tilde :: "env \<Rightarrow> string \<Rightarrow> string proc" where
  "resolve_tilde E p_str = bind get (\<lambda>p_sess.
     if p_str \<noteq> [] \<and> hd p_str = CHR ''~''
     then if tl p_str = [] \<or> hd (tl p_str) = CHR ''/''
       then return (home_str p_sess @ snd (split_char p_str (CHR ''~'')))
       else if tunable_tilde_user_enable E
       then let (user, rhs) = split_char (snd (split_char p_str (CHR ''~''))) (CHR ''/'') in
         bind (str_getpwnam E user) (\<lambda>p_user. return (case p_user of
           None \<Rightarrow> p_str
         | Some u \<Rightarrow> c_text (pw_dir u) @ (if rhs \<noteq> [] then CHR ''/'' # rhs else [])))
       else return p_str
     else return p_str)"

definition resolve_arg :: "env \<Rightarrow> unit proc" where
  "resolve_arg E = bind get (\<lambda>p_sess. bind (resolve_tilde E (ftp_arg_str p_sess)) (\<lambda>x.
     upd (\<lambda>s. s\<lparr>ftp_arg_str := x\<rparr>)))"

definition prepend_path_to_filename :: "env \<Rightarrow> string \<Rightarrow> string proc" where
  "prepend_path_to_filename E p_str =
     (if p_str = [] \<or> hd p_str \<noteq> CHR ''/''
      then bind (str_getcwd E) (\<lambda>cwd.
        return ((if cwd = [] \<or> last cwd \<noteq> CHR ''/'' then cwd @ ''/'' else cwd) @ p_str))
      else return p_str)"

definition log_name :: "env \<Rightarrow> string \<Rightarrow> unit proc" where
  "log_name E name = bind (prepend_path_to_filename E name) (\<lambda>x. upd (\<lambda>s. s\<lparr>log_str := x\<rparr>))"

definition double_quotes :: "string \<Rightarrow> string" where
  "double_quotes s = replace_text s [CHR 0x22] [CHR 0x22, CHR 0x22]"

definition permission_denied :: "env \<Rightarrow> unit proc" where
  "permission_denied E = vsf_cmdio_write E FTP_NOPERM ''Permission denied.''"

section \<open>Directories and files\<close>

definition handle_pwd :: "env \<Rightarrow> unit proc" where
  "handle_pwd E = bind (str_getcwd E) (\<lambda>cwd. vsf_cmdio_write_str E FTP_PWDOK
     ([CHR 0x22] @ double_quotes cwd @ [CHR 0x22] @ '' is the current directory''))"

definition handle_cwd :: "env \<Rightarrow> unit proc" where
  "handle_cwd E = seq (resolve_arg E) (bind get (\<lambda>p_sess.
     bind (vsf_access_check_file E (ftp_arg_str p_sess)) (\<lambda>ok.
     if \<not> ok then permission_denied E
     else bind (str_chdir E (ftp_arg_str p_sess)) (\<lambda>retval.
       if retval = 0
       then block [
         vsf_banner_dir_changed E FTP_CWDOK,
         vsf_cmdio_write E FTP_CWDOK ''Directory successfully changed.'']
       else vsf_cmdio_write E FTP_FILEFAIL ''Failed to change directory.''))))"

definition handle_cdup :: "env \<Rightarrow> unit proc" where
  "handle_cdup E = seq (upd (\<lambda>s. s\<lparr>ftp_arg_str := ''..''\<rparr>)) (handle_cwd E)"

text \<open>The commands that log what they do to the file they name.\<close>

definition logged_name :: "env \<Rightarrow> nat \<Rightarrow> bool proc" where
  "logged_name E entry = seq (block [resolve_arg E, vsf_log_start_entry E entry])
     (bind get (\<lambda>p_sess. seq (log_name E (ftp_arg_str p_sess))
       (vsf_access_check_file E (ftp_arg_str p_sess))))"

definition handle_mkd :: "env \<Rightarrow> unit proc" where
  "handle_mkd E = bind (logged_name E kVSFLogEntryMkdir) (\<lambda>ok. bind get (\<lambda>p_sess.
     if \<not> ok then permission_denied E
     else bind (str_mkdir E (ftp_arg_str p_sess) 511) (\<lambda>retval.
       if retval \<noteq> 0 then vsf_cmdio_write E FTP_FILEFAIL ''Create directory operation failed.''
       else seq (vsf_log_do_log E True)
         (bind (prepend_path_to_filename E (ftp_arg_str p_sess)) (\<lambda>path.
           vsf_cmdio_write_str E FTP_MKDIROK ([CHR 0x22] @ double_quotes path @ [CHR 0x22] @ '' created''))))))"

definition handle_rmd :: "env \<Rightarrow> unit proc" where
  "handle_rmd E = bind (logged_name E kVSFLogEntryRmdir) (\<lambda>ok. bind get (\<lambda>p_sess.
     if \<not> ok then permission_denied E
     else bind (str_rmdir E (ftp_arg_str p_sess)) (\<lambda>retval.
       if retval \<noteq> 0 then vsf_cmdio_write E FTP_FILEFAIL ''Remove directory operation failed.''
       else block [
         vsf_log_do_log E True,
         vsf_cmdio_write E FTP_RMDIROK ''Remove directory operation successful.''])))"

definition handle_dele :: "env \<Rightarrow> unit proc" where
  "handle_dele E = bind (logged_name E kVSFLogEntryDelete) (\<lambda>ok. bind get (\<lambda>p_sess.
     if \<not> ok then permission_denied E
     else bind (str_unlink E (ftp_arg_str p_sess)) (\<lambda>retval.
       if retval \<noteq> 0 then vsf_cmdio_write E FTP_FILEFAIL ''Delete operation failed.''
       else block [
         vsf_log_do_log E True,
         vsf_cmdio_write E FTP_DELEOK ''Delete operation successful.''])))"

definition handle_rest :: "env \<Rightarrow> unit proc" where
  "handle_rest E = bind get (\<lambda>p_sess.
     let n = vsf_sysutil_a_to_filesize_t (c_text (ftp_arg_str p_sess)); val = (if n < 0 then 0 else n) in
     block [
       upd (\<lambda>s. s\<lparr>restart_pos := val\<rparr>),
       vsf_cmdio_write_str E FTP_RESTOK
         (''Restart position accepted ('' @ vsf_sysutil_filesize_t_to_str val @ '').'')])"

section \<open>Renaming\<close>

definition log_rename :: "env \<Rightarrow> string \<Rightarrow> unit proc" where
  "log_rename E name = block [vsf_log_start_entry E kVSFLogEntryRename, log_name E name]"

definition handle_rnfr :: "env \<Rightarrow> unit proc" where
  "handle_rnfr E = seq (block [upd (\<lambda>s. s\<lparr>rnfr_filename_str := []\<rparr>), resolve_arg E])
     (bind get (\<lambda>p_sess. let name = ftp_arg_str p_sess in
     bind (vsf_access_check_file E name) (\<lambda>ok.
     if \<not> ok then block [log_rename E name, permission_denied E]
     else bind (str_stat E name) (\<lambda>st.
       if st \<noteq> None
       then block [
         upd (\<lambda>s. s\<lparr>rnfr_filename_str := name\<rparr>),
         vsf_cmdio_write E FTP_RNFROK ''Ready for RNTO.'']
       else block [log_rename E name, vsf_cmdio_write E FTP_FILEFAIL ''RNFR command failed.'']))))"

definition handle_rnto :: "env \<Rightarrow> unit proc" where
  "handle_rnto E = bind get (\<lambda>p_sess. let source_name = rnfr_filename_str p_sess in
     if source_name = [] then vsf_cmdio_write E FTP_NEEDRNFR ''RNFR required first.''
     else seq (block [resolve_arg E, log_rename E source_name]) (bind get (\<lambda>p_sess.
       let name = ftp_arg_str p_sess in
       bind (prepend_path_to_filename E name) (\<lambda>path.
       seq (upd (\<lambda>s. s\<lparr>log_str := log_str s @ '' '' @ path\<rparr>))
       (bind (vsf_access_check_file E name) (\<lambda>ok.
       if \<not> ok then permission_denied E
       else bind (str_rename E source_name name) (\<lambda>retval.
         seq (upd (\<lambda>s. s\<lparr>rnfr_filename_str := []\<rparr>))
         (if retval = 0
          then block [vsf_log_do_log E True, vsf_cmdio_write E FTP_RENAMEOK ''Rename successful.'']
          else vsf_cmdio_write E FTP_FILEFAIL ''Rename failed.''))))))))"

section \<open>Type, size, date\<close>

definition upper_arg :: "unit proc" where
  "upper_arg = upd (\<lambda>s. s\<lparr>ftp_arg_str := upper (ftp_arg_str s)\<rparr>)"

definition handle_type :: "env \<Rightarrow> unit proc" where
  "handle_type E = seq upper_arg (bind get (\<lambda>p_sess. let arg = ftp_arg_str p_sess in
     if arg = ''I'' \<or> arg = ''L8'' \<or> arg = ''L 8''
     then block [upd (\<lambda>s. s\<lparr>is_ascii := False\<rparr>), vsf_cmdio_write E FTP_TYPEOK ''Switching to Binary mode.'']
     else if arg = ''A'' \<or> arg = ''A N''
     then block [upd (\<lambda>s. s\<lparr>is_ascii := True\<rparr>), vsf_cmdio_write E FTP_TYPEOK ''Switching to ASCII mode.'']
     else vsf_cmdio_write E FTP_BADCMD ''Unrecognised TYPE command.''))"

definition handle_size :: "env \<Rightarrow> unit proc" where
  "handle_size E = seq (resolve_arg E) (bind get (\<lambda>p_sess.
     bind (vsf_access_check_file E (ftp_arg_str p_sess)) (\<lambda>ok.
     if \<not> ok then permission_denied E
     else bind (str_stat E (ftp_arg_str p_sess)) (\<lambda>r. case r of
         None \<Rightarrow> vsf_cmdio_write E FTP_FILEFAIL ''Could not get file size.''
       | Some st \<Rightarrow>
         if \<not> vsf_sysutil_statbuf_is_regfile st
         then vsf_cmdio_write E FTP_FILEFAIL ''Could not get file size.''
         else bind (lift_res E (vsf_sysutil_statbuf_get_size st)) (\<lambda>file_size.
           vsf_cmdio_write_str E FTP_SIZEOK (vsf_sysutil_filesize_t_to_str file_size))))))"

text \<open>
  MDTM with a date in front of a name that does not exist as a whole: the date has 8 or 14 digits,
  or 14 and a fraction; the code then asserts a length of at least 14.
\<close>

definition mdtm_writes :: "env \<Rightarrow> string \<Rightarrow> bool \<Rightarrow> bool" where
  "mdtm_writes E arg exists \<longleftrightarrow> tunable_mdtm_write E \<and> \<not> exists
     \<and> (case locate_char arg (CHR '' '') of
          None \<Rightarrow> False
        | Some i \<Rightarrow> vsf_sysutil_isdigit (hd arg) \<and> (i = 8 \<or> i = 14 \<or> (i > 15 \<and> arg ! 14 = CHR ''.'')))"

definition mdtm_stamp :: "env \<Rightarrow> int proc" where
  "mdtm_stamp E = bind get (\<lambda>p_sess. let (stamp, filename) = split_char (ftp_arg_str p_sess) (CHR '' '') in
     if length stamp < 14 then halt (Trapped ''bounds'')
     else bind (vsf_sysutil_parse_time E stamp) (\<lambda>modtime.
       seq (upd (\<lambda>s. s\<lparr>ftp_arg_str := filename\<rparr>)) (return modtime)))"

definition mdtm_set :: "env \<Rightarrow> string \<Rightarrow> int \<Rightarrow> unit proc" where
  "mdtm_set E name modtime = bind (str_stat E name) (\<lambda>st.
     if \<not> when_stat vsf_sysutil_statbuf_is_regfile st
     then vsf_cmdio_write E FTP_FILEFAIL ''Could not set file modification time.''
     else bind (vsf_sysutil_setmodtime E name modtime (tunable_use_localtime E)) (\<lambda>retval.
       if retval \<noteq> 0 then vsf_cmdio_write E FTP_FILEFAIL ''Could not set file modification time.''
       else vsf_cmdio_write E FTP_MDTMOK ''File modification time set.''))"

definition mdtm_report :: "env \<Rightarrow> statbuf option \<Rightarrow> unit proc" where
  "mdtm_report E st = (case st of
     None \<Rightarrow> vsf_cmdio_write E FTP_FILEFAIL ''Could not get file modification time.''
   | Some b \<Rightarrow>
     if \<not> vsf_sysutil_statbuf_is_regfile b
     then vsf_cmdio_write E FTP_FILEFAIL ''Could not get file modification time.''
     else bind (vsf_sysutil_statbuf_get_numeric_date E b (tunable_use_localtime E)) (\<lambda>date.
       vsf_cmdio_write_str E FTP_MDTMOK (c_text date)))"

definition handle_mdtm :: "env \<Rightarrow> unit proc" where
  "handle_mdtm E = bind get (\<lambda>p_sess. bind (str_stat E (ftp_arg_str p_sess)) (\<lambda>st.
     let do_write = mdtm_writes E (ftp_arg_str p_sess) (st \<noteq> None) in
     bind (if do_write then mdtm_stamp E else return 0) (\<lambda>modtime.
     seq (resolve_arg E) (bind get (\<lambda>p_sess.
     bind (vsf_access_check_file E (ftp_arg_str p_sess)) (\<lambda>ok.
       if \<not> ok then permission_denied E
       else if do_write \<and> tunable_write_enable E
         \<and> (tunable_anon_other_write_enable E \<or> \<not> is_anonymous p_sess)
       then mdtm_set E (ftp_arg_str p_sess) modtime
       else mdtm_report E st))))))"

section \<open>SITE\<close>

definition handle_site_chmod :: "env \<Rightarrow> string \<Rightarrow> unit proc" where
  "handle_site_chmod E p_arg_str = (
     let (mode_str, name) = split_char p_arg_str (CHR '' '') in
     if p_arg_str = [] \<or> name = [] then vsf_cmdio_write E FTP_BADCMD ''SITE CHMOD needs 2 arguments.''
     else bind (resolve_tilde E name) (\<lambda>chmod_file.
       seq (block [
         vsf_log_start_entry E kVSFLogEntryChmod,
         log_name E chmod_file,
         upd (\<lambda>s. s\<lparr>log_str := log_str s @ '' '' @ mode_str\<rparr>)])
       (bind (vsf_access_check_file E chmod_file) (\<lambda>ok.
       if \<not> ok then permission_denied E
       else bind (str_chmod E chmod_file (vsf_sysutil_octal_to_uint (c_text mode_str))) (\<lambda>retval.
         if vsf_sysutil_retval_is_error retval
         then vsf_cmdio_write E FTP_FILEFAIL ''SITE CHMOD command failed.''
         else block [
           vsf_log_do_log E True,
           vsf_cmdio_write E FTP_CHMODOK ''SITE CHMOD command ok.''])))))"

definition handle_site_umask :: "env \<Rightarrow> string \<Rightarrow> unit proc" where
  "handle_site_umask E p_arg_str =
     (if p_arg_str = []
      then bind vsf_sysutil_get_umask (\<lambda>m.
        vsf_cmdio_write_str E FTP_UMASKOK (''Your current UMASK is '' @ vsf_sysutil_uint_to_octal m))
      else seq (vsf_sysutil_set_umask E (vsf_sysutil_octal_to_uint (c_text p_arg_str)))
        (bind vsf_sysutil_get_umask (\<lambda>m.
           vsf_cmdio_write_str E FTP_UMASKOK (''UMASK set to '' @ vsf_sysutil_uint_to_octal m))))"

definition handle_site :: "env \<Rightarrow> unit proc" where
  "handle_site E = bind get (\<lambda>p_sess.
     let (cmd, site_args) = split_char (ftp_arg_str p_sess) (CHR '' ''); arg = upper cmd in
     seq (upd (\<lambda>s. s\<lparr>ftp_arg_str := arg\<rparr>))
     (if tunable_write_enable E \<and> tunable_chmod_enable E \<and> arg = ''CHMOD'' then handle_site_chmod E site_args
      else if arg = ''UMASK'' then handle_site_umask E site_args
      else if arg = ''HELP''
      then vsf_cmdio_write E FTP_SITEHELP
        (if tunable_write_enable E \<and> tunable_chmod_enable E then ''CHMOD UMASK HELP'' else ''UMASK HELP'')
      else vsf_cmdio_write E FTP_BADCMD ''Unknown SITE command.''))"

section \<open>Answers from the session alone\<close>

definition raw_line :: "env \<Rightarrow> string \<Rightarrow> unit proc" where
  "raw_line E t = vsf_cmdio_write_raw E (t @ [CR, LF])"

definition handle_help :: "env \<Rightarrow> unit proc" where
  "handle_help E = block [
     vsf_cmdio_write_hyphen E FTP_HELP ''The following commands are recognized.'',
     raw_line E '' ABOR ACCT ALLO APPE CDUP CWD  DELE EPRT EPSV FEAT HELP LIST MDTM MKD'',
     raw_line E '' MODE NLST NOOP OPTS PASS PASV PORT PWD  QUIT REIN REST RETR RMD  RNFR'',
     raw_line E '' RNTO SITE SIZE SMNT STAT STOR STOU STRU SYST TYPE USER XCUP XCWD XMKD'',
     raw_line E '' XPWD XRMD'',
     vsf_cmdio_write E FTP_HELP ''Help OK.'']"

definition handle_stat :: "env \<Rightarrow> unit proc" where
  "handle_stat E = bind get (\<lambda>p_sess. block [
     vsf_cmdio_write_hyphen E FTP_STATOK ''FTP server status:'',
     vsf_cmdio_write_raw E ''     Connected to '',
     vsf_cmdio_write_raw E (c_text (remote_ip_str p_sess)),
     raw_line E [],
     vsf_cmdio_write_raw E ''     Logged in as '',
     vsf_cmdio_write_raw E (c_text (user_str p_sess)),
     raw_line E [],
     vsf_cmdio_write_raw E ''     TYPE: '',
     raw_line E (if is_ascii p_sess then ''ASCII'' else ''BINARY''),
     if bw_rate_max p_sess = 0 then raw_line E ''     No session bandwidth limit''
     else block [
       vsf_cmdio_write_raw E ''     Session bandwidth limit in byte/s is '',
       vsf_cmdio_write_raw E (vsf_sysutil_ulong_to_str (ucast (bw_rate_max p_sess))),
       raw_line E []],
     if tunable_idle_session_timeout E = 0 then raw_line E ''     No session timeout''
     else block [
       vsf_cmdio_write_raw E ''     Session timeout in seconds is '',
       vsf_cmdio_write_raw E (vsf_sysutil_ulong_to_str (ucast (tunable_idle_session_timeout E))),
       raw_line E []],
     raw_line E (if control_use_ssl p_sess then ''     Control connection is encrypted''
       else ''     Control connection is plain text''),
     raw_line E (if data_use_ssl p_sess then ''     Data connections will be encrypted''
       else ''     Data connections will be plain text''),
     whenp (num_clients p_sess > 0) (block [
       vsf_cmdio_write_raw E ''     At session startup, client count was '',
       vsf_cmdio_write_raw E (vsf_sysutil_ulong_to_str (ucast (num_clients p_sess))),
       raw_line E []]),
     raw_line E ''     vsFTPd 3.0.3 - secure, fast, stable'',
     vsf_cmdio_write E FTP_STATOK ''End of status''])"

definition handle_feat :: "env \<Rightarrow> unit proc" where
  "handle_feat E = block [
     vsf_cmdio_write_hyphen E FTP_FEAT ''Features:'',
     whenp (tunable_ssl_enable E) (block [
       whenp (tunable_sslv2 E \<or> tunable_sslv3 E) (raw_line E '' AUTH SSL''),
       whenp (tunable_tlsv1 E) (raw_line E '' AUTH TLS'')]),
     whenp (tunable_utf8_filesystem E) (raw_line E '' UTF8''),
     whenp (tunable_port_enable E) (raw_line E '' EPRT''),
     whenp (tunable_pasv_enable E) (raw_line E '' EPSV''),
     raw_line E '' MDTM'',
     whenp (tunable_pasv_enable E) (raw_line E '' PASV''),
     whenp (tunable_ssl_enable E) (block [raw_line E '' PBSZ'', raw_line E '' PROT'']),
     raw_line E '' REST STREAM'',
     raw_line E '' SIZE'',
     raw_line E '' TVFS'',
     vsf_cmdio_write E FTP_FEAT ''End'']"

definition handle_opts :: "env \<Rightarrow> unit proc" where
  "handle_opts E = seq upper_arg (bind get (\<lambda>p_sess.
     if ftp_arg_str p_sess = ''UTF8 ON'' then vsf_cmdio_write E FTP_OPTSOK ''Always in UTF8 mode.''
     else vsf_cmdio_write E FTP_BADOPTS ''Option not understood.''))"

definition handle_stru :: "env \<Rightarrow> unit proc" where
  "handle_stru E = seq upper_arg (bind get (\<lambda>p_sess.
     if ftp_arg_str p_sess = ''F'' then vsf_cmdio_write E FTP_STRUOK ''Structure set to F.''
     else vsf_cmdio_write E FTP_BADSTRU ''Bad STRU command.''))"

definition handle_mode :: "env \<Rightarrow> unit proc" where
  "handle_mode E = seq upper_arg (bind get (\<lambda>p_sess.
     if ftp_arg_str p_sess = ''S'' then vsf_cmdio_write E FTP_MODEOK ''Mode set to S.''
     else vsf_cmdio_write E FTP_BADMODE ''Bad MODE command.''))"

definition handle_logged_in_user :: "env \<Rightarrow> unit proc" where
  "handle_logged_in_user E = bind get (\<lambda>p_sess.
     if is_anonymous p_sess then vsf_cmdio_write E FTP_LOGINERR ''Can't change from guest user.''
     else if user_str p_sess = ftp_arg_str p_sess
     then vsf_cmdio_write E FTP_GIVEPWORD ''Any password will do.''
     else vsf_cmdio_write E FTP_LOGINERR ''Can't change to another user.'')"

definition handle_logged_in_pass :: "env \<Rightarrow> unit proc" where
  "handle_logged_in_pass E = vsf_cmdio_write E FTP_LOGINOK ''Already logged in.''"

section \<open>Invariants\<close>

lemma keeps_wrappers [safes]:
  "base I \<Longrightarrow> keeps I (str_stat E x)" "base I \<Longrightarrow> keeps I (vsf_sysutil_deactivate_noblock E fd)"
  "base I \<Longrightarrow> keeps I (vsf_sysutil_dir_stat E d)" "base I \<Longrightarrow> keeps I (vsf_sysutil_set_umask E m)"
  "base I \<Longrightarrow> keeps I vsf_sysutil_get_umask" "base I \<Longrightarrow> keeps I (vsf_sysutil_parse_time E x)"
  "base I \<Longrightarrow> keeps I (str_getpwnam E x)"
  unfolding str_stat_def vsf_sysutil_deactivate_noblock_def vsf_sysutil_dir_stat_def
    vsf_sysutil_set_umask_def vsf_sysutil_get_umask_def vsf_sysutil_parse_time_def str_getpwnam_def Let_def
  by (intro safes; simp)+

lemma keeps_names [safes]:
  "base I \<Longrightarrow> keeps I (resolve_tilde E x)" "base I \<Longrightarrow> keeps I (resolve_arg E)"
  "base I \<Longrightarrow> keeps I (prepend_path_to_filename E x)" "base I \<Longrightarrow> keeps I (log_name E x)"
  "base I \<Longrightarrow> keeps I (logged_name E k)" "base I \<Longrightarrow> keeps I (log_rename E x)"
  "base I \<Longrightarrow> keeps I upper_arg" "base I \<Longrightarrow> keeps I (permission_denied E)" "base I \<Longrightarrow> keeps I (raw_line E x)"
  unfolding logged_name_def log_rename_def log_name_def resolve_arg_def resolve_tilde_def
    prepend_path_to_filename_def upper_arg_def permission_denied_def raw_line_def Let_def
  by (intro safes; simp add: same_core_def)+

lemma keeps_plain_commands [safes]:
  "base I \<Longrightarrow> keeps I (handle_pwd E)" "base I \<Longrightarrow> keeps I (handle_rest E)" "base I \<Longrightarrow> keeps I (handle_type E)"
  "base I \<Longrightarrow> keeps I (handle_size E)" "base I \<Longrightarrow> keeps I (mdtm_stamp E)" "base I \<Longrightarrow> keeps I (mdtm_report E st)"
  "base I \<Longrightarrow> keeps I (handle_site_umask E x)" "base I \<Longrightarrow> keeps I (handle_help E)"
  "base I \<Longrightarrow> keeps I (handle_stat E)" "base I \<Longrightarrow> keeps I (handle_feat E)" "base I \<Longrightarrow> keeps I (handle_opts E)"
  "base I \<Longrightarrow> keeps I (handle_stru E)" "base I \<Longrightarrow> keeps I (handle_mode E)"
  "base I \<Longrightarrow> keeps I (handle_logged_in_user E)" "base I \<Longrightarrow> keeps I (handle_logged_in_pass E)"
  unfolding handle_pwd_def handle_rest_def handle_type_def handle_size_def mdtm_stamp_def mdtm_report_def
    handle_site_umask_def handle_help_def handle_stat_def handle_feat_def handle_opts_def handle_stru_def
    handle_mode_def handle_logged_in_user_def handle_logged_in_pass_def Let_def
  by (intro safes; simp add: same_core_def)+

text \<open>The commands that change something need their call to be allowed.\<close>

lemma keeps_cwd:
  assumes b: "base I" and c: "\<And>x. allows I (Chdir x)" and o: "\<And>x. allows I (Open_readonly x)"
  shows "keeps I (handle_cwd E)" "keeps I (handle_cdup E)"
proof -
  show w: "keeps I (handle_cwd E)"
    unfolding handle_cwd_def str_chdir_def
    by (intro keeps_seq keeps_bind keeps_if keeps_get_any keeps_block_Cons keeps_block_Nil keeps_names
        keeps_access keeps_sys_ops keeps_banner keeps_responses b c o)
  show "keeps I (handle_cdup E)"
    unfolding handle_cdup_def by (intro keeps_seq w keeps_upd_frame b same_core_upd)
qed

lemma keeps_changing_commands:
  assumes b: "base I"
  shows "(\<And>x. allows I (Mkdir x 511)) \<Longrightarrow> keeps I (handle_mkd E)"
    "(\<And>x. allows I (Rmdir x)) \<Longrightarrow> keeps I (handle_rmd E)"
    "(\<And>x. allows I (Unlink x)) \<Longrightarrow> keeps I (handle_dele E)"
    "(\<And>x m. allows I (Chmod x (and m 511))) \<Longrightarrow> keeps I (handle_site_chmod E a)"
    "(\<And>x t. allows I (Setmodtime x t)) \<Longrightarrow> keeps I (mdtm_set E n t)"
  unfolding handle_mkd_def handle_rmd_def handle_dele_def handle_site_chmod_def mdtm_set_def
    str_mkdir_def str_rmdir_def str_unlink_def str_chmod_def vsf_sysutil_setmodtime_def Let_def
  by (intro keeps_seq keeps_bind keeps_if keeps_prod keeps_get_any keeps_return keeps_block_Cons keeps_block_Nil
      keeps_names keeps_wrappers keeps_access keeps_sys_ops keeps_restricted keeps_responses keeps_logging
      keeps_upd_frame b; simp add: same_core_def)+

lemma keeps_rename:
  assumes b: "base I" and u: "\<And>x. keeps I (upd (\<lambda>s. s\<lparr>rnfr_filename_str := x\<rparr>))"
  shows "keeps I (handle_rnfr E)" "(\<And>x y. allows I (Rename x y)) \<Longrightarrow> keeps I (handle_rnto E)"
  unfolding handle_rnfr_def handle_rnto_def str_rename_def Let_def
  by (intro keeps_seq keeps_bind keeps_if keeps_get_any keeps_return keeps_block_Cons keeps_block_Nil u
      keeps_names keeps_wrappers keeps_access keeps_sys_ops keeps_responses keeps_logging
      keeps_upd_frame b; simp add: same_core_def)+

end
