(* ===== verification/Datacmds.thy ===== *)
theory Datacmds
  imports Filecmds
begin

text \<open>
  The commands of src/postlogin.c that set up or use a data connection. PORT and EPRT leave an
  address in the session, PASV and EPSV a listening socket with the privileged side; a transfer
  needs exactly one of the two and clears both.
\<close>

section \<open>Which connection is set up\<close>

definition service_active :: "env \<Rightarrow> int proc" where
  "service_active E = (if tunable_one_process_model E then vsf_one_process_pasv_active E
     else vsf_two_process_pasv_active E)"

definition service_listen :: "env \<Rightarrow> u16 proc" where
  "service_listen E = (if tunable_one_process_model E then vsf_one_process_listen E
     else vsf_two_process_listen E)"

definition pasv_cleanup :: "env \<Rightarrow> unit proc" where
  "pasv_cleanup E = (if tunable_one_process_model E then vsf_one_process_pasv_cleanup E
     else vsf_two_process_pasv_cleanup E)"

definition port_cleanup :: "unit proc" where
  "port_cleanup = upd (\<lambda>s. s\<lparr>p_port_sockaddr := None\<rparr>)"

text \<open>
  Each of the two questions asks the other one when its answer is yes, so with both active the code
  recurses for ever; \<open>depth\<close> bounds the calls.
\<close>

fun port_active :: "env \<Rightarrow> nat \<Rightarrow> bool proc"
and pasv_active :: "env \<Rightarrow> nat \<Rightarrow> bool proc" where
  "port_active E 0 = halt Unfinished"
| "port_active E (Suc depth) = bind get (\<lambda>p_sess.
     if p_port_sockaddr p_sess \<noteq> None
     then bind (pasv_active E depth) (\<lambda>both.
       if both then bug E ''port and pasv both active'' else return True)
     else return False)"
| "pasv_active E 0 = halt Unfinished"
| "pasv_active E (Suc depth) = bind (service_active E) (\<lambda>ret.
     if ret \<noteq> 0
     then bind (port_active E depth) (\<lambda>both.
       if both then bug E ''pasv and port both active'' else return True)
     else return False)"

definition data_connection_set :: "env \<Rightarrow> bool proc" where
  "data_connection_set E = bind (pasv_active E (fuel E)) (\<lambda>p. if p then return True else port_active E (fuel E))"

definition data_transfer_checks_ok :: "env \<Rightarrow> bool proc" where
  "data_transfer_checks_ok E = bind (data_connection_set E) (\<lambda>ok.
     if \<not> ok then seq (vsf_cmdio_write E FTP_BADSENDCONN ''Use PORT or PASV first.'') (return False)
     else bind get (\<lambda>p_sess.
       if tunable_ssl_enable E \<and> \<not> data_use_ssl p_sess
         \<and> (tunable_force_local_data_ssl E \<and> \<not> is_anonymous p_sess
            \<or> tunable_force_anon_data_ssl E \<and> is_anonymous p_sess)
       then seq (vsf_cmdio_write E FTP_NEEDENCRYPT ''Data connections must be encrypted.'') (return False)
       else return True))"

definition get_remote_transfer_fd :: "env \<Rightarrow> string \<Rightarrow> int proc" where
  "get_remote_transfer_fd E p_status_msg = bind (data_connection_set E) (\<lambda>ok.
     if \<not> ok then bug E ''neither PORT nor PASV active in get_remote_transfer_fd''
     else seq (upd (\<lambda>s. s\<lparr>abor_received := False\<rparr>))
     (bind (pasv_active E (fuel E)) (\<lambda>p.
      bind (if p then vsf_ftpdataio_get_pasv_fd E else vsf_ftpdataio_get_port_fd E) (\<lambda>remote_fd.
        if vsf_sysutil_retval_is_error remote_fd then return remote_fd
        else seq (vsf_cmdio_write E FTP_DATACONN p_status_msg)
          (bind (vsf_ftpdataio_post_mark_connect E) (\<lambda>r.
             if r \<noteq> 1 then bind (vsf_ftpdataio_dispose_transfer_fd E) (\<lambda>_. return (-1))
             else return remote_fd))))))"

definition check_abor :: "env \<Rightarrow> unit proc" where
  "check_abor E = bind get (\<lambda>p_sess. whenp (abor_received p_sess) (block [
     upd (\<lambda>s. s\<lparr>abor_received := False\<rparr>),
     vsf_cmdio_write E FTP_ABOROK ''ABOR successful.'']))"

section \<open>PASV, PORT\<close>

definition vsf_sysutil_inet_ntoa :: "string \<Rightarrow> string" where
  "vsf_sysutil_inet_ntoa raw = joined (CHR ''.'') (map (\<lambda>c. digits 10 (of_char c)) raw)"

definition vsf_sysutil_inet_ntop :: "env \<Rightarrow> sockaddr \<Rightarrow> string res" where
  "vsf_sysutil_inet_ntop E p = (case p of
     Sin a _ \<Rightarrow> Inr (vsf_sysutil_inet_ntoa a)
   | Sin6 a _ _ \<Rightarrow> Inr (c_text (inet6_text E a))
   | Sa_unspec \<Rightarrow> Inl (Die ''can only support ipv4 and ipv6 currently''))"

text \<open>The address the reply names; inet_aton is libc's.\<close>

definition pasv_reply_addr :: "env \<Rightarrow> sockaddr proc" where
  "pasv_reply_addr E = (case tunable_pasv_address E of
     Some t \<Rightarrow> bind (sys_str E (Call ''inet_aton'' [] [c_text t])) (\<lambda>r. case r of
         None \<Rightarrow> die E ''invalid pasv_address''
       | Some raw \<Rightarrow> lift_res E (vsf_sysutil_sockaddr_set_ipv4addr vsf_sysutil_sockaddr_alloc_ipv4 raw))
   | None \<Rightarrow> bind get (\<lambda>p_sess. lift_res E (vsf_sysutil_sockaddr_clone (p_local_addr p_sess))))"

definition pasv_reply_text :: "env \<Rightarrow> bool \<Rightarrow> sockaddr \<Rightarrow> u16 \<Rightarrow> string proc" where
  "pasv_reply_text E is_ipv6 a the_port =
     bind (if \<not> is_ipv6 then lift_res E (vsf_sysutil_inet_ntop E a)
           else return (case vsf_sysutil_sockaddr_ipv6_v4 a of
                  Some v4 \<Rightarrow> vsf_sysutil_inet_ntoa v4 | None \<Rightarrow> ''0,0,0,0'')) (\<lambda>addr_text.
     return (replace_char (''Entering Passive Mode ('' @ addr_text) (CHR ''.'') (CHR '','')
       @ '','' @ digits 10 (unat the_port div 256) @ '','' @ digits 10 (unat the_port mod 256) @ '').''))"

definition enter_passive :: "env \<Rightarrow> bool \<Rightarrow> unit proc" where
  "enter_passive E is_epsv = seq (block [pasv_cleanup E, port_cleanup])
     (bind (service_listen E) (\<lambda>the_port.
        if is_epsv
        then vsf_cmdio_write_str E FTP_EPSVOK
          (''Entering Extended Passive Mode (|||'' @ vsf_sysutil_ulong_to_str (ucast the_port) @ ''|)'')
        else bind get (\<lambda>p_sess. bind (pasv_reply_addr E) (\<lambda>a.
          bind (pasv_reply_text E (vsf_sysutil_sockaddr_is_ipv6 (p_local_addr p_sess)) a the_port)
            (vsf_cmdio_write_str E FTP_PASVOK)))))"

definition handle_pasv :: "env \<Rightarrow> bool \<Rightarrow> unit proc" where
  "handle_pasv E is_epsv = bind get (\<lambda>p_sess.
     if is_epsv \<and> ftp_arg_str p_sess \<noteq> []
     then let arg = upper (ftp_arg_str p_sess); argval = vsf_sysutil_atoi (c_text arg) in
       seq upper_arg
       (if arg = ''ALL''
        then block [upd (\<lambda>s. s\<lparr>epsv_all := True\<rparr>), vsf_cmdio_write E FTP_EPSVALLOK ''EPSV ALL ok.'']
        else if argval < 1 \<or> argval > 2
          \<or> (\<not> vsf_sysutil_sockaddr_is_ipv6 (p_local_addr p_sess) \<and> argval = 2)
        then vsf_cmdio_write E FTP_EPSVBAD ''Bad network protocol.''
        else enter_passive E is_epsv)
     else enter_passive E is_epsv)"

text \<open>The tail that PORT and EPRT share: the target is set, then checked, then perhaps dropped.\<close>

definition set_target :: "env \<Rightarrow> (sockaddr \<Rightarrow> string \<Rightarrow> sockaddr res) \<Rightarrow> string \<Rightarrow> u16 \<Rightarrow> string \<Rightarrow> nat \<Rightarrow> string \<Rightarrow>
    unit proc" where
  "set_target E set_addr raw the_port illegal ok_code ok_text = bind get (\<lambda>p_sess.
     bind (lift_res E (vsf_sysutil_sockaddr_clone (p_local_addr p_sess))) (\<lambda>a.
     bind (lift_res E (set_addr a raw)) (\<lambda>b.
     bind (lift_res E (vsf_sysutil_sockaddr_set_port b the_port)) (\<lambda>target.
     seq (upd (\<lambda>s. s\<lparr>p_port_sockaddr := Some target\<rparr>))
     (if \<not> tunable_port_promiscuous E
        \<and> (\<not> vsf_sysutil_sockaddr_addr_equal (p_remote_addr p_sess) target
           \<or> vsf_sysutil_is_port_reserved the_port)
      then block [vsf_cmdio_write E FTP_BADCMD illegal, port_cleanup]
      else vsf_cmdio_write E ok_code ok_text)))))"

definition handle_port :: "env \<Rightarrow> unit proc" where
  "handle_port E = seq (block [pasv_cleanup E, port_cleanup]) (bind get (\<lambda>p_sess.
     case vsf_sysutil_parse_uchar_string_sep (ftp_arg_str p_sess) (CHR '','') 6 of
       None \<Rightarrow> vsf_cmdio_write E FTP_BADCMD ''Illegal PORT command.''
     | Some vals \<Rightarrow> set_target E vsf_sysutil_sockaddr_set_ipv4addr vals
         (word_of_nat (of_char (vals ! 4) * 256 + of_char (vals ! 5)))
         ''Illegal PORT command.'' FTP_PORTOK ''PORT command successful. Consider using PASV.''))"

definition bad_eprt :: "env \<Rightarrow> unit proc" where
  "bad_eprt E = vsf_cmdio_write E FTP_BADCMD ''Bad EPRT command.''"

definition handle_eprt :: "env \<Rightarrow> unit proc" where
  "handle_eprt E = seq (block [port_cleanup, pasv_cleanup E]) (bind get (\<lambda>p_sess.
     let is_ipv6 = vsf_sysutil_sockaddr_is_ipv6 (p_local_addr p_sess);
         (front, rest) = split_char (ftp_arg_str p_sess) (CHR ''|'');
         (proto_text, rest) = split_char rest (CHR ''|'');
         (addr_text, rest) = split_char rest (CHR ''|'');
         (port_text, rest) = split_char rest (CHR ''|'');
         proto = vsf_sysutil_atoi (c_text proto_text); port = vsf_sysutil_atoi (c_text port_text) in
     if front \<noteq> [] then bad_eprt E
     else if proto < 1 \<or> proto > 2 \<or> (\<not> is_ipv6 \<and> proto = 2)
     then vsf_cmdio_write E FTP_BADCMD ''Bad EPRT protocol.''
     else bind (if proto = 2 then lift_res E (vsf_sysutil_parse_ipv6 (fst (split_char addr_text (CHR ''%''))))
                else return (vsf_sysutil_parse_ipv4 addr_text)) (\<lambda>raw. case raw of
         None \<Rightarrow> bad_eprt E
       | Some raw \<Rightarrow>
         if rest \<noteq> [] \<or> port_text = [] then bad_eprt E
         else if port < 0 \<or> port > 65535 then bad_eprt E
         else set_target E
           (if proto = 2 then vsf_sysutil_sockaddr_set_ipv6addr else vsf_sysutil_sockaddr_set_ipv4addr)
           raw (word_of_int port) ''Illegal EPRT command.''
           FTP_EPRTOK ''EPRT command successful. Consider using EPSV.'')))"

section \<open>RETR\<close>

definition data_cleanup :: "env \<Rightarrow> unit proc" where
  "data_cleanup E = block [port_cleanup, pasv_cleanup E]"

text \<open>A transfer whose connection does not close well has failed on the network side.\<close>

definition disposed_retval :: "env \<Rightarrow> int \<Rightarrow> int proc" where
  "disposed_retval E n = bind (vsf_ftpdataio_dispose_transfer_fd E) (\<lambda>d.
     return (if d \<noteq> 1 \<and> n = 0 then -2 else n))"

definition transfer_report :: "env \<Rightarrow> int \<Rightarrow> string \<Rightarrow> string \<Rightarrow> unit proc" where
  "transfer_report E n file_failure net_failure = bind get (\<lambda>p_sess.
     if n = -1 then vsf_cmdio_write E FTP_BADSENDFILE file_failure
     else if n = -2 then whenp (\<not> data_timeout p_sess) (vsf_cmdio_write E FTP_BADSENDNET net_failure)
     else vsf_cmdio_write E FTP_TRANSFEROK ''Transfer complete.'')"

definition retr_transfer :: "env \<Rightarrow> bool \<Rightarrow> int \<Rightarrow> int \<Rightarrow> bool \<Rightarrow> unit proc" where
  "retr_transfer E http remote_fd opened_file ascii =
     bind (vsf_ftpdataio_transfer_file E remote_fd opened_file False ascii) (\<lambda>trans_ret.
     bind (if http then return (retval trans_ret) else disposed_retval E (retval trans_ret)) (\<lambda>n.
     block [
       upd (\<lambda>s. s\<lparr>transfer_size := transferred trans_ret\<rparr>),
       whenp (n = 0) (vsf_log_do_log E True),
       whenp (\<not> http) (block [
         transfer_report E n ''Failure reading local file.'' ''Failure writing network stream.'',
         check_abor E,
         data_cleanup E])]))"

definition retr_mark :: "bool \<Rightarrow> string \<Rightarrow> int \<Rightarrow> string" where
  "retr_mark ascii name file_size = ''Opening '' @ (if ascii then ''ASCII'' else ''BINARY'')
     @ '' mode data connection for '' @ name @ '' ('' @ vsf_sysutil_filesize_t_to_str file_size @ '' bytes).''"

definition retr_opened :: "env \<Rightarrow> bool \<Rightarrow> int \<Rightarrow> string \<Rightarrow> int \<Rightarrow> unit proc" where
  "retr_opened E http offset name opened_file =
     seq (whenp (tunable_lock_upload_files E) (sysu E (Lock_read opened_file)))
     (bind (vsf_sysutil_fstat E opened_file) (\<lambda>st. bind get (\<lambda>p_sess.
     seq (if \<not> vsf_sysutil_statbuf_is_regfile st
          then block [
            vsf_cmdio_write E FTP_FILEFAIL ''Failed to open file.'',
            whenp (vsf_sysutil_statbuf_is_dir st) vsf_log_clear_entry]
          else seq (vsf_sysutil_deactivate_noblock E opened_file)
            (if is_anonymous p_sess \<and> tunable_anon_world_readable_only E
               \<and> \<not> vsf_sysutil_statbuf_is_readable_other st
             then vsf_cmdio_write E FTP_FILEFAIL ''Failed to open file.''
             else seq (whenp (offset \<noteq> 0) (vsf_sysutil_lseek_to E opened_file offset))
               (bind (lift_res E (vsf_sysutil_statbuf_get_size st)) (\<lambda>file_size.
                let ascii = (tunable_ascii_download_enable E \<and> is_ascii p_sess) in
                bind (if http then return VSFTP_COMMAND_FD
                      else get_remote_transfer_fd E (retr_mark ascii name file_size)) (\<lambda>remote_fd.
                  if \<not> http \<and> vsf_sysutil_retval_is_error remote_fd then data_cleanup E
                  else retr_transfer E http remote_fd opened_file ascii)))))
     (vsf_sysutil_close E opened_file))))"

text \<open>Resolving, logging and checking the name of a file that is to be transferred.\<close>

definition transfer_name :: "env \<Rightarrow> nat \<Rightarrow> (env \<Rightarrow> string \<Rightarrow> bool proc) \<Rightarrow> string \<Rightarrow> bool proc" where
  "transfer_name E entry check name = bind get (\<lambda>p_sess.
     seq (block [vsf_log_start_entry E entry, log_name E (ftp_arg_str p_sess)])
     (bind (vsf_access_check_file E name) (\<lambda>ok. if ok then check E name else return False)))"

definition handle_retr :: "env \<Rightarrow> bool \<Rightarrow> unit proc" where
  "handle_retr E http = bind get (\<lambda>p_sess. let offset = restart_pos p_sess in
     seq (upd (\<lambda>s. s\<lparr>restart_pos := 0\<rparr>))
     (bind (if http then return True else data_transfer_checks_ok E) (\<lambda>ok.
     if \<not> ok then return ()
     else if is_ascii p_sess \<and> offset \<noteq> 0
     then vsf_cmdio_write E FTP_FILEFAIL ''No support for resume of ASCII transfer.''
     else seq (resolve_arg E) (bind get (\<lambda>p_sess. let name = ftp_arg_str p_sess in
       bind (transfer_name E kVSFLogEntryDownload vsf_access_check_file_download name) (\<lambda>ok.
       if \<not> ok then permission_denied E
       else bind (str_open E name) (\<lambda>opened_file.
         if vsf_sysutil_retval_is_error opened_file
         then vsf_cmdio_write E FTP_FILEFAIL ''Failed to open file.''
         else retr_opened E http offset name opened_file)))))))"

section \<open>STOR, APPE, STOU\<close>

text \<open>The suffix is an unsigned int.\<close>

primrec unique_loop :: "env \<Rightarrow> string \<Rightarrow> nat \<Rightarrow> u32 \<Rightarrow> string proc" where
  "unique_loop E base_str 0 next_suffix = halt Unfinished"
| "unique_loop E base_str (Suc n) next_suffix = (
     let name = base_str @ ''.'' @ vsf_sysutil_ulong_to_str (ucast next_suffix) in
     bind (str_stat E name) (\<lambda>st. if st = None then return name else unique_loop E base_str n (next_suffix + 1)))"

definition get_unique_filename :: "env \<Rightarrow> string \<Rightarrow> string proc" where
  "get_unique_filename E p_base_str =
     (if p_base_str = [] then unique_loop E ''STOU'' (fuel E) 1
      else bind (str_stat E p_base_str) (\<lambda>st.
        if st = None then return p_base_str else unique_loop E p_base_str (fuel E) 1))"

definition chown_upload :: "env \<Rightarrow> int \<Rightarrow> unit proc" where
  "chown_upload E fd = (if tunable_one_process_model E then vsf_one_process_chown_upload E fd
     else vsf_two_process_chown_upload E fd)"

definition upload_transfer :: "env \<Rightarrow> int \<Rightarrow> int \<Rightarrow> bool proc" where
  "upload_transfer E remote_fd new_file_fd = bind get (\<lambda>p_sess.
     bind (vsf_ftpdataio_transfer_file E remote_fd new_file_fd True
             (tunable_ascii_upload_enable E \<and> is_ascii p_sess)) (\<lambda>trans_ret.
     bind (disposed_retval E (retval trans_ret)) (\<lambda>n.
     seq (block [
       upd (\<lambda>s. s\<lparr>transfer_size := transferred trans_ret\<rparr>),
       whenp (n = 0) (vsf_log_do_log E True),
       transfer_report E n ''Failure writing to local file.'' ''Failure reading network stream.'',
       check_abor E])
     (return (n = 0)))))"

text \<open>An anonymous user who may not change files gets a new file or none.\<close>

definition upload_exclusive :: "env \<Rightarrow> bool \<Rightarrow> vsf_session \<Rightarrow> bool" where
  "upload_exclusive E is_unique p_sess \<longleftrightarrow>
     is_unique \<or> (is_anonymous p_sess \<and> \<not> tunable_anon_other_write_enable E)"

definition upload_prepare :: "env \<Rightarrow> bool \<Rightarrow> bool \<Rightarrow> int \<Rightarrow> int \<Rightarrow> unit proc" where
  "upload_prepare E is_append do_truncate offset new_file_fd = bind get (\<lambda>p_sess.
     bind (vsf_sysutil_fstat E new_file_fd) (\<lambda>st. block [
       whenp (vsf_sysutil_statbuf_is_regfile st) (vsf_sysutil_deactivate_noblock E new_file_fd),
       whenp (is_anonymous p_sess \<and> tunable_chown_uploads E) (block [
         vsf_sysutil_fchmod E new_file_fd (tunable_chown_upload_mode E),
         chown_upload E new_file_fd]),
       whenp (tunable_lock_upload_files E) (sysu E (Lock_write new_file_fd)),
       whenp do_truncate (block [vsf_sysutil_ftruncate E new_file_fd, vsf_sysutil_lseek_to E new_file_fd 0]),
       if \<not> is_append \<and> offset \<noteq> 0 then vsf_sysutil_lseek_to E new_file_fd offset
       else whenp is_append (vsf_sysutil_lseek_end E new_file_fd)]))"

definition upload_file :: "env \<Rightarrow> bool \<Rightarrow> bool \<Rightarrow> int \<Rightarrow> string \<Rightarrow> unit proc" where
  "upload_file E is_append is_unique offset filename = bind get (\<lambda>p_sess.
     let exclusive = upload_exclusive E is_unique p_sess in
     bind (if exclusive then str_create_exclusive E filename else str_create E filename) (\<lambda>new_file_fd.
     if vsf_sysutil_retval_is_error new_file_fd
     then vsf_cmdio_write E FTP_UPLOADFAIL ''Could not create file.''
     else seq (upload_prepare E is_append (\<not> exclusive \<and> \<not> is_append \<and> offset = 0) offset new_file_fd)
       (bind (get_remote_transfer_fd E (if is_unique then ''FILE: '' @ filename else ''Ok to send data.''))
         (\<lambda>remote_fd.
       bind (if vsf_sysutil_retval_is_error remote_fd then return False
             else upload_transfer E remote_fd new_file_fd) (\<lambda>success. block [
         data_cleanup E,
         whenp (tunable_delete_failed_uploads E \<and> \<not> success)
           (bind (str_unlink E filename) (\<lambda>_. return ())),
         vsf_sysutil_close E new_file_fd])))))"

definition handle_upload_common :: "env \<Rightarrow> bool \<Rightarrow> bool \<Rightarrow> unit proc" where
  "handle_upload_common E is_append is_unique = bind get (\<lambda>p_sess. let offset = restart_pos p_sess in
     seq (upd (\<lambda>s. s\<lparr>restart_pos := 0\<rparr>))
     (bind (data_transfer_checks_ok E) (\<lambda>ok.
     if \<not> ok then return ()
     else seq (resolve_arg E) (bind get (\<lambda>p_sess.
       bind (if is_unique then get_unique_filename E (ftp_arg_str p_sess) else return (ftp_arg_str p_sess))
         (\<lambda>filename.
       bind (transfer_name E kVSFLogEntryUpload vsf_access_check_file_upload filename) (\<lambda>ok.
       if \<not> ok then permission_denied E
       else upload_file E is_append is_unique offset filename)))))))"

section \<open>LIST, NLST, STAT\<close>

text \<open>Options come first, after a dash; what is left is a directory or a filter.\<close>

definition list_args :: "string \<Rightarrow> string \<times> string" where
  "list_args arg = (if arg \<noteq> [] \<and> hd arg = CHR ''-'' then split_char (tl arg) (CHR '' '') else ([], arg))"

definition path_and_filter :: "string \<Rightarrow> string \<times> string" where
  "path_and_filter filter_str = (if CHR ''/'' \<in> set filter_str
     then let (d, f) = split_char_reverse filter_str (CHR ''/'') in (if d = [] then ''/'' else d, f)
     else (''.'', filter_str))"

text \<open>The directory to list, its name and the filter.\<close>

definition find_directory :: "env \<Rightarrow> string \<Rightarrow> (int option \<times> string \<times> string) proc" where
  "find_directory E filter_str = bind (str_opendir E filter_str) (\<lambda>p_dir. case p_dir of
     Some d \<Rightarrow> return (Some d, filter_str, [])
   | None \<Rightarrow> (let (dir_name, f) = path_and_filter filter_str in
       bind (str_opendir E dir_name) (\<lambda>p_dir. return (p_dir, dir_name, f))))"

definition dir_allow_read :: "env \<Rightarrow> int option \<Rightarrow> bool proc" where
  "dir_allow_read E p_dir = bind get (\<lambda>p_sess. case p_dir of
     Some d \<Rightarrow> if is_anonymous p_sess \<and> tunable_anon_world_readable_only E
       then bind (vsf_sysutil_dir_stat E d) (\<lambda>st. return (vsf_sysutil_statbuf_is_readable_other st))
       else return True
   | None \<Rightarrow> return True)"

definition dir_report :: "env \<Rightarrow> bool \<Rightarrow> int \<Rightarrow> bool \<Rightarrow> unit proc" where
  "dir_report E stat_cmd n opened = bind get (\<lambda>p_sess.
     if stat_cmd then vsf_cmdio_write E FTP_STATFILE_OK ''End of status''
     else if n \<noteq> 0
     then whenp (\<not> data_timeout p_sess) (vsf_cmdio_write E FTP_BADSENDNET ''Failure writing network stream.'')
     else if \<not> opened
     then vsf_cmdio_write E FTP_TRANSFEROK ''Transfer done (but failed to open directory).''
     else vsf_cmdio_write E FTP_TRANSFEROK ''Directory send OK.'')"

definition dir_send :: "env \<Rightarrow> bool \<Rightarrow> bool \<Rightarrow> string \<Rightarrow> int option \<times> string \<times> string \<Rightarrow> unit proc" where
  "dir_send E full_details stat_cmd option_str target = (case target of (p_dir, dir_name, filter_str) \<Rightarrow>
     bind (dir_allow_read E p_dir) (\<lambda>allowed.
     bind (case p_dir of
         Some d \<Rightarrow> if allowed
           then vsf_ftpdataio_transfer_dir E stat_cmd d dir_name option_str filter_str full_details
           else return 0
       | None \<Rightarrow> return 0) (\<lambda>n.
     bind (if stat_cmd then return n
           else bind (vsf_ftpdataio_dispose_transfer_fd E) (\<lambda>d. return (if d \<noteq> 1 \<and> n = 0 then -1 else n))) (\<lambda>n.
     block [
       dir_report E stat_cmd n (p_dir \<noteq> None \<and> allowed),
       check_abor E]))))"

definition dir_listing :: "env \<Rightarrow> bool \<Rightarrow> bool \<Rightarrow> string \<Rightarrow> int option \<times> string \<times> string \<Rightarrow> unit proc" where
  "dir_listing E full_details stat_cmd option_str target =
     bind (if stat_cmd then seq (vsf_cmdio_write_hyphen E FTP_STATFILE_OK ''Status follows:'') (return 0)
           else get_remote_transfer_fd E ''Here comes the directory listing.'') (\<lambda>remote_fd. block [
       whenp (stat_cmd \<or> \<not> vsf_sysutil_retval_is_error remote_fd)
         (dir_send E full_details stat_cmd (if stat_cmd then option_str @ ''a'' else option_str) target),
       (case fst target of Some d \<Rightarrow> vsf_sysutil_closedir E d | None \<Rightarrow> return ()),
       whenp (\<not> stat_cmd) (data_cleanup E)])"

definition handle_dir_common :: "env \<Rightarrow> bool \<Rightarrow> bool \<Rightarrow> unit proc" where
  "handle_dir_common E full_details stat_cmd =
     bind (if stat_cmd then return True else data_transfer_checks_ok E) (\<lambda>ok.
     if \<not> ok then return ()
     else bind get (\<lambda>p_sess. let (option_str, filter_str) = list_args (ftp_arg_str p_sess) in
       if filter_str = []
       then bind (str_opendir E ''.'') (\<lambda>p_dir. dir_listing E full_details stat_cmd option_str (p_dir, ''.'', []))
       else bind (resolve_tilde E filter_str) (\<lambda>filter_str.
         bind (vsf_access_check_file E filter_str) (\<lambda>ok.
         if \<not> ok then permission_denied E
         else bind (find_directory E filter_str) (dir_listing E full_details stat_cmd option_str)))))"

section \<open>What PASV announces\<close>

text \<open>The numbers of the reply, in the order and the form in which PORT reads them.\<close>

definition passive_args :: "string \<Rightarrow> u16 \<Rightarrow> string" where
  "passive_args raw port = joined (CHR '','') (map (digits 10) (map of_char raw @ [unat port div 256, unat port mod 256]))"

lemma replace_char_absent: "d \<notin> set x \<Longrightarrow> replace_char x d e = x"
  by (induction x) (auto simp: replace_char_def)

lemma replace_char_append: "replace_char (x @ y) d e = replace_char x d e @ replace_char y d e"
  "replace_char (c # y) d e = (if c = d then e else c) # replace_char y d e" "replace_char [] d e = []"
  by (simp_all add: replace_char_def)

lemma replace_char_joined: "\<forall>x \<in> set xs. d \<notin> set x \<Longrightarrow> replace_char (joined d xs) d e = joined e xs"
  by (induction d xs rule: joined.induct) (simp_all add: replace_char_absent replace_char_append)

lemma joined_append: "xs \<noteq> [] \<Longrightarrow> ys \<noteq> [] \<Longrightarrow> joined d (xs @ ys) = joined d xs @ d # joined d ys"
  by (induction d xs rule: joined.induct) (auto simp: neq_Nil_conv)

lemma passive_args_parsed:
  assumes "length raw = 4"
  shows "vsf_sysutil_parse_uchar_string_sep (passive_args raw port) (CHR '','') 6
    = Some (raw @ [char_of (unat port div 256), char_of (unat port mod 256)])"
proof -
  let ?ns = "map of_char raw @ [unat port div 256, unat port mod 256]"
  have p: "unat port < 65536" by (rule unat_lt_16)
  have "uchar_fields (joined (CHR '','') (map (digits 10) ?ns)) (CHR '','') (length ?ns) = Some (map int ?ns)"
    using p by (intro parse_joined) (auto simp: NUL_def isdigit_iff)
  then show ?thesis using assms
    by (simp add: vsf_sysutil_parse_uchar_string_sep_def passive_args_def comp_def del: of_nat_of_char)
qed

lemma pasv_text_parsed:
  fixes port :: u16
  assumes "length raw = 4"
  shows "\<exists>args vals. replace_char (''Entering Passive Mode ('' @ vsf_sysutil_inet_ntoa raw) (CHR ''.'') (CHR '','')
      @ '','' @ digits 10 (unat port div 256) @ '','' @ digits 10 (unat port mod 256) @ '').''
      = ''Entering Passive Mode ('' @ args @ '').''
    \<and> vsf_sysutil_parse_uchar_string_sep args (CHR '','') 6 = Some vals
    \<and> take 4 vals = raw \<and> word_of_nat (of_char (vals ! 4) * 256 + of_char (vals ! 5)) = port"
proof (intro exI conjI)
  let ?vals = "raw @ [char_of (unat port div 256), char_of (unat port mod 256)]"
  have p: "unat port < 65536" by (rule unat_lt_16)
  have n: "raw \<noteq> []" using assms by auto
  have dot: "replace_char (joined (CHR ''.'') (map (\<lambda>c. digits 10 (of_char c)) raw)) (CHR ''.'') (CHR '','')
      = joined (CHR '','') (map (\<lambda>c. digits 10 (of_char c)) raw)"
    by (rule replace_char_joined) (auto dest: digits_all_digit simp: isdigit_iff)
  have "passive_args raw port = joined (CHR '','') (map (\<lambda>c. digits 10 (of_char c)) raw)
      @ '','' @ digits 10 (unat port div 256) @ '','' @ digits 10 (unat port mod 256)"
    using n by (simp add: passive_args_def joined_append comp_def)
  then show "replace_char (''Entering Passive Mode ('' @ vsf_sysutil_inet_ntoa raw) (CHR ''.'') (CHR '','')
      @ '','' @ digits 10 (unat port div 256) @ '','' @ digits 10 (unat port mod 256) @ '').''
      = ''Entering Passive Mode ('' @ passive_args raw port @ '').''"
    using dot by (simp add: replace_char_append vsf_sysutil_inet_ntoa_def)
  show "vsf_sysutil_parse_uchar_string_sep (passive_args raw port) (CHR '','') 6 = Some ?vals"
    by (rule passive_args_parsed[OF assms])
  show "take 4 ?vals = raw" using assms by simp
  show "word_of_nat (of_char (?vals ! 4) * 256 + of_char (?vals ! 5)) = port"
    using p assms by (simp add: nth_append)
qed

end
