(* ===== verification/Postlogin.thy ===== *)
theory Postlogin
  imports Datacmds
begin

text \<open>
  The session after login (src/postlogin.c): the lists of allowed and denied commands, the
  dispatch in the order the code tests in, the command loop, and the one HTTP request.
\<close>

section \<open>Allowed and denied commands\<close>

text \<open>The scan of a list stops at its first empty element.\<close>

function listed :: "string \<Rightarrow> string \<Rightarrow> bool" where
  "listed src_str cmd = (let (item, rest) = split_char src_str (CHR '','') in
     if item = [] then False else if item = cmd then True else listed rest cmd)"
  by pat_completeness auto
termination
  by (relation "measure (\<lambda>(s, _). length s)") (auto dest!: split_comma sym[of "(_, _)" "split_char _ _"])

declare listed.simps [simp del]

definition cmd_ok :: "env \<Rightarrow> string \<Rightarrow> bool" where
  "cmd_ok E cmd \<longleftrightarrow> (case tunable_cmds_allowed E of None \<Rightarrow> True | Some l \<Rightarrow> listed (c_text l) cmd)
     \<and> (case tunable_cmds_denied E of None \<Rightarrow> True | Some l \<Rightarrow> \<not> listed (c_text l) cmd)"

section \<open>Dispatch\<close>

definition may_upload :: "env \<Rightarrow> vsf_session \<Rightarrow> bool" where
  "may_upload E p_sess \<longleftrightarrow> tunable_write_enable E \<and> (tunable_anon_upload_enable E \<or> \<not> is_anonymous p_sess)"

definition may_mkdir :: "env \<Rightarrow> vsf_session \<Rightarrow> bool" where
  "may_mkdir E p_sess \<longleftrightarrow> tunable_write_enable E \<and> (tunable_anon_mkdir_write_enable E \<or> \<not> is_anonymous p_sess)"

definition may_change :: "env \<Rightarrow> vsf_session \<Rightarrow> bool" where
  "may_change E p_sess \<longleftrightarrow> tunable_write_enable E \<and> (tunable_anon_other_write_enable E \<or> \<not> is_anonymous p_sess)"

text \<open>Known commands that the configuration does not allow, and requests of another protocol.\<close>

definition known_cmds :: "string list" where
  "known_cmds = [''PASV'', ''PORT'', ''STOR'', ''MKD'', ''XMKD'', ''RMD'', ''XRMD'', ''DELE'', ''RNFR'', ''RNTO'',
     ''SITE'', ''APPE'', ''EPSV'', ''EPRT'', ''RETR'', ''LIST'', ''NLST'', ''STOU'', ''ALLO'', ''REIN'', ''ACCT'',
     ''SMNT'', ''FEAT'', ''OPTS'', ''STAT'', ''PBSZ'', ''PROT'']"

definition http_cmds :: "string list" where
  "http_cmds = [''GET'', ''POST'', ''HEAD'', ''OPTIONS'', ''CONNECT'']"

definition async_abor :: string where
  "async_abor = [CHR 0xFF, CHR 0xF4, CHR 0xFF, CHR 0xF2] @ ''ABOR''"

text \<open>The end of the chain. Without SSL support PBSZ and PROT do nothing.\<close>

definition dispatch_rest :: "env \<Rightarrow> unit proc" where
  "dispatch_rest E = bind get (\<lambda>p_sess. let cmd = ftp_cmd_str p_sess; arg = ftp_arg_str p_sess in
     if cmd = ''STRU'' then handle_stru E
     else if cmd = ''MODE'' then handle_mode E
     else if may_upload E p_sess \<and> cmd = ''STOU'' then handle_upload_common E False True
     else if cmd = ''ALLO'' then vsf_cmdio_write E FTP_ALLOOK ''ALLO command ignored.''
     else if cmd = ''REIN'' then vsf_cmdio_write E FTP_COMMANDNOTIMPL ''REIN not implemented.''
     else if cmd = ''ACCT'' then vsf_cmdio_write E FTP_COMMANDNOTIMPL ''ACCT not implemented.''
     else if cmd = ''SMNT'' then vsf_cmdio_write E FTP_COMMANDNOTIMPL ''SMNT not implemented.''
     else if cmd = ''FEAT'' then handle_feat E
     else if cmd = ''OPTS'' then handle_opts E
     else if cmd = ''STAT'' \<and> arg = [] then handle_stat E
     else if tunable_dirlist_enable E \<and> cmd = ''STAT'' then handle_dir_common E True True
     else if tunable_ssl_enable E \<and> (cmd = ''PBSZ'' \<or> cmd = ''PROT'') then return ()
     else if cmd = ''USER'' then handle_logged_in_user E
     else if cmd = ''PASS'' then handle_logged_in_pass E
     else if cmd \<in> set known_cmds then permission_denied E
     else if cmd = [] \<and> arg = [] then return ()
     else if cmd \<in> set http_cmds
     then vsf_cmdio_write_exit E FTP_BADCMD ''HTTP protocol commands not allowed.'' 1
     else vsf_cmdio_write E FTP_BADCMD ''Unknown command.'')"

definition dispatch :: "env \<Rightarrow> unit proc" where
  "dispatch E = bind get (\<lambda>p_sess. let cmd = ftp_cmd_str p_sess in
     if cmd = ''QUIT'' then vsf_cmdio_write_exit E FTP_GOODBYE ''Goodbye.'' 0
     else if cmd = ''PWD'' \<or> cmd = ''XPWD'' then handle_pwd E
     else if cmd = ''CWD'' \<or> cmd = ''XCWD'' then handle_cwd E
     else if cmd = ''CDUP'' \<or> cmd = ''XCUP'' then handle_cdup E
     else if tunable_pasv_enable E \<and> \<not> epsv_all p_sess \<and> (cmd = ''PASV'' \<or> cmd = ''P@SW'') then handle_pasv E False
     else if tunable_pasv_enable E \<and> cmd = ''EPSV'' then handle_pasv E True
     else if tunable_download_enable E \<and> cmd = ''RETR'' then handle_retr E False
     else if cmd = ''NOOP'' then vsf_cmdio_write E FTP_NOOPOK ''NOOP ok.''
     else if cmd = ''SYST'' then vsf_cmdio_write E FTP_SYSTOK ''UNIX Type: L8''
     else if cmd = ''HELP'' then handle_help E
     else if tunable_dirlist_enable E \<and> cmd = ''LIST'' then handle_dir_common E True False
     else if cmd = ''TYPE'' then handle_type E
     else if tunable_port_enable E \<and> \<not> epsv_all p_sess \<and> cmd = ''PORT'' then handle_port E
     else if may_upload E p_sess \<and> cmd = ''STOR'' then handle_upload_common E False False
     else if may_mkdir E p_sess \<and> (cmd = ''MKD'' \<or> cmd = ''XMKD'') then handle_mkd E
     else if may_change E p_sess \<and> (cmd = ''RMD'' \<or> cmd = ''XRMD'') then handle_rmd E
     else if may_change E p_sess \<and> cmd = ''DELE'' then handle_dele E
     else if cmd = ''REST'' then handle_rest E
     else if may_change E p_sess \<and> cmd = ''RNFR'' then handle_rnfr E
     else if may_change E p_sess \<and> cmd = ''RNTO'' then handle_rnto E
     else if tunable_dirlist_enable E \<and> cmd = ''NLST'' then handle_dir_common E False False
     else if cmd = ''SIZE'' then handle_size E
     else if \<not> is_anonymous p_sess \<and> cmd = ''SITE'' then handle_site E
     else if cmd = ''ABOR'' \<or> cmd = async_abor then vsf_cmdio_write E FTP_ABOR_NOCONN ''No transfer to ABOR.''
     else if may_change E p_sess \<and> cmd = ''APPE'' then handle_upload_common E True False
     else if cmd = ''MDTM'' then handle_mdtm E
     else if tunable_port_enable E \<and> cmd = ''EPRT'' then handle_eprt E
     else dispatch_rest E)"

section \<open>The command loop\<close>

definition log_pending :: "env \<Rightarrow> unit proc" where
  "log_pending E = bind vsf_log_entry_pending (\<lambda>pending. whenp pending (vsf_log_do_log E False))"

definition get_command :: "env \<Rightarrow> unit proc" where
  "get_command E = bind (vsf_cmdio_get_cmd_and_arg E True) (\<lambda>(cmd, arg).
     upd (\<lambda>s. s\<lparr>ftp_cmd_str := cmd, ftp_arg_str := arg\<rparr>))"

definition show_command :: "env \<Rightarrow> unit proc" where
  "show_command E = bind get (\<lambda>p_sess. whenp (tunable_setproctitle_enable E)
     (sysu E (Set_proctitle (replace_unprintable (ftp_cmd_str p_sess
        @ (if ftp_arg_str p_sess \<noteq> [] then CHR '' '' # ftp_arg_str p_sess else [])) (CHR ''?'')))))"

definition run_command :: "env \<Rightarrow> unit proc" where
  "run_command E = bind get (\<lambda>p_sess.
     if cmd_ok E (ftp_cmd_str p_sess) then dispatch E else permission_denied E)"

definition one_command :: "env \<Rightarrow> unit proc" where
  "one_command E = block [
     whenp (tunable_setproctitle_enable E) (sysu E (Set_proctitle ''IDLE'')),
     get_command E,
     show_command E,
     run_command E,
     log_pending E,
     bind get (\<lambda>p_sess. whenp (data_timeout p_sess)
       (vsf_cmdio_write_exit E FTP_DATA_TIMEOUT ''Data timeout. Reconnect. Sorry.'' 1))]"

text \<open>\<open>n\<close> bounds the number of commands; the loop ends with the process.\<close>

primrec command_loop :: "env \<Rightarrow> nat \<Rightarrow> unit proc" where
  "command_loop E 0 = halt Unfinished"
| "command_loop E (Suc n) = seq (one_command E) (command_loop E n)"

section \<open>HTTP\<close>

primrec eat_headers :: "env \<Rightarrow> nat \<Rightarrow> unit proc" where
  "eat_headers E 0 = halt Unfinished"
| "eat_headers E (Suc n) = seq (get_command E) (bind get (\<lambda>p_sess.
     if ftp_cmd_str p_sess \<noteq> [] \<or> ftp_arg_str p_sess \<noteq> [] then eat_headers E n else return ()))"

text \<open>The path ends at the first space, its extension begins after the first dot.\<close>

definition http_path :: "unit proc" where
  "http_path = upd (\<lambda>s. let path = fst (split_char (http_get_arg s) (CHR '' ''));
       (stem, extension) = split_char path (CHR ''.'') in
     s\<lparr>ftp_arg_str := path, http_get_arg := stem, ftp_cmd_str := upper extension\<rparr>)"

definition handle_http :: "env \<Rightarrow> 'a proc" where
  "handle_http E = (if \<not> tunable_download_enable E then bug E ''HTTP needs download - fix your config''
     else seq (block [
       eat_headers E (fuel E),
       raw_line E ''HTTP/1.1 200 OK'',
       raw_line E ''Server: vsftpd'',
       raw_line E ''Connection: close'',
       raw_line E ''X-Frame-Options: SAMEORIGIN'',
       raw_line E ''X-Content-Type-Options: nosniff'',
       http_path,
       bind get (\<lambda>p_sess. raw_line E
         (if ftp_cmd_str p_sess = ''HTML'' \<or> ftp_cmd_str p_sess = ''HTM''
          then ''Content-Type: text/html'' else ''Content-Type: dunno'')),
       raw_line E [],
       upd (\<lambda>s. s\<lparr>is_ascii := False\<rparr>),
       upd (\<lambda>s. s\<lparr>restart_pos := 0\<rparr>),
       handle_retr E True,
       log_pending E])
     (vsf_sysutil_exit E 0))"

section \<open>The session\<close>

definition post_login_setup :: "env \<Rightarrow> unit proc" where
  "post_login_setup E = block [
     bind (str_getcwd E) (\<lambda>cwd. upd (\<lambda>s. s\<lparr>home_str := cwd\<rparr>)),
     bind get (\<lambda>p_sess.
       if is_anonymous p_sess
       then block [
         vsf_sysutil_set_umask E (tunable_anon_umask E),
         upd (\<lambda>s. s\<lparr>bw_rate_max := tunable_anon_max_rate E\<rparr>)]
       else block [
         vsf_sysutil_set_umask E (tunable_local_umask E),
         upd (\<lambda>s. s\<lparr>bw_rate_max := tunable_local_max_rate E\<rparr>)])]"

definition process_post_login :: "env \<Rightarrow> unit proc" where
  "process_post_login E = seq (post_login_setup E) (bind get (\<lambda>p_sess.
     if is_http p_sess then handle_http E
     else block [
       whenp (tunable_async_abor_enable E \<and> \<not> control_use_ssl p_sess) (block [
         sysu E (Sighandler ''SIGURG'' ''handle_sigurg''),
         sysu E (Sockopt ''sigurg'' VSFTP_COMMAND_FD)]),
       vsf_banner_dir_changed E FTP_LOGINOK,
       vsf_cmdio_write E FTP_LOGINOK ''Login successful.'',
       command_loop E (fuel E)]))"

section \<open>What a command list says\<close>

text \<open>The elements between the commas; the scan sees those before the first empty one.\<close>

primrec elements :: "string \<Rightarrow> string list" where
  "elements [] = [[]]"
| "elements (c # s) = (if c = CHR '','' then [] # elements s
     else (c # hd (elements s)) # tl (elements s))"

lemma elements_split:
  "elements s = takeWhile (\<lambda>c. c \<noteq> CHR '','') s
     # (if CHR '','' \<in> set s then elements (drop (Suc (length (takeWhile (\<lambda>c. c \<noteq> CHR '','') s))) s) else [])"
  by (induction s) auto

lemma listed_iff: "listed s cmd \<longleftrightarrow> cmd \<noteq> [] \<and> cmd \<in> set (takeWhile (\<lambda>e. e \<noteq> []) (elements s))"
proof (induction s cmd rule: listed.induct)
  case (1 s cmd)
  let ?item = "takeWhile (\<lambda>c. c \<noteq> CHR '','') s" and ?rest = "drop (Suc (length (takeWhile (\<lambda>c. c \<noteq> CHR '','') s))) s"
  have split: "split_char s (CHR '','') = (?item, ?rest)"
    by (rule split_char_eq) (simp add: NUL_def)
  have e: "elements s = ?item # (if CHR '','' \<in> set s then elements ?rest else [])" by (rule elements_split)
  have last: "listed ?rest cmd = False" if "CHR '','' \<notin> set s"
  proof -
    have all: "?item = s" using that by (auto simp: takeWhile_eq_all_conv)
    have "?rest = []" unfolding all by simp
    then show ?thesis by (subst listed.simps) (simp add: split_char_eq NUL_def)
  qed
  show ?case
  proof (cases "?item = [] \<or> ?item = cmd")
    case True
    then show ?thesis by (subst listed.simps, subst e) (auto simp: split)
  next
    case False
    then have "listed ?rest cmd \<longleftrightarrow> cmd \<noteq> [] \<and> cmd \<in> set (takeWhile (\<lambda>e. e \<noteq> []) (elements ?rest))"
      using 1[OF split[symmetric] refl] by simp
    then show ?thesis
      using False last by (subst listed.simps, subst e) (auto simp: split)
  qed
qed

end
