(* ===== verification/Ftp_Session.thy ===== *)
theory Ftp_Session
  imports Postlogin
begin

text \<open>
  The rules for invariants of a logged-in session, proved once for every invariant that allows what
  the session needs: \<open>data_session\<close> for the data connection commands, \<open>ftp_session\<close> for all of
  src/postlogin.c. \<open>R\<close> is what still holds when the process stops; it is weaker than \<open>I\<close>
  because PORT sets its target before it checks it, and because a process that dies in the middle of a
  request leaves the channel as it is.
\<close>

section \<open>Keeping an invariant up to the end of the process\<close>

definition kept :: "(world \<Rightarrow> bool) \<Rightarrow> (world \<Rightarrow> bool) \<Rightarrow> 'a proc \<Rightarrow> bool" where
  "kept I R m \<longleftrightarrow> triple I m (\<lambda>_. I) R"

lemma kept_keeps: "keeps I m \<Longrightarrow> (\<And>w. I w \<Longrightarrow> R w) \<Longrightarrow> kept I R m"
  unfolding keeps_def kept_def by (rule triple_weaken[of I m "\<lambda>_. I" I]) simp_all

lemma kept_bind: "kept I R m \<Longrightarrow> (\<And>x. kept I R (f x)) \<Longrightarrow> kept I R (bind m f)"
  unfolding kept_def by (rule triple_bind)

lemma kept_seq: "kept I R m \<Longrightarrow> kept I R n \<Longrightarrow> kept I R (seq m n)"
  unfolding seq_def by (rule kept_bind)

lemma kept_get: "(\<And>w. I w \<Longrightarrow> kept I R (f (sess w))) \<Longrightarrow> kept I R (bind get f)"
  unfolding kept_def by (rule triple_get)

lemma kept_return: "kept I R (return x)"
  by (simp add: kept_def triple_return)

lemma kept_if: "(b \<Longrightarrow> kept I R m) \<Longrightarrow> (\<not> b \<Longrightarrow> kept I R n) \<Longrightarrow> kept I R (if b then m else n)"
  by simp

lemma kept_else: "(b \<Longrightarrow> kept I R m) \<Longrightarrow> kept I R n \<Longrightarrow> kept I R (if b then m else n)"
  by simp

lemma kept_whenp: "(b \<Longrightarrow> kept I R m) \<Longrightarrow> kept I R (whenp b m)"
  by (simp add: whenp_def kept_return)

lemma kept_option:
  "(x = None \<Longrightarrow> kept I R m) \<Longrightarrow> (\<And>y. x = Some y \<Longrightarrow> kept I R (f y)) \<Longrightarrow>
     kept I R (case x of None \<Rightarrow> m | Some y \<Rightarrow> f y)"
  by (cases x) simp_all

lemma kept_prod: "(\<And>a b. p = (a, b) \<Longrightarrow> kept I R (f a b)) \<Longrightarrow> kept I R (case p of (a, b) \<Rightarrow> f a b)"
  by (cases p) simp

lemma kept_block: "kept I R (block [])" "kept I R m \<Longrightarrow> kept I R (block ms) \<Longrightarrow> kept I R (block (m # ms))"
  by (simp_all add: kept_return kept_seq)

lemmas kept_rules = kept_seq kept_get kept_bind kept_return kept_if kept_whenp kept_option kept_prod kept_block

text \<open>A value computed without the world, whose failures end the process.\<close>

lemma kept_lift:
  assumes b: "base I" and w: "\<And>w. I w \<Longrightarrow> R w" and k: "\<And>x. m = Inr x \<Longrightarrow> kept I R (k x)"
  shows "kept I R (bind (lift_res E m) k)"
proof (cases m)
  case (Inl e)
  then have "bind (lift_res E m) k = bind (lift_res E m) (\<lambda>_. halt Unfinished)"
    by (intro ext, cases e) (auto simp: lift_res_def bind_def bug_ends halt_def split: outcome.split)
  then show ?thesis by (simp only:) (intro kept_keeps keeps_bind keeps_lift_res keeps_halt b w)
next
  case (Inr x)
  have "bind (return x) k = k x" by (rule ext) (simp add: bind_def return_def)
  then show ?thesis using Inr k by (simp add: lift_res_def)
qed

section \<open>Commands that set a connection up\<close>

text \<open>
  First everything is cleaned up, which establishes \<open>K\<close>; then the new connection is set up from
  there.
\<close>

lemma kept_enter_passive:
  assumes b: "base I" and w: "\<And>w. I w \<Longrightarrow> R w"
    and pre: "triple I (block [pasv_cleanup E, port_cleanup]) (\<lambda>_. K) R"
    and listen: "triple K (service_listen E) (\<lambda>_. I) R"
  shows "kept I R (enter_passive E is_epsv)"
proof -
  have "keeps I (if is_epsv
        then vsf_cmdio_write_str E FTP_EPSVOK
          (''Entering Extended Passive Mode (|||'' @ vsf_sysutil_ulong_to_str (ucast the_port) @ ''|)'')
        else bind get (\<lambda>p_sess. bind (pasv_reply_addr E) (\<lambda>a.
          bind (pasv_reply_text E (vsf_sysutil_sockaddr_is_ipv6 (p_local_addr p_sess)) a the_port)
            (vsf_cmdio_write_str E FTP_PASVOK))))" for the_port
    unfolding pasv_reply_addr_def pasv_reply_text_def
    by (intro safes b; simp)
  then have "triple I (if is_epsv
        then vsf_cmdio_write_str E FTP_EPSVOK
          (''Entering Extended Passive Mode (|||'' @ vsf_sysutil_ulong_to_str (ucast the_port) @ ''|)'')
        else bind get (\<lambda>p_sess. bind (pasv_reply_addr E) (\<lambda>a.
          bind (pasv_reply_text E (vsf_sysutil_sockaddr_is_ipv6 (p_local_addr p_sess)) a the_port)
            (vsf_cmdio_write_str E FTP_PASVOK)))) (\<lambda>_. I) R" for the_port
    by (rule kept_keeps[unfolded kept_def]) (rule w)
  then show ?thesis
    unfolding kept_def enter_passive_def seq_def
    by (intro triple_bind[OF pre] triple_bind[OF listen])
qed

lemma kept_pasv:
  assumes b: "base I" and w: "\<And>w. I w \<Longrightarrow> R w" and e: "keeps I (upd (\<lambda>s. s\<lparr>epsv_all := True\<rparr>))"
    and p: "kept I R (enter_passive E is_epsv)"
  shows "kept I R (handle_pasv E is_epsv)"
  unfolding handle_pasv_def Let_def
  by (intro kept_rules p) (rule kept_keeps[OF _ w], intro safes e b; simp)+

lemma kept_target:
  assumes b: "base K" and kr: "\<And>w. K w \<Longrightarrow> R w" and ki: "\<And>w. K w \<Longrightarrow> I w"
    and t: "\<And>f raw port illegal code text. triple K (set_target E f raw port illegal code text) (\<lambda>_. I) R"
  shows "triple I (block [pasv_cleanup E, port_cleanup]) (\<lambda>_. K) R \<Longrightarrow> kept I R (handle_port E)"
    and "triple I (block [port_cleanup, pasv_cleanup E]) (\<lambda>_. K) R \<Longrightarrow> kept I R (handle_eprt E)"
proof -
  have weak: "triple K m (\<lambda>_. I) R" if "keeps K m" for m :: "unit proc"
    using that unfolding keeps_def by (rule triple_weaken[of K m "\<lambda>_. K" K]) (simp_all add: ki kr)
  have say: "triple K (vsf_cmdio_write E n x) (\<lambda>_. I) R" for n x by (intro weak keeps_responses b)
  have look: "triple K (bind get f) (\<lambda>_. I) R" if "\<And>s. triple K (f s) (\<lambda>_. I) R" for f :: "_ \<Rightarrow> unit proc"
    by (rule triple_get) (rule that)
  have opt: "triple K (case raw of None \<Rightarrow> m | Some r \<Rightarrow> k r) (\<lambda>_. I) R"
    if "triple K m (\<lambda>_. I) R" "\<And>r. triple K (k r) (\<lambda>_. I) R" for raw :: "string option" and k and m :: "unit proc"
    using that by (cases raw) simp_all
  have prod: "triple K (case p of (x, y) \<Rightarrow> k x y) (\<lambda>_. I) R"
    if "\<And>x y. triple K (k x y) (\<lambda>_. I) R" for p :: "string \<times> string" and k :: "_ \<Rightarrow> _ \<Rightarrow> unit proc"
    using that by (cases p) simp
  have raw: "triple K (bind (if c then lift_res E m else return n) k) (\<lambda>_. I) R"
    if "\<And>r. triple K (k r) (\<lambda>_. I) R" for c m n and k :: "string option \<Rightarrow> unit proc"
  proof (rule triple_bind[OF _ that])
    show "triple K (if c then lift_res E m else return n) (\<lambda>_. K) R"
      by (rule kept_keeps[unfolded kept_def]) (intro keeps_if keeps_lift_res keeps_return b, rule kr)
  qed
  show "kept I R (handle_port E)" if "triple I (block [pasv_cleanup E, port_cleanup]) (\<lambda>_. K) R"
    unfolding kept_def handle_port_def seq_def by (intro triple_bind[OF that] look opt say t)
  show "kept I R (handle_eprt E)" if "triple I (block [port_cleanup, pasv_cleanup E]) (\<lambda>_. K) R"
    unfolding kept_def handle_eprt_def seq_def Let_def bad_eprt_def
    by (intro triple_bind[OF that] look prod triple_if say raw opt t)
qed

section \<open>Data connections\<close>

locale data_session =
  fixes E :: env and I :: "world \<Rightarrow> bool" and R :: "world \<Rightarrow> bool" and anonymous :: bool
  assumes S_base: "base I" and S_weaker: "I w \<Longrightarrow> R w" and S_anon: "I w \<Longrightarrow> is_anonymous (sess w) = anonymous"
    and S_services: "kept I R (service_active E)" "kept I R (pasv_cleanup E)"
      "kept I R (vsf_ftpdataio_get_pasv_fd E)" "kept I R (vsf_ftpdataio_get_port_fd E)"
    and S_chown: "tunable_chown_uploads E \<Longrightarrow> kept I R (chown_upload E fd)"
    and S_data_fd: "keeps I (upd (\<lambda>s. s\<lparr>data_fd := n\<rparr>))"
    and S_port_cleanup: "keeps I port_cleanup"
    and S_read: "allows I (Open_readonly x)"
    and S_list: "tunable_dirlist_enable E \<Longrightarrow> allows I (Opendir x)"
begin

lemma weak: "keeps I m \<Longrightarrow> kept I R m"
  by (rule kept_keeps) (simp_all add: S_weaker)

lemma cleanup: "kept I R (data_cleanup E)"
  unfolding data_cleanup_def by (intro kept_block weak[OF S_port_cleanup] S_services)

lemma active: "kept I R (port_active E n) \<and> kept I R (pasv_active E n)"
proof (induction n)
  case 0
  then show ?case by (simp add: weak keeps_halt)
next
  case (Suc n)
  then show ?case
    unfolding port_active.simps pasv_active.simps
    by (intro conjI kept_rules S_services(1) weak[OF keeps_bug] S_base) simp_all
qed

lemma ready: "kept I R (data_connection_set E)"
  unfolding data_connection_set_def by (intro kept_rules active[THEN conjunct1] active[THEN conjunct2])

lemma data_ready: "kept I R (data_transfer_checks_ok E)" "kept I R (get_remote_transfer_fd E msg)"
    "keeps I (check_abor E)" "keeps I (disposed_retval E n)"
proof -
  show "keeps I (check_abor E)" "keeps I (disposed_retval E n)"
    unfolding check_abor_def disposed_retval_def by (intro safes keeps_data_fd S_data_fd S_base; simp)+
  show "kept I R (data_transfer_checks_ok E)"
    unfolding data_transfer_checks_ok_def
    by (intro kept_rules ready weak[OF keeps_responses(3)] S_base)
  show "kept I R (get_remote_transfer_fd E msg)"
    unfolding get_remote_transfer_fd_def
    by (intro kept_rules ready S_services active[THEN conjunct2] weak[OF keeps_responses(3)] weak[OF keeps_bug]
        weak[OF keeps_data_fd(2)] weak[OF keeps_data_fd(3)] weak[OF keeps_upd_frame] S_data_fd S_base) simp
qed

lemma report: "keeps I (transfer_report E n x y)"
  unfolding transfer_report_def by (intro safes S_base)

lemma retr_opened: "kept I R (retr_opened E b offset name fd)"
  unfolding retr_opened_def retr_transfer_def Let_def
  by (intro kept_rules data_ready(2) cleanup;
      rule weak, intro safes keeps_wrappers report data_ready S_base; simp add: S_base base_allows same_core_def)

lemma transfer_named: "keeps I (transfer_name E k vsf_access_check_file_download n)"
    "keeps I (transfer_name E k vsf_access_check_file_upload n)"
  unfolding transfer_name_def by (intro safes S_base)+

lemma retr: "kept I R (handle_retr E b)"
  unfolding handle_retr_def str_open_def Let_def
  by (intro kept_rules data_ready(1) retr_opened weak[OF keeps_names(2)] weak[OF keeps_names(8)] S_base
      weak[OF keeps_responses(3)] weak[OF transfer_named(1)] weak[OF keeps_sys_ops(1)] S_read
      weak[OF keeps_upd_frame]) simp

lemma dir_send: "tunable_dirlist_enable E \<Longrightarrow> keeps I (dir_send E b c opts t)"
  unfolding dir_send_def dir_report_def dir_allow_read_def
  by (intro keeps_transfer_dir keeps_data_fd S_data_fd S_list data_ready safes S_base)

lemma dir_listing: "tunable_dirlist_enable E \<Longrightarrow> kept I R (dir_listing E b c opts t)"
  unfolding dir_listing_def
  by (intro kept_rules data_ready(2) cleanup weak[OF dir_send] weak[OF keeps_responses(4)]
      weak[OF keeps_dir_io(1)] S_base)

lemma dir_common: "tunable_dirlist_enable E \<Longrightarrow> kept I R (handle_dir_common E b c)"
  unfolding handle_dir_common_def find_directory_def Let_def
  by (intro kept_rules data_ready(1) dir_listing weak[OF keeps_dir_io(2)] weak[OF keeps_names(1)]
      weak[OF keeps_access(3)] weak[OF keeps_names(8)] S_base S_list)

end

section \<open>The whole session\<close>

locale ftp_session = data_session +
  assumes S_chdir: "allows I (Chdir x)"
    and S_mkdir: "tunable_write_enable E \<Longrightarrow> anonymous \<longrightarrow> tunable_anon_mkdir_write_enable E \<Longrightarrow>
      allows I (Mkdir x 511)"
    and S_change: "tunable_write_enable E \<Longrightarrow> anonymous \<longrightarrow> tunable_anon_other_write_enable E \<Longrightarrow>
      allows I (Rmdir x) \<and> allows I (Unlink x) \<and> allows I (Setmodtime x t)
        \<and> allows I (Create_or_open x (tunable_file_open_mode E)) \<and> allows I (Ftruncate fd)"
    and S_create: "tunable_write_enable E \<Longrightarrow> anonymous \<longrightarrow> tunable_anon_upload_enable E \<Longrightarrow>
      allows I (Create_exclusive x) \<and> (tunable_delete_failed_uploads E \<longrightarrow> allows I (Unlink x))"
    and S_chmod: "tunable_write_enable E \<Longrightarrow> tunable_chmod_enable E \<Longrightarrow> \<not> anonymous \<Longrightarrow>
      allows I (Chmod x (and m 511))"
    and S_fchmod: "tunable_write_enable E \<Longrightarrow> anonymous \<Longrightarrow>
      tunable_anon_upload_enable E \<or> tunable_anon_other_write_enable E \<Longrightarrow> tunable_chown_uploads E \<Longrightarrow>
      allows I (Fchmod fd (and (tunable_chown_upload_mode E) 511))"
    and S_rename: "tunable_write_enable E \<Longrightarrow> anonymous \<longrightarrow> tunable_anon_other_write_enable E \<Longrightarrow>
      kept I R (handle_rnfr E) \<and> kept I R (handle_rnto E)"
    and S_setup: "kept I R (handle_pasv E b)" "kept I R (handle_port E)" "kept I R (handle_eprt E)"
begin

text \<open>The upload commands, by what an anonymous user may do.\<close>

lemma upload:
  assumes w: "tunable_write_enable E"
    and new: "\<And>s. upload_exclusive E u s \<Longrightarrow> is_anonymous s = anonymous \<Longrightarrow>
      anonymous \<longrightarrow> tunable_anon_upload_enable E"
    and over: "\<And>s. \<not> upload_exclusive E u s \<Longrightarrow> is_anonymous s = anonymous \<Longrightarrow>
      anonymous \<longrightarrow> tunable_anon_other_write_enable E"
  shows "kept I R (upload_file E ap u offset name)"
  unfolding upload_file_def Let_def
proof (rule kept_get, goal_cases)
  case (1 x)
  then have a: "is_anonymous (sess x) = anonymous" by (rule S_anon)
  let ?ex = "upload_exclusive E u (sess x)"
  have create: "keeps I (if ?ex then str_create_exclusive E name else str_create E name)"
    unfolding str_create_exclusive_def str_create_def
    using S_create[OF w new[OF _ a]] S_change[OF w over[OF _ a]] by (intro keeps_if keeps_sys_ops) auto
  have trunc: "allows I (Ftruncate fd)" if "\<not> ?ex \<and> b" for fd b
    using S_change[OF w over[OF _ a]] that by auto
  have fchmod: "allows I (Fchmod fd (and (tunable_chown_upload_mode E) 511))"
    if "anonymous" "tunable_chown_uploads E" for fd
    using S_fchmod[OF w that(1) _ that(2)] new[OF _ a] over[OF _ a] that(1) by blast
  have prep: "kept I R (upload_prepare E ap (\<not> ?ex \<and> \<not> ap \<and> offset = 0) offset fd)" for fd
    unfolding upload_prepare_def vsf_sysutil_ftruncate_def
  proof (rule kept_get, goal_cases)
    case (1 y)
    then have "is_anonymous (sess y) = anonymous" by (rule S_anon)
    then show ?case
      using trunc fchmod
      by (intro kept_rules S_chown weak[OF keeps_sysutil_io(2)] weak[OF keeps_wrappers(2)]
          weak[OF keeps_restricted(5)] weak[OF keeps_sys_ops(4)] weak[OF keeps_sys_ops(1)] weak[OF keeps_die]
          weak[OF keeps_sysutil_io(4)] weak[OF keeps_sysutil_io(5)] S_base)
         (auto intro: base_allows S_base)
  qed
  have unlink: "allows I (Unlink n)" if "tunable_delete_failed_uploads E" for n
    using S_create[OF w new[OF _ a]] S_change[OF w over[OF _ a]] that by (cases ?ex) auto
  show ?case
    unfolding upload_transfer_def str_unlink_def
    by (intro kept_bind[OF weak[OF create]] kept_rules prep data_ready(2) cleanup weak[OF keeps_responses(3)]
        weak[OF keeps_transfer_file] weak[OF data_ready(3)] weak[OF data_ready(4)] weak[OF keeps_upd_frame]
        weak[OF keeps_logging(2)] weak[OF report] weak[OF keeps_sysutil_io(1)] weak[OF keeps_sys_ops(1)]
        S_base unlink) simp_all
qed

lemma unique_name: "keeps I (get_unique_filename E x)"
proof -
  have l: "keeps I (unique_loop E b n k)" for b n k
    by (induction n arbitrary: k) (auto simp: Let_def S_base intro!: safes)
  show ?thesis unfolding get_unique_filename_def by (intro keeps_if keeps_bind keeps_return l keeps_wrappers S_base)
qed

lemma upload_common:
  assumes "tunable_write_enable E"
    and "\<And>s. upload_exclusive E u s \<Longrightarrow> is_anonymous s = anonymous \<Longrightarrow>
      anonymous \<longrightarrow> tunable_anon_upload_enable E"
    and "\<And>s. \<not> upload_exclusive E u s \<Longrightarrow> is_anonymous s = anonymous \<Longrightarrow>
      anonymous \<longrightarrow> tunable_anon_other_write_enable E"
  shows "kept I R (handle_upload_common E ap u)"
  unfolding handle_upload_common_def Let_def
  by (intro kept_rules data_ready(1) upload[OF assms] weak[OF keeps_names(2)] weak[OF keeps_names(8)]
      weak[OF transfer_named(2)] weak[OF unique_name] weak[OF keeps_upd_frame] S_base) simp_all

lemma mdtm: "keeps I (handle_mdtm E)"
proof -
  have set_time: "keeps I (if b \<and> tunable_write_enable E
       \<and> (tunable_anon_other_write_enable E \<or> \<not> is_anonymous (sess w)) then mdtm_set E n t else mdtm_report E st)"
    if "I w" for w b n t st
    using S_change S_anon[OF that] by (intro keeps_if keeps_changing_commands keeps_plain_commands S_base) auto
  have ans: "keeps I (bind get (\<lambda>p_sess. bind (vsf_access_check_file E (ftp_arg_str p_sess)) (\<lambda>ok.
       if \<not> ok then permission_denied E
       else if b \<and> tunable_write_enable E \<and> (tunable_anon_other_write_enable E \<or> \<not> is_anonymous p_sess)
       then mdtm_set E (ftp_arg_str p_sess) t else mdtm_report E st)))" for b t st
    by (rule keeps_get) (simp only: keeps_bind keeps_if keeps_access keeps_names S_base set_time)
  show ?thesis
    unfolding handle_mdtm_def Let_def
    by (rule keeps_bind[OF keeps_get_any], rule keeps_bind[OF keeps_wrappers(1)[OF S_base]],
        rule keeps_bind, intro keeps_if keeps_return keeps_plain_commands S_base,
        intro keeps_seq keeps_names S_base ans)
qed

lemma site: "\<not> anonymous \<Longrightarrow> keeps I (handle_site E)"
  unfolding handle_site_def Let_def
  by (intro keeps_bind keeps_seq keeps_if keeps_prod keeps_get_any keeps_responses keeps_plain_commands
      keeps_changing_commands keeps_upd_frame S_base) (auto simp: S_chmod)

lemma dispatches_rest: "kept I R (dispatch_rest E)"
  unfolding dispatch_rest_def
proof (rule kept_get, unfold Let_def, goal_cases)
  case (1 w)
  then have a: "is_anonymous (sess w) = anonymous" by (rule S_anon)
  show ?case
    by (intro kept_else dir_common upload_common weak[OF keeps_write_exit] weak[OF keeps_return]
        weak[OF keeps_responses(3)] weak[OF keeps_names(8)] weak[OF keeps_plain_commands(9)]
        weak[OF keeps_plain_commands(10)] weak[OF keeps_plain_commands(11)] weak[OF keeps_plain_commands(12)]
        weak[OF keeps_plain_commands(13)] weak[OF keeps_plain_commands(14)] weak[OF keeps_plain_commands(15)]
        S_base)
      (use a in \<open>auto simp: may_upload_def upload_exclusive_def\<close>)
qed

lemma dispatches: "kept I R (dispatch E)"
  unfolding dispatch_def
proof (rule kept_get, unfold Let_def, goal_cases)
  case (1 w)
  then have a: "is_anonymous (sess w) = anonymous" by (rule S_anon)
  note may = may_upload_def may_change_def may_mkdir_def upload_exclusive_def
  have rn: "kept I R (handle_rnfr E)" "kept I R (handle_rnto E)" if "may_change E (sess w) \<and> b" for b
    using S_rename a that by (auto simp: may)
  show ?case
    by (intro kept_else dispatches_rest S_setup rn retr dir_common upload_common weak[OF mdtm] weak[OF site]
        weak[OF keeps_cwd(1)] weak[OF keeps_cwd(2)]
        weak[OF keeps_changing_commands(1)] weak[OF keeps_changing_commands(2)]
        weak[OF keeps_changing_commands(3)] weak[OF keeps_write_exit]
        weak[OF keeps_plain_commands(1)] weak[OF keeps_plain_commands(2)] weak[OF keeps_plain_commands(3)]
        weak[OF keeps_plain_commands(4)] weak[OF keeps_plain_commands(8)] weak[OF keeps_responses(3)]
        S_base S_chdir S_read)
      (use a S_mkdir S_change in \<open>auto simp: may\<close>)
qed

lemma commands_read: "keeps I (get_command E)" "keeps I (show_command E)" "keeps I (log_pending E)"
  unfolding get_command_def show_command_def log_pending_def
  by (intro safes S_base; simp)+

lemma command: "kept I R (one_command E)"
  unfolding one_command_def run_command_def
  by (intro kept_rules dispatches weak[OF commands_read(1)] weak[OF commands_read(2)] weak[OF commands_read(3)]
      weak[OF keeps_names(8)] weak[OF keeps_write_exit] weak[OF keeps_sys_ops(4)] S_base)
     (simp add: S_base base_allows)

lemma commands: "kept I R (command_loop E n)"
  by (induction n) (simp_all add: weak keeps_halt kept_seq command)

lemma http: "kept I R (handle_http E :: unit proc)"
proof -
  have h: "keeps I (eat_headers E n)" for n
    by (induction n) (auto intro!: safes commands_read(1))
  have p: "keeps I http_path"
    unfolding http_path_def by (rule keeps_upd_frame[OF S_base]) (simp add: same_core_def Let_def split: prod.split)
  show ?thesis
    unfolding handle_http_def
    by (intro kept_rules retr weak[OF h] weak[OF p] weak[OF keeps_names(9)] weak[OF keeps_upd_frame]
        weak[OF commands_read(3)] weak[OF keeps_exit] weak[OF keeps_bug] S_base) simp_all
qed

lemma session: "kept I R (process_post_login E)"
proof -
  have s: "keeps I (post_login_setup E)"
    unfolding post_login_setup_def by (intro safes S_base; simp)
  show ?thesis
    unfolding process_post_login_def
    by (intro kept_rules weak[OF s] http commands weak[OF keeps_banner(2)] weak[OF keeps_responses(3)]
        weak[OF keeps_sys_ops(4)] S_base S_read) (simp_all add: S_base base_allows)
qed

end

end
