(* ===== verification/Ftp_Policy.thy ===== *)
theory Ftp_Policy
  imports Ftp_Session
begin

text \<open>
  What a logged-in session does to the world outside, whatever the client sends and the system
  answers: the policy the configuration stands for, and its proof by the rules of Ftp_Session. The
  calls of the privileged parent, which run on the same trace, are covered too.
\<close>

section \<open>The policy\<close>

text \<open>\<open>a\<close> tells whether the session is anonymous.\<close>

definition unless_anonymous :: "env \<Rightarrow> bool \<Rightarrow> bool \<Rightarrow> bool" where
  "unless_anonymous E a allowed \<longleftrightarrow> tunable_write_enable E \<and> (a \<longrightarrow> allowed)"

definition target_allowed :: "env \<Rightarrow> broker \<Rightarrow> sockaddr \<Rightarrow> bool" where
  "target_allowed E B x \<longleftrightarrow> tunable_port_promiscuous E
     \<or> vsf_sysutil_sockaddr_addr_equal (peer B) x \<and> port_of x \<ge> 1024"

fun ftp_policy :: "env \<Rightarrow> broker \<Rightarrow> bool \<Rightarrow> event list \<Rightarrow> event \<Rightarrow> bool" where
  "ftp_policy E B a h (Mkdir _ m, _) = (unless_anonymous E a (tunable_anon_mkdir_write_enable E) \<and> m = 511)"
| "ftp_policy E B a h (Rmdir _, _) = unless_anonymous E a (tunable_anon_other_write_enable E)"
| "ftp_policy E B a h (Rename _ _, _) = unless_anonymous E a (tunable_anon_other_write_enable E)"
| "ftp_policy E B a h (Setmodtime _ _, _) = unless_anonymous E a (tunable_anon_other_write_enable E)"
| "ftp_policy E B a h (Unlink _, _) = (unless_anonymous E a (tunable_anon_other_write_enable E)
     \<or> tunable_delete_failed_uploads E \<and> unless_anonymous E a (tunable_anon_upload_enable E))"
| "ftp_policy E B a h (Chmod _ m, _) = (tunable_write_enable E \<and> tunable_chmod_enable E \<and> \<not> a \<and> and m 511 = m)"
| "ftp_policy E B a h (Create_exclusive _, _) = unless_anonymous E a (tunable_anon_upload_enable E)"
| "ftp_policy E B a h (Create_or_open _ m, _) = (unless_anonymous E a (tunable_anon_other_write_enable E)
     \<and> m = tunable_file_open_mode E)"
| "ftp_policy E B a h (Ftruncate _, _) = unless_anonymous E a (tunable_anon_other_write_enable E)"
| "ftp_policy E B a h (Fchmod _ m, _) = (tunable_write_enable E \<and> a
     \<and> (tunable_anon_upload_enable E \<or> tunable_anon_other_write_enable E) \<and> tunable_chown_uploads E \<and> m = and (tunable_chown_upload_mode E) 511)"
| "ftp_policy E B a h (Fchown fd uid gid, _) = (tunable_chown_uploads E \<and> broker_fchown_ok B h fd uid gid)"
| "ftp_policy E B a h (Connect _ x _, _) = target_allowed E B x"
| "ftp_policy E B a h (Bind _ x, _) = (vsf_sysutil_sockaddr_addr_equal (local_end B) x \<and> broker_port_ok E (port_of x))"
| "ftp_policy E B a h (Opendir _, _) = tunable_dirlist_enable E"
| "ftp_policy E B a h (Accept _ _, _) = True"
| "ftp_policy E B a h (Open_readonly _, _) = True"
| "ftp_policy E B a h (Chdir _, _) = True"
| "ftp_policy E B a h (c, _) = benign c"

text \<open>
  Both sessions agree with the broker's data; the target of a PORT command is allowed, except
  between setting and checking it.
\<close>

definition ftp_sess :: "broker \<Rightarrow> bool \<Rightarrow> vsf_session \<Rightarrow> vsf_session \<Rightarrow> bool" where
  "ftp_sess B a s t \<longleftrightarrow> broker_sess B s \<and> broker_sess B t \<and> is_anonymous s = a"

definition target_ok :: "env \<Rightarrow> broker \<Rightarrow> vsf_session \<Rightarrow> bool" where
  "target_ok E B s \<longleftrightarrow> (case p_port_sockaddr s of None \<Rightarrow> True | Some x \<Rightarrow> target_allowed E B x)"

abbreviation ftp_inv :: "env \<Rightarrow> broker \<Rightarrow> bool \<Rightarrow> world \<Rightarrow> bool" where
  "ftp_inv E B a \<equiv> policy (ftp_policy E B a) (\<lambda>s t. ftp_sess B a s t \<and> target_ok E B s)"

text \<open>The same for a session that begins after \<open>t\<close>.\<close>

abbreviation ftp_from :: "event list \<Rightarrow> env \<Rightarrow> broker \<Rightarrow> bool \<Rightarrow> world \<Rightarrow> bool" where
  "ftp_from t E B a \<equiv> policy_after t (ftp_policy E B a) (\<lambda>s t. ftp_sess B a s t \<and> target_ok E B s)"

abbreviation ftp_from_halted :: "event list \<Rightarrow> env \<Rightarrow> broker \<Rightarrow> bool \<Rightarrow> world \<Rightarrow> bool" where
  "ftp_from_halted t E B a \<equiv> policy_after t (ftp_policy E B a) (ftp_sess B a)"

abbreviation ftp_halted :: "env \<Rightarrow> broker \<Rightarrow> bool \<Rightarrow> world \<Rightarrow> bool" where
  "ftp_halted E B a \<equiv> policy (ftp_policy E B a) (ftp_sess B a)"

lemma ftp_benign: "benign c \<Longrightarrow> ftp_policy E B a h (c, r)"
  by (cases c) auto

lemma ftp_base: "base (ftp_from t E B a)" "base (ftp_from_halted t E B a)"
  by (rule policy_after_base; auto simp: ftp_benign ftp_sess_def broker_sess_def target_ok_def same_core_def)+

lemma ftp_upd: "(\<And>s. broker_sess B s \<Longrightarrow> broker_sess B (f s)) \<Longrightarrow> (\<And>s. is_anonymous (f s) = is_anonymous s) \<Longrightarrow>
    (\<And>s. p_port_sockaddr (f s) = p_port_sockaddr s) \<Longrightarrow> keeps (ftp_from t E B a) (upd f)"
  by (rule policy_after_upd) (simp add: ftp_sess_def target_ok_def)

section \<open>The privileged operations under it\<close>

interpretation child_host: broker_host E B "ftp_from t E B a" for t E B a
proof
  show "base (ftp_from t E B a)" by (rule ftp_base)
  show "keeps (ftp_from t E B a) (upd (\<lambda>s. s\<lparr>pasv_listen_fd := n\<rparr>))" for n
    by (rule ftp_upd) (simp_all add: broker_sess_def)
  show "keeps (ftp_from t E B a) (upd (\<lambda>s. s\<lparr>p_remote_addr := x\<rparr>))"
    if "same_host (peer B) x" for x
    by (rule ftp_upd) (simp_all add: broker_sess_def that)
qed (auto simp: policy_after_def allows_def chans_def ftp_sess_def target_allowed_def)

text \<open>The parent's turn: its session is the other one of the world.\<close>

lemma policy_swap_base:
  "(\<And>c h r. benign c \<Longrightarrow> P h (c, r)) \<Longrightarrow> (\<And>s t t'. J s t \<Longrightarrow> same_core t t' \<Longrightarrow> J s t') \<Longrightarrow>
     base (\<lambda>w. policy_after t0 P J (swap w))"
  by (simp add: base_def policy_after_def allows_def) blast

lemma broker_sess_core: "broker_sess B s \<Longrightarrow> same_core s t \<Longrightarrow> broker_sess B t"
  by (simp add: broker_sess_def same_core_def)

interpretation parent_of_child: broker_host E B "\<lambda>w. ftp_from t E B a (swap w)" for t E B a
proof
  show "base (\<lambda>w. ftp_from t E B a (swap w))"
    by (rule policy_swap_base) (auto simp: ftp_benign ftp_sess_def broker_sess_core)
  show "keeps (\<lambda>w. ftp_from t E B a (swap w)) (upd (\<lambda>s. s\<lparr>pasv_listen_fd := n\<rparr>))" for n
    by (rule keeps_upd) (simp add: policy_after_def ftp_sess_def broker_sess_def)
  show "keeps (\<lambda>w. ftp_from t E B a (swap w)) (upd (\<lambda>s. s\<lparr>p_remote_addr := x\<rparr>))"
    if "same_host (peer B) x" for x
    by (rule keeps_upd) (simp add: policy_after_def ftp_sess_def broker_sess_def that)
qed (simp_all add: policy_after_def allows_def chans_def ftp_sess_def target_allowed_def)

lemma ftp_parent_turn: "keeps (ftp_from t E B a) (parent_turn E)"
  unfolding parent_turn_def by (rule keeps_as_parent) (rule parent_of_child.request)

lemmas ftp_requests = keeps_requests[OF ftp_base(1) policy_after_chans ftp_parent_turn]

lemma ftp_direct:
  "keeps (ftp_from t E B a) (vsf_one_process_get_priv_data_sock E)" "keeps (ftp_from t E B a) (vsf_one_process_pasv_cleanup E)"
  "keeps (ftp_from t E B a) (vsf_one_process_pasv_active E)" "keeps (ftp_from t E B a) (vsf_one_process_listen E)"
  "keeps (ftp_from t E B a) (vsf_one_process_get_pasv_fd E)"
  unfolding vsf_one_process_get_priv_data_sock_def vsf_one_process_pasv_cleanup_def
    vsf_one_process_pasv_active_def vsf_one_process_listen_def vsf_one_process_get_pasv_fd_def
    port_sockaddr_port_def
  by (intro keeps_bind keeps_option keeps_return keeps_halt keeps_get_any keeps_lift_res ftp_base
      child_host.passive_ops child_host.data_sock policy_after_allows; simp add: policy_after_def target_ok_def)+

section \<open>PORT\<close>

text \<open>The target is checked before the command ends; while the refusal is written it may be a bad one.\<close>

lemma ftp_set_target: "triple (ftp_from t E B a) (set_target E f raw port illegal code text)
    (\<lambda>_. ftp_from t E B a) (ftp_from_halted t E B a)"
proof -
  let ?I = "ftp_from t E B a" and ?R = "ftp_from_halted t E B a"
  have weak: "triple ?I m (\<lambda>_. ?I) ?R" if "keeps ?I m" for m :: "unit proc"
    using that unfolding keeps_def by (rule triple_weaken[of ?I m "\<lambda>_. ?I" ?I]) (auto simp: policy_after_def)
  have halted: "triple ?R m (\<lambda>_. ?R) ?R" if "keeps ?R m" for m :: "unit proc"
    using that by (simp add: keeps_def)
  have refuse: "triple ?R (block [vsf_cmdio_write E FTP_BADCMD illegal, port_cleanup]) (\<lambda>_. ?I) ?R"
    unfolding block.simps seq_def port_cleanup_def
    by (rule triple_bind[where Q = "\<lambda>_. ?R"], rule halted, rule keeps_responses, rule ftp_base,
        rule triple_bind[where Q = "\<lambda>_. ?I"], rule triple_upd)
       (auto simp: policy_after_def ftp_sess_def broker_sess_def target_ok_def intro!: triple_return)
  have step: "triple ?I (seq (upd (\<lambda>s. s\<lparr>p_port_sockaddr := Some x\<rparr>))
     (if \<not> tunable_port_promiscuous E
        \<and> (\<not> vsf_sysutil_sockaddr_addr_equal r x \<or> vsf_sysutil_is_port_reserved port)
      then block [vsf_cmdio_write E FTP_BADCMD illegal, port_cleanup]
      else vsf_cmdio_write E code text)) (\<lambda>_. ?I) ?R"
    if p: "port_of x = port" and r: "same_host (peer B) r" for r x
  proof (cases "\<not> tunable_port_promiscuous E
        \<and> (\<not> vsf_sysutil_sockaddr_addr_equal r x \<or> vsf_sysutil_is_port_reserved port)")
    case True
    have "triple ?I (upd (\<lambda>s. s\<lparr>p_port_sockaddr := Some x\<rparr>)) (\<lambda>_. ?R) ?R"
      by (rule triple_upd) (simp add: policy_after_def ftp_sess_def broker_sess_def)
    then show ?thesis unfolding if_P[OF True] seq_def by (rule triple_bind) (rule refuse)
  next
    case False
    then have "target_allowed E B x"
      using p same_host_equal[OF r, of x] by (auto simp: target_allowed_def vsf_sysutil_is_port_reserved_def)
    then have "keeps ?I (upd (\<lambda>s. s\<lparr>p_port_sockaddr := Some x\<rparr>))"
      by (intro policy_after_upd) (simp add: ftp_sess_def broker_sess_def target_ok_def)
    then show ?thesis
      unfolding if_not_P[OF False] by (intro weak keeps_seq keeps_responses ftp_base)
  qed
  have lift: "triple ?I (bind (lift_res E m) k) (\<lambda>_. ?I) ?R"
    if k: "\<And>x. m = Inr x \<Longrightarrow> triple ?I (k x) (\<lambda>_. ?I) ?R" for m :: "sockaddr res" and k :: "sockaddr \<Rightarrow> unit proc"
  proof (cases m)
    case (Inl e)
    then have "bind (lift_res E m) k = bind (lift_res E m) (\<lambda>_. return ())"
      by (intro ext, cases e) (auto simp: lift_res_def bind_def bug_ends halt_def split: outcome.split)
    then show ?thesis by (simp only:) (intro weak keeps_bind keeps_lift_res keeps_return ftp_base)
  next
    case (Inr x)
    have "bind (return x) k = k x" by (rule ext) (simp add: bind_def return_def)
    then show ?thesis using Inr k by (simp add: lift_res_def)
  qed
  show ?thesis
    unfolding set_target_def
    by (rule triple_get, intro lift step) (auto simp: set_port_Inr policy_after_def ftp_sess_def broker_sess_def)
qed

section \<open>The session keeps to the policy\<close>

lemma ftp_keeps: "keeps (ftp_from t E B a) m \<Longrightarrow> kept (ftp_from t E B a) (ftp_from_halted t E B a) m"
  by (rule kept_keeps) (simp_all add: policy_after_def)

lemma ftp_services:
  "keeps (ftp_from t E B a) (service_active E)" "keeps (ftp_from t E B a) (service_listen E)"
  "keeps (ftp_from t E B a) (pasv_cleanup E)" "keeps (ftp_from t E B a) port_cleanup"
  "keeps (ftp_from t E B a) (vsf_ftpdataio_get_pasv_fd E)" "keeps (ftp_from t E B a) (vsf_ftpdataio_get_port_fd E)"
proof -
  have fd: "keeps (ftp_from t E B a) (upd (\<lambda>s. s\<lparr>data_fd := n\<rparr>))" for n
    by (rule ftp_upd) (simp_all add: broker_sess_def)
  show "keeps (ftp_from t E B a) (service_active E)" "keeps (ftp_from t E B a) (service_listen E)"
    "keeps (ftp_from t E B a) (pasv_cleanup E)"
    unfolding service_active_def service_listen_def pasv_cleanup_def by (intro keeps_if ftp_direct ftp_requests)+
  show "keeps (ftp_from t E B a) port_cleanup"
    unfolding port_cleanup_def by (rule policy_after_upd) (simp add: ftp_sess_def broker_sess_def target_ok_def)
  show "keeps (ftp_from t E B a) (vsf_ftpdataio_get_pasv_fd E)" "keeps (ftp_from t E B a) (vsf_ftpdataio_get_port_fd E)"
    unfolding vsf_ftpdataio_get_pasv_fd_def vsf_ftpdataio_get_port_fd_def
    by (intro fd keeps_data_fd ftp_direct ftp_requests safes ftp_base)+
qed

interpretation ftp: ftp_session E "ftp_from t E B a" "ftp_from_halted t E B a" a for t E B a
proof
  have b: "base (ftp_from t E B a)" by (rule ftp_base)
  have fd: "keeps (ftp_from t E B a) (upd (\<lambda>s. s\<lparr>data_fd := n\<rparr>))" for n
    by (rule ftp_upd) (simp_all add: broker_sess_def)
  have ends: "ftp_from t E B a w \<Longrightarrow> ftp_from_halted t E B a w" for w by (simp add: policy_after_def)
  have clean: "keeps (ftp_from t E B a) (block [pasv_cleanup E, port_cleanup])"
    "keeps (ftp_from t E B a) (block [port_cleanup, pasv_cleanup E])"
    by (intro keeps_block_Cons keeps_block_Nil ftp_services)+
  note cleaned = clean[THEN ftp_keeps, unfolded kept_def]
  show "base (ftp_from t E B a)" by (rule b)
  show "keeps (ftp_from t E B a) port_cleanup" by (rule ftp_services)
  show "keeps (ftp_from t E B a) (upd (\<lambda>s. s\<lparr>data_fd := n\<rparr>))" for n by (rule fd)
  show "kept (ftp_from t E B a) (ftp_from_halted t E B a) (chown_upload E fd)" if "tunable_chown_uploads E" for fd
    unfolding chown_upload_def vsf_one_process_chown_upload_def
    by (intro ftp_keeps keeps_if child_host.file_chown ftp_requests that)
  show "kept (ftp_from t E B a) (ftp_from_halted t E B a) (handle_rnfr E) \<and> kept (ftp_from t E B a) (ftp_from_halted t E B a) (handle_rnto E)"
    if "tunable_write_enable E" "a \<longrightarrow> tunable_anon_other_write_enable E"
  proof -
    have "keeps (ftp_from t E B a) (upd (\<lambda>s. s\<lparr>rnfr_filename_str := x\<rparr>))" for x
      by (rule ftp_upd) (simp_all add: broker_sess_def)
    moreover have "allows (ftp_from t E B a) (Rename x y)" for x y
      using that by (simp add: allows_def policy_after_def unless_anonymous_def)
    ultimately show ?thesis by (intro conjI ftp_keeps keeps_rename b)
  qed
  show "kept (ftp_from t E B a) (ftp_from_halted t E B a) (handle_pasv E v)" for v
    by (rule kept_pasv[OF b ends ftp_upd]) (simp_all add: broker_sess_def
        kept_enter_passive[OF b ends cleaned(1) ftp_services(2)[THEN ftp_keeps, unfolded kept_def]])
  show "kept (ftp_from t E B a) (ftp_from_halted t E B a) (handle_port E)" "kept (ftp_from t E B a) (ftp_from_halted t E B a) (handle_eprt E)"
    by (rule kept_target[OF b ends _ ftp_set_target _]; (rule cleaned)?; simp)+
qed (rule ftp_services[THEN ftp_keeps]
    | (simp add: policy_after_def ftp_sess_def allows_def unless_anonymous_def and.assoc; fail))+

lemma ftp_policy_kept_from:
  "triple (ftp_from t E B a) (process_post_login E) (\<lambda>_. ftp_from t E B a) (ftp_from_halted t E B a)"
  using ftp.session unfolding kept_def .

lemma ftp_policy_kept: "triple (ftp_inv E B a) (process_post_login E) (\<lambda>_. ftp_inv E B a) (ftp_halted E B a)"
  using ftp_policy_kept_from[of "[]"] by (simp add: policy_after_Nil)

end
