(* ===== verification/Ftp_Exclusive.thy ===== *)
theory Ftp_Exclusive
  imports Ftp_Session
begin

text \<open>
  PORT and PASV exclude each other in a logged-in session, for both process models. This is what ends
  the mutual recursion of port_active and pasv_active in src/postlogin.c, and what the calls of bug
  there rely on.
\<close>

section \<open>Requests and their answers\<close>

lemma keeps_Done: "keeps I m \<Longrightarrow> I w \<Longrightarrow> m w = Done x w' \<Longrightarrow> I w'"
  using tripleD[of I m "\<lambda>_. I" I w] by (simp add: keeps_def)

definition kept_to :: "(world \<Rightarrow> bool) \<Rightarrow> 'a proc \<Rightarrow> (world \<Rightarrow> bool) \<Rightarrow> bool" where
  "kept_to I m J \<longleftrightarrow> (\<forall>w x w'. I w \<longrightarrow> m w = Done x w' \<longrightarrow> J w')"

lemma kept_to_triple: "kept_to I m J \<longleftrightarrow> triple I m (\<lambda>_. J) (\<lambda>_. True)"
  unfolding kept_to_def triple_def by (auto split: outcome.splits)

lemma kept_Done: "kept I (\<lambda>_. True) m \<longleftrightarrow> (\<forall>w x w'. I w \<longrightarrow> m w = Done x w' \<longrightarrow> I w')"
  unfolding kept_def kept_to_triple[symmetric] kept_to_def by (rule refl)

text \<open>The request to give a file away, when it is answered.\<close>

lemma request_chown:
  assumes q: "quiet w" and t: "tunable_chown_uploads E"
    and d: "vsf_two_process_chown_upload E fd w = Done () w'"
  shows "as_parent (seq (vsf_privop_do_file_chown E fd) (vsf_sysutil_close E fd)) w = Done () w'"
proof -
  let ?w = "w\<lparr>c2p := [Byte PRIV_SOCK_CHOWN, Fd fd]\<rparr>"
  let ?k = "bind (priv_sock_get_result E Child_end) (\<lambda>res. if res \<noteq> PRIV_SOCK_RESULT_OK
     then die E ''unexpected failure in vsf_two_process_chown_upload'' else return ())"
  have cmd: "priv_sock_get_cmd E Parent_end (swap ?w) = Done PRIV_SOCK_CHOWN (swap w\<lparr>c2p := [Fd fd]\<rparr>)"
    using get_byte_sent(1)[of "swap ?w" PRIV_SOCK_CHOWN "[Fd fd]" E] by (simp add: swap_def)
  have turn: "vsf_two_process_chown_upload E fd w
    = (case cmd_process_chown E (swap w\<lparr>c2p := [Fd fd]\<rparr>) of
         Done _ v \<Rightarrow> ?k (swap v) | Halt h v \<Rightarrow> Halt h (swap v))"
    using q t cmd
    by (simp add: vsf_two_process_chown_upload_def bind_def seq_def priv_sock_send_cmd_def priv_sock_send_fd_def
        chan_write_def quiet_def parent_turn_def as_parent_def process_post_login_req_def return_def
        split: outcome.split)
  have fd: "fd \<noteq> -1"
  proof
    assume "fd = -1"
    then have "priv_sock_recv_fd E Parent_end (swap w\<lparr>c2p := [Fd fd]\<rparr>) \<noteq> Done x v" for x v
      by (simp add: priv_sock_recv_fd_def bind_def chan_read_def return_def bug_ends)
    then show False
      using d unfolding turn cmd_process_chown_def turn_Done by (simp add: bind_Done)
  qed
  have recv: "priv_sock_recv_fd E Parent_end (swap w\<lparr>c2p := [Fd fd]\<rparr>) = Done fd (swap w)"
    using recv_fd_sent(1)[OF fd, of "swap w\<lparr>c2p := [Fd fd]\<rparr>" "[]" E] q by (simp add: swap_def quiet_def)
  obtain v' where served: "cmd_process_chown E (swap w\<lparr>c2p := [Fd fd]\<rparr>) = Done () v'"
      and res: "?k (swap v') = Done () w'"
    using d unfolding turn turn_Done by blast
  have "block [vsf_privop_do_file_chown E fd, vsf_sysutil_close E fd,
          priv_sock_send_result Parent_end PRIV_SOCK_RESULT_OK] (swap w) = Done () v'"
    using recv served by (simp add: cmd_process_chown_def bind_def del: block.simps)
  then have "\<exists>u v. vsf_privop_do_file_chown E fd (swap w) = Done () u \<and> vsf_sysutil_close E fd u = Done () v
      \<and> priv_sock_send_result Parent_end PRIV_SOCK_RESULT_OK v = Done () v'"
    unfolding block.simps seq_Done by (simp add: return_def)
  then obtain u v where a: "vsf_privop_do_file_chown E fd (swap w) = Done () u" "vsf_sysutil_close E fd u = Done () v"
      and b: "priv_sock_send_result Parent_end PRIV_SOCK_RESULT_OK v = Done () v'"
    by blast
  have "quiet u" using q a(1) keeps_Done[OF keeps_privops_frame(6)[OF quiet_frame]] quiet_swap by blast
  then have v: "quiet v"
    using a(2) keeps_Done[OF keeps_sysutil_io(1)[OF frame_base[OF quiet_frame]]] by blast
  have "v' = v\<lparr>p2c := [Byte PRIV_SOCK_RESULT_OK]\<rparr>"
    using b answer_result[OF v, of PRIV_SOCK_RESULT_OK E "[]"] by simp
  then have "priv_sock_get_result E Child_end (swap v') = Done PRIV_SOCK_RESULT_OK (swap v)"
    using answer_result[OF v, of PRIV_SOCK_RESULT_OK E "[]"] by (simp add: quiet_id[OF v])
  then have "w' = swap v" using res by (simp add: bind_def return_def)
  then show ?thesis using a by (simp add: as_parent_Done seq_Done)
qed

section \<open>The invariant\<close>

text \<open>The side that holds the listening socket, and the worlds its service can be called in.\<close>

definition service_ready :: "env \<Rightarrow> world \<Rightarrow> bool" where
  "service_ready E w \<longleftrightarrow> tunable_one_process_model E \<or> quiet w"

definition passive_on :: "env \<Rightarrow> world \<Rightarrow> bool" where
  "passive_on E w \<longleftrightarrow> (if tunable_one_process_model E then one_on w else two_on w)"

definition port_on :: "world \<Rightarrow> bool" where
  "port_on w \<longleftrightarrow> p_port_sockaddr (sess w) \<noteq> None"

interpretation chosen: passive_service E "service_ready E" "passive_on E"
  "service_active E" "service_listen E" "pasv_cleanup E" for E
proof
  fix w w' :: world and p
  assume r: "service_ready E w"
  show "service_active E w = Done (if passive_on E w then 1 else 0) w"
    using r one_passive.active_tells[where w = w and E = E] two_passive.active_tells[where w = w and E = E]
    by (cases "tunable_one_process_model E") (simp_all add: service_active_def service_ready_def passive_on_def)
  show "service_ready E w' \<and> passive_on E w' \<and> pasv_min_port E \<le> p \<and> p \<le> pasv_max_port E"
    if "service_listen E w = Done p w'"
    using r that one_passive.listen_on[where w = w and E = E] two_passive.listen_on[where w = w and E = E]
    by (simp add: service_listen_def service_ready_def passive_on_def split: if_splits)
  show "service_listen E w \<noteq> Done p w'" if "passive_on E w"
    using r that one_passive.listen_once[where w = w and E = E] two_passive.listen_once[where w = w and E = E]
    by (simp add: service_listen_def service_ready_def passive_on_def split: if_splits)
  show "service_ready E w' \<and> \<not> passive_on E w'" if "pasv_cleanup E w = Done () w'"
    using r that one_passive.cleanup_off[where w = w and E = E] two_passive.cleanup_off[where w = w and E = E]
    by (simp add: pasv_cleanup_def service_ready_def passive_on_def split: if_splits)
qed

definition exclusive :: "env \<Rightarrow> bool \<Rightarrow> world \<Rightarrow> bool" where
  "exclusive E a w \<longleftrightarrow> service_ready E w \<and> \<not> (passive_on E w \<and> port_on w) \<and> is_anonymous (sess w) = a"


text \<open>The services leave the rest of the session alone.\<close>

definition seen :: "vsf_session \<Rightarrow> sockaddr option \<times> bool" where
  "seen s = (p_port_sockaddr s, is_anonymous s)"

lemma service_port:
  assumes r: "service_ready E w"
  shows "service_listen E w = Done p w' \<Longrightarrow> seen (sess w') = seen (sess w)"
    and "pasv_cleanup E w = Done u w' \<Longrightarrow> seen (sess w') = seen (sess w)"
proof -
  let ?I = "\<lambda>v. seen (sess v) = seen (sess w)"
  let ?F = "\<lambda>v. seen (psess v) = seen (sess w)"
  have al: "lets_serve ?I" and up: "keeps ?I (upd (\<lambda>s. s\<lparr>pasv_listen_fd := n\<rparr>))" for n
    by (auto simp: lets_serve_def base_def allows_def same_core_def seen_def intro: keeps_upd)
  have fr: "frame ?F" by (simp add: frame_def)
  note q = r[unfolded service_ready_def]
  show "seen (sess w') = seen (sess w)" if d: "service_listen E w = Done p w'"
  proof (cases "tunable_one_process_model E")
    case True
    then show ?thesis
      using d keeps_Done[OF keeps_privileged(5)[OF al up], of w E p w']
      by (simp add: service_listen_def vsf_one_process_listen_def)
  next
    case False
    then show ?thesis
      using d q keeps_Done[OF keeps_privops_frame(4)[OF fr], of "swap w" E p "swap w'"]
      by (simp add: service_listen_def request_listen as_parent_Done)
  qed
  show "seen (sess w') = seen (sess w)" if d: "pasv_cleanup E w = Done u w'"
  proof (cases "tunable_one_process_model E")
    case True
    then show ?thesis
      using d keeps_Done[OF keeps_privileged(6)[OF al up], of w E u w']
      by (simp add: pasv_cleanup_def vsf_one_process_pasv_cleanup_def)
  next
    case False
    then show ?thesis
      using d q keeps_Done[OF keeps_privops_frame(2)[OF fr], of "swap w" E u "swap w'"]
      by (simp add: pasv_cleanup_def request_cleanup as_parent_Done)
  qed
qed

section \<open>Every operation keeps it\<close>

abbreviation closed_down :: "env \<Rightarrow> bool \<Rightarrow> world \<Rightarrow> bool" where
  "closed_down E a w \<equiv> service_ready E w \<and> \<not> passive_on E w \<and> \<not> port_on w \<and> is_anonymous (sess w) = a"

lemmas exclusive_defs = exclusive_def service_ready_def passive_on_def port_on_def one_on_def two_on_def quiet_def

lemma exclusive_frame:
  "service_ready E (w\<lparr>trace := h\<rparr>) = service_ready E w" "passive_on E (w\<lparr>trace := h\<rparr>) = passive_on E w"
  "port_on (w\<lparr>trace := h\<rparr>) = port_on w"
  "service_ready E (w\<lparr>sess := s\<rparr>) = service_ready E w"
  "same_core (sess w) s \<Longrightarrow> passive_on E (w\<lparr>sess := s\<rparr>) = passive_on E w"
  "same_core (sess w) s \<Longrightarrow> port_on (w\<lparr>sess := s\<rparr>) = port_on w"
  by (simp_all add: exclusive_defs same_core_def)

lemma exclusive_base: "base (exclusive E a)" "base (closed_down E a)"
  by (auto simp: base_def allows_def exclusive_def exclusive_frame same_core_def)

lemma exclusive_parent_frame:
  "service_ready E (swap w) = service_ready E w"
  "passive_on E (swap (w\<lparr>trace := h\<rparr>)) = passive_on E (swap w)"
  "port_on (swap (w\<lparr>trace := h\<rparr>)) = port_on (swap w)"
  "same_core (sess w) s \<Longrightarrow> passive_on E (swap (w\<lparr>sess := s\<rparr>)) = passive_on E (swap w)"
  "port_on (swap (w\<lparr>sess := s\<rparr>)) = port_on (swap w)"
  by (simp_all add: exclusive_defs same_core_def swap_def)

lemma exclusive_parent_base: "base (\<lambda>w. exclusive E a (swap w))"
  by (auto simp: base_def allows_def exclusive_def exclusive_frame exclusive_parent_frame)

lemma exclusive_allows: "allows (exclusive E a) c" "allows (closed_down E a) c"
    "allows (\<lambda>w. exclusive E a (swap w)) c"
  by (simp_all add: allows_def exclusive_def exclusive_frame exclusive_parent_frame)

lemma exclusive_serve: "lets_serve (exclusive E a)" "lets_serve (\<lambda>w. exclusive E a (swap w))"
  by (simp_all add: lets_serve_def exclusive_base exclusive_parent_base exclusive_allows)

lemma exclusive_upd:
  assumes "\<And>s. pasv_listen_fd (f s) = pasv_listen_fd s"
    "\<And>s. p_port_sockaddr (f s) = p_port_sockaddr s \<or> p_port_sockaddr (f s) = None"
    "\<And>s. is_anonymous (f s) = is_anonymous s"
  shows "keeps (exclusive E a) (upd f)"
proof (rule keeps_upd)
  fix w assume "exclusive E a w"
  then show "exclusive E a (w\<lparr>sess := f (sess w)\<rparr>)"
    using assms(1)[of "sess w"] assms(2)[of "sess w"] assms(3)[of "sess w"] by (auto simp: exclusive_defs)
qed

lemma exclusive_parent:
  assumes "keeps (\<lambda>w. exclusive E a (swap w)) m" "exclusive E a w" "as_parent m w = Done x w'"
  shows "exclusive E a w'"
  using keeps_Done[OF assms(1), of "swap w" x "swap w'"] assms(2,3) by (simp add: as_parent_Done)

lemma closes_down:
  "kept_to (exclusive E a) (block [pasv_cleanup E, port_cleanup]) (closed_down E a)"
  "kept_to (exclusive E a) (block [port_cleanup, pasv_cleanup E]) (closed_down E a)"
proof -
  have port: "service_ready E (w\<lparr>sess := sess w\<lparr>p_port_sockaddr := None\<rparr>\<rparr>) = service_ready E w"
    "passive_on E (w\<lparr>sess := sess w\<lparr>p_port_sockaddr := None\<rparr>\<rparr>) = passive_on E w" for w
    by (simp_all add: exclusive_defs)
  show "kept_to (exclusive E a) (block [pasv_cleanup E, port_cleanup]) (closed_down E a)"
    unfolding kept_to_def
  proof (intro allI impI)
    fix w w' and x :: unit assume e: "exclusive E a w" and d: "block [pasv_cleanup E, port_cleanup] w = Done x w'"
    have r: "service_ready E w" using e by (simp add: exclusive_def)
    obtain v where v: "pasv_cleanup E w = Done () v" "w' = v\<lparr>sess := sess v\<lparr>p_port_sockaddr := None\<rparr>\<rparr>"
      using d unfolding block.simps seq_Done port_cleanup_def upd_def return_def by auto
    show "closed_down E a w'"
      using e chosen.cleanup_off[OF r v(1)] service_port(2)[OF r v(1)] v(2)
      by (simp add: port port_on_def seen_def exclusive_def)
  qed
  show "kept_to (exclusive E a) (block [port_cleanup, pasv_cleanup E]) (closed_down E a)"
    unfolding kept_to_def
  proof (intro allI impI)
    fix w w' and x :: unit assume e: "exclusive E a w" and d: "block [port_cleanup, pasv_cleanup E] w = Done x w'"
    let ?w = "w\<lparr>sess := sess w\<lparr>p_port_sockaddr := None\<rparr>\<rparr>"
    have r: "service_ready E ?w" using e by (simp add: port exclusive_def)
    have c: "pasv_cleanup E ?w = Done () w'"
      using d unfolding block.simps seq_Done port_cleanup_def upd_def return_def by auto
    show "closed_down E a w'"
      using e chosen.cleanup_off[OF r c] service_port(2)[OF r c] by (simp add: port_on_def seen_def exclusive_def)
  qed
qed

lemma listen_exclusive: "kept_to (closed_down E a) (service_listen E) (exclusive E a)"
  unfolding kept_to_def
proof (intro allI impI)
  fix w p w' assume c: "closed_down E a w" and l: "service_listen E w = Done p w'"
  show "exclusive E a w'"
    using c chosen.listen_on[of E w p w'] service_port(1)[of E w p w'] l by (simp add: exclusive_def port_on_def seen_def)
qed

lemma exclusive_services:
  "kept (exclusive E a) (\<lambda>_. True) (service_active E)" "kept (exclusive E a) (\<lambda>_. True) (pasv_cleanup E)"
proof -
  show "kept (exclusive E a) (\<lambda>_. True) (service_active E)"
    unfolding kept_Done using chosen.active_tells by (simp add: exclusive_def)
  show "kept (exclusive E a) (\<lambda>_. True) (pasv_cleanup E)"
    unfolding kept_Done
  proof (intro allI impI)
    fix w w' and x :: unit assume e: "exclusive E a w" and d: "pasv_cleanup E w = Done x w'"
    have r: "service_ready E w" using e by (simp add: exclusive_def)
    show "exclusive E a w'"
      using e d chosen.cleanup_off[OF r, of w'] service_port(2)[OF r d] by (simp add: exclusive_def seen_def)
  qed
qed

lemma exclusive_accept:
  "kept (exclusive E a) (\<lambda>_. True) (if tunable_one_process_model E then vsf_one_process_get_pasv_fd E
     else vsf_two_process_get_pasv_fd E)"
  unfolding kept_Done
proof (intro allI impI)
  fix w x w'
  assume e: "exclusive E a w" and d: "(if tunable_one_process_model E then vsf_one_process_get_pasv_fd E
     else vsf_two_process_get_pasv_fd E) w = Done x w'"
  show "exclusive E a w'"
  proof (cases "tunable_one_process_model E")
    case True
    then show ?thesis
      using d keeps_Done[OF keeps_privileged(1)[OF exclusive_serve(1)] e]
      by (simp add: vsf_one_process_get_pasv_fd_def)
  next
    case False
    have "keeps (\<lambda>w. exclusive E a (swap w)) (handing_over E (vsf_privop_accept_pasv E))"
      unfolding handing_over_def
      by (intro keeps_bind keeps_seq keeps_if keeps_return keeps_privileged exclusive_serve keeps_sysutil_io exclusive_parent_base)
    then show ?thesis
      using d e False exclusive_parent[of E a "handing_over E (vsf_privop_accept_pasv E)" w x w']
      by (simp add: request_accept exclusive_def service_ready_def)
  qed
qed

lemma port_sockaddr_port_Done: "port_sockaddr_port E w = Done p v \<longleftrightarrow>
    v = w \<and> (\<exists>a. p_port_sockaddr (sess w) = Some a \<and> vsf_sysutil_sockaddr_get_port a = Inr p)"
  by (auto simp: port_sockaddr_port_def bind_def get_def halt_def lift_Done split: option.splits)

lemma exclusive_data_sock:
  "kept (exclusive E a) (\<lambda>_. True) (vsf_one_process_get_priv_data_sock E)"
proof -
  have k: "keeps (exclusive E a) (vsf_privop_get_ftp_port_sock E p True)" for p
    by (rule keeps_privileged(4)[OF exclusive_serve(1)])
  show ?thesis
    unfolding kept_Done vsf_one_process_get_priv_data_sock_def bind_Done port_sockaddr_port_Done
    using keeps_Done[OF k] by blast
qed

lemma exclusive_two_data_sock:
  assumes two: "\<not> tunable_one_process_model E"
  shows "kept (exclusive E a) (\<lambda>_. True) (vsf_two_process_get_priv_data_sock E)"
  unfolding kept_Done
proof (intro allI impI)
  fix w y w' assume e: "exclusive E a w" and d: "vsf_two_process_get_priv_data_sock E w = Done y w'"
  obtain p x where x: "p_port_sockaddr (sess w) = Some x" "vsf_sysutil_sockaddr_get_port x = Inr p"
    using d by (auto simp: vsf_two_process_get_priv_data_sock_def bind_Done port_sockaddr_port_Done)
  have up: "keeps (\<lambda>w. exclusive E a (swap w)) (upd (\<lambda>s. s\<lparr>p_remote_addr := y\<rparr>))" for y
    by (rule keeps_upd) (simp add: exclusive_defs swap_def)
  have "keeps (\<lambda>w. exclusive E a (swap w)) (handing_over E (vsf_privop_get_ftp_port_sock E p False))"
    unfolding handing_over_def
    by (intro keeps_bind keeps_seq keeps_if keeps_return keeps_privileged up exclusive_serve keeps_sysutil_io
        exclusive_parent_base)
  then show "exclusive E a w'"
    using d e two exclusive_parent[of E a _ w y w'] request_data_sock[OF _ x, of E y w']
    by (simp add: exclusive_def service_ready_def)
qed

lemma exclusive_chown:
  assumes t: "tunable_chown_uploads E"
  shows "kept (exclusive E a) (\<lambda>_. True) (chown_upload E fd)"
  unfolding kept_Done
proof (intro allI impI)
  fix w u w' assume e: "exclusive E a w" and d: "chown_upload E fd w = Done u w'"
  show "exclusive E a w'"
  proof (cases "tunable_one_process_model E")
    case True
    then show ?thesis
      using d keeps_Done[OF keeps_privileged(2)[OF exclusive_serve(1)] e]
      by (simp add: chown_upload_def vsf_one_process_chown_upload_def)
  next
    case False
    have "keeps (\<lambda>w. exclusive E a (swap w)) (seq (vsf_privop_do_file_chown E fd) (vsf_sysutil_close E fd))"
      by (intro keeps_seq keeps_privileged exclusive_serve keeps_sysutil_io exclusive_parent_base)
    then show ?thesis
      using d e False exclusive_parent[of E a _ w u w'] request_chown[OF _ t, of w fd w']
      by (simp add: chown_upload_def exclusive_def service_ready_def)
  qed
qed

text \<open>With the service inactive, PORT sets its target without breaking the invariant.\<close>

lemma exclusive_set_target:
  "kept_to (closed_down E a) (set_target E f raw port illegal code text) (exclusive E a)"
proof -
  let ?J = "\<lambda>w. service_ready E w \<and> \<not> passive_on E w \<and> is_anonymous (sess w) = a"
  have b: "base ?J" unfolding base_def allows_def same_core_def exclusive_defs by (auto split: if_splits)
  have up: "keeps ?J (upd (\<lambda>s. s\<lparr>p_port_sockaddr := x\<rparr>))" for x
    by (rule keeps_upd) (simp add: exclusive_defs split: if_splits)
  have k: "keeps ?J (set_target E f raw port illegal code text)"
    unfolding set_target_def port_cleanup_def
    by (intro keeps_get_any keeps_bind keeps_seq keeps_if keeps_lift_res keeps_block_Cons keeps_block_Nil
        up keeps_responses b)
  show ?thesis
    unfolding kept_to_def exclusive_def using keeps_Done[OF k] by blast
qed

lemma exclusive_fds:
  "kept (exclusive E a) (\<lambda>_. True) (vsf_ftpdataio_get_pasv_fd E)"
  "kept (exclusive E a) (\<lambda>_. True) (vsf_ftpdataio_get_port_fd E)"
proof -
  have k: "keeps (exclusive E a) m \<Longrightarrow> kept (exclusive E a) (\<lambda>_. True) m" for m :: "'a proc"
    by (rule kept_keeps) simp_all
  have fd: "keeps (exclusive E a) (upd (\<lambda>s. s\<lparr>data_fd := n\<rparr>))" for n
    by (rule exclusive_upd) simp_all
  show "kept (exclusive E a) (\<lambda>_. True) (vsf_ftpdataio_get_pasv_fd E)"
    unfolding vsf_ftpdataio_get_pasv_fd_def
    by (intro kept_bind[OF exclusive_accept] kept_if k keeps_seq keeps_return keeps_responses keeps_data_fd
        fd exclusive_base)
  have "kept (exclusive E a) (\<lambda>_. True) (if tunable_one_process_model E \<or> tunable_port_promiscuous E
      then vsf_one_process_get_priv_data_sock E else vsf_two_process_get_priv_data_sock E)"
    using exclusive_data_sock exclusive_two_data_sock by auto
  then show "kept (exclusive E a) (\<lambda>_. True) (vsf_ftpdataio_get_port_fd E)"
    unfolding vsf_ftpdataio_get_port_fd_def
    by (rule kept_bind) (intro kept_if k keeps_seq keeps_return keeps_responses keeps_data_fd fd exclusive_base)
qed

interpretation exclusive: ftp_session E "exclusive E a" "\<lambda>_. True" a for E a
proof
  have fd: "keeps (exclusive E a) (upd (\<lambda>s. s\<lparr>data_fd := n\<rparr>))" for n
    by (rule exclusive_upd) simp_all
  have al: "allows (exclusive E a) c" for c by (rule exclusive_allows)
  have k: "keeps (exclusive E a) m \<Longrightarrow> kept (exclusive E a) (\<lambda>_. True) m" for m :: "'a proc"
    by (rule kept_keeps) simp_all
  show "base (exclusive E a)" by (rule exclusive_base)
  show "keeps (exclusive E a) port_cleanup"
    unfolding port_cleanup_def by (rule exclusive_upd) simp_all
  show "kept (exclusive E a) (\<lambda>_. True) (handle_rnfr E) \<and> kept (exclusive E a) (\<lambda>_. True) (handle_rnto E)"
  proof -
    have "keeps (exclusive E a) (upd (\<lambda>s. s\<lparr>rnfr_filename_str := x\<rparr>))" for x
      by (rule exclusive_upd) simp_all
    then show ?thesis by (intro conjI k keeps_rename exclusive_base al)
  qed
  show "kept (exclusive E a) (\<lambda>_. True) (handle_pasv E v)" for v
    by (rule kept_pasv[OF exclusive_base(1) TrueI exclusive_upd
          kept_enter_passive[OF exclusive_base(1) TrueI closes_down(1)[unfolded kept_to_triple]
            listen_exclusive[unfolded kept_to_triple]]]) simp_all
  have t: "triple (closed_down E a) (set_target E f raw port illegal code msg) (\<lambda>_. exclusive E a) (\<lambda>_. True)"
    for f raw port illegal code msg
    using exclusive_set_target unfolding kept_to_triple .
  have c: "closed_down E a w \<Longrightarrow> exclusive E a w" for w by (simp add: exclusive_def)
  show "kept (exclusive E a) (\<lambda>_. True) (handle_port E)"
    by (rule kept_target(1)[OF exclusive_base(2) TrueI c t closes_down(1)[unfolded kept_to_triple]])
  show "kept (exclusive E a) (\<lambda>_. True) (handle_eprt E)"
    by (rule kept_target(2)[OF exclusive_base(2) TrueI c t closes_down(2)[unfolded kept_to_triple]])
  show "exclusive E a w \<Longrightarrow> is_anonymous (sess w) = a" for w by (simp add: exclusive_def)
qed (rule exclusive_services exclusive_fds exclusive_chown exclusive_allows TrueI conjI impI exclusive_upd | simp; fail)+

section \<open>The questions have answers\<close>

text \<open>Two calls are enough where at most one connection is set up.\<close>

lemma active_ends:
  assumes "exclusive E a w"
  shows "pasv_active E (Suc (Suc n)) w = Done (passive_on E w) w" "port_active E (Suc (Suc n)) w = Done (port_on w) w"
  using assms chosen.active_tells[of E w]
  by (auto simp: bind_def get_def return_def exclusive_def port_on_def)

lemma connection_set:
  assumes "exclusive E a w" "fuel E \<ge> 2"
  shows "data_connection_set E w = Done (passive_on E w \<or> port_on w) w"
proof -
  obtain n where "fuel E = Suc (Suc n)" using assms(2) by (metis add_2_eq_Suc le_Suc_ex)
  then show ?thesis
    using active_ends[OF assms(1), of n]
    by (simp add: data_connection_set_def bind_def return_def del: port_active.simps pasv_active.simps)
qed

end
