(* ===== verification/Ftp_Rename.thy ===== *)
theory Ftp_Rename
  imports Ftp_Session
begin

text \<open>
  RNFR and RNTO of src/postlogin.c: whatever comes between the two, and whatever the client sends,
  a rename starts from a name that RNFR has found to exist, and each RNFR is good for one rename.
\<close>

text \<open>\<open>found n h\<close>: since the last rename, stat has found \<open>n\<close>.\<close>

definition is_rename :: "syscall \<Rightarrow> bool" where
  "is_rename c = (case c of Rename x y \<Rightarrow> True | _ \<Rightarrow> False)"

primrec found :: "string \<Rightarrow> event list \<Rightarrow> bool" where
  "found n [] = False"
| "found n (e # h) = (fst e = Stat n \<and> ret_stat (snd e) \<noteq> None \<or> \<not> is_rename (fst e) \<and> found n h)"

definition rename_policy :: "event list \<Rightarrow> event \<Rightarrow> bool" where
  "rename_policy h e = (case fst e of Rename x y \<Rightarrow> found x h | _ \<Rightarrow> True)"

definition rename_inv :: "bool \<Rightarrow> world \<Rightarrow> bool" where
  "rename_inv a w \<longleftrightarrow> guarded rename_policy (trace w) \<and> is_anonymous (sess w) = a
     \<and> (rnfr_filename_str (sess w) = [] \<or> found (c_text (rnfr_filename_str (sess w))) (trace w))"

definition renamed_inv :: "bool \<Rightarrow> world \<Rightarrow> bool" where
  "renamed_inv a w \<longleftrightarrow> guarded rename_policy (trace w) \<and> is_anonymous (sess w) = a"

lemma rename_policy_else: "\<not> is_rename c \<Longrightarrow> rename_policy h (c, r)"
  by (simp add: rename_policy_def is_rename_def split: syscall.splits)

lemma rename_allows:
  assumes "\<not> is_rename c"
  shows "allows (rename_inv a) c" "allows (\<lambda>w. rename_inv a (swap w)) c" "allows (renamed_inv a) c"
  using assms by (auto simp: allows_def rename_inv_def renamed_inv_def rename_policy_else)

lemma not_rename [simp]: "benign c \<Longrightarrow> \<not> is_rename c" "\<not> is_rename (Connect fd x u)" "\<not> is_rename (Bind fd x)"
    "\<not> is_rename (Accept fd t)" "\<not> is_rename (Fchown fd i g)" "\<not> is_rename (Mkdir n m)" "\<not> is_rename (Rmdir n)"
    "\<not> is_rename (Unlink n)" "\<not> is_rename (Setmodtime n d)" "\<not> is_rename (Create_or_open n m)"
    "\<not> is_rename (Ftruncate fd)" "\<not> is_rename (Create_exclusive n)" "\<not> is_rename (Chmod n m)"
    "\<not> is_rename (Fchmod fd m)" "\<not> is_rename (Chdir n)" "\<not> is_rename (Open_readonly n)" "\<not> is_rename (Opendir n)"
  by (cases c) (simp_all add: is_rename_def)

lemma rename_base: "base (rename_inv a)" "base (\<lambda>w. rename_inv a (swap w))" "base (renamed_inv a)"
proof -
  have s: "swap (w\<lparr>sess := s\<rparr>) = swap w\<lparr>psess := s\<rparr>" for w s by (simp add: swap_def)
  show "base (rename_inv a)" "base (\<lambda>w. rename_inv a (swap w))" "base (renamed_inv a)"
    unfolding base_def
    by (simp_all add: rename_allows s) (auto simp: rename_inv_def renamed_inv_def same_core_def)
qed

lemma rename_chans: "chans (rename_inv a)"
  by (simp add: chans_def rename_inv_def)

lemma rename_serve: "lets_serve (rename_inv a)" "lets_serve (\<lambda>w. rename_inv a (swap w))"
  by (simp_all add: lets_serve_def rename_base rename_allows)

lemma rename_upd: "(\<And>s. rnfr_filename_str (f s) = rnfr_filename_str s) \<Longrightarrow> (\<And>s. is_anonymous (f s) = is_anonymous s) \<Longrightarrow>
    keeps (rename_inv a) (upd f)"
  by (rule keeps_upd) (simp add: rename_inv_def)

lemma rename_parent: "keeps (rename_inv a) (parent_turn E)"
proof (rule keeps_parent_turn[OF rename_serve(2) rename_chans])
  show "keeps (\<lambda>w. rename_inv a (swap w)) (upd (\<lambda>s. s\<lparr>pasv_listen_fd := n\<rparr>))" for n
    by (rule keeps_upd) (simp add: rename_inv_def)
  show "keeps (\<lambda>w. rename_inv a (swap w)) (upd (\<lambda>s. s\<lparr>p_remote_addr := x\<rparr>))" for x
    by (rule keeps_upd) (simp add: rename_inv_def)
qed

lemmas rename_requests = keeps_requests[OF rename_base(1) rename_chans rename_parent]

lemma rename_directs: "keeps (rename_inv a) (vsf_one_process_get_priv_data_sock E)"
    "keeps (rename_inv a) (vsf_one_process_pasv_cleanup E)" "keeps (rename_inv a) (vsf_one_process_pasv_active E)"
    "keeps (rename_inv a) (vsf_one_process_listen E)" "keeps (rename_inv a) (vsf_one_process_get_pasv_fd E)"
    "keeps (rename_inv a) (vsf_one_process_chown_upload E fd)"
  by (intro keeps_directs rename_serve rename_upd; simp)+

text \<open>RNFR keeps the name it has found, RNTO forgets the name it has used.\<close>

lemma rename_keeps: "keeps (rename_inv a) m \<Longrightarrow> kept (rename_inv a) (renamed_inv a) m"
  by (rule kept_keeps) (simp_all add: rename_inv_def renamed_inv_def)

lemma rnfr: "keeps (rename_inv a) (handle_rnfr E)"
proof -
  let ?I = "rename_inv a"
  let ?K = "\<lambda>name w. ?I w \<and> found (c_text name) (trace w)"
  have clear: "keeps ?I (upd (\<lambda>s. s\<lparr>rnfr_filename_str := []\<rparr>))"
    by (rule keeps_upd) (simp add: rename_inv_def)
  have seen: "triple ?I (str_stat E name) (\<lambda>st w. if st \<noteq> None then ?K name w else ?I w) ?I" for name
    unfolding str_stat_def by (rule triple_sys_ops(3)) (auto simp: rename_inv_def is_rename_def rename_policy_def)
  have take: "triple (?K name) (seq (upd (\<lambda>s. s\<lparr>rnfr_filename_str := name\<rparr>)) m) (\<lambda>_. ?I) ?I"
    if "keeps ?I m" for name and m :: "unit proc"
    unfolding seq_def using that unfolding keeps_def
    by (intro triple_bind[where Q = "\<lambda>_. ?I"] triple_upd) (simp_all add: rename_inv_def)
  have branch: "triple (\<lambda>w. if st \<noteq> None then ?K name w else ?I w) (if st \<noteq> None
       then block [upd (\<lambda>s. s\<lparr>rnfr_filename_str := name\<rparr>), vsf_cmdio_write E FTP_RNFROK ''Ready for RNTO.'']
       else block [log_rename E name, vsf_cmdio_write E FTP_FILEFAIL ''RNFR command failed.'']) (\<lambda>_. ?I) ?I"
    for st name
  proof (cases st)
    case None
    have "keeps ?I (block [log_rename E name, vsf_cmdio_write E FTP_FILEFAIL ''RNFR command failed.''])"
      by (intro keeps_block_Cons keeps_block_Nil keeps_names keeps_responses rename_base)
    then show ?thesis using None by (simp add: keeps_def)
  next
    case (Some x)
    have "keeps ?I (block [vsf_cmdio_write E FTP_RNFROK ''Ready for RNTO.''])"
      by (intro keeps_block_Cons keeps_block_Nil keeps_responses rename_base)
    then show ?thesis using Some take[of "block [vsf_cmdio_write E FTP_RNFROK ''Ready for RNTO.'']" name] by simp
  qed
  have answer: "keeps ?I (bind (str_stat E name) (\<lambda>st. if st \<noteq> None
       then block [upd (\<lambda>s. s\<lparr>rnfr_filename_str := name\<rparr>), vsf_cmdio_write E FTP_RNFROK ''Ready for RNTO.'']
       else block [log_rename E name, vsf_cmdio_write E FTP_FILEFAIL ''RNFR command failed.'']))" for name
    unfolding keeps_def by (rule triple_bind[OF seen branch])
  show ?thesis
    unfolding handle_rnfr_def Let_def
    by (intro keeps_seq keeps_bind keeps_if keeps_get_any keeps_block_Cons keeps_block_Nil clear answer
        keeps_names keeps_access keeps_responses rename_base)
qed

lemma rnto: "kept (rename_inv a) (renamed_inv a) (handle_rnto E)"
proof -
  let ?I = "rename_inv a" and ?R = "renamed_inv a"
  let ?J = "\<lambda>x w. ?I w \<and> found (c_text x) (trace w)"
  have b: "base (?J x)" for x
    using rename_base(1)[of a] by (auto simp: base_def allows_def)
  have ends: "?J x w \<Longrightarrow> ?R w" "?I w \<Longrightarrow> ?R w" for x w by (simp_all add: rename_inv_def renamed_inv_def)
  have plain: "triple ?I m (\<lambda>_. ?I) ?R" if "keeps ?I m" for m :: "unit proc"
    using rename_keeps[OF that] by (simp add: kept_def)
  have frm: "triple (?J x) m (\<lambda>_. ?J x) ?R" if "keeps (?J x) m" for x and m :: "'a proc"
    using that unfolding keeps_def by (rule triple_weaken[of "?J x" m "\<lambda>_. ?J x" "?J x"]) (simp_all add: ends)
  have stop: "triple (?J x) m (\<lambda>_. ?I) ?R" if "keeps (?J x) m" for x and m :: "unit proc"
    using that unfolding keeps_def by (rule triple_weaken[of "?J x" m "\<lambda>_. ?J x" "?J x"]) (simp_all add: ends)
  have ren: "triple (?J x) (str_rename E x y) (\<lambda>_. ?R) ?R" for x y
    unfolding str_rename_def
    by (rule triple_sys_ops(1)) (auto simp: rename_inv_def renamed_inv_def rename_policy_def)
  have clear: "triple ?R (upd (\<lambda>s. s\<lparr>rnfr_filename_str := []\<rparr>)) (\<lambda>_. ?I) ?R"
    by (rule triple_upd) (simp add: rename_inv_def renamed_inv_def)
  have say: "keeps ?I (if c then block [vsf_log_do_log E True, vsf_cmdio_write E n t] else vsf_cmdio_write E m u)"
    for c n t m u
    by (intro keeps_if keeps_block_Cons keeps_block_Nil keeps_logging keeps_responses rename_base)
  have log: "keeps (?J x) (upd (\<lambda>s. s\<lparr>log_str := log_str s @ '' '' @ path\<rparr>))" for x path
    by (rule keeps_upd_frame[OF b]) simp
  have prep: "keeps (?J x) (block [resolve_arg E, log_rename E x])" for x
    by (intro keeps_block_Cons keeps_block_Nil keeps_names b)
  have from_name: "triple (?J x) (seq (block [resolve_arg E, log_rename E x]) (bind get (\<lambda>p_sess.
      let name = ftp_arg_str p_sess in
      bind (prepend_path_to_filename E name) (\<lambda>path.
      seq (upd (\<lambda>s. s\<lparr>log_str := log_str s @ '' '' @ path\<rparr>))
      (bind (vsf_access_check_file E name) (\<lambda>ok.
       if \<not> ok then permission_denied E
       else bind (str_rename E x name) (\<lambda>retval.
         seq (upd (\<lambda>s. s\<lparr>rnfr_filename_str := []\<rparr>))
         (if retval = 0
          then block [vsf_log_do_log E True, vsf_cmdio_write E FTP_RENAMEOK ''Rename successful.'']
          else vsf_cmdio_write E FTP_FILEFAIL ''Rename failed.'')))))))) (\<lambda>_. ?I) ?R" for x
    unfolding seq_def Let_def
    by (intro triple_bind[OF frm[OF prep]] triple_get triple_bind[OF frm[OF keeps_names(3)[OF b]]]
        triple_bind[OF frm[OF log]] triple_bind[OF frm[OF keeps_access(3)[OF b]]] triple_if
        stop[OF keeps_names(8)[OF b]] triple_bind[OF ren] triple_bind[OF clear] plain[OF say])
  show ?thesis
    unfolding kept_def handle_rnto_def Let_def
  proof (rule triple_get_at, rule triple_if, goal_cases)
    case (1 s)
    have "triple ?I (vsf_cmdio_write E FTP_NEEDRNFR ''RNFR required first.'') (\<lambda>_. ?I) ?R"
      by (intro plain keeps_responses rename_base)
    then show ?case by (rule triple_weaken) simp_all
  next
    case (2 s)
    show ?case
      by (rule triple_weaken[OF from_name[of "rnfr_filename_str s", unfolded Let_def]])
         (use 2 in \<open>auto simp: rename_inv_def\<close>)
  qed
qed

interpretation rename: ftp_session E "rename_inv a" "renamed_inv a" a for E a
proof
  have b: "base (rename_inv a)" by (rule rename_base)
  have ends: "rename_inv a w \<Longrightarrow> renamed_inv a w" for w by (simp add: rename_inv_def renamed_inv_def)
  have fd: "keeps (rename_inv a) (upd (\<lambda>s. s\<lparr>data_fd := n\<rparr>))" for n by (rule rename_upd) simp_all
  have port: "keeps (rename_inv a) port_cleanup" unfolding port_cleanup_def by (rule rename_upd) simp_all
  have serve: "keeps (rename_inv a) (service_active E)" "keeps (rename_inv a) (service_listen E)"
    "keeps (rename_inv a) (pasv_cleanup E)" "keeps (rename_inv a) (chown_upload E n)" for n
    unfolding service_active_def service_listen_def pasv_cleanup_def chown_upload_def
    by (intro keeps_if rename_requests rename_directs)+
  have fds: "keeps (rename_inv a) (vsf_ftpdataio_get_pasv_fd E)" "keeps (rename_inv a) (vsf_ftpdataio_get_port_fd E)"
    unfolding vsf_ftpdataio_get_pasv_fd_def vsf_ftpdataio_get_port_fd_def
    by (intro keeps_bind keeps_if keeps_seq keeps_return keeps_responses keeps_data_fd fd rename_requests
        rename_directs b)+
  have clean: "keeps (rename_inv a) (block [pasv_cleanup E, port_cleanup])"
    "keeps (rename_inv a) (block [port_cleanup, pasv_cleanup E])"
    by (intro keeps_block_Cons keeps_block_Nil serve port)+
  have target: "keeps (rename_inv a) (set_target E f raw n illegal code msg)" for f raw n illegal code msg
    unfolding set_target_def
    by (intro keeps_get_any keeps_bind keeps_seq keeps_if keeps_lift_res keeps_block_Cons keeps_block_Nil
        port keeps_responses rename_upd b; simp)
  note k = clean[THEN rename_keeps, unfolded kept_def] target[THEN rename_keeps, unfolded kept_def]
  show "base (rename_inv a)" "keeps (rename_inv a) port_cleanup" by (rule b port)+
  show "keeps (rename_inv a) (upd (\<lambda>s. s\<lparr>data_fd := n\<rparr>))" for n by (rule fd)
  show "rename_inv a w \<Longrightarrow> renamed_inv a w" for w by (rule ends)
  show "rename_inv a w \<Longrightarrow> is_anonymous (sess w) = a" for w by (simp add: rename_inv_def)
  show "kept (rename_inv a) (renamed_inv a) (handle_rnfr E) \<and> kept (rename_inv a) (renamed_inv a) (handle_rnto E)"
    by (intro conjI rename_keeps rnfr rnto)
  show "kept (rename_inv a) (renamed_inv a) (handle_pasv E v)" for v
    by (rule kept_pasv[OF b ends rename_upd
          kept_enter_passive[OF b ends k(1) serve(2)[THEN rename_keeps, unfolded kept_def]]]) simp_all
  show "kept (rename_inv a) (renamed_inv a) (handle_port E)" "kept (rename_inv a) (renamed_inv a) (handle_eprt E)"
    by (rule kept_target(1)[OF b ends _ k(3) k(1)] kept_target(2)[OF b ends _ k(3) k(2)]; assumption)+
  show "kept (rename_inv a) (renamed_inv a) (service_active E)" "kept (rename_inv a) (renamed_inv a) (pasv_cleanup E)"
    "kept (rename_inv a) (renamed_inv a) (vsf_ftpdataio_get_pasv_fd E)"
    "kept (rename_inv a) (renamed_inv a) (vsf_ftpdataio_get_port_fd E)"
    "kept (rename_inv a) (renamed_inv a) (chown_upload E n)" for n
    by (intro rename_keeps serve fds)+
qed (simp_all add: rename_allows)

end
