(* ===== verification/Transfers.thy ===== *)
theory Transfers
  imports Ftpdataio
begin

text \<open>
  What the data transfers of src/ftpdataio.c achieve: an upload in binary mode is a faithful copy, a
  download sends adjoining pieces up to the end of the file, a listing loses nothing to the coalescing
  of its lines; and what becomes of the two ASCII modes.
\<close>

section \<open>Chunks and lines\<close>

lemma chunk_size_bounds: "4096 \<le> get_chunk_size E" "get_chunk_size E \<le> 65536"
  by (simp_all add: get_chunk_size_def VSFTP_DATA_BUFSIZE_def Let_def)

lemma coalesce_concat: "lines \<noteq> [] \<Longrightarrow> concat (coalesce b lines) = b @ concat lines"
  by (induction b lines rule: coalesce.induct) auto

lemma coalesce_fits:
  assumes "length b \<le> VSFTP_DIR_BUFSIZE" "\<forall>l \<in> set lines. length l \<le> VSFTP_DIR_BUFSIZE"
    "lines = [] \<or> length b + length (hd lines) \<le> VSFTP_DIR_BUFSIZE"
  shows "\<forall>p \<in> set (coalesce b lines). length p \<le> VSFTP_DIR_BUFSIZE"
  using assms by (induction b lines rule: coalesce.induct) auto

text \<open>Two pieces in a row never fit together: there are as few writes as the order allows.\<close>

lemma coalesce_nonempty: "lines \<noteq> [] \<Longrightarrow> coalesce b lines \<noteq> []"
  by (induction b lines rule: coalesce.induct) auto

section \<open>What has been read and written\<close>

primrec written :: "int \<Rightarrow> event list \<Rightarrow> string" where
  "written fd [] = []"
| "written fd (e # h) = written fd h @ (case fst e of
     Write f d \<Rightarrow> if f = fd then take (nat (ret_int (snd e))) d else [] | _ \<Rightarrow> [])"

text \<open>How much a call asks to read from a descriptor.\<close>

definition asked :: "int \<Rightarrow> syscall \<Rightarrow> int option" where
  "asked fd c = (case c of Call f ns ss \<Rightarrow>
     if f = ''read'' \<and> ss = [] \<and> length ns = 2 \<and> ns ! 0 = fd then Some (ns ! 1) else None | _ \<Rightarrow> None)"

definition got :: "int \<Rightarrow> event \<Rightarrow> string" where
  "got fd e = (case asked fd (fst e) of None \<Rightarrow> []
     | Some n \<Rightarrow> (case ret_str (snd e) of None \<Rightarrow> [] | Some d \<Rightarrow> take (nat n) d))"

primrec received :: "int \<Rightarrow> event list \<Rightarrow> string" where
  "received fd [] = []"
| "received fd (e # h) = received fd h @ got fd e"

text \<open>No alarm goes off and no urgent data comes in.\<close>

definition undisturbed :: "env \<Rightarrow> bool" where
  "undisturbed E \<longleftrightarrow> (\<forall>h. ret_int (os E h (Call ''pending_sigalrm'' [] [])) = 0
     \<and> ret_int (os E h (Call ''pending_sigurg'' [] [])) = 0)"

definition copied :: "int \<Rightarrow> int \<Rightarrow> string \<Rightarrow> string \<Rightarrow> world \<Rightarrow> bool" where
  "copied net file x y w \<longleftrightarrow> received net (trace w) = x \<and> written file (trace w) = y
     \<and> data_fd (sess w) = net \<and> \<not> data_use_ssl (sess w)"

text \<open>
  What waiting for signals and the bandwidth limit leave alone: \<open>unmoved I\<close> says that \<open>I\<close>
  looks only at data that is moved.
\<close>

definition aside :: "syscall \<Rightarrow> bool" where
  "aside c = (case c of Call f ns ss \<Rightarrow> f \<noteq> ''read'' \<and> f \<noteq> ''sendfile'' | _ \<Rightarrow> False)"

definition unmoved :: "(world \<Rightarrow> bool) \<Rightarrow> bool" where
  "unmoved I \<longleftrightarrow> (\<forall>c. aside c \<longrightarrow> allows I c)
     \<and> (\<forall>f. (\<forall>s. data_fd (f s) = data_fd s \<and> data_use_ssl (f s) = data_use_ssl s) \<longrightarrow> keeps I (upd f))"

lemma keeps_no_signal:
  assumes u: "undisturbed E" and i: "unmoved I"
  shows "keeps I (bind (sys_int E (Call ''pending_sigalrm'' [] [])) (\<lambda>fired. whenp (fired > 0) m))"
    "keeps I (bind (sys_int E (Call ''pending_sigurg'' [] [])) (\<lambda>fired. whenp (fired > 0) m))"
proof -
  have "keeps I (bind (sys_int E c) (\<lambda>fired. whenp (fired > 0) m))"
    if "aside c" "\<And>h. ret_int (os E h c) = 0" for c
  proof -
    have "bind (sys_int E c) (\<lambda>fired. whenp (fired > 0) m) = bind (sys_int E c) (\<lambda>_. return ())"
      using that(2) by (intro ext) (simp add: bind_def sys_int_def sys_def Let_def return_def whenp_def)
    moreover have "allows I c" using i that(1) by (simp add: unmoved_def)
    ultimately show ?thesis by (simp only:) (intro keeps_bind keeps_sys_ops keeps_return)
  qed
  then show "keeps I (bind (sys_int E (Call ''pending_sigalrm'' [] [])) (\<lambda>fired. whenp (fired > 0) m))"
    "keeps I (bind (sys_int E (Call ''pending_sigurg'' [] [])) (\<lambda>fired. whenp (fired > 0) m))"
    using u by (simp_all add: undisturbed_def aside_def)
qed

lemma keeps_pending:
  assumes u: "undisturbed E" and i: "unmoved I"
  shows "keeps I (check_pending_actions E n fd)"
proof -
  have up: "keeps I (upd f)" if "\<And>s. data_fd (f s) = data_fd s" "\<And>s. data_use_ssl (f s) = data_use_ssl s" for f
    using i that by (simp add: unmoved_def)
  have t: "allows I Time_sec" "allows I Time_usec" "allows I (Call ''sleep'' ns ss)" for ns ss
    using i by (simp_all add: unmoved_def aside_def)
  have io: "keeps I (handle_io E n fd)"
    unfolding handle_io_def Let_def
    by (intro keeps_get_any keeps_if keeps_return keeps_seq keeps_bind keeps_sys_ops up t; simp)
  have urgent: "keeps I (bind get (\<lambda>p_sess. whenp (tunable_async_abor_enable E \<and> \<not> control_use_ssl p_sess)
       (bind (sys_int E (Call ''pending_sigurg'' [] [])) (\<lambda>fired. whenp (fired > 0) (handle_sigurg E)))))"
    by (rule keeps_bind[OF keeps_get_any], rule keeps_whenp, rule keeps_no_signal[OF u i])
  show ?thesis
    unfolding check_pending_actions_def
    by (intro keeps_block_Cons keeps_block_Nil io keeps_whenp keeps_no_signal u i urgent)
qed

lemma pending_Done: "undisturbed E \<Longrightarrow> unmoved I \<Longrightarrow> I w \<Longrightarrow> check_pending_actions E n fd w = Done () w' \<Longrightarrow> I w'"
  using tripleD[OF keeps_pending[unfolded keeps_def], of E I w n fd] by simp

lemma copied_unmoved: "unmoved (copied net file x y)"
  by (auto simp: unmoved_def allows_def copied_def aside_def got_def asked_def intro!: keeps_upd
      split: syscall.splits)

section \<open>Uploads\<close>

text \<open>One round reads a piece, the next writes it.\<close>

lemma read_round:
  assumes u: "undisturbed E" and c: "copied net file x y w"
    and r: "ftp_read_data E n w = Done d w'"
  shows "copied net file (x @ (case d of None \<Rightarrow> [] | Some d \<Rightarrow> d)) y w'"
proof -
  have fd: "data_fd (sess w) = net" "\<not> data_use_ssl (sess w)" using c by (simp_all add: copied_def)
  let ?r = "os E (trace w) (Read net (int n))"
  let ?v = "w\<lparr>trace := (Read net (int n), ?r) # trace w\<rparr>"
  have v: "copied net file (x @ (case ret_str ?r of None \<Rightarrow> [] | Some d \<Rightarrow> take n d)) y ?v"
    using c by (simp add: copied_def got_def asked_def split: option.split)
  have "check_pending_actions E m f ?v = Done () w'' \<Longrightarrow>
      copied net file (x @ (case ret_str ?r of None \<Rightarrow> [] | Some d \<Rightarrow> take n d)) y w''" for m f w''
    using pending_Done[OF u copied_unmoved v] by simp
  then show ?thesis
    using r fd by (auto simp: ftp_read_data_def vsf_sysutil_read_def bind_Done get_def sys_str_def
        sys_def Let_def return_def seq_Done split: option.splits)
qed

lemma write_round:
  assumes u: "undisturbed E" and c: "copied net file x y w"
    and r: "vsf_sysutil_write_loop E file d w = Done n w'"
  shows "copied net file x (y @ take (nat n) d) w'"
proof -
  let ?r = "os E (trace w) (Write file d)"
  let ?v = "w\<lparr>trace := (Write file d, ?r) # trace w\<rparr>"
  have v: "copied net file x (y @ take (nat (ret_int ?r)) d) ?v"
    using c by (simp add: copied_def got_def asked_def)
  have "check_pending_actions E m f ?v = Done () w'' \<Longrightarrow>
      copied net file x (y @ take (nat (ret_int ?r)) d) w''" for m f w''
    using pending_Done[OF u copied_unmoved v] by simp
  then show ?thesis
    using r by (auto simp: vsf_sysutil_write_loop_def bind_Done sys_int_def sys_def Let_def return_def seq_Done)
qed

lemma recv_loop_copies:
  assumes u: "undisturbed E"
  shows "copied net file x y w \<Longrightarrow> recv_loop E file False n cr moved w = Done r w' \<Longrightarrow> \<not> cr \<Longrightarrow> retval r \<noteq> -1 \<Longrightarrow>
    \<exists>d. copied net file (x @ d) (y @ d) w' \<and> transferred r = moved + int (length d)"
proof (induction n arbitrary: x y w moved)
  case 0
  then show ?case by (simp add: halt_def)
next
  case (Suc n)
  note c = Suc.prems(1)
  from Suc.prems(2) obtain d v where read: "ftp_read_data E (get_chunk_size E) w = Done d v"
    and rest: "(case d of None \<Rightarrow> return \<lparr>retval = -2, transferred = moved\<rparr>
     | Some d \<Rightarrow> if d = [] \<and> \<not> cr then return \<lparr>retval = 0, transferred = moved\<rparr>
         else let moved = moved + int (length d) in
         bind (lift_res E (incoming False cr d)) (\<lambda>(out, cr).
           bind (vsf_sysutil_write_loop E file out) (\<lambda>ret.
             if vsf_sysutil_retval_is_error ret \<or> ret \<noteq> int (length out)
             then return \<lparr>retval = -1, transferred = moved\<rparr>
             else recv_loop E file False n cr moved))) v = Done r w'"
    by (auto simp: bind_Done)
  have cv: "copied net file (x @ (case d of None \<Rightarrow> [] | Some d \<Rightarrow> d)) y v" by (rule read_round[OF u c read])
  show ?case
  proof (cases "d = None \<or> d = Some []")
    case True
    then show ?thesis using rest cv Suc.prems(3) by (intro exI[of _ "[]"]) (auto simp: return_def)
  next
    case False
    then obtain s where s: "d = Some s" "s \<noteq> []" by auto
    obtain k u' where wr: "vsf_sysutil_write_loop E file s v = Done k u'"
      and next_round: "(if vsf_sysutil_retval_is_error k \<or> k \<noteq> int (length s)
             then return \<lparr>retval = -1, transferred = moved + int (length s)\<rparr>
             else recv_loop E file False n cr (moved + int (length s))) u' = Done r w'"
      using rest s by (auto simp: incoming_def bind_Done lift_Done Let_def)
    have k: "k = int (length s)" "recv_loop E file False n cr (moved + int (length s)) u' = Done r w'"
      using next_round Suc.prems(4) by (auto simp: return_def split: if_splits)
    have "copied net file (x @ s) (y @ s) u'" using write_round[OF u cv wr] s k by simp
    from Suc.IH[OF this k(2) Suc.prems(3,4)] show ?thesis
      by (metis append_assoc length_append of_nat_add add.assoc)
  qed
qed

text \<open>With a byte read, the ASCII conversion of an upload fails, so no ASCII upload gets one byte through.\<close>

lemma ascii_incoming: "\<exists>e. incoming True cr d = Inl e"
proof (cases "d = [] \<and> \<not> cr")
  case True
  then show ?thesis
    by (simp add: incoming_def rbind_def vsf_ascii_ascii_to_bin_def ascii_to_bin_loop.simps VSFTP_DATA_BUFSIZE_def)
next
  case False
  then have "\<nexists>r. vsf_ascii_ascii_to_bin (NUL # d) (length d) cr = Inr r"
    using ascii_to_bin_returns[of "NUL # d" "length d" cr] by simp
  then obtain e where "vsf_ascii_ascii_to_bin (NUL # d) (length d) cr = Inl e"
    by (cases "vsf_ascii_ascii_to_bin (NUL # d) (length d) cr") auto
  then show ?thesis by (simp add: incoming_def rbind_def)
qed

lemma ascii_recv_moves_nothing:
  assumes d: "recv_loop E file True n False moved w = Done r w'"
  shows "transferred r = moved"
proof (cases n)
  case (Suc m)
  have no: "bind (lift_res E (incoming True False s)) k v \<noteq> Done r w'" for s k v
    using ascii_incoming[of False s] by (auto simp: bind_Done lift_Done)
  from d[unfolded Suc] obtain o' v where "(case o' of None \<Rightarrow> return \<lparr>retval = -2, transferred = moved\<rparr>
     | Some d \<Rightarrow> if d = [] \<and> \<not> False then return \<lparr>retval = 0, transferred = moved\<rparr>
         else let moved = moved + int (length d) in
         bind (lift_res E (incoming True False d)) (\<lambda>(out, cr).
           bind (vsf_sysutil_write_loop E file out) (\<lambda>ret.
             if vsf_sysutil_retval_is_error ret \<or> ret \<noteq> int (length out)
             then return \<lparr>retval = -1, transferred = moved\<rparr>
             else recv_loop E file True m cr moved))) v = Done r w'"
    unfolding recv_loop.simps bind_Done by blast
  then show ?thesis unfolding Let_def by (auto simp: no return_def split: option.splits if_splits)
qed (use d in \<open>simp add: halt_def\<close>)

section \<open>Downloads\<close>

text \<open>An ASCII download sends as many bytes as it should, all of them NUL.\<close>

lemma ascii_outgoing:
  "outgoing True cr d = Inr (s, c) \<Longrightarrow> set s \<subseteq> {NUL} \<and> 2 * length d \<le> VSFTP_DATA_BUFSIZE"
  by (auto simp: outgoing_def rbind_def split: if_splits sum.splits)

text \<open>Pieces that sendfile has sent, the oldest first.\<close>

definition piece :: "event \<Rightarrow> (int \<times> int) list" where
  "piece e = (case fst e of Call f ns ss \<Rightarrow>
     if f = ''sendfile'' \<and> length ns = 5 \<and> ret_int (snd e) > 0 then [(ns ! 2, ret_int (snd e))] else [] | _ \<Rightarrow> [])"

primrec pieces :: "event list \<Rightarrow> (int \<times> int) list" where
  "pieces [] = []"
| "pieces (e # h) = pieces h @ piece e"

text \<open>Pieces that adjoin each other from \<open>a\<close> to \<open>b\<close>.\<close>

primrec adjoining :: "int \<Rightarrow> int \<Rightarrow> (int \<times> int) list \<Rightarrow> bool" where
  "adjoining a b [] = (a = b)"
| "adjoining a b (p # ps) = (fst p = a \<and> snd p > 0 \<and> adjoining (a + snd p) b ps)"

definition sent :: "(int \<times> int) list \<Rightarrow> world \<Rightarrow> bool" where
  "sent ps w \<longleftrightarrow> pieces (trace w) = ps"

lemma sent_unmoved: "unmoved (sent ps)"
  by (auto simp: unmoved_def allows_def sent_def aside_def piece_def intro!: keeps_upd split: syscall.splits)

lemma sent_aside: "aside c \<Longrightarrow> allows (sent ps) c"
  using sent_unmoved by (simp add: unmoved_def)

lemma sent_Done:
  "vsf_sysutil_lseek_to E fd n w = Done x w' \<Longrightarrow> sent ps w \<Longrightarrow> sent ps w'"
  "vsf_sysutil_get_error E w = Done e w' \<Longrightarrow> sent ps w \<Longrightarrow> sent ps w'"
  by (auto simp: vsf_sysutil_lseek_to_def vsf_sysutil_get_error_def bind_Done sys_int_def sys_def Let_def
      return_def bug_ends sent_def piece_def split: if_splits)

lemma sendfile_Done:
  assumes u: "undisturbed E" and s: "sent ps w" and d: "do_sendfile E o_fd i_fd n a w = Done k w'"
  shows "sent (ps @ (if k > 0 then [(a, k)] else [])) w'"
proof -
  let ?r = "os E (trace w) (Sendfile o_fd i_fd a n 0)"
  let ?v = "w\<lparr>trace := (Sendfile o_fd i_fd a n 0, ?r) # trace w\<rparr>"
  obtain e v1 v2 where e: "vsf_sysutil_get_error E ?v = Done e v1"
    and c: "check_pending_actions E (ret_int ?r) o_fd v1 = Done () v2" and k: "k = ret_int ?r" "w' = v2"
    using d by (auto simp: do_sendfile_def Let_def VSFTP_DATA_BUFSIZE_def bind_Done seq_Done sys_int_def sys_def
        return_def halt_def split: if_splits)
  have "sent (ps @ (if k > 0 then [(a, k)] else [])) ?v"
    using s k by (simp add: sent_def piece_def)
  then show ?thesis using pending_Done[OF u sent_unmoved sent_Done(2)[OF e] c] k(2) by simp
qed

lemma sendfile_loop_adjoining:
  assumes u: "undisturbed E"
  shows "sent ps w \<Longrightarrow> sendfile_loop E o_fd i_fd a n m w = Done (k, b) w' \<Longrightarrow>
    \<exists>qs. sent (ps @ qs) w' \<and> adjoining a b qs"
proof (induction "nat n" arbitrary: ps w a n rule: less_induct)
  case less
  note s = less.prems(1) and d = less.prems(2)[unfolded sendfile_loop.simps[of E o_fd i_fd a n m]]
  show ?case
  proof (cases "n > 0")
    case False
    then show ?thesis using s d by (intro exI[of _ "[]"]) (simp add: return_def)
  next
    case True
    with d obtain v1 v2 ret where l: "vsf_sysutil_lseek_to E i_fd a w = Done () v1"
      and f: "do_sendfile E o_fd i_fd (min n m) a v1 = Done ret v2"
      and rest: "(if vsf_sysutil_retval_is_error ret \<or> ret = 0 then return (ret, a)
          else sendfile_loop E o_fd i_fd (a + ret) (n - ret) m) v2 = Done (k, b) w'"
      unfolding if_P[OF True] seq_Done bind_Done by blast
    have v2: "sent (ps @ (if ret > 0 then [(a, ret)] else [])) v2"
      by (rule sendfile_Done[OF u sent_Done(1)[OF l s] f])
    show ?thesis
    proof (cases "vsf_sysutil_retval_is_error ret \<or> ret = 0")
      case True
      then show ?thesis
        using rest v2 by (intro exI[of _ "[]"]) (auto simp: return_def vsf_sysutil_retval_is_error_def)
    next
      case False
      then have r: "ret > 0" by (simp add: vsf_sysutil_retval_is_error_def)
      then have "nat (n - ret) < nat n" using True by simp
      from less.hyps[OF this, of "ps @ [(a, ret)]" v2 "a + ret"] obtain qs
        where "sent ((ps @ [(a, ret)]) @ qs) w'" "adjoining (a + ret) b qs"
        using v2 r rest False by auto
      then show ?thesis using r by (intro exI[of _ "(a, ret) # qs"]) simp
    qed
  qed
qed

lemma download_adjoining:
  assumes u: "undisturbed E" and d: "do_file_send_sendfile E net file a n w = Done r w'" and ok: "retval r = 0"
  shows "transferred r = n \<and> (\<exists>qs. pieces (trace w') = pieces (trace w) @ qs \<and> adjoining a (a + n) qs)"
proof -
  obtain k b m where s: "vsf_sysutil_sendfile E net file a n m w = Done (k, b) w'"
    and r: "r = \<lparr>retval = (if vsf_sysutil_retval_is_error k \<or> b - a \<noteq> n then -2 else 0), transferred = b - a\<rparr>"
    using d by (auto simp: do_file_send_sendfile_def bind_Done get_def return_def Let_def split: prod.splits)
  have b: "b = a + n" using r ok by (auto split: if_splits)
  obtain x where "sendfile_loop E net file a n x w = Done (k, b) w'"
    using s by (auto simp: vsf_sysutil_sendfile_def bug_ends split: if_splits)
  from sendfile_loop_adjoining[OF u _ this, of "pieces (trace w)"]
  show ?thesis using r b by (auto simp: sent_def)
qed

text \<open>Without sendfile every binary download of a non-empty rest of a file is a failing cast.\<close>

lemma fallback_traps:
  assumes "\<not> tunable_use_sendfile E"
  shows "do_sendfile E o_fd i_fd n a w = Halt (Trapped ''bounds'') w"
  using assms by (simp add: do_sendfile_def Let_def VSFTP_DATA_BUFSIZE_def halt_def)

lemma no_sendfile_no_download:
  assumes "\<not> tunable_use_sendfile E" "n > 0"
  shows "do_file_send_sendfile E net file a n w \<noteq> Done r w'"
proof
  assume "do_file_send_sendfile E net file a n w = Done r w'"
  then obtain k b x where "sendfile_loop E net file a n x w = Done (k, b) w'"
    using assms(2) by (auto simp: do_file_send_sendfile_def vsf_sysutil_sendfile_def bind_Done get_def return_def
        Let_def bug_ends split: prod.splits if_splits)
  then show False
    using assms by (subst (asm) sendfile_loop.simps) (auto simp: seq_Done bind_Done fallback_traps)
qed

end
