(* ===== verification/Hash.thy ===== *)
theory Hash
  imports Prelude
begin

text \<open>
  src/hash.c: hash tables of chained nodes. The nodes live on a heap of their own and refer to one
  another by address in both directions, as in the code; a freed node is gone from the heap, and its address may
  be given out again. A key of key_size bytes that memcmp compares is a value of a type, and so is what it
  is mapped to.
\<close>

section \<open>The heap\<close>

record ('k, 'v) hash_node =
  p_key :: 'k
  p_value :: 'v
  p_prev :: "nat option"
  p_next :: "nat option"

type_synonym ('k, 'v) hash_heap = "('k, 'v) hash_node option list"

definition node_at :: "('k, 'v) hash_heap \<Rightarrow> nat \<Rightarrow> ('k, 'v) hash_node option" where
  "node_at h a = (if a < length h then h ! a else None)"

text \<open>Following a pointer to what has been freed does not come back.\<close>

definition load_node :: "('k, 'v) hash_heap \<Rightarrow> nat \<Rightarrow> ('k, 'v) hash_node res" where
  "load_node h a = (case node_at h a of None \<Rightarrow> Inl (Trap ''use after free'') | Some n \<Rightarrow> Inr n)"

definition store_node :: "('k, 'v) hash_heap \<Rightarrow> nat \<Rightarrow> (('k, 'v) hash_node \<Rightarrow> ('k, 'v) hash_node) \<Rightarrow>
    ('k, 'v) hash_heap res" where
  "store_node h a f = rbind (load_node h a) (\<lambda>n. Inr (h[a := Some (f n)]))"

text \<open>An allocation takes the first cell that is free.\<close>

definition malloc_node :: "('k, 'v) hash_heap \<Rightarrow> ('k, 'v) hash_node \<Rightarrow> nat \<times> ('k, 'v) hash_heap" where
  "malloc_node h n = (let a = length (takeWhile (\<lambda>x. x \<noteq> None) h) in
     (a, if a < length h then h[a := Some n] else h @ [Some n]))"

definition free_node :: "('k, 'v) hash_heap \<Rightarrow> nat \<Rightarrow> ('k, 'v) hash_heap res" where
  "free_node h a = rbind (load_node h a) (\<lambda>_. Inr (h[a := None]))"

section \<open>The table\<close>

record ('k, 'v) hash =
  buckets :: u32
  hash_func :: "u32 \<Rightarrow> 'k \<Rightarrow> u32"
  p_nodes :: "nat option list"
  hash_heap :: "('k, 'v) hash_heap"

definition hash_alloc :: "u32 \<Rightarrow> (u32 \<Rightarrow> 'k \<Rightarrow> u32) \<Rightarrow> ('k, 'v) hash" where
  "hash_alloc n f = \<lparr>buckets = n, hash_func = f, p_nodes = replicate (unat n) None, hash_heap = []\<rparr>"

definition hash_get_bucket :: "('k, 'v) hash \<Rightarrow> 'k \<Rightarrow> nat res" where
  "hash_get_bucket p_hash key = (let bucket = hash_func p_hash (buckets p_hash) key in
     if bucket \<ge> buckets p_hash then Inl (Bug ''bad bucket lookup'') else Inr (unat bucket))"

text \<open>
  The walk along a chain. A chain without a cycle has at most as many nodes as the heap has cells; a walk that
  is longer than this would not end.
\<close>

primrec find_node :: "('k, 'v) hash_heap \<Rightarrow> 'k \<Rightarrow> nat \<Rightarrow> nat option \<Rightarrow> nat option res" where
  "find_node h key 0 p_node = (if p_node = None then Inr None else Inl (Trap ''endless chain''))"
| "find_node h key (Suc n) p_node = (case p_node of
     None \<Rightarrow> Inr None
   | Some a \<Rightarrow> rbind (load_node h a) (\<lambda>node.
       if p_key node = key then Inr (Some a) else find_node h key n (p_next node)))"

definition hash_get_node_by_key :: "('k, 'v) hash \<Rightarrow> 'k \<Rightarrow> nat option res" where
  "hash_get_node_by_key p_hash key = rbind (hash_get_bucket p_hash key) (\<lambda>bucket.
     find_node (hash_heap p_hash) key (length (hash_heap p_hash)) (p_nodes p_hash ! bucket))"

definition hash_lookup_entry :: "('k, 'v) hash \<Rightarrow> 'k \<Rightarrow> 'v option res" where
  "hash_lookup_entry p_hash key = rbind (hash_get_node_by_key p_hash key) (\<lambda>p_node. case p_node of
     None \<Rightarrow> Inr None
   | Some a \<Rightarrow> rbind (load_node (hash_heap p_hash) a) (\<lambda>node. Inr (Some (p_value node))))"

text \<open>The caller writes through the pointer that a lookup returned.\<close>

definition hash_write_entry :: "('k, 'v) hash \<Rightarrow> 'k \<Rightarrow> 'v \<Rightarrow> ('k, 'v) hash res" where
  "hash_write_entry p_hash key v = rbind (hash_get_node_by_key p_hash key) (\<lambda>p_node. case p_node of
     None \<Rightarrow> Inl (Trap ''null pointer'')
   | Some a \<Rightarrow> rbind (store_node (hash_heap p_hash) a (\<lambda>n. n\<lparr>p_value := v\<rparr>)) (\<lambda>h.
       Inr (p_hash\<lparr>hash_heap := h\<rparr>)))"

definition hash_add_entry :: "('k, 'v) hash \<Rightarrow> 'k \<Rightarrow> 'v \<Rightarrow> ('k, 'v) hash res" where
  "hash_add_entry p_hash key v = rbind (hash_lookup_entry p_hash key) (\<lambda>found.
     if found \<noteq> None then Inl (Bug ''duplicate hash key'')
     else rbind (hash_get_bucket p_hash key) (\<lambda>bucket.
       let (new, h) = malloc_node (hash_heap p_hash) \<lparr>p_key = key, p_value = v, p_prev = None, p_next = None\<rparr> in
       case p_nodes p_hash ! bucket of
         None \<Rightarrow> Inr (p_hash\<lparr>hash_heap := h, p_nodes := (p_nodes p_hash)[bucket := Some new]\<rparr>)
       | Some old \<Rightarrow> rbind (store_node h new (\<lambda>n. n\<lparr>p_next := Some old\<rparr>)) (\<lambda>h.
           rbind (store_node h old (\<lambda>n. n\<lparr>p_prev := Some new\<rparr>)) (\<lambda>h.
           Inr (p_hash\<lparr>hash_heap := h, p_nodes := (p_nodes p_hash)[bucket := Some new]\<rparr>)))))"

definition hash_free_entry :: "('k, 'v) hash \<Rightarrow> 'k \<Rightarrow> ('k, 'v) hash res" where
  "hash_free_entry p_hash key = rbind (hash_get_node_by_key p_hash key) (\<lambda>p_node. case p_node of
     None \<Rightarrow> Inl (Bug ''hash node not found'')
   | Some a \<Rightarrow> rbind (load_node (hash_heap p_hash) a) (\<lambda>node.
       rbind (case p_prev node of
           Some b \<Rightarrow> rbind (store_node (hash_heap p_hash) b (\<lambda>n. n\<lparr>p_next := p_next node\<rparr>)) (\<lambda>h.
             Inr (p_hash\<lparr>hash_heap := h\<rparr>))
         | None \<Rightarrow> rbind (hash_get_bucket p_hash key) (\<lambda>bucket.
             Inr (p_hash\<lparr>p_nodes := (p_nodes p_hash)[bucket := p_next node]\<rparr>))) (\<lambda>p_hash.
       rbind (case p_next node of
           Some c \<Rightarrow> rbind (store_node (hash_heap p_hash) c (\<lambda>n. n\<lparr>p_prev := p_prev node\<rparr>)) (\<lambda>h.
             Inr (p_hash\<lparr>hash_heap := h\<rparr>))
         | None \<Rightarrow> Inr p_hash) (\<lambda>p_hash.
       rbind (free_node (hash_heap p_hash) a) (\<lambda>h. Inr (p_hash\<lparr>hash_heap := h\<rparr>))))))"

section \<open>The heap as a function\<close>

lemma node_at_Some: "node_at h a = Some n \<Longrightarrow> a < length h"
  by (simp add: node_at_def split: if_splits)

lemma node_at_update: "node_at h a = Some n \<Longrightarrow> node_at (h[a := x]) = (node_at h)(a := x)"
  by (auto simp: node_at_def fun_eq_iff nth_list_update split: if_splits)

lemma load_node_at [res_simps]: "node_at h a = Some n \<Longrightarrow> load_node h a = Inr n"
  by (simp add: load_node_def)

lemma store_node_at [res_simps]: "node_at h a = Some n \<Longrightarrow> store_node h a f = Inr (h[a := Some (f n)])"
  by (simp add: store_node_def load_node_at)

lemma free_node_at [res_simps]: "node_at h a = Some n \<Longrightarrow> free_node h a = Inr (h[a := None])"
  by (simp add: free_node_def load_node_at)

lemma malloc_node_at:
  assumes "malloc_node h n = (a, h')"
  shows "node_at h a = None" "node_at h' = (node_at h)(a \<mapsto> n)"
proof -
  let ?t = "takeWhile (\<lambda>x. x \<noteq> None) h"
  have a: "a = length ?t" and h': "h' = (if a < length h then h[a := Some n] else h @ [Some n])"
    using assms by (auto simp: malloc_node_def Let_def)
  have None: "h ! a = None" if "a < length h"
    using nth_length_takeWhile[of "\<lambda>x. x \<noteq> None" h] that a by simp
  have le: "a \<le> length h" using a length_takeWhile_le by blast
  show "node_at h a = None" using None by (simp add: node_at_def)
  show "node_at h' = (node_at h)(a \<mapsto> n)"
    using le by (auto simp: h' node_at_def fun_eq_iff nth_append nth_list_update)
qed

section \<open>Chains\<close>

text \<open>The nodes from \<open>p\<close> on, each pointing back to the one before it, the first one to \<open>prev\<close>.\<close>

fun chain :: "(nat \<Rightarrow> ('k, 'v) hash_node option) \<Rightarrow> nat option \<Rightarrow> nat option \<Rightarrow> nat list \<Rightarrow> bool" where
  "chain H prev p [] \<longleftrightarrow> p = None"
| "chain H prev p (a # as) \<longleftrightarrow> p = Some a
     \<and> (\<exists>n. H a = Some n \<and> p_prev n = prev \<and> chain H (Some a) (p_next n) as)"

abbreviation key_at :: "(nat \<Rightarrow> ('k, 'v) hash_node option) \<Rightarrow> nat \<Rightarrow> 'k" where
  "key_at H a \<equiv> p_key (the (H a))"

abbreviation value_at :: "(nat \<Rightarrow> ('k, 'v) hash_node option) \<Rightarrow> nat \<Rightarrow> 'v" where
  "value_at H a \<equiv> p_value (the (H a))"

lemma chain_frame: "(\<And>a. a \<in> set as \<Longrightarrow> H' a = H a) \<Longrightarrow> chain H' prev p as = chain H prev p as"
  by (induction as arbitrary: prev p) auto

lemma chain_allocated: "chain H prev p as \<Longrightarrow> a \<in> set as \<Longrightarrow> \<exists>n. H a = Some n"
  by (induction as arbitrary: prev p) auto

lemma chain_length:
  assumes "chain (node_at h) prev p as" "distinct as"
  shows "length as \<le> length h"
proof -
  have "set as \<subseteq> {..<length h}"
    using chain_allocated[OF assms(1)] node_at_Some by fastforce
  then have "card (set as) \<le> length h" using card_mono[of "{..<length h}" "set as"] by simp
  then show ?thesis using distinct_card[OF assms(2)] by simp
qed

lemma find_node_chain:
  "chain (node_at h) prev p as \<Longrightarrow> length as \<le> n \<Longrightarrow>
     find_node h key n p = Inr (find (\<lambda>a. key_at (node_at h) a = key) as)"
proof (induction as arbitrary: prev p n)
  case Nil
  then show ?case by (cases n) simp_all
next
  case (Cons a as)
  then obtain n' where "n = Suc n'" by (cases n) auto
  moreover obtain x where "p = Some a" "node_at h a = Some x" "chain (node_at h) (Some a) (p_next x) as"
    using Cons.prems(1) by auto
  ultimately show ?case using Cons.IH[of "Some a" "p_next x" n'] Cons.prems(2) by (simp add: res_simps)
qed

lemma chain_neighbours:
  "chain H prev p (xs @ a # ys) \<Longrightarrow> \<exists>n. H a = Some n
     \<and> p_prev n = (if xs = [] then prev else Some (last xs)) \<and> p_next n = (if ys = [] then None else Some (hd ys))"
proof (induction xs arbitrary: prev p)
  case Nil
  then show ?case by (cases ys) auto
next
  case (Cons x xs)
  then obtain n where "H x = Some n" and c: "chain H (Some x) (p_next n) (xs @ a # ys)" by auto
  from Cons.IH[OF c] show ?case by (auto split: if_splits)
qed

text \<open>A node at the head, and a node taken out.\<close>

lemma chain_push:
  assumes "chain H None p as" "a \<notin> set as" "distinct as" "H' a = Some n" "p_prev n = None" "p_next n = p"
    and "\<And>b. b \<in> set as \<Longrightarrow> H' b = (if p = Some b then map_option (\<lambda>x. x\<lparr>p_prev := Some a\<rparr>) (H b) else H b)"
  shows "chain H' None (Some a) (a # as)"
proof (cases as)
  case Nil
  then show ?thesis using assms(1,4-6) by simp
next
  case (Cons b bs)
  then obtain x where x: "p = Some b" "H b = Some x" "chain H (Some b) (p_next x) bs" using assms(1) by auto
  then have "chain H' (Some b) (p_next x) bs"
    using assms(3,7) Cons by (subst chain_frame[of bs H' H]) auto
  then show ?thesis using x assms(4-7) Cons by auto
qed

lemma chain_remove:
  assumes "chain H prev p (xs @ a # ys)" "distinct (xs @ a # ys)" "H a = Some n"
    and "\<And>b. b \<in> set xs \<Longrightarrow> H' b = (if b = last xs then map_option (\<lambda>x. x\<lparr>p_next := p_next n\<rparr>) (H b) else H b)"
    and "\<And>b. b \<in> set ys \<Longrightarrow> H' b = (if b = hd ys then map_option (\<lambda>x. x\<lparr>p_prev := p_prev n\<rparr>) (H b) else H b)"
  shows "chain H' prev (if xs = [] then p_next n else p) (xs @ ys)"
  using assms
proof (induction xs arbitrary: prev p)
  case Nil
  show ?case
  proof (cases ys)
    case Nil
    then show ?thesis using \<open>chain H prev p ([] @ a # ys)\<close> \<open>H a = Some n\<close> by simp
  next
    case (Cons y zs)
    then obtain x where x: "p_next n = Some y" "H y = Some x" "chain H (Some y) (p_next x) zs" "p_prev n = prev"
      using Nil.prems(1,3) by auto
    have "chain H' (Some y) (p_next x) zs"
      using x(3) Nil.prems(2,5) Cons by (subst chain_frame[of zs H' H]) auto
    then show ?thesis using x Nil.prems(5)[of y] Cons by simp
  qed
next
  case (Cons z xs)
  obtain x where x: "p = Some z" "H z = Some x" "p_prev x = prev" "chain H (Some z) (p_next x) (xs @ a # ys)"
    using Cons.prems(1) by auto
  have rest: "chain H' (Some z) (if xs = [] then p_next n else p_next x) (xs @ ys)"
  proof (rule Cons.IH[OF x(4)])
    show "distinct (xs @ a # ys)" using Cons.prems(2) by simp
    show "H a = Some n" by (rule Cons.prems(3))
    show "H' b = (if b = last xs then map_option (\<lambda>x. x\<lparr>p_next := p_next n\<rparr>) (H b) else H b)" if "b \<in> set xs" for b
      using Cons.prems(2) Cons.prems(4)[of b] that by auto
    show "H' b = (if b = hd ys then map_option (\<lambda>x. x\<lparr>p_prev := p_prev n\<rparr>) (H b) else H b)" if "b \<in> set ys" for b
      using that by (rule Cons.prems(5))
  qed
  show ?case
  proof (cases "xs = []")
    case True
    then show ?thesis using rest x Cons.prems(4)[of z] by simp
  next
    case False
    then have "z \<noteq> last (z # xs)" using Cons.prems(2) last_in_set[of xs] by auto
    then have "H' z = H z" using Cons.prems(4)[of z] by simp
    then show ?thesis using rest x False by simp
  qed
qed

text \<open>Only the pointers matter to a chain.\<close>

lemma chain_pointers:
  "(\<And>a. a \<in> set as \<Longrightarrow> map_option (\<lambda>n. (p_prev n, p_next n)) (H' a) = map_option (\<lambda>n. (p_prev n, p_next n)) (H a)) \<Longrightarrow>
     chain H' prev p as = chain H prev p as"
proof (induction as arbitrary: prev p)
  case (Cons a as)
  have "map_option (\<lambda>n. (p_prev n, p_next n)) (H' a) = map_option (\<lambda>n. (p_prev n, p_next n)) (H a)"
    using Cons.prems by simp
  then show ?case using Cons.IH Cons.prems by (cases "H a"; cases "H' a") auto
qed simp

section \<open>Tables and the maps they stand for\<close>

text \<open>
  Each chain holds nodes whose keys belong to its bucket, each key once, and every node of the heap is in its
  chain, so that nothing leaks.
\<close>

definition bucket_of :: "('k, 'v) hash \<Rightarrow> 'k \<Rightarrow> nat" where
  "bucket_of T k = unat (hash_func T (buckets T) k)"

abbreviation heap_of :: "('k, 'v) hash \<Rightarrow> nat \<Rightarrow> ('k, 'v) hash_node option" where
  "heap_of T \<equiv> node_at (hash_heap T)"

definition table_ok :: "('k, 'v) hash \<Rightarrow> (nat \<Rightarrow> nat list) \<Rightarrow> bool" where
  "table_ok T cs \<longleftrightarrow> (\<forall>k. hash_func T (buckets T) k < buckets T) \<and> length (p_nodes T) = unat (buckets T)
     \<and> (\<forall>i < unat (buckets T). chain (heap_of T) None (p_nodes T ! i) (cs i)
          \<and> distinct (map (key_at (heap_of T)) (cs i)) \<and> (\<forall>a \<in> set (cs i). bucket_of T (key_at (heap_of T) a) = i))
     \<and> (\<forall>a n. heap_of T a = Some n \<longrightarrow> a \<in> set (cs (bucket_of T (p_key n))))"

definition contents :: "('k, 'v) hash \<Rightarrow> (nat \<Rightarrow> nat list) \<Rightarrow> 'k \<Rightarrow> 'v option" where
  "contents T cs k = map_option (value_at (heap_of T)) (find (\<lambda>a. key_at (heap_of T) a = k) (cs (bucket_of T k)))"

definition represents :: "('k, 'v) hash \<Rightarrow> ('k \<Rightarrow> 'v option) \<Rightarrow> bool" where
  "represents T m \<longleftrightarrow> (\<exists>cs. table_ok T cs \<and> m = contents T cs)"

lemma table_bucket: "table_ok T cs \<Longrightarrow> bucket_of T k < unat (buckets T)"
  by (simp add: table_ok_def bucket_of_def word_less_nat_alt)

lemma get_bucket: "table_ok T cs \<Longrightarrow> hash_get_bucket T k = Inr (bucket_of T k)"
  by (simp add: table_ok_def hash_get_bucket_def bucket_of_def Let_def not_le)

lemma table_chain:
  assumes "table_ok T cs" "i < unat (buckets T)"
  shows "chain (heap_of T) None (p_nodes T ! i) (cs i)" "distinct (map (key_at (heap_of T)) (cs i))" "distinct (cs i)"
    "a \<in> set (cs i) \<Longrightarrow> bucket_of T (key_at (heap_of T) a) = i"
  using assms by (auto simp: table_ok_def distinct_map)

lemma get_node:
  assumes "table_ok T cs"
  shows "hash_get_node_by_key T k = Inr (find (\<lambda>a. key_at (heap_of T) a = k) (cs (bucket_of T k)))"
proof -
  note c = table_chain[OF assms table_bucket[OF assms, of k]]
  show ?thesis
    using find_node_chain[OF c(1) chain_length[OF c(1,3)]] get_bucket[OF assms]
    by (simp add: hash_get_node_by_key_def)
qed

lemma found_node:
  assumes "table_ok T cs" "find (\<lambda>a. key_at (heap_of T) a = k) (cs (bucket_of T k)) = Some a"
  shows "a \<in> set (cs (bucket_of T k))" "\<exists>n. heap_of T a = Some n \<and> p_key n = k"
proof -
  show a: "a \<in> set (cs (bucket_of T k))" using assms(2) by (auto simp: find_Some_iff)
  have "key_at (heap_of T) a = k" using assms(2) by (auto simp: find_Some_iff)
  moreover obtain n where "heap_of T a = Some n"
    using chain_allocated[OF table_chain(1)[OF assms(1) table_bucket[OF assms(1)]] a] by blast
  ultimately show "\<exists>n. heap_of T a = Some n \<and> p_key n = k" by simp
qed

lemma lookup_contents: "table_ok T cs \<Longrightarrow> hash_lookup_entry T k = Inr (contents T cs k)"
proof -
  assume t: "table_ok T cs"
  show ?thesis
  proof (cases "find (\<lambda>a. key_at (heap_of T) a = k) (cs (bucket_of T k))")
    case None
    then show ?thesis by (simp add: hash_lookup_entry_def get_node[OF t] contents_def)
  next
    case (Some a)
    then obtain n where "heap_of T a = Some n" using found_node[OF t] by blast
    then show ?thesis using Some by (simp add: hash_lookup_entry_def get_node[OF t] contents_def res_simps)
  qed
qed

lemma write_contents:
  assumes t: "table_ok T cs" and k: "contents T cs k \<noteq> None"
  shows "\<exists>T'. hash_write_entry T k v = Inr T' \<and> table_ok T' cs \<and> contents T' cs = (contents T cs)(k \<mapsto> v)"
proof -
  obtain a where a: "find (\<lambda>a. key_at (heap_of T) a = k) (cs (bucket_of T k)) = Some a"
    using k by (auto simp: contents_def)
  obtain n where n: "heap_of T a = Some n" "p_key n = k" using found_node[OF t a] by blast
  let ?h = "(hash_heap T)[a := Some (n\<lparr>p_value := v\<rparr>)]"
  let ?T = "T\<lparr>hash_heap := ?h\<rparr>"
  have w: "hash_write_entry T k v = Inr ?T"
    using a n by (simp add: hash_write_entry_def get_node[OF t] res_simps)
  note h = node_at_update[OF n(1)]
  have key: "key_at (heap_of ?T) b = key_at (heap_of T) b" for b using n by (simp add: h)
  have buck: "bucket_of ?T x = bucket_of T x" for x by (simp add: bucket_of_def)
  have ch: "chain (heap_of ?T) None p as = chain (heap_of T) None p as" for p as
    by (rule chain_pointers) (simp add: h n)
  have "table_ok ?T cs"
    unfolding table_ok_def ch key buck
  proof (intro conjI allI impI)
    show "x \<in> set (cs (bucket_of T (p_key m)))" if "heap_of ?T x = Some m" for x m
    proof (cases "x = a")
      case True
      then show ?thesis using that n t by (auto simp: h table_ok_def)
    next
      case False
      then show ?thesis using that t by (simp add: h table_ok_def)
    qed
  qed (use t in \<open>simp_all add: table_ok_def\<close>)
  moreover have "contents ?T cs = (contents T cs)(k \<mapsto> v)"
  proof
    fix x
    have f: "contents ?T cs x = map_option (value_at (heap_of ?T))
        (find (\<lambda>b. key_at (heap_of T) b = x) (cs (bucket_of T x)))"
      by (simp only: contents_def key buck)
    show "contents ?T cs x = ((contents T cs)(k \<mapsto> v)) x"
    proof (cases "x = k")
      case True
      then show ?thesis unfolding f using a by (simp add: h)
    next
      case False
      have "find (\<lambda>b. key_at (heap_of T) b = x) (cs (bucket_of T x)) \<noteq> Some a"
        using False n found_node(2)[OF t] by fastforce
      then show ?thesis unfolding f using False
        by (cases "find (\<lambda>b. key_at (heap_of T) b = x) (cs (bucket_of T x))") (auto simp: contents_def h)
    qed
  qed
  ultimately show ?thesis using w by blast
qed

section \<open>Adding and freeing\<close>

lemma table_pushed:
  fixes T :: "('k, 'v) hash" and cs k
  defines "i \<equiv> bucket_of T k"
  assumes t: "table_ok T cs" and new: "contents T cs k = None" and a: "heap_of T a = None"
    and n: "node_at h a = Some n" "p_key n = k" "p_value n = v" "p_prev n = None" "p_next n = p_nodes T ! i"
    and others: "\<And>b. b \<noteq> a \<Longrightarrow> node_at h b = (if p_nodes T ! i = Some b
       then map_option (\<lambda>x. x\<lparr>p_prev := Some a\<rparr>) (heap_of T b) else heap_of T b)"
  shows "represents (T\<lparr>hash_heap := h, p_nodes := (p_nodes T)[i := Some a]\<rparr>) ((contents T cs)(k \<mapsto> v))"
proof -
  let ?T = "T\<lparr>hash_heap := h, p_nodes := (p_nodes T)[i := Some a]\<rparr>" and ?cs = "cs(i := a # cs i)"
  have buck: "bucket_of ?T x = bucket_of T x" for x by (simp add: bucket_of_def)
  have i: "i < unat (buckets T)" unfolding i_def by (rule table_bucket[OF t])
  have key: "key_at (node_at h) b = key_at (heap_of T) b" "value_at (node_at h) b = value_at (heap_of T) b"
    if "b \<noteq> a" for b using others[OF that] by (cases "heap_of T b"; simp)+
  have alloc: "b \<noteq> a" if "b \<in> set (cs j)" "j < unat (buckets T)" for b j
    using chain_allocated[OF table_chain(1)[OF t that(2)] that(1)] a by auto
  note tc = table_chain[OF t]
  have other: "chain (node_at h) None (p_nodes T ! j) (cs j)" if j: "j < unat (buckets T)" "j \<noteq> i" for j
  proof -
    have "p_nodes T ! i \<noteq> Some b" if b: "b \<in> set (cs j)" for b
    proof
      assume p: "p_nodes T ! i = Some b"
      then have "b \<in> set (cs i)" using tc(1)[OF i] by (cases "cs i") auto
      then have "bucket_of T (key_at (heap_of T) b) = i" by (rule tc(4)[OF i])
      then show False using tc(4)[OF j(1) b] j(2) by simp
    qed
    then have "chain (node_at h) None (p_nodes T ! j) (cs j) = chain (heap_of T) None (p_nodes T ! j) (cs j)"
      using others alloc[OF _ j(1)] by (intro chain_frame) auto
    then show ?thesis using tc(1)[OF j(1)] by simp
  qed
  have mine: "chain (node_at h) None (Some a) (a # cs i)"
  proof (rule chain_push[where H = "heap_of T" and n = n])
    show "chain (heap_of T) None (p_nodes T ! i) (cs i)" by (rule tc(1)[OF i])
    show "a \<notin> set (cs i)" using alloc[OF _ i] by auto
    show "node_at h b = (if p_nodes T ! i = Some b then map_option (\<lambda>x. x\<lparr>p_prev := Some a\<rparr>) (heap_of T b) else heap_of T b)"
      if "b \<in> set (cs i)" for b using others alloc[OF that i] by blast
  qed (use tc(3)[OF i] n in simp_all)
  have absent: "k \<notin> key_at (heap_of T) ` set (cs i)"
    using new by (auto simp: contents_def i_def find_None_iff)
  have keys: "map (key_at (node_at h)) (cs j) = map (key_at (heap_of T)) (cs j)" if "j < unat (buckets T)" for j
    using alloc[OF _ that] key by simp
  have "table_ok ?T ?cs"
    unfolding table_ok_def buck
  proof (intro conjI allI impI)
    show "hash_func ?T (buckets ?T) x < buckets ?T" for x using t by (simp add: table_ok_def)
    show "length (p_nodes ?T) = unat (buckets ?T)" using t by (simp add: table_ok_def)
    fix j assume "j < unat (buckets ?T)"
    then have j: "j < unat (buckets T)" by simp
    have len: "i < length (p_nodes T)" using i t by (simp add: table_ok_def)
    show "chain (heap_of ?T) None (p_nodes ?T ! j) (?cs j)"
      using mine other[OF j] len by (cases "j = i") auto
    show "distinct (map (key_at (heap_of ?T)) (?cs j))"
    proof (cases "j = i")
      case True
      have "distinct (map (key_at (node_at h)) (cs i)) \<and> k \<notin> set (map (key_at (node_at h)) (cs i))"
        unfolding keys[OF i] using tc(2)[OF i] absent by simp
      then show ?thesis using True n(1,2) by simp
    next
      case False
      have "distinct (map (key_at (node_at h)) (cs j))" unfolding keys[OF j] by (rule tc(2)[OF j])
      then show ?thesis using False by simp
    qed
    show "\<forall>b \<in> set (?cs j). bucket_of T (key_at (heap_of ?T) b) = j"
      using tc(4)[OF j] alloc[OF _ j] key n(1,2) by (cases "j = i") (auto simp: i_def)
  next
    show "b \<in> set (?cs (bucket_of T (p_key m)))" if b: "heap_of ?T b = Some m" for b m
    proof (cases "b = a")
      case True
      then show ?thesis using b n(1,2) by (simp add: i_def)
    next
      case False
      then obtain m0 where "heap_of T b = Some m0" "p_key m = p_key m0"
        using b others[OF False] by (cases "heap_of T b") (auto split: if_splits)
      then show ?thesis using t by (auto simp: table_ok_def)
    qed
  qed
  moreover have "contents ?T ?cs = (contents T cs)(k \<mapsto> v)"
  proof
    fix x
    let ?j = "bucket_of T x"
    have j: "?j < unat (buckets T)" by (rule table_bucket[OF t])
    have f: "find (\<lambda>b. key_at (node_at h) b = x) (cs ?j) = find (\<lambda>b. key_at (heap_of T) b = x) (cs ?j)"
      using alloc[OF _ j] key by (intro find_cong) auto
    have v: "map_option (value_at (node_at h)) (find (\<lambda>b. key_at (heap_of T) b = x) (cs ?j))
        = map_option (value_at (heap_of T)) (find (\<lambda>b. key_at (heap_of T) b = x) (cs ?j))"
      using alloc[OF _ j] key by (intro option.map_cong0) (auto simp: find_Some_iff)
    show "contents ?T ?cs x = ((contents T cs)(k \<mapsto> v)) x"
    proof (cases "?j = i")
      case True
      then show ?thesis using n(1-3) f v by (cases "x = k") (simp_all add: contents_def buck)
    next
      case False
      then have "x \<noteq> k" by (auto simp: i_def)
      then show ?thesis using False f v by (simp add: contents_def buck)
    qed
  qed
  ultimately show ?thesis unfolding represents_def by (intro exI[of _ ?cs]) simp
qed

lemma add_represents:
  assumes r: "represents T m" and new: "m k = None"
  shows "\<exists>T'. hash_add_entry T k v = Inr T' \<and> represents T' (m(k \<mapsto> v))"
proof -
  obtain cs where t: "table_ok T cs" and m: "m = contents T cs" using r by (auto simp: represents_def)
  let ?i = "bucket_of T k" and ?n = "\<lparr>p_key = k, p_value = v, p_prev = None, p_next = None\<rparr>"
  obtain a h where mal: "malloc_node (hash_heap T) ?n = (a, h)" by fastforce
  note f = malloc_node_at[OF mal]
  have start: "hash_add_entry T k v = (case p_nodes T ! ?i of
         None \<Rightarrow> Inr (T\<lparr>hash_heap := h, p_nodes := (p_nodes T)[?i := Some a]\<rparr>)
       | Some old \<Rightarrow> rbind (store_node h a (\<lambda>n. n\<lparr>p_next := Some old\<rparr>)) (\<lambda>h.
           rbind (store_node h old (\<lambda>n. n\<lparr>p_prev := Some a\<rparr>)) (\<lambda>h.
           Inr (T\<lparr>hash_heap := h, p_nodes := (p_nodes T)[?i := Some a]\<rparr>))))"
    using lookup_contents[OF t] new m get_bucket[OF t] mal by (simp add: hash_add_entry_def)
  show ?thesis
  proof (cases "p_nodes T ! ?i")
    case None
    have "represents (T\<lparr>hash_heap := h, p_nodes := (p_nodes T)[?i := Some a]\<rparr>) ((contents T cs)(k \<mapsto> v))"
      by (rule table_pushed[OF t _ f(1), where n = ?n]) (use new m f(2) None in auto)
    then show ?thesis using start None m by simp
  next
    case (Some old)
    have "old \<in> set (cs ?i)"
      using table_chain(1)[OF t table_bucket[OF t, of k]] Some by (cases "cs ?i") auto
    then obtain x where x: "heap_of T old = Some x"
      using chain_allocated[OF table_chain(1)[OF t table_bucket[OF t, of k]]] by blast
    then have ne: "old \<noteq> a" using f(1) by auto
    let ?n1 = "\<lparr>p_key = k, p_value = v, p_prev = None, p_next = Some old\<rparr>"
    let ?h1 = "h[a := Some ?n1]"
    let ?h2 = "?h1[old := Some (x\<lparr>p_prev := Some a\<rparr>)]"
    have n1: "node_at ?h1 = (node_at h)(a \<mapsto> ?n1)"
      by (rule node_at_update[of h a ?n]) (simp add: f(2))
    have n2: "node_at ?h2 = (node_at ?h1)(old \<mapsto> x\<lparr>p_prev := Some a\<rparr>)"
      by (rule node_at_update[of ?h1 old x]) (use ne x in \<open>simp add: n1 f(2)\<close>)
    have run: "hash_add_entry T k v = Inr (T\<lparr>hash_heap := ?h2, p_nodes := (p_nodes T)[?i := Some a]\<rparr>)"
      using store_node_at[of h a ?n] store_node_at[of ?h1 old x] ne x by (simp add: start Some f(2) n1)
    have "represents (T\<lparr>hash_heap := ?h2, p_nodes := (p_nodes T)[?i := Some a]\<rparr>) ((contents T cs)(k \<mapsto> v))"
      by (rule table_pushed[OF t _ f(1), where n = ?n1])
        (use new m ne x Some in \<open>auto simp: n2 n1 f(2)\<close>)
    then show ?thesis using run m by blast
  qed
qed

lemma table_removed:
  fixes T :: "('k, 'v) hash" and cs k
  defines "i \<equiv> bucket_of T k"
  assumes t: "table_ok T cs" and c: "cs i = xs @ a # ys" and n: "heap_of T a = Some n" "p_key n = k"
    and gone: "node_at h a = None"
    and others: "\<And>b. b \<noteq> a \<Longrightarrow> node_at h b =
       (if xs \<noteq> [] \<and> b = last xs then map_option (\<lambda>x. x\<lparr>p_next := p_next n\<rparr>) (heap_of T b)
        else if ys \<noteq> [] \<and> b = hd ys then map_option (\<lambda>x. x\<lparr>p_prev := p_prev n\<rparr>) (heap_of T b)
        else heap_of T b)"
    and nodes: "nodes = (if xs = [] then (p_nodes T)[i := p_next n] else p_nodes T)"
  shows "represents (T\<lparr>hash_heap := h, p_nodes := nodes\<rparr>) ((contents T cs)(k := None))"
proof -
  let ?T = "T\<lparr>hash_heap := h, p_nodes := nodes\<rparr>" and ?cs = "cs(i := xs @ ys)"
  have buck: "bucket_of ?T x = bucket_of T x" for x by (simp add: bucket_of_def)
  have i: "i < unat (buckets T)" unfolding i_def by (rule table_bucket[OF t])
  note tc = table_chain[OF t]
  have dist: "distinct (xs @ a # ys)" using tc(3)[OF i] c by simp
  have key: "key_at (node_at h) b = key_at (heap_of T) b" "value_at (node_at h) b = value_at (heap_of T) b"
    if "b \<noteq> a" for b using others[OF that] by (cases "heap_of T b"; auto split: if_splits)+
  have away: "b \<noteq> a" if "b \<in> set (?cs j)" "j < unat (buckets T)" for b j
  proof (cases "j = i")
    case True
    then show ?thesis using that dist by auto
  next
    case False
    have "a \<notin> set (cs j)" using tc(4)[OF that(2), of a] tc(4)[OF i, of a] c False by auto
    then show ?thesis using that False by auto
  qed
  have other: "chain (node_at h) None (p_nodes T ! j) (cs j)" if j: "j < unat (buckets T)" "j \<noteq> i" for j
  proof -
    have "b \<noteq> a \<and> \<not> (xs \<noteq> [] \<and> b = last xs) \<and> \<not> (ys \<noteq> [] \<and> b = hd ys)" if b: "b \<in> set (cs j)" for b
    proof -
      have "b \<notin> set (cs i)" using tc(4)[OF j(1) b] tc(4)[OF i, of b] j(2) by auto
      then have "b \<noteq> a" "b \<notin> set xs" "b \<notin> set ys" using c by auto
      then show ?thesis using last_in_set[of xs] hd_in_set[of ys] by blast
    qed
    then have "chain (node_at h) None (p_nodes T ! j) (cs j) = chain (heap_of T) None (p_nodes T ! j) (cs j)"
      using others by (intro chain_frame) auto
    then show ?thesis using tc(1)[OF j(1)] by simp
  qed
  have mine: "chain (node_at h) None (if xs = [] then p_next n else p_nodes T ! i) (xs @ ys)"
  proof (rule chain_remove[where H = "heap_of T" and a = a and n = n])
    show "chain (heap_of T) None (p_nodes T ! i) (xs @ a # ys)" using tc(1)[OF i] c by simp
    show "distinct (xs @ a # ys)" "heap_of T a = Some n" by (rule dist, rule n(1))
    show "node_at h b = (if b = last xs then map_option (\<lambda>x. x\<lparr>p_next := p_next n\<rparr>) (heap_of T b) else heap_of T b)"
      if "b \<in> set xs" for b
    proof -
      have "b \<noteq> a" "ys = [] \<or> b \<noteq> hd ys" "xs \<noteq> []" using that dist hd_in_set[of ys] by auto
      then show ?thesis using others[of b] by auto
    qed
    show "node_at h b = (if b = hd ys then map_option (\<lambda>x. x\<lparr>p_prev := p_prev n\<rparr>) (heap_of T b) else heap_of T b)"
      if "b \<in> set ys" for b
    proof -
      have "b \<noteq> a" "b \<notin> set xs" "ys \<noteq> []" using that dist by auto
      moreover have "xs = [] \<or> b \<noteq> last xs" using \<open>b \<notin> set xs\<close> last_in_set[of xs] by blast
      ultimately have "b \<noteq> a" "xs = [] \<or> b \<noteq> last xs" "ys \<noteq> []" by simp_all
      then show ?thesis using others[of b] by auto
    qed
  qed
  have keys: "map (key_at (node_at h)) (?cs j) = map (key_at (heap_of T)) (?cs j)" if "j < unat (buckets T)" for j
    using away[OF _ that] key by (intro map_cong refl) blast
  have len: "i < length (p_nodes T)" using i t by (simp add: table_ok_def)
  have "table_ok ?T ?cs"
    unfolding table_ok_def buck
  proof (intro conjI allI impI)
    show "hash_func ?T (buckets ?T) x < buckets ?T" for x using t by (simp add: table_ok_def)
    show "length (p_nodes ?T) = unat (buckets ?T)" using t by (simp add: table_ok_def nodes)
    fix j assume "j < unat (buckets ?T)"
    then have j: "j < unat (buckets T)" by simp
    show "chain (heap_of ?T) None (p_nodes ?T ! j) (?cs j)"
      using mine other[OF j] len nodes by (cases "j = i"; cases "xs = []") auto
    have "distinct (map (key_at (node_at h)) (?cs j))"
      unfolding keys[OF j] using tc(2)[OF j] c by (cases "j = i") auto
    then show "distinct (map (key_at (heap_of ?T)) (?cs j))" by simp
    show "\<forall>b \<in> set (?cs j). bucket_of T (key_at (heap_of ?T) b) = j"
    proof
      fix b assume b: "b \<in> set (?cs j)"
      then have "b \<in> set (cs j)" using c by (cases "j = i") auto
      then show "bucket_of T (key_at (heap_of ?T) b) = j" using tc(4)[OF j] key(1)[OF away[OF b j]] by simp
    qed
  next
    show "b \<in> set (?cs (bucket_of T (p_key m)))" if b: "heap_of ?T b = Some m" for b m
    proof -
      have ne: "b \<noteq> a" using b gone by auto
      then obtain m0 where m0: "heap_of T b = Some m0" "p_key m = p_key m0"
        using b others[OF ne] by (cases "heap_of T b") (auto split: if_splits)
      then have "b \<in> set (cs (bucket_of T (p_key m)))" using t by (auto simp: table_ok_def)
      then show ?thesis using ne c by (cases "bucket_of T (p_key m) = i") auto
    qed
  qed
  moreover have "contents ?T ?cs = (contents T cs)(k := None)"
  proof
    fix x
    let ?j = "bucket_of T x"
    have j: "?j < unat (buckets T)" by (rule table_bucket[OF t])
    have f: "find (\<lambda>b. key_at (node_at h) b = x) (?cs ?j) = find (\<lambda>b. key_at (heap_of T) b = x) (?cs ?j)"
    proof (rule find_cong[OF refl])
      fix b assume "b \<in> set (?cs ?j)"
      then show "(key_at (node_at h) b = x) = (key_at (heap_of T) b = x)" using key(1)[OF away[OF _ j]] by simp
    qed
    have same: "find (\<lambda>b. key_at (heap_of T) b = x) (?cs ?j) =
        (if x = k then None else find (\<lambda>b. key_at (heap_of T) b = x) (cs ?j))"
    proof (cases "x = k")
      case True
      have "k \<notin> key_at (heap_of T) ` set (xs @ ys)" using tc(2)[OF i] c n by auto
      then show ?thesis using True by (auto simp: find_None_iff i_def)
    next
      case False
      have "find (\<lambda>b. key_at (heap_of T) b = x) (xs @ ys) = find (\<lambda>b. key_at (heap_of T) b = x) (xs @ a # ys)"
        using False n by (induction xs) auto
      then show ?thesis using False c by auto
    qed
    have v: "map_option (value_at (node_at h)) (find (\<lambda>b. key_at (heap_of T) b = x) (?cs ?j))
        = map_option (value_at (heap_of T)) (find (\<lambda>b. key_at (heap_of T) b = x) (?cs ?j))"
    proof (rule option.map_cong0)
      fix b assume "b \<in> set_option (find (\<lambda>b. key_at (heap_of T) b = x) (?cs ?j))"
      then have "b \<in> set (?cs ?j)" by (auto dest: find_SomeD)
      then show "value_at (node_at h) b = value_at (heap_of T) b" by (rule key(2)[OF away[OF _ j]])
    qed
    have "contents ?T ?cs x = map_option (value_at (node_at h)) (find (\<lambda>b. key_at (node_at h) b = x) (?cs ?j))"
      by (simp only: contents_def buck hash.select_convs hash.update_convs) simp
    also have "\<dots> = map_option (value_at (heap_of T)) (if x = k then None else find (\<lambda>b. key_at (heap_of T) b = x) (cs ?j))"
      unfolding f v unfolding same ..
    also have "\<dots> = ((contents T cs)(k := None)) x" by (simp add: contents_def)
    finally show "contents ?T ?cs x = ((contents T cs)(k := None)) x" .
  qed
  ultimately show ?thesis unfolding represents_def by (intro exI[of _ ?cs]) simp
qed

lemma find_splits: "find P as = Some a \<Longrightarrow> \<exists>xs ys. as = xs @ a # ys"
  using find_SomeD[of P as a] split_list by fast

lemma free_represents:
  assumes r: "represents T m" and old: "m k \<noteq> None"
  shows "\<exists>T'. hash_free_entry T k = Inr T' \<and> represents T' (m(k := None))"
proof -
  obtain cs where t: "table_ok T cs" and m: "m = contents T cs" using r by (auto simp: represents_def)
  let ?i = "bucket_of T k"
  obtain a where a: "find (\<lambda>a. key_at (heap_of T) a = k) (cs ?i) = Some a"
    using old m by (auto simp: contents_def)
  obtain xs ys where c: "cs ?i = xs @ a # ys" using find_splits[OF a] by blast
  obtain n where n: "heap_of T a = Some n" "p_key n = k" using found_node[OF t a] by blast
  note tc = table_chain[OF t table_bucket[OF t, of k]]
  have dist: "a \<notin> set xs" "a \<notin> set ys" "distinct (xs @ ys)" using tc(3) c by auto
  have near: "p_prev n = (if xs = [] then None else Some (last xs))" "p_next n = (if ys = [] then None else Some (hd ys))"
    using chain_neighbours[of "heap_of T" None "p_nodes T ! ?i" xs a ys] tc(1) c n(1) by auto
  have alloc: "\<exists>x. heap_of T b = Some x" if "b \<in> set xs \<union> set ys" for b
    using chain_allocated[OF tc(1), of b] that c by auto
  obtain h1 where h1_eq: "h1 = (if xs = [] then hash_heap T
     else (hash_heap T)[last xs := map_option (\<lambda>x. x\<lparr>p_next := p_next n\<rparr>) (heap_of T (last xs))])" by blast
  obtain h2 where h2_eq: "h2 = (if ys = [] then h1
     else h1[hd ys := map_option (\<lambda>x. x\<lparr>p_prev := p_prev n\<rparr>) (heap_of T (hd ys))])" by blast
  let ?nodes = "if xs = [] then (p_nodes T)[?i := p_next n] else p_nodes T"
  have h1: "node_at h1 b = (if xs \<noteq> [] \<and> b = last xs then map_option (\<lambda>x. x\<lparr>p_next := p_next n\<rparr>) (heap_of T b)
      else heap_of T b)" for b
    using alloc[of "last xs"] by (auto simp: h1_eq node_at_update)
  have apart: "xs \<noteq> [] \<Longrightarrow> ys \<noteq> [] \<Longrightarrow> hd ys \<noteq> last xs"
    using dist(3) last_in_set[of xs] hd_in_set[of ys] by (metis disjoint_iff distinct_append)
  have h2: "node_at h2 b = (if ys \<noteq> [] \<and> b = hd ys then map_option (\<lambda>x. x\<lparr>p_prev := p_prev n\<rparr>) (heap_of T b)
      else node_at h1 b)" for b
  proof (cases "ys = []")
    case False
    then obtain x where "node_at h1 (hd ys) = Some x"
      using alloc[of "hd ys"] apart hd_in_set[of ys] by (fastforce simp: h1)
    from node_at_update[OF this] show ?thesis using False by (simp add: h2_eq)
  qed (simp add: h2_eq)
  have a1: "node_at h1 a = Some n" using dist n last_in_set[of xs] by (auto simp: h1)
  have a2: "node_at h2 a = Some n" using dist a1 hd_in_set[of ys] by (auto simp: h2)
  have run: "hash_free_entry T k = Inr (T\<lparr>hash_heap := h2[a := None], p_nodes := ?nodes\<rparr>)"
  proof -
    have one: "(case p_prev n of
           Some b \<Rightarrow> rbind (store_node (hash_heap T) b (\<lambda>x. x\<lparr>p_next := p_next n\<rparr>)) (\<lambda>h. Inr (T\<lparr>hash_heap := h\<rparr>))
         | None \<Rightarrow> rbind (hash_get_bucket T k) (\<lambda>bucket. Inr (T\<lparr>p_nodes := (p_nodes T)[bucket := p_next n]\<rparr>)))
        = Inr (T\<lparr>hash_heap := h1, p_nodes := ?nodes\<rparr>)"
    proof (cases "xs = []")
      case False
      then obtain x where "heap_of T (last xs) = Some x" using alloc[of "last xs"] by auto
      then show ?thesis using False by (simp add: near store_node_at h1_eq)
    qed (simp add: near get_bucket[OF t] h1_eq)
    have two: "(case p_next n of
           Some c \<Rightarrow> rbind (store_node (hash_heap U) c (\<lambda>x. x\<lparr>p_prev := p_prev n\<rparr>)) (\<lambda>h. Inr (U\<lparr>hash_heap := h\<rparr>))
         | None \<Rightarrow> Inr U) = Inr (U\<lparr>hash_heap := h2\<rparr>)" if "hash_heap U = h1" for U :: "('a, 'b) hash"
    proof (cases "ys = []")
      case True
      then show ?thesis using that by (simp add: near h2_eq)
    next
      case False
      then obtain x where x: "heap_of T (hd ys) = Some x" using alloc[of "hd ys"] by auto
      then have "node_at h1 (hd ys) = Some x" using apart False by (auto simp: h1)
      from store_node_at[OF this] show ?thesis using x False that by (simp add: near h2_eq)
    qed
    show ?thesis
      unfolding hash_free_entry_def get_node[OF t] a rbind_simps option.case load_node_at[OF n(1)] one
      by (subst two) (simp_all add: free_node_at[OF a2])
  qed
  have "represents (T\<lparr>hash_heap := h2[a := None], p_nodes := ?nodes\<rparr>) ((contents T cs)(k := None))"
  proof (rule table_removed[OF t c n])
    show "node_at (h2[a := None]) a = None" using node_at_update[OF a2] by simp
    show "node_at (h2[a := None]) b =
       (if xs \<noteq> [] \<and> b = last xs then map_option (\<lambda>x. x\<lparr>p_next := p_next n\<rparr>) (heap_of T b)
        else if ys \<noteq> [] \<and> b = hd ys then map_option (\<lambda>x. x\<lparr>p_prev := p_prev n\<rparr>) (heap_of T b)
        else heap_of T b)" if "b \<noteq> a" for b
      unfolding node_at_update[OF a2] using that apart by (auto simp: h2 h1)
  qed (rule refl)
  then show ?thesis using run m by blast
qed

lemma alloc_represents:
  assumes "\<And>k. f n k < n"
  shows "represents (hash_alloc n f) Map.empty"
proof -
  have "table_ok (hash_alloc n f) (\<lambda>_. [])"
    using assms by (simp add: table_ok_def hash_alloc_def node_at_def)
  moreover have "Map.empty = contents (hash_alloc n f) (\<lambda>_. [])" by (simp add: contents_def fun_eq_iff)
  ultimately show ?thesis unfolding represents_def by blast
qed

section \<open>What a table promises\<close>

text \<open>The laws that the listener relies on: with a key at hand each operation is that of a map.\<close>

locale table =
  fixes lookup :: "'t \<Rightarrow> 'k \<Rightarrow> 'v option res" and add :: "'t \<Rightarrow> 'k \<Rightarrow> 'v \<Rightarrow> 't res"
    and put :: "'t \<Rightarrow> 'k \<Rightarrow> 'v \<Rightarrow> 't res" and free :: "'t \<Rightarrow> 'k \<Rightarrow> 't res"
    and rep :: "'t \<Rightarrow> ('k \<Rightarrow> 'v option) \<Rightarrow> bool"
  assumes T_lookup: "rep t m \<Longrightarrow> lookup t k = Inr (m k)"
    and T_add: "rep t m \<Longrightarrow> m k = None \<Longrightarrow> \<exists>t'. add t k v = Inr t' \<and> rep t' (m(k \<mapsto> v))"
    and T_put: "rep t m \<Longrightarrow> m k \<noteq> None \<Longrightarrow> \<exists>t'. put t k v = Inr t' \<and> rep t' (m(k \<mapsto> v))"
    and T_free: "rep t m \<Longrightarrow> m k \<noteq> None \<Longrightarrow> \<exists>t'. free t k = Inr t' \<and> rep t' (m(k := None))"
begin

lemma T_added: "rep t m \<Longrightarrow> m k = None \<Longrightarrow> rbind (add t k v) (\<lambda>t'. lookup t' x) = Inr ((m(k \<mapsto> v)) x)"
  using T_add[of t m k v] T_lookup by fastforce

lemma T_freed: "rep t m \<Longrightarrow> m k \<noteq> None \<Longrightarrow> rbind (free t k) (\<lambda>t'. lookup t' x) = Inr ((m(k := None)) x)"
  using T_free[of t m k] T_lookup by fastforce

end

lemma lookup_represents: "represents T m \<Longrightarrow> hash_lookup_entry T k = Inr (m k)"
  using lookup_contents by (auto simp: represents_def)

lemma write_represents: "represents T m \<Longrightarrow> m k \<noteq> None \<Longrightarrow>
    \<exists>T'. hash_write_entry T k v = Inr T' \<and> represents T' (m(k \<mapsto> v))"
  using write_contents[of T _ k v] unfolding represents_def by metis

interpretation hashes: table hash_lookup_entry hash_add_entry hash_write_entry hash_free_entry represents
  by unfold_locales (fact lookup_represents add_represents write_represents free_represents)+

text \<open>Misuse is a bug that the code reports.\<close>

lemma add_twice: "represents T m \<Longrightarrow> m k \<noteq> None \<Longrightarrow> hash_add_entry T k v = Inl (Bug ''duplicate hash key'')"
  by (simp add: hash_add_entry_def lookup_represents)

lemma free_missing: "represents T m \<Longrightarrow> m k = None \<Longrightarrow> hash_free_entry T k = Inl (Bug ''hash node not found'')"
  by (auto simp: represents_def hash_free_entry_def get_node contents_def)

text \<open>Any use of a table: the pointers never lead anywhere they should not.\<close>

datatype ('k, 'v) hash_use = Lookup 'k | Add 'k 'v | Free 'k

definition use_hash :: "('k, 'v) hash_use \<Rightarrow> ('k, 'v) hash \<Rightarrow> ('k, 'v) hash res" where
  "use_hash u T = (case u of
     Lookup k \<Rightarrow> rbind (hash_lookup_entry T k) (\<lambda>_. Inr T)
   | Add k v \<Rightarrow> hash_add_entry T k v
   | Free k \<Rightarrow> hash_free_entry T k)"

lemma use_represents: "represents T m \<Longrightarrow>
    (case use_hash u T of Inr T' \<Rightarrow> \<exists>m'. represents T' m' | Inl e \<Rightarrow> \<exists>t. e = Bug t)"
proof (cases u)
  case (Add k v)
  then show "represents T m \<Longrightarrow> ?thesis"
    using add_represents[of T m k v] add_twice[of T m k v] by (cases "m k") (auto simp: use_hash_def)
next
  case (Free k)
  then show "represents T m \<Longrightarrow> ?thesis"
    using free_represents[of T m k] free_missing[of T m k] by (cases "m k") (auto simp: use_hash_def)
qed (auto simp: use_hash_def lookup_represents)

lemma uses_represent: "represents T m \<Longrightarrow>
    (case rfold use_hash us T of Inr T' \<Rightarrow> \<exists>m'. represents T' m' | Inl e \<Rightarrow> \<exists>t. e = Bug t)"
proof (induction us arbitrary: T m)
  case (Cons u us)
  show ?case
    using use_represents[OF Cons.prems, of u] Cons.IH by (cases "use_hash u T") auto
qed auto

text \<open>The same uses of a map: they agree, in their results and in what they refuse.\<close>

definition use_map :: "('k, 'v) hash_use \<Rightarrow> ('k \<Rightarrow> 'v option) \<Rightarrow> ('k \<Rightarrow> 'v option) res" where
  "use_map u m = (case u of
     Lookup k \<Rightarrow> Inr m
   | Add k v \<Rightarrow> if m k \<noteq> None then Inl (Bug ''duplicate hash key'') else Inr (m(k \<mapsto> v))
   | Free k \<Rightarrow> if m k = None then Inl (Bug ''hash node not found'') else Inr (m(k := None)))"

lemma use_simulates: "represents T m \<Longrightarrow>
    (case use_hash u T of Inr T' \<Rightarrow> \<exists>m'. use_map u m = Inr m' \<and> represents T' m' | Inl e \<Rightarrow> use_map u m = Inl e)"
proof (cases u)
  case (Add k v)
  then show "represents T m \<Longrightarrow> ?thesis"
    using add_represents[of T m k v] add_twice[of T m k v] by (cases "m k") (auto simp: use_hash_def use_map_def)
next
  case (Free k)
  then show "represents T m \<Longrightarrow> ?thesis"
    using free_represents[of T m k] free_missing[of T m k] by (cases "m k") (auto simp: use_hash_def use_map_def)
qed (auto simp: use_hash_def use_map_def lookup_represents)

lemma uses_simulate: "represents T m \<Longrightarrow>
    (case rfold use_hash us T of Inr T' \<Rightarrow> \<exists>m'. rfold use_map us m = Inr m' \<and> represents T' m'
     | Inl e \<Rightarrow> rfold use_map us m = Inl e)"
proof (induction us arbitrary: T m)
  case (Cons u us)
  show ?case
  proof (cases "use_hash u T")
    case (Inr T')
    then obtain m' where m': "use_map u m = Inr m'" "represents T' m'" using use_simulates[OF Cons.prems, of u] by auto
    show ?thesis using Cons.IH[OF m'(2)] Inr m'(1) by (simp split: sum.splits)
  qed (use use_simulates[OF Cons.prems, of u] in simp)
qed auto

end
