(* ===== verification/Standalone.thy ===== *)
theory Standalone
  imports Hash Process Ipaddrparse Parseconf Startup
begin

text \<open>
  src/standalone.c: the listener. It counts its children, all of them and by the address they serve,
  in two hash tables: from the process id of a child to its address, and from an address to a count.
  The handlers of the signals run where a blocking call has returned, which \<open>check_signals\<close> marks. The
  state of the listener is passed explicitly; \<open>settings\<close> are the tunables, which SIGHUP loads again.
\<close>

section \<open>State\<close>

record listener =
  s_children :: u32
  s_p_ip_count_hash :: "(string, u32) hash"
  s_p_pid_ip_hash :: "(u32, string) hash"
  settings :: tunables

record vsf_client_launch =
  launch_children :: u32
  launch_this_ip :: u32

text \<open>The larger of the two sizes of addresses; an IPv4 address is followed by zeros.\<close>

definition vsf_sysutil_get_ipaddr_size :: nat where
  "vsf_sysutil_get_ipaddr_size = 16"

definition raw_addr_key :: "sockaddr \<Rightarrow> string res" where
  "raw_addr_key p = rbind (vsf_sysutil_sockaddr_get_raw_addr p) (\<lambda>a.
     Inr (a @ replicate (vsf_sysutil_get_ipaddr_size - length a) NUL))"

fun hash_ip_loop :: "string \<Rightarrow> nat \<Rightarrow> u32 \<Rightarrow> u32" where
  "hash_ip_loop [] shift val = val"
| "hash_ip_loop (c # raw) shift val = hash_ip_loop raw (if shift < 8 then 24 else shift - 8)
     (xor val (push_bit shift (of_char c)))"

definition hash_ip :: "u32 \<Rightarrow> string \<Rightarrow> u32" where
  "hash_ip n p_raw_ip = hash_ip_loop (take vsf_sysutil_get_ipaddr_size p_raw_ip) 24 0 mod n"

definition hash_pid :: "u32 \<Rightarrow> u32 \<Rightarrow> u32" where
  "hash_pid n pid = pid mod n"

definition new_listener :: "tunables \<Rightarrow> listener" where
  "new_listener T = \<lparr>s_children = 0, s_p_ip_count_hash = hash_alloc 256 hash_ip,
     s_p_pid_ip_hash = hash_alloc 256 hash_pid, settings = T\<rparr>"

section \<open>Accounting\<close>

definition handle_ip_count :: "listener \<Rightarrow> string \<Rightarrow> (u32 \<times> listener) res" where
  "handle_ip_count L p_ipaddr = rbind (hash_lookup_entry (s_p_ip_count_hash L) p_ipaddr) (\<lambda>p_count.
     case p_count of
       None \<Rightarrow> rbind (hash_add_entry (s_p_ip_count_hash L) p_ipaddr 1) (\<lambda>H.
         Inr (1, L\<lparr>s_p_ip_count_hash := H\<rparr>))
     | Some count \<Rightarrow> rbind (hash_write_entry (s_p_ip_count_hash L) p_ipaddr (count + 1)) (\<lambda>H.
         Inr (count + 1, L\<lparr>s_p_ip_count_hash := H\<rparr>)))"

definition drop_ip_count :: "listener \<Rightarrow> string \<Rightarrow> listener res" where
  "drop_ip_count L p_raw_addr = rbind (hash_lookup_entry (s_p_ip_count_hash L) p_raw_addr) (\<lambda>p_count.
     case p_count of
       None \<Rightarrow> Inl (Bug ''IP address missing from hash'')
     | Some count \<Rightarrow>
         if count = 0 then Inl (Bug ''zero count for IP address'')
         else rbind (hash_write_entry (s_p_ip_count_hash L) p_raw_addr (count - 1)) (\<lambda>H.
           if count - 1 \<noteq> 0 then Inr (L\<lparr>s_p_ip_count_hash := H\<rparr>)
           else rbind (hash_free_entry H p_raw_addr) (\<lambda>H. Inr (L\<lparr>s_p_ip_count_hash := H\<rparr>))))"

text \<open>A child that is not in the table would have no address to follow.\<close>

definition reap_child :: "listener \<Rightarrow> u32 \<Rightarrow> listener res" where
  "reap_child L reap_one = (let L = L\<lparr>s_children := s_children L - 1\<rparr> in
     rbind (hash_lookup_entry (s_p_pid_ip_hash L) reap_one) (\<lambda>result. case result of
       None \<Rightarrow> Inl (Trap ''null pointer'')
     | Some p_raw_addr \<Rightarrow> rbind (drop_ip_count L p_raw_addr) (\<lambda>L.
         rbind (hash_free_entry (s_p_pid_ip_hash L) reap_one) (\<lambda>H. Inr (L\<lparr>s_p_pid_ip_hash := H\<rparr>)))))"

section \<open>Signals\<close>

text \<open>\<open>n\<close> bounds the number of children that have ended at once.\<close>

primrec listener_sigchld :: "env \<Rightarrow> nat \<Rightarrow> listener \<Rightarrow> listener proc" where
  "listener_sigchld E 0 L = halt Unfinished"
| "listener_sigchld E (Suc n) L = bind (vsf_sysutil_wait_reap_one E) (\<lambda>pid.
     let reap_one = word_of_int pid :: u32 in
     if reap_one = 0 then return L
     else bind (lift_res E (reap_child L reap_one)) (listener_sigchld E n))"

definition handle_sighup :: "env \<Rightarrow> listener \<Rightarrow> listener proc" where
  "handle_sighup E L = bind (vsf_parseconf_load_file (with_tun E tunables_load_defaults) None False) (\<lambda>T.
     return (L\<lparr>settings := T\<rparr>))"

text \<open>The pending signals in the order of their numbers.\<close>

definition check_signals :: "env \<Rightarrow> listener \<Rightarrow> listener proc" where
  "check_signals E L =
     bind (sys_int E (Call ''pending'' [] [''SIGHUP''])) (\<lambda>hup.
     bind (if hup \<noteq> 0 then handle_sighup E L else return L) (\<lambda>L.
     bind (sys_int E (Call ''pending'' [] [''SIGCHLD''])) (\<lambda>chld.
     if chld \<noteq> 0 then listener_sigchld E (fuel E) L else return L)))"

section \<open>A connection\<close>

definition listener_accept :: "env \<Rightarrow> int \<Rightarrow> listener \<Rightarrow> (int \<times> sockaddr \<times> listener) proc" where
  "listener_accept E listen_sock L = bind (sys E (Accept listen_sock 0)) (\<lambda>r.
     bind (check_signals E L) (\<lambda>L.
     if ret_int r < 0 then return (ret_int r, Sa_unspec, L)
     else if ret_peer r = Sa_unspec then die E ''can only support ipv4 and ipv6 currently''
     else return (ret_int r, ret_peer r, L)))"

definition vsf_sysutil_dupfd2 :: "env \<Rightarrow> int \<Rightarrow> int \<Rightarrow> unit proc" where
  "vsf_sysutil_dupfd2 E old_fd new_fd = (if old_fd = new_fd then return ()
     else bind (sys_int E (Call ''dup2'' [old_fd, new_fd] [])) (\<lambda>retval.
       if retval \<noteq> new_fd then die E ''dup2'' else return ()))"

definition prepare_child :: "env \<Rightarrow> int \<Rightarrow> unit proc" where
  "prepare_child E new_client_sock = block [
     vsf_sysutil_dupfd2 E new_client_sock 0,
     vsf_sysutil_dupfd2 E new_client_sock 1,
     vsf_sysutil_dupfd2 E new_client_sock 2,
     whenp (new_client_sock > 2) (vsf_sysutil_close E new_client_sock)]"

definition fork_child :: "env \<Rightarrow> int proc" where
  "fork_child E = (if tunable_isolate E
     then if tunable_http_enable E \<and> tunable_isolate_network E
          then vsf_sysutil_fork_isolate_all_failok E else vsf_sysutil_fork_isolate_failok E
     else vsf_sysutil_fork_failok E)"

text \<open>Both sides of the fork: the result is what the listener goes on with, or what a new child starts with.\<close>

definition launch_child :: "env \<Rightarrow> int \<Rightarrow> int \<Rightarrow> listener \<Rightarrow> string \<Rightarrow> u32 \<Rightarrow> int \<Rightarrow>
    (listener + vsf_client_launch \<times> tunables) proc" where
  "launch_child E listen_sock new_client_sock L p_raw_addr count new_child = (
         if new_child \<noteq> 0
         then seq (vsf_sysutil_close E new_client_sock)
           (if new_child > 0
            then bind (lift_res E (hash_add_entry (s_p_pid_ip_hash L) (word_of_int new_child) p_raw_addr)) (\<lambda>H.
              return (Inl (L\<lparr>s_p_pid_ip_hash := H\<rparr>)))
            else bind (lift_res E (drop_ip_count (L\<lparr>s_children := s_children L - 1\<rparr>) p_raw_addr)) (\<lambda>L.
              return (Inl L)))
         else seq (block [
           vsf_set_die_if_parent_dies E,
           vsf_sysutil_close E listen_sock,
           prepare_child E new_client_sock])
           (return (Inr (\<lparr>launch_children = s_children L, launch_this_ip = count\<rparr>, settings L))))"

definition accept_round :: "env \<Rightarrow> int \<Rightarrow> listener \<Rightarrow> (listener + vsf_client_launch \<times> tunables) proc" where
  "accept_round E listen_sock L =
     bind (listener_accept E listen_sock L) (\<lambda>(new_client_sock, p_accept_addr, L).
     if vsf_sysutil_retval_is_error new_client_sock then return (Inl L)
     else let E = with_tun E (settings L); L = L\<lparr>s_children := s_children L + 1\<rparr> in
       bind (lift_res E (raw_addr_key p_accept_addr)) (\<lambda>p_raw_addr.
       bind (lift_res E (handle_ip_count L p_raw_addr)) (\<lambda>(count, L).
       bind (fork_child E) (launch_child E listen_sock new_client_sock L p_raw_addr count))))"

text \<open>\<open>n\<close> bounds the number of connections.\<close>

primrec accept_loop :: "env \<Rightarrow> int \<Rightarrow> nat \<Rightarrow> listener \<Rightarrow> (vsf_client_launch \<times> tunables) proc" where
  "accept_loop E listen_sock 0 L = halt Unfinished"
| "accept_loop E listen_sock (Suc n) L = bind (accept_round (with_tun E (settings L)) listen_sock L) (\<lambda>r. case r of
     Inl L \<Rightarrow> accept_loop E listen_sock n L | Inr child \<Rightarrow> return child)"

section \<open>The start of the listener\<close>

definition vsf_sysutil_reopen_standard_fds :: "env \<Rightarrow> unit proc" where
  "vsf_sysutil_reopen_standard_fds E = bind (sys_int E (Call ''open_dev_null'' [] [])) (\<lambda>fd.
     if fd < 0 then die E ''reopening standard file descriptors to /dev/null failed''
     else block [
       vsf_sysutil_dupfd2 E fd 0, vsf_sysutil_dupfd2 E fd 1, vsf_sysutil_dupfd2 E fd 2,
       whenp (fd > 2) (vsf_sysutil_close E fd)])"

definition vsf_sysutil_activate_reuseaddr :: "env \<Rightarrow> int \<Rightarrow> unit proc" where
  "vsf_sysutil_activate_reuseaddr E fd = bind (sys_int E (Sockopt ''reuseaddr'' fd)) (\<lambda>retval.
     if retval \<noteq> 0 then die E ''setsockopt: reuseaddr'' else return ())"

text \<open>The address to listen on; inet_aton and if_nametoindex are libc's.\<close>

definition ipv4_listen_addr :: "env \<Rightarrow> sockaddr proc" where
  "ipv4_listen_addr E =
     bind (lift_res E (vsf_sysutil_sockaddr_set_port vsf_sysutil_sockaddr_alloc_ipv4 (ucast (tunable_listen_port E)))) (\<lambda>p.
     case tunable_listen_address E of
       None \<Rightarrow> lift_res E (vsf_sysutil_sockaddr_set_any p)
     | Some a \<Rightarrow> bind (sys_str E (Call ''inet_aton'' [] [c_text a])) (\<lambda>r. case r of
         None \<Rightarrow> die2 E ''bad listen_address: '' (Some a)
       | Some raw \<Rightarrow> lift_res E (vsf_sysutil_sockaddr_set_ipv4addr p raw)))"

definition ipv6_listen_addr :: "env \<Rightarrow> sockaddr proc" where
  "ipv6_listen_addr E =
     bind (lift_res E (vsf_sysutil_sockaddr_set_port vsf_sysutil_sockaddr_alloc_ipv6 (ucast (tunable_listen_port E)))) (\<lambda>p.
     case tunable_listen_address6 E of
       None \<Rightarrow> lift_res E (vsf_sysutil_sockaddr_set_any p)
     | Some a \<Rightarrow> let (addr_str, scope_id) = split_char (c_text a) (CHR ''%'') in
         bind (if scope_id \<noteq> [] then sys_int E (Call ''if_nametoindex'' [] [scope_id]) else return 0) (\<lambda>if_index.
         bind (lift_res E (vsf_sysutil_parse_ipv6 addr_str)) (\<lambda>p_raw_addr. case p_raw_addr of
           None \<Rightarrow> die2 E ''bad listen_address6: '' (Some a)
         | Some raw \<Rightarrow> bind (lift_res E (vsf_sysutil_sockaddr_set_ipv6addr p raw)) (\<lambda>p.
             return (vsf_sysutil_sockaddr_set_ipv6scope p (word_of_int if_index))))))"

definition VSFTP_LISTEN_BACKLOG :: int where "VSFTP_LISTEN_BACKLOG = 32"

definition vsf_standalone_main :: "env \<Rightarrow> (vsf_client_launch \<times> tunables) proc" where
  "vsf_standalone_main E =
     (if tunable_listen E \<and> tunable_listen_ipv6 E then die E ''run two copies of vsftpd for IPv4 and IPv6''
      else seq (whenp (tunable_background E) (bind (vsf_sysutil_fork E) (\<lambda>forkret.
          if forkret > 0 then vsf_sysutil_exit E 0
          else block [vsf_sysutil_reopen_standard_fds E, vsf_sysutil_make_session_leader E])))
       (bind (if tunable_listen E then vsf_sysutil_get_ipv4_sock E else vsf_sysutil_get_ipv6_sock E) (\<lambda>listen_sock.
        seq (block [
          vsf_sysutil_activate_reuseaddr E listen_sock,
          whenp (tunable_setproctitle_enable E) (sysu E (Set_proctitle ''LISTENER'')),
          vsf_sysutil_install_sighandler E ''SIGCHLD'' ''handle_sigchld'' True,
          vsf_sysutil_install_sighandler E ''SIGHUP'' ''handle_sighup'' True,
          bind (if tunable_listen E then ipv4_listen_addr E else ipv6_listen_addr E) (\<lambda>p_sockaddr.
            bind (vsf_sysutil_bind E listen_sock p_sockaddr) (\<lambda>retval.
              if vsf_sysutil_retval_is_error retval
              then die E (if tunable_listen E then ''could not bind listening IPv4 socket''
                          else ''could not bind listening IPv6 socket'')
              else return ())),
          bind (vsf_sysutil_listen E listen_sock VSFTP_LISTEN_BACKLOG) (\<lambda>retval.
            if vsf_sysutil_retval_is_error retval then die E ''could not listen'' else return ())])
          (accept_loop E listen_sock (fuel E) (new_listener (tun E))))))"

end
