(* ===== verification/Listener.thy ===== *)
theory Listener
  imports Standalone
begin

text \<open>
  What the listener of src/standalone.c counts. The trace of a run tells which children live: a fork adds
  one, for the peer that was accepted last, and a wait takes one away. The two tables and the counter of
  the listener agree with it.
\<close>

section \<open>Children in the trace\<close>

definition peer_key :: "sockaddr \<Rightarrow> string" where
  "peer_key p = (case raw_addr_key p of Inr k \<Rightarrow> k | Inl _ \<Rightarrow> [])"

fun last_peer :: "event list \<Rightarrow> sockaddr" where
  "last_peer [] = Sa_unspec"
| "last_peer ((c, r) # h) = (case c of Accept _ _ \<Rightarrow> ret_peer r | _ \<Rightarrow> last_peer h)"

abbreviation pid_word :: "int \<Rightarrow> u32" where "pid_word \<equiv> word_of_int"

fun live :: "event list \<Rightarrow> u32 \<Rightarrow> string option" where
  "live [] = Map.empty"
| "live ((c, r) # h) = (case c of
     Fork _ \<Rightarrow> if ret_int r > 0 then (live h)(pid_word (ret_int r) \<mapsto> peer_key (last_peer h)) else live h
   | Reap \<Rightarrow> if ret_int r > 0 then (live h)(pid_word (ret_int r) := None) else live h
   | _ \<Rightarrow> live h)"

text \<open>
  A kernel gives a new process an id that no living child has, and a wait reports a child that lives.
\<close>

definition tells_children :: "env \<Rightarrow> bool" where
  "tells_children E \<longleftrightarrow> (\<forall>h x. 0 < ret_int (os E h (Fork x)) \<longrightarrow>
       ret_int (os E h (Fork x)) < 2 ^ 31 \<and> live h (pid_word (ret_int (os E h (Fork x)))) = None)
     \<and> (\<forall>h. 0 < ret_int (os E h Reap) \<longrightarrow>
       ret_int (os E h Reap) < 2 ^ 31 \<and> live h (pid_word (ret_int (os E h Reap))) \<noteq> None)"

lemma tells_with_tun [simp]: "tells_children (with_tun E T) = tells_children E"
  by (simp add: tells_children_def with_tun_def)

section \<open>What the tables hold\<close>

definition tally :: "(u32 \<Rightarrow> string option) \<Rightarrow> string \<Rightarrow> nat" where
  "tally m a = card {p. m p = Some a}"

definition counts :: "(u32 \<Rightarrow> string option) \<Rightarrow> string \<Rightarrow> u32 option" where
  "counts m a = (if tally m a = 0 then None else Some (of_nat (tally m a)))"

definition pids_ok :: "(u32 \<Rightarrow> string option) \<Rightarrow> bool" where
  "pids_ok m \<longleftrightarrow> (\<forall>p. m p \<noteq> None \<longrightarrow> 0 < unat p \<and> unat p < 2 ^ 31)"

definition exact :: "listener \<Rightarrow> (u32 \<Rightarrow> string option) \<Rightarrow> bool" where
  "exact L m \<longleftrightarrow> pids_ok m \<and> represents (s_p_pid_ip_hash L) m \<and> represents (s_p_ip_count_hash L) (counts m)
     \<and> s_children L = of_nat (card (dom m))"

lemma card_live: "pids_ok m \<Longrightarrow> card (dom m) < 2 ^ 31"
proof -
  assume p: "pids_ok m"
  have "unat ` dom m \<subseteq> {0<..<2 ^ 31}" using p by (auto simp: pids_ok_def)
  then have "card (unat ` dom m) \<le> card {0<..<2 ^ 31 :: nat}" by (intro card_mono) auto
  moreover have "card (unat ` dom m) = card (dom m)" by (intro card_image inj_onI) (simp add: word_unat_eq_iff)
  ultimately show ?thesis by simp
qed

lemma tally_le: "tally m a \<le> card (dom m)"
  unfolding tally_def by (intro card_mono) (auto simp: dom_def)

lemma tally_small: "pids_ok m \<Longrightarrow> tally m a < 2 ^ 31"
  by (rule le_less_trans[OF tally_le card_live])

lemma tally_add:
  assumes n: "m p = None"
  shows "tally (m(p \<mapsto> a)) b = (if b = a then tally m a + 1 else tally m b)"
proof (cases "b = a")
  case True
  have eq: "{q. (m(p \<mapsto> a)) q = Some a} = insert p {q. m q = Some a}" by auto
  have "card (insert p {q. m q = Some a}) = Suc (card {q. m q = Some a})"
    by (rule card_insert_disjoint[OF finite]) (simp add: n)
  then show ?thesis using True by (simp only: tally_def eq if_True refl Suc_eq_plus1)
next
  case False
  then have eq: "{q. (m(p \<mapsto> a)) q = Some b} = {q. m q = Some b}" using n by auto
  show ?thesis using False by (simp only: tally_def eq if_False)
qed

lemma tally_drop:
  assumes s: "m p = Some a"
  shows "tally (m(p := None)) b = (if b = a then tally m a - 1 else tally m b)"
proof (cases "b = a")
  case True
  have eq: "{q. (m(p := None)) q = Some a} = {q. m q = Some a} - {p}" by auto
  have "card ({q. m q = Some a} - {p}) = card {q. m q = Some a} - 1"
    by (rule card_Diff_singleton) (simp add: s)
  then show ?thesis using True by (simp only: tally_def eq if_True refl)
next
  case False
  then have eq: "{q. (m(p := None)) q = Some b} = {q. m q = Some b}" using s by auto
  show ?thesis using False by (simp only: tally_def eq if_False)
qed

lemma of_nat_u32_eq_0:
  assumes "n < 2 ^ 32"
  shows "(of_nat n :: u32) = 0 \<longleftrightarrow> n = 0"
proof
  have u: "unat (of_nat n :: u32) = n" using assms by (simp add: unat_of_nat)
  assume "(of_nat n :: u32) = 0"
  then have "unat (of_nat n :: u32) = 0" by (simp only: unat_0)
  then show "n = 0" unfolding u .
qed simp

lemma counts_add: "m p = None \<Longrightarrow> counts (m(p \<mapsto> a)) = (counts m)(a \<mapsto> of_nat (tally m a + 1))"
  by (auto simp: counts_def fun_eq_iff tally_add)

lemma counts_drop: "m p = Some a \<Longrightarrow> counts (m(p := None)) =
    (counts m)(a := if tally m a = 1 then None else Some (of_nat (tally m a - 1)))"
proof -
  assume s: "m p = Some a"
  have "0 < tally m a" unfolding tally_def using s by (subst card_gt_0_iff) auto
  then show ?thesis using s by (auto simp: counts_def fun_eq_iff tally_drop)
qed

text \<open>Counting up and down.\<close>

lemma count_up:
  assumes r: "represents (s_p_ip_count_hash L) (counts m)" and p: "pids_ok m"
  shows "\<exists>H. handle_ip_count L a = Inr (of_nat (tally m a + 1), L\<lparr>s_p_ip_count_hash := H\<rparr>)
     \<and> represents H ((counts m)(a \<mapsto> of_nat (tally m a + 1)))"
proof (cases "tally m a = 0")
  case True
  then have c: "counts m a = None" by (simp add: counts_def)
  obtain H where "hash_add_entry (s_p_ip_count_hash L) a 1 = Inr H" "represents H ((counts m)(a \<mapsto> 1))"
    using hashes.T_add[of _ _ a 1, OF r c] by blast
  then show ?thesis using True c by (intro exI[of _ H]) (simp add: handle_ip_count_def hashes.T_lookup[OF r])
next
  case False
  then have c: "counts m a = Some (of_nat (tally m a))" by (simp add: counts_def)
  obtain H where "hash_write_entry (s_p_ip_count_hash L) a (of_nat (tally m a) + 1) = Inr H"
    "represents H ((counts m)(a \<mapsto> of_nat (tally m a) + 1))"
    using hashes.T_put[of _ _ a, OF r] c by blast
  then show ?thesis using c
    by (intro exI[of _ H]) (simp add: handle_ip_count_def hashes.T_lookup[OF r] add.commute)
qed

lemma drop_represents:
  assumes r: "represents (s_p_ip_count_hash L) c" and c: "c a = Some v" "v \<noteq> 0"
  shows "\<exists>H. drop_ip_count L a = Inr (L\<lparr>s_p_ip_count_hash := H\<rparr>)
     \<and> represents H (c(a := if v - 1 = 0 then None else Some (v - 1)))"
proof -
  obtain H where H: "hash_write_entry (s_p_ip_count_hash L) a (v - 1) = Inr H" "represents H (c(a \<mapsto> v - 1))"
    using hashes.T_put[of _ _ a, OF r] c by blast
  show ?thesis
  proof (cases "v - 1 = 0")
    case True
    obtain H' where H': "hash_free_entry H a = Inr H'" "represents H' (c(a := None))"
      using hashes.T_free[OF H(2), of a] unfolding fun_upd_upd by auto
    have "drop_ip_count L a = Inr (L\<lparr>s_p_ip_count_hash := H'\<rparr>)"
      using True H(1) H'(1)
      by (simp only: drop_ip_count_def hashes.T_lookup[OF r] rbind_simps option.case c if_False if_True not_False_eq_True simp_thms)
    moreover have "represents H' (c(a := if v - 1 = 0 then None else Some (v - 1)))"
      unfolding if_P[OF True] by (rule H'(2))
    ultimately show ?thesis by (intro exI conjI)
  next
    case False
    have "drop_ip_count L a = Inr (L\<lparr>s_p_ip_count_hash := H\<rparr>)"
      using False H(1)
      by (simp only: drop_ip_count_def hashes.T_lookup[OF r] rbind_simps option.case c if_False if_True not_False_eq_True simp_thms)
    moreover have "represents H (c(a := if v - 1 = 0 then None else Some (v - 1)))"
      unfolding if_not_P[OF False] by (rule H(2))
    ultimately show ?thesis by (intro exI conjI)
  qed
qed

lemma count_down:
  assumes r: "represents (s_p_ip_count_hash L) c" and c: "c a = Some (of_nat n)" "0 < n" "n < 2 ^ 32"
  shows "\<exists>H. drop_ip_count L a = Inr (L\<lparr>s_p_ip_count_hash := H\<rparr>)
     \<and> represents H (c(a := if n = 1 then None else Some (of_nat (n - 1))))"
proof -
  have z: "(of_nat n :: u32) \<noteq> 0" using of_nat_u32_eq_0[OF c(3)] c(2) by blast
  have one: "1 \<le> n" using c(2) by linarith
  have "(of_nat (n - 1) :: u32) = of_nat n - of_nat 1" by (rule of_nat_diff[OF one])
  then have minus: "(of_nat n :: u32) - 1 = of_nat (n - 1)" by (simp only: of_nat_1)
  have small: "n - 1 < 2 ^ 32" using c(3) by linarith
  have "n - 1 = 0 \<longleftrightarrow> n = 1" using one by linarith
  then have z1: "(of_nat (n - 1) :: u32) = 0 \<longleftrightarrow> n = 1" unfolding of_nat_u32_eq_0[OF small] .
  show ?thesis using drop_represents[OF r c(1) z] unfolding minus z1 .
qed

text \<open>A child that has ended leaves both tables, without any of the failures the code looks for.\<close>

lemma reap_exact:
  assumes e: "exact L m" and p: "m p = Some a"
  shows "\<exists>L'. reap_child L p = Inr L' \<and> exact L' (m(p := None)) \<and> settings L' = settings L"
proof -
  have ok: "pids_ok m" and rp: "represents (s_p_pid_ip_hash L) m" and rc: "represents (s_p_ip_count_hash L) (counts m)"
    and n: "s_children L = of_nat (card (dom m))" using e by (auto simp: exact_def)
  have pos: "0 < tally m a" unfolding tally_def using p by (subst card_gt_0_iff) auto
  then have c: "counts m a = Some (of_nat (tally m a))" by (simp add: counts_def)
  let ?L = "L\<lparr>s_children := s_children L - 1\<rparr>"
  obtain H where H: "drop_ip_count ?L a = Inr (?L\<lparr>s_p_ip_count_hash := H\<rparr>)" "represents H (counts (m(p := None)))"
    using count_down[of ?L "counts m" a "tally m a"] rc c pos tally_small[OF ok, of a]
    unfolding counts_drop[of m p a, OF p] by auto
  obtain H' where H': "hash_free_entry (s_p_pid_ip_hash L) p = Inr H'" "represents H' (m(p := None))"
    using hashes.T_free[OF rp, of p] p by auto
  have d: "dom (m(p := None)) = dom m - {p}" by auto
  have "card (dom m - {p}) = card (dom m) - 1" using p by (intro card_Diff_singleton) auto
  moreover have "0 < card (dom m)" using p by (subst card_gt_0_iff) auto
  ultimately have "s_children L - 1 = of_nat (card (dom (m(p := None))))" using n d by (simp add: of_nat_diff)
  moreover have "reap_child L p = Inr (?L\<lparr>s_p_ip_count_hash := H, s_p_pid_ip_hash := H'\<rparr>)"
    by (simp add: reap_child_def hashes.T_lookup[OF rp] p H(1) H'(1))
  moreover have "pids_ok (m(p := None))" using ok by (simp add: pids_ok_def)
  ultimately show ?thesis using H(2) H'(2) by (simp add: exact_def)
qed

lemma new_exact: "exact (new_listener T) Map.empty"
proof -
  have "counts Map.empty = Map.empty" by (simp add: counts_def tally_def fun_eq_iff)
  moreover have "hash_ip 256 k < 256" "hash_pid 256 p < 256" for k p
    unfolding hash_ip_def hash_pid_def by (simp_all add: word_mod_less_divisor)
  ultimately show ?thesis
    using alloc_represents[of hash_ip 256] alloc_represents[of hash_pid 256]
    by (simp add: exact_def new_listener_def pids_ok_def)
qed

section \<open>Runs of the listener\<close>

lemma triple_sys_at:
  "(\<And>w. P w \<Longrightarrow> Q (os E (trace w) c) (w\<lparr>trace := (c, os E (trace w) c) # trace w\<rparr>)) \<Longrightarrow> triple P (sys E c) Q R"
  "(\<And>w. P w \<Longrightarrow> Q' (ret_int (os E (trace w) c)) (w\<lparr>trace := (c, os E (trace w) c) # trace w\<rparr>)) \<Longrightarrow>
     triple P (sys_int E c) Q' R"
  by (simp_all add: triple_def sys_def sys_int_def bind_def return_def Let_def)

lemma triple_lift_Inr: "m = Inr x \<Longrightarrow> triple P (f x) Q R \<Longrightarrow> triple P (bind (lift_res E m) f) Q R"
  by (simp add: triple_def lift_res_def bind_def return_def)

definition family :: "(u32 \<Rightarrow> string option) \<Rightarrow> sockaddr \<Rightarrow> world \<Rightarrow> bool" where
  "family m a w \<longleftrightarrow> live (trace w) = m \<and> last_peer (trace w) = a"

lemma family_base [simp, intro]: "base (family m a)"
proof -
  have "live ((c, r) # h) = live h \<and> last_peer ((c, r) # h) = last_peer h" if "benign c" for c r h
    using that by (cases c) auto
  then show ?thesis by (simp add: base_def allows_def family_def)
qed

lemma family_allows [simp, intro]: "allows (family m a) (Open_readonly f)" "allows (family m a) (Bind fd p)"
  by (simp_all add: allows_def family_def)

text \<open>What a fork leaves behind.\<close>

definition forked :: "(u32 \<Rightarrow> string option) \<Rightarrow> sockaddr \<Rightarrow> int \<Rightarrow> world \<Rightarrow> bool" where
  "forked m a pid w \<longleftrightarrow> family (if pid > 0 then m(pid_word pid \<mapsto> peer_key a) else m) a w
     \<and> (pid > 0 \<longrightarrow> pid < 2 ^ 31 \<and> m (pid_word pid) = None)"

lemma forked_failed: "pid \<le> 0 \<Longrightarrow> forked m a pid w = family m a w"
  by (simp add: forked_def)

lemma forked_base: "base (forked m a pid)"
  using family_base[of "if pid > 0 then m(pid_word pid \<mapsto> peer_key a) else m" a]
  unfolding base_def allows_def forked_def by blast

lemma fork_forks:
  assumes t: "tells_children E"
  shows "triple (family m a) (sys_int E (Fork x)) (forked m a) R"
proof (rule triple_sys_at)
  fix w assume f: "family m a w"
  let ?pid = "ret_int (os E (trace w) (Fork x))"
  have "0 < ?pid \<Longrightarrow> ?pid < 2 ^ 31 \<and> m (pid_word ?pid) = None"
    using t[unfolded tells_children_def, THEN conjunct1, rule_format, of "trace w" x] f by (simp add: family_def)
  then show "forked m a ?pid (w\<lparr>trace := (Fork x, os E (trace w) (Fork x)) # trace w\<rparr>)"
    using f by (simp add: forked_def family_def)
qed

lemma clone_forks:
  assumes t: "tells_children E"
  shows "triple (family m a) (try_clone E x) (\<lambda>r w. case r of Some pid \<Rightarrow> forked m a pid w | None \<Rightarrow> family m a w) (\<lambda>_. True)"
  unfolding try_clone_def
proof (rule triple_bind[OF fork_forks[OF t]])
  fix pid
  show "triple (forked m a pid) (if pid \<noteq> -1 then return (Some pid)
     else bind (sys_int E (Call ''errno_in'' [] [''EINVAL'', ''EPERM''])) (\<lambda>u. return (if u = 0 then Some pid else None)))
     (\<lambda>r w. case r of Some pid \<Rightarrow> forked m a pid w | None \<Rightarrow> family m a w) (\<lambda>_. True)"
  proof (cases "pid = -1")
    case True
    have "triple (family m a) (sys_int E (Call ''errno_in'' [] [''EINVAL'', ''EPERM''])) (\<lambda>_. family m a) (\<lambda>_. True)"
      by (rule triple_sys_ops) (simp add: family_def)
    moreover have "forked m a pid = family m a" by (rule ext) (simp add: forked_failed True)
    ultimately show ?thesis
      using True by (simp, intro triple_bind) (assumption, simp add: triple_return forked_failed)
  qed (simp add: triple_return)
qed

lemma then_forks:
  assumes t: "tells_children E" and f: "triple (family m a) n (forked m a) (\<lambda>_. True)" and p: "keeps (family m a) p"
  shows "triple (family m a) (bind (if b then try_clone E x else return None) (\<lambda>ret. case ret of
       Some pid \<Rightarrow> return pid | None \<Rightarrow> seq p n)) (forked m a) (\<lambda>_. True)"
proof (rule triple_bind)
  show "triple (family m a) (if b then try_clone E x else return None)
     (\<lambda>r w. case r of Some pid \<Rightarrow> forked m a pid w | None \<Rightarrow> family m a w) (\<lambda>_. True)"
    by (rule triple_if) (rule clone_forks[OF t], simp add: triple_return)
  show "triple (\<lambda>w. case r of Some pid \<Rightarrow> forked m a pid w | None \<Rightarrow> family m a w)
     (case r of Some pid \<Rightarrow> return pid | None \<Rightarrow> seq p n) (forked m a) (\<lambda>_. True)" for r
  proof (cases r)
    case None
    have "triple (family m a) (seq p n) (forked m a) (\<lambda>_. True)"
      by (rule triple_seq[OF triple_keeps[OF p] f])
    then show ?thesis using None by simp
  qed (simp add: triple_return)
qed

lemma isolate_forks:
  assumes t: "tells_children E"
  shows "triple (family m a) (vsf_sysutil_fork_isolate_failok E) (forked m a) (\<lambda>_. True)"
  unfolding vsf_sysutil_fork_isolate_failok_def vsf_sysutil_fork_failok_def
  by (rule triple_get, rule then_forks[OF t fork_forks[OF t]]) (intro safes; simp)

lemma isolate_all_forks:
  assumes t: "tells_children E"
  shows "triple (family m a) (vsf_sysutil_fork_isolate_all_failok E) (forked m a) (\<lambda>_. True)"
  unfolding vsf_sysutil_fork_isolate_all_failok_def
proof (rule triple_get)
  fix w
  show "triple (family m a) (bind (if isolate_all_cloneflags_work (sess w) < 0
       then bind (vsf_sysutil_netns_cleanup_is_fast E) (\<lambda>fast.
              seq (upd (\<lambda>t. t\<lparr>isolate_all_cloneflags_work := of_bool fast\<rparr>)) (return (of_bool fast)))
       else return (isolate_all_cloneflags_work (sess w))) (\<lambda>cloneflags_work.
     bind (if cloneflags_work \<noteq> (0 :: int) then try_clone E [''CLONE_NEWIPC'', ''CLONE_NEWNET''] else return None) (\<lambda>ret. case ret of
       Some pid \<Rightarrow> return pid
     | None \<Rightarrow> seq (whenp (cloneflags_work \<noteq> 0) (upd (\<lambda>t. t\<lparr>isolate_all_cloneflags_work := 0\<rparr>)))
         (vsf_sysutil_fork_isolate_failok E)))) (forked m a) (\<lambda>_. True)"
    by (rule triple_bind, rule triple_keeps, intro safes family_base; (simp; fail)?)
      (rule then_forks[OF t isolate_forks[OF t]], intro safes family_base; simp)
qed

lemma fork_child_forks:
  assumes "tells_children E"
  shows "triple (family m a) (fork_child E) (forked m a) (\<lambda>_. True)"
  unfolding fork_child_def vsf_sysutil_fork_failok_def
  using isolate_all_forks[OF assms] isolate_forks[OF assms] fork_forks[OF assms] by auto

section \<open>Signals that come while the listener waits\<close>

lemma pid_of_word:
  assumes "0 < pid" "pid < 2 ^ 31"
  shows "unat (pid_word pid) = nat pid"
proof -
  have "uint (pid_word pid) = pid"
    using assms by (simp add: uint_word_of_int_eq take_bit_int_eq_self)
  then show ?thesis by (simp add: unat_eq_nat_uint)
qed

lemma pid_word_0:
  assumes "0 < pid" "pid < 2 ^ 31"
  shows "pid_word pid \<noteq> 0"
proof
  assume "pid_word pid = 0"
  then have "unat (pid_word pid) = 0" by simp
  then show False using pid_of_word[OF assms] assms(1) by simp
qed

lemma pids_ok_add: "pids_ok m \<Longrightarrow> 0 < pid \<Longrightarrow> pid < 2 ^ 31 \<Longrightarrow> pids_ok (m(pid_word pid \<mapsto> a))"
  using pid_of_word[of pid] by (auto simp: pids_ok_def nat_less_iff)

text \<open>The state of the listener and the trace together.\<close>

definition tracks :: "listener \<Rightarrow> sockaddr \<Rightarrow> world \<Rightarrow> bool" where
  "tracks L a w \<longleftrightarrow> (\<exists>m. exact L m \<and> family m a w)"

lemma tracks_live: "tracks L a w \<longleftrightarrow> exact L (live (trace w)) \<and> last_peer (trace w) = a"
  by (auto simp: tracks_def family_def)

lemma tracks_cases: "(\<And>m. exact L m \<Longrightarrow> triple (family m a) n Q R) \<Longrightarrow> triple (tracks L a) n Q R"
  by (auto simp: triple_def tracks_def)

lemma tracks_base [simp, intro]: "base (tracks L a)"
proof -
  have "live ((c, r) # h) = live h \<and> last_peer ((c, r) # h) = last_peer h" if "benign c" for c r h
    using that by (cases c) auto
  then show ?thesis by (simp add: base_def allows_def tracks_live)
qed

lemma tracks_allows [simp, intro]: "allows (tracks L a) (Open_readonly f)" "allows (tracks L a) (Bind fd p)"
  by (simp_all add: allows_def tracks_live)

definition reaped :: "listener \<Rightarrow> sockaddr \<Rightarrow> int \<Rightarrow> world \<Rightarrow> bool" where
  "reaped L a pid w \<longleftrightarrow> (if pid = 0 then tracks L a w
     else 0 < pid \<and> pid < 2 ^ 31 \<and> (\<exists>m. exact L m \<and> m (pid_word pid) \<noteq> None \<and> family (m(pid_word pid := None)) a w))"

lemma wait_reaps:
  assumes t: "tells_children E"
  shows "triple (tracks L a) (vsf_sysutil_wait_reap_one E) (reaped L a) (\<lambda>_. True)"
proof -
  have r: "triple (tracks L a) (sys_int E Reap) (\<lambda>pid w. if pid \<le> 0 then tracks L a w else reaped L a pid w) (\<lambda>_. True)"
  proof (rule triple_sys_at)
    fix w assume f: "tracks L a w"
    let ?pid = "ret_int (os E (trace w) Reap)" and ?w = "w\<lparr>trace := (Reap, os E (trace w) Reap) # trace w\<rparr>"
    obtain m where m: "exact L m" "live (trace w) = m" "last_peer (trace w) = a" using f by (auto simp: tracks_def family_def)
    show "if ?pid \<le> 0 then tracks L a ?w else reaped L a ?pid ?w"
    proof (cases "0 < ?pid")
      case True
      then have k: "?pid < 2 ^ 31 \<and> live (trace w) (pid_word ?pid) \<noteq> None"
        by (rule t[unfolded tells_children_def, THEN conjunct2, rule_format])
      then have "\<exists>m. exact L m \<and> m (pid_word ?pid) \<noteq> None \<and> family (m(pid_word ?pid := None)) a ?w"
        using m True by (intro exI[of _ m]) (simp add: family_def)
      then show ?thesis using True k by (simp add: reaped_def)
    next
      case False
      then show ?thesis using f by (simp add: tracks_live)
    qed
  qed
  show ?thesis
    unfolding vsf_sysutil_wait_reap_one_def
  proof (rule triple_bind[OF r])
    fix pid
    show "triple (\<lambda>w. if pid \<le> 0 then tracks L a w else reaped L a pid w)
       (if pid = 0 then return 0 else if pid > 0 then return pid
        else bind (sys_int E (Call ''errno_in'' [] [''ECHILD''])) (\<lambda>no_child.
          if no_child \<noteq> 0 then return 0 else die E ''waitpid'')) (reaped L a) (\<lambda>_. True)"
    proof (cases "pid < 0")
      case True
      have "triple (tracks L a) (bind (sys_int E (Call ''errno_in'' [] [''ECHILD''])) (\<lambda>no_child.
          if no_child \<noteq> 0 then return 0 else die E ''waitpid'')) (reaped L a) (\<lambda>_. True)"
        by (rule triple_bind[where Q = "\<lambda>_. tracks L a"], rule triple_sys_ops, simp add: tracks_live,
            rule triple_if, rule triple_return, simp add: reaped_def, rule die_triple)
      then show ?thesis using True by simp
    next
      case False
      have same: "reaped L a pid w" if "if pid \<le> 0 then tracks L a w else reaped L a pid w" for w
        using that False by (cases "pid = 0") (simp_all add: reaped_def)
      show ?thesis
      proof (cases "pid = 0")
        case True
        then show ?thesis using same by (simp add: triple_return)
      next
        case False
        then have "0 < pid" using \<open>\<not> pid < 0\<close> by simp
        then show ?thesis using same by (simp add: triple_return)
      qed
    qed
  qed
qed

lemma sigchld_tracks:
  assumes t: "tells_children E"
  shows "triple (tracks L a) (listener_sigchld E n L) (\<lambda>L' w. tracks L' a w) (\<lambda>_. True)"
proof (induction n arbitrary: L)
  case (Suc n)
  show ?case
    unfolding listener_sigchld.simps Let_def
  proof (rule triple_bind[OF wait_reaps[OF t]])
    fix pid
    show "triple (reaped L a pid) (if pid_word pid = 0 then return L
       else bind (lift_res E (reap_child L (pid_word pid))) (listener_sigchld E n))
       (\<lambda>L' w. tracks L' a w) (\<lambda>_. True)"
    proof (rule tripleI)
      fix w assume r: "reaped L a pid w"
      show "case (if pid_word pid = 0 then return L
         else bind (lift_res E (reap_child L (pid_word pid))) (listener_sigchld E n)) w of
         Done L' w' \<Rightarrow> tracks L' a w' | Halt _ w' \<Rightarrow> True"
      proof (cases "pid = 0")
        case True
        then show ?thesis using r by (simp add: return_def reaped_def)
      next
        case False
        then have b: "0 < pid" "pid < 2 ^ 31" using r by (auto simp: reaped_def)
        obtain m addr where m: "exact L m" "m (pid_word pid) = Some addr" "family (m(pid_word pid := None)) a w"
          using r False by (auto simp: reaped_def)
        obtain L' where L': "reap_child L (pid_word pid) = Inr L'" "exact L' (m(pid_word pid := None))" using reap_exact[OF m(1,2)] by blast
        have "tracks L' a w" using L'(2) m(3) by (auto simp: tracks_def)
        from tripleD[OF Suc.IH[of L'] this] show ?thesis
          using L' pid_word_0[OF b] by (simp add: lift_res_def bind_def return_def)
      qed
    qed
  qed
qed (simp add: triple_halt)

lemma sighup_tracks:
  "triple (tracks L a) (handle_sighup E L) (\<lambda>L' w. tracks L' a w) (\<lambda>_. True)"
  unfolding handle_sighup_def
proof (rule triple_bind)
  have "keeps (tracks L a) (vsf_parseconf_load_file (with_tun E tunables_load_defaults) None False)"
    unfolding vsf_parseconf_load_file_def
    by (intro keeps_seq keeps_whenp keeps_get keeps_option keeps_bug keeps_load_config tracks_base tracks_allows) simp
  then show "triple (tracks L a) (vsf_parseconf_load_file (with_tun E tunables_load_defaults) None False)
      (\<lambda>_. tracks L a) (\<lambda>_. True)" by (rule triple_keeps)
  show "triple (tracks L a) (return (L\<lparr>settings := T\<rparr>)) (\<lambda>L' w. tracks L' a w) (\<lambda>_. True)" for T
    by (rule triple_return) (simp add: tracks_def exact_def)
qed

lemma signals_track:
  assumes t: "tells_children E"
  shows "triple (tracks L a) (check_signals E L) (\<lambda>L' w. tracks L' a w) (\<lambda>_. True)"
proof -
  have ask: "triple (tracks L a) (sys_int E (Call x y z)) (\<lambda>_. tracks L a) (\<lambda>_. True)" for x y z L
    by (rule triple_sys_ops) (simp add: tracks_live)
  have go: "triple (tracks L a) (return L) (\<lambda>L' w. tracks L' a w) (\<lambda>_. True)" for L
    by (rule triple_return)
  have chld: "triple (tracks L a) (listener_sigchld E n L) (\<lambda>L' w. tracks L' a w) (\<lambda>_. True)" for n L
    by (rule sigchld_tracks[OF t])
  show ?thesis
    unfolding check_signals_def
    by (rule triple_bind[OF ask], rule triple_bind[where Q = "\<lambda>L. tracks L a"], rule triple_if, rule sighup_tracks,
        rule go, rule triple_bind[OF ask], rule triple_if, rule chld, rule go)
qed

section \<open>Connections\<close>

lemma accept_tracks:
  assumes t: "tells_children E"
  shows "triple (\<lambda>w. \<exists>a. tracks L a w) (listener_accept E fd L)
    (\<lambda>(new_fd, p, L') w. if new_fd < 0 then \<exists>a. tracks L' a w else tracks L' p w) (\<lambda>_. True)"
  unfolding listener_accept_def
proof (rule triple_bind)
  show "triple (\<lambda>w. \<exists>a. tracks L a w) (sys E (Accept fd 0)) (\<lambda>r. tracks L (ret_peer r)) (\<lambda>_. True)"
    by (rule triple_sys) (auto simp: tracks_live)
  fix r
  show "triple (tracks L (ret_peer r)) (bind (check_signals E L) (\<lambda>L.
     if ret_int r < 0 then return (ret_int r, Sa_unspec, L)
     else if ret_peer r = Sa_unspec then die E ''can only support ipv4 and ipv6 currently''
     else return (ret_int r, ret_peer r, L)))
    (\<lambda>(new_fd, p, L') w. if new_fd < 0 then \<exists>a. tracks L' a w else tracks L' p w) (\<lambda>_. True)"
  proof (rule triple_bind[OF signals_track[OF t]])
    show "triple (tracks L' (ret_peer r)) (if ret_int r < 0 then return (ret_int r, Sa_unspec, L')
       else if ret_peer r = Sa_unspec then die E ''can only support ipv4 and ipv6 currently''
       else return (ret_int r, ret_peer r, L'))
      (\<lambda>(new_fd, p, L') w. if new_fd < 0 then \<exists>a. tracks L' a w else tracks L' p w) (\<lambda>_. True)" for L'
      by (intro triple_if) (auto intro!: triple_return die_triple)
  qed
qed

text \<open>What a new child is told: itself and those that live, in all and of its own address.\<close>

definition launched :: "vsf_client_launch \<Rightarrow> event list \<Rightarrow> bool" where
  "launched info h \<longleftrightarrow> pids_ok (live h)
     \<and> launch_children info = of_nat (card (dom (live h)) + 1)
     \<and> launch_this_ip info = of_nat (tally (live h) (peer_key (last_peer h)) + 1)"

definition counted_for :: "listener \<Rightarrow> (u32 \<Rightarrow> string option) \<Rightarrow> string \<Rightarrow> bool" where
  "counted_for L m k \<longleftrightarrow> pids_ok m \<and> represents (s_p_pid_ip_hash L) m
     \<and> represents (s_p_ip_count_hash L) ((counts m)(k \<mapsto> of_nat (tally m k + 1)))
     \<and> s_children L = of_nat (card (dom m) + 1)"

lemma uncount:
  assumes c: "counted_for L m k"
  shows "\<exists>L'. drop_ip_count (L\<lparr>s_children := s_children L - 1\<rparr>) k = Inr L' \<and> exact L' m"
proof -
  have ok: "pids_ok m" and r: "represents (s_p_ip_count_hash L) ((counts m)(k \<mapsto> of_nat (tally m k + 1)))"
    using c by (simp_all only: counted_for_def)
  let ?L = "L\<lparr>s_children := s_children L - 1\<rparr>"
  let ?c = "(counts m)(k \<mapsto> of_nat (tally m k + 1))"
  have small: "tally m k + 1 < 2 ^ 32" using tally_small[OF ok, of k] by simp
  have r': "represents (s_p_ip_count_hash ?L) ?c" using r by simp
  have pos: "0 < tally m k + 1" by simp
  obtain H where H: "drop_ip_count ?L k = Inr (?L\<lparr>s_p_ip_count_hash := H\<rparr>)"
    "represents H (((counts m)(k \<mapsto> of_nat (tally m k + 1)))(k := if tally m k + 1 = 1 then None
       else Some (of_nat (tally m k + 1 - 1))))"
    using count_down[OF r' fun_upd_same pos small] by blast
  have "((counts m)(k \<mapsto> of_nat (tally m k + 1)))(k := if tally m k + 1 = 1 then None
       else Some (of_nat (tally m k + 1 - 1))) = counts m" by (simp add: fun_eq_iff counts_def)
  moreover have "s_children L - 1 = of_nat (card (dom m))" using c by (simp add: counted_for_def)
  ultimately have "exact (?L\<lparr>s_p_ip_count_hash := H\<rparr>) m" using H(2) c by (simp add: exact_def counted_for_def)
  then show ?thesis using H(1) by blast
qed

lemma add_child:
  assumes c: "counted_for L m k" and p: "0 < pid" "pid < 2 ^ 31" "m (pid_word pid) = None"
  shows "\<exists>H. hash_add_entry (s_p_pid_ip_hash L) (pid_word pid) k = Inr H
     \<and> exact (L\<lparr>s_p_pid_ip_hash := H\<rparr>) (m(pid_word pid \<mapsto> k))"
proof -
  have ok: "pids_ok m" and r: "represents (s_p_pid_ip_hash L) m" using c by (simp_all only: counted_for_def)
  obtain H where H: "hash_add_entry (s_p_pid_ip_hash L) (pid_word pid) k = Inr H" "represents H (m(pid_word pid \<mapsto> k))"
    using hashes.T_add[of _ _ "pid_word pid" k, OF r p(3)] by blast
  have "card (insert (pid_word pid) (dom m)) = Suc (card (dom m))"
    by (rule card_insert_disjoint[OF finite]) (simp add: p(3) domIff)
  then have "s_children L = of_nat (card (dom (m(pid_word pid \<mapsto> k))))"
    using c by (simp add: counted_for_def)
  moreover have "represents (s_p_ip_count_hash L) (counts (m(pid_word pid \<mapsto> k)))"
    unfolding counts_add[where m = m and p = "pid_word pid" and a = k, OF p(3)]
    using c by (simp only: counted_for_def)
  ultimately show ?thesis
    using H pids_ok_add[OF ok p(1,2), of k] by (auto simp: exact_def)
qed

lemma launch_tracks:
  assumes c: "counted_for L m (peer_key p)" and n: "count = of_nat (tally m (peer_key p) + 1)"
  shows "triple (forked m p pid) (launch_child E ls fd L (peer_key p) count pid)
    (\<lambda>r w. case r of Inl L' \<Rightarrow> \<exists>a. tracks L' a w | Inr (info, T) \<Rightarrow> launched info (trace w)) (\<lambda>_. True)"
proof -
  have close: "triple (forked m p pid) (vsf_sysutil_close E x) (\<lambda>_. forked m p pid) (\<lambda>_. True)" for x
    by (rule triple_keeps) (intro safes forked_base)
  consider "pid > 0" | "pid < 0" | "pid = 0" by linarith
  then show ?thesis
  proof cases
    case 1
    have "triple (forked m p pid) (bind (lift_res E (hash_add_entry (s_p_pid_ip_hash L) (word_of_int pid) (peer_key p)))
       (\<lambda>H. return (Inl (L\<lparr>s_p_pid_ip_hash := H\<rparr>))))
      (\<lambda>r w. case r of Inl L' \<Rightarrow> \<exists>a. tracks L' a w | Inr (info, T) \<Rightarrow> launched info (trace w)) (\<lambda>_. True)"
    proof (cases "pid < 2 ^ 31 \<and> m (pid_word pid) = None")
      case True
      then obtain H where H: "hash_add_entry (s_p_pid_ip_hash L) (pid_word pid) (peer_key p) = Inr H"
        "exact (L\<lparr>s_p_pid_ip_hash := H\<rparr>) (m(pid_word pid \<mapsto> peer_key p))"
        using add_child[OF c 1] by blast
      show ?thesis
        by (rule triple_lift_Inr[OF H(1)], rule triple_return) (use 1 H(2) in \<open>auto simp: forked_def tracks_def\<close>)
    next
      case False
      then show ?thesis using 1 by (auto simp: triple_def forked_def)
    qed
    from triple_seq[OF close this] show ?thesis using 1 by (simp add: launch_child_def)
  next
    case 2
    obtain L' where L': "drop_ip_count (L\<lparr>s_children := s_children L - 1\<rparr>) (peer_key p) = Inr L'" "exact L' m"
      using uncount[OF c] by blast
    have "triple (forked m p pid) (bind (lift_res E (drop_ip_count (L\<lparr>s_children := s_children L - 1\<rparr>) (peer_key p)))
       (\<lambda>L. return (Inl L)))
      (\<lambda>r w. case r of Inl L' \<Rightarrow> \<exists>a. tracks L' a w | Inr (info, T) \<Rightarrow> launched info (trace w)) (\<lambda>_. True)"
      by (rule triple_lift_Inr[OF L'(1)], rule triple_return)
        (use 2 L'(2) in \<open>auto simp: forked_failed tracks_def\<close>)
    from triple_seq[OF close this] show ?thesis using 2 by (simp add: launch_child_def)
  next
    case 3
    have k: "keeps (family m p) (block [vsf_set_die_if_parent_dies E, vsf_sysutil_close E ls, prepare_child E fd])"
      unfolding prepare_child_def vsf_sysutil_dupfd2_def by (intro safes family_base; simp)
    have same: "forked m p pid = family m p" by (rule ext) (simp add: forked_failed 3)
    have "triple (family m p) (seq (block [vsf_set_die_if_parent_dies E, vsf_sysutil_close E ls, prepare_child E fd])
       (return (Inr (\<lparr>launch_children = s_children L, launch_this_ip = count\<rparr>, settings L))))
      (\<lambda>r w. case r of Inl L' \<Rightarrow> \<exists>a. tracks L' a w | Inr (info, T) \<Rightarrow> launched info (trace w)) (\<lambda>_. True)"
      by (rule triple_seq[OF triple_keeps[OF k]], rule triple_return)
        (use c n in \<open>auto simp: launched_def counted_for_def family_def\<close>)
    then show ?thesis using 3 unfolding same by (simp add: launch_child_def)
  qed
qed

lemma round_tracks:
  assumes t: "tells_children E"
  shows "triple (\<lambda>w. \<exists>a. tracks L a w) (accept_round E ls L)
    (\<lambda>r w. case r of Inl L' \<Rightarrow> \<exists>a. tracks L' a w | Inr (info, T) \<Rightarrow> launched info (trace w)) (\<lambda>_. True)"
  unfolding accept_round_def
proof (rule triple_bind[OF accept_tracks[OF t]])
  fix r :: "int \<times> sockaddr \<times> listener"
  obtain fd p L where r: "r = (fd, p, L)" by (cases r) auto
  let ?Q = "\<lambda>r w. case r of Inl L' \<Rightarrow> \<exists>a. tracks L' a w | Inr (info, T) \<Rightarrow> launched info (trace w)"
  let ?E = "with_tun E (settings L)" and ?L = "L\<lparr>s_children := s_children L + 1\<rparr>"
  have go: "triple (tracks L p) (bind (lift_res ?E (raw_addr_key p)) (\<lambda>k.
       bind (lift_res ?E (handle_ip_count ?L k)) (\<lambda>(count, L).
       bind (fork_child ?E) (launch_child ?E ls fd L k count)))) ?Q (\<lambda>_. True)"
  proof (cases "raw_addr_key p")
    case (Inl e)
    then show ?thesis
      by (cases e) (simp_all add: lift_res_def triple_def bind_def bug_def die_def halt_def seq_def sysu_def sys_def
          return_def Let_def vsf_sysutil_exit_def)
  next
    case (Inr k)
    then have k: "k = peer_key p" by (simp add: peer_key_def)
    show ?thesis
    proof (rule triple_lift_Inr[OF Inr], rule tracks_cases)
      fix m assume e: "exact L m"
      then have ok: "pids_ok m" and rc: "represents (s_p_ip_count_hash ?L) (counts m)" by (simp_all add: exact_def)
      obtain H where H: "handle_ip_count ?L k = Inr (of_nat (tally m k + 1), ?L\<lparr>s_p_ip_count_hash := H\<rparr>)"
        "represents H ((counts m)(k \<mapsto> of_nat (tally m k + 1)))" using count_up[OF rc ok] by blast
      have c: "counted_for (?L\<lparr>s_p_ip_count_hash := H\<rparr>) m (peer_key p)"
        using e H(2) k by (simp add: exact_def counted_for_def)
      have t': "tells_children ?E" using t by simp
      show "triple (family m p) (bind (lift_res ?E (handle_ip_count ?L k)) (\<lambda>(count, L).
         bind (fork_child ?E) (launch_child ?E ls fd L k count))) ?Q (\<lambda>_. True)"
        by (rule triple_lift_Inr[OF H(1)], simp only: prod.case, rule triple_bind[OF fork_child_forks[OF t']])
          (use launch_tracks[OF c refl] k in simp)
    qed
  qed
  show "triple ((\<lambda>(new_fd, p, L') w. if new_fd < 0 then \<exists>a. tracks L' a w else tracks L' p w) r)
    (case r of (new_client_sock, p_accept_addr, L) \<Rightarrow>
     if vsf_sysutil_retval_is_error new_client_sock then return (Inl L)
     else let E = with_tun E (settings L); L = L\<lparr>s_children := s_children L + 1\<rparr> in
       bind (lift_res E (raw_addr_key p_accept_addr)) (\<lambda>p_raw_addr.
       bind (lift_res E (handle_ip_count L p_raw_addr)) (\<lambda>(count, L).
       bind (fork_child E) (launch_child E ls new_client_sock L p_raw_addr count)))) ?Q (\<lambda>_. True)"
    using go by (cases "fd < 0") (simp_all add: r vsf_sysutil_retval_is_error_def Let_def triple_return)
qed

lemma loop_tracks:
  assumes t: "tells_children E"
  shows "triple (\<lambda>w. \<exists>a. tracks L a w) (accept_loop E ls n L) (\<lambda>(info, T) w. launched info (trace w)) (\<lambda>_. True)"
proof (induction n arbitrary: L)
  case (Suc n)
  have t': "tells_children (with_tun E (settings L))" using t by simp
  show ?case
    unfolding accept_loop.simps
  proof (rule triple_bind[OF round_tracks[OF t']])
    fix r :: "listener + vsf_client_launch \<times> tunables"
    show "triple (\<lambda>w. case r of Inl L' \<Rightarrow> \<exists>a. tracks L' a w | Inr (info, T) \<Rightarrow> launched info (trace w))
       (case r of Inl L \<Rightarrow> accept_loop E ls n L | Inr child \<Rightarrow> return child)
       (\<lambda>(info, T) w. launched info (trace w)) (\<lambda>_. True)"
      using Suc.IH by (cases r) (auto intro!: triple_return)
  qed
qed (simp add: triple_halt)

lemma launched_numbers:
  assumes "launched info h"
  shows "unat (launch_children info) = card (dom (live h)) + 1"
    "unat (launch_this_ip info) = card {p. live h p = Some (peer_key (last_peer h))} + 1"
proof -
  have ok: "pids_ok (live h)" using assms by (simp add: launched_def)
  have u: "unat (of_nat (n + 1) :: u32) = n + 1" if "n < 2 ^ 31" for n
    using that by (simp only: unat_of_nat) simp
  show "unat (launch_children info) = card (dom (live h)) + 1"
    using assms u[OF card_live[OF ok]] by (simp only: launched_def)
  show "unat (launch_this_ip info) = card {p. live h p = Some (peer_key (last_peer h))} + 1"
    using assms u[OF tally_small[OF ok]] by (simp only: launched_def tally_def)
qed

section \<open>From the start of the listener\<close>

definition childless :: "world \<Rightarrow> bool" where
  "childless w \<longleftrightarrow> live (trace w) = Map.empty"

lemma childless_base [simp, intro]: "base childless"
proof -
  have "live ((c, r) # h) = live h" if "benign c" for c r h using that by (cases c) auto
  then show ?thesis by (simp add: base_def allows_def childless_def)
qed

lemma childless_bind [simp, intro]: "allows childless (Bind fd p)"
  by (simp add: allows_def childless_def)

lemma childless_tracks: "childless w \<Longrightarrow> \<exists>a. tracks (new_listener T) a w"
  using new_exact by (auto simp: childless_def tracks_live)

lemma keeps_listen_addr [safes]:
  "base I \<Longrightarrow> keeps I (ipv4_listen_addr E)" "base I \<Longrightarrow> keeps I (ipv6_listen_addr E)"
  "base I \<Longrightarrow> keeps I (vsf_sysutil_activate_reuseaddr E fd)" "base I \<Longrightarrow> keeps I (vsf_sysutil_reopen_standard_fds E)"
  unfolding ipv4_listen_addr_def ipv6_listen_addr_def vsf_sysutil_activate_reuseaddr_def
    vsf_sysutil_reopen_standard_fds_def vsf_sysutil_dupfd2_def
  by (intro safes; simp)+

lemma keeps_listening [safes]:
  "base I \<Longrightarrow> keeps I (vsf_sysutil_get_ipv4_sock E)" "base I \<Longrightarrow> keeps I (vsf_sysutil_get_ipv6_sock E)"
  "base I \<Longrightarrow> keeps I (vsf_sysutil_listen E fd n)"
  unfolding vsf_sysutil_get_ipv4_sock_def vsf_sysutil_get_ipv6_sock_def vsf_sysutil_listen_def
  by (intro safes; simp)+

lemma childless_binds [safes]: "keeps childless (vsf_sysutil_bind E fd p)"
  unfolding vsf_sysutil_bind_def by (intro safes childless_base childless_bind; simp)

lemma fork_childless: "triple childless (vsf_sysutil_fork E) (\<lambda>r w. r \<le> 0 \<longrightarrow> childless w) (\<lambda>_. True)"
  unfolding vsf_sysutil_fork_def vsf_sysutil_fork_failok_def
proof (rule triple_bind)
  show "triple childless (sys_int E (Fork [])) (\<lambda>r w. r \<le> 0 \<longrightarrow> childless w) (\<lambda>_. True)"
    by (rule triple_sys_ops) (simp add: childless_def)
  show "triple (\<lambda>w. r \<le> 0 \<longrightarrow> childless w) (if r < 0 then die E ''fork'' else return r)
      (\<lambda>r w. r \<le> 0 \<longrightarrow> childless w) (\<lambda>_. True)" for r
    by (rule triple_if, rule die_triple, rule triple_return)
qed

lemma son_childless:
  "triple childless (whenp b (bind (vsf_sysutil_fork E) (\<lambda>forkret.
      if forkret > 0 then vsf_sysutil_exit E 0
      else block [vsf_sysutil_reopen_standard_fds E, vsf_sysutil_make_session_leader E]))) (\<lambda>_. childless) (\<lambda>_. True)"
proof (cases b)
  case True
  have son: "keeps childless (block [vsf_sysutil_reopen_standard_fds E, vsf_sysutil_make_session_leader E])"
    by (intro safes childless_base)
  have "triple childless (bind (vsf_sysutil_fork E) (\<lambda>forkret.
      if forkret > 0 then vsf_sysutil_exit E 0
      else block [vsf_sysutil_reopen_standard_fds E, vsf_sysutil_make_session_leader E])) (\<lambda>_. childless) (\<lambda>_. True)"
  proof (rule triple_bind[OF fork_childless])
    fix r :: int
    show "triple (\<lambda>w. r \<le> 0 \<longrightarrow> childless w) (if r > 0 then vsf_sysutil_exit E 0
      else block [vsf_sysutil_reopen_standard_fds E, vsf_sysutil_make_session_leader E]) (\<lambda>_. childless) (\<lambda>_. True)"
      using triple_keeps[OF son] by (cases "r > 0") (simp_all add: vsf_sysutil_exit_def triple_halt)
  qed
  then show ?thesis using True by (simp add: whenp_def)
qed (simp add: whenp_def triple_return)

lemma main_launches:
  assumes t: "tells_children E"
  shows "triple childless (vsf_standalone_main E) (\<lambda>(info, T) w. launched info (trace w)) (\<lambda>_. True)"
proof -
  have loop: "triple childless (accept_loop E fd (fuel E) (new_listener (tun E)))
      (\<lambda>(info, T) w. launched info (trace w)) (\<lambda>_. True)" for fd
    by (rule triple_weaken[OF loop_tracks[OF t]]) (auto dest: childless_tracks)
  have bind: "keeps childless (bind (if b then ipv4_listen_addr E else ipv6_listen_addr E) (\<lambda>p.
      bind (vsf_sysutil_bind E fd p) (\<lambda>r. if vsf_sysutil_retval_is_error r then die E x else return ())))" for b fd x
    by (intro keeps_bind keeps_if keeps_listen_addr childless_binds keeps_die keeps_return childless_base)
  show ?thesis
    unfolding vsf_standalone_main_def
    by (rule triple_if, rule die_triple, rule triple_seq[OF son_childless], rule triple_bind, rule triple_keeps,
        intro safes childless_base, rule triple_seq[OF _ loop], rule triple_keeps)
      (intro bind safes childless_base; simp)
qed

section \<open>The handler comes to an end\<close>

text \<open>Each round takes away a child, so there are no more rounds than children.\<close>

lemma sigchld_ends:
  assumes t: "tells_children E"
  shows "exact L (live (trace w)) \<Longrightarrow> card (dom (live (trace w))) < n \<Longrightarrow>
    (case listener_sigchld E n L w of Done L' w' \<Rightarrow> exact L' (live (trace w')) | Halt h w' \<Rightarrow> \<exists>c. h = Exited c)"
proof (induction n arbitrary: L w)
  case (Suc n)
  let ?pid = "ret_int (os E (trace w) Reap)" and ?w = "w\<lparr>trace := (Reap, os E (trace w) Reap) # trace w\<rparr>"
  have call: "sys_int E Reap w = Done ?pid ?w" by (simp add: sys_int_Done)
  consider "?pid = 0" | "?pid > 0" | "?pid < 0" by linarith
  then show ?case
  proof cases
    case 1
    then have "vsf_sysutil_wait_reap_one E w = Done 0 ?w"
      by (simp add: vsf_sysutil_wait_reap_one_def bind_def call return_def)
    then show ?thesis using Suc.prems 1 by (simp add: bind_def return_def)
  next
    case 2
    have k: "?pid < 2 ^ 31 \<and> live (trace w) (pid_word ?pid) \<noteq> None"
      by (rule t[unfolded tells_children_def, THEN conjunct2, rule_format]) (rule 2)
    then obtain a where a: "live (trace w) (pid_word ?pid) = Some a" by blast
    obtain L' where L': "reap_child L (pid_word ?pid) = Inr L'" "exact L' ((live (trace w))(pid_word ?pid := None))"
      using reap_exact[OF Suc.prems(1) a] by blast
    have lw: "live (trace ?w) = (live (trace w))(pid_word ?pid := None)" using 2 by simp
    have "dom (live (trace ?w)) = dom (live (trace w)) - {pid_word ?pid}" unfolding lw by auto
    moreover have "pid_word ?pid \<in> dom (live (trace w))" using a by blast
    ultimately have less: "card (dom (live (trace ?w))) < n"
      using Suc.prems(2) card_Diff1_less[OF finite, of "pid_word ?pid" "dom (live (trace w))"] by simp
    have "vsf_sysutil_wait_reap_one E w = Done ?pid ?w"
      using 2 by (simp add: vsf_sysutil_wait_reap_one_def bind_def call return_def)
    then have "listener_sigchld E (Suc n) L w = listener_sigchld E n L' ?w"
      using L'(1) pid_word_0[of ?pid] 2 k by (simp add: bind_def lift_res_def return_def)
    moreover have "exact L' (live (trace ?w))" unfolding lw by (rule L'(2))
    ultimately show ?thesis using Suc.IH[OF _ less, of L'] by (simp only:)
  next
    case 3
    obtain e w2 where e: "sys_int E (Call ''errno_in'' [] [''ECHILD'']) ?w = Done e w2" by (simp add: sys_int_Done)
    then have lw: "live (trace w2) = live (trace w)" using 3 by (auto simp: sys_int_Done)
    show ?thesis
    proof (cases "e = 0")
      case True
      obtain w3 where "(die E ''waitpid'' :: int proc) w2 = Halt (Exited 2) w3"
        by (simp add: die_def bug_def seq_def bind_def sysu_def sys_def Let_def return_def vsf_sysutil_exit_def halt_def)
      then have "vsf_sysutil_wait_reap_one E w = Halt (Exited 2) w3"
        using 3 e True by (simp add: vsf_sysutil_wait_reap_one_def bind_def call return_def)
      then show ?thesis by (simp add: bind_def)
    next
      case False
      then have "vsf_sysutil_wait_reap_one E w = Done 0 w2"
        using 3 e by (simp add: vsf_sysutil_wait_reap_one_def bind_def call return_def)
      then show ?thesis using Suc.prems lw by (simp add: bind_def return_def)
    qed
  qed
qed simp

end
