(* ===== verification/Prelogin.thy ===== *)
theory Prelogin
  imports Ftp_Session
begin

text \<open>
  src/prelogin.c: the commands before a login, and the two ways to ask for one, of src/twoprocess.c (a
  request to the privileged parent) and src/oneprocess.c (a call that does not come back). The process
  that runs this in the two-process model has no privilege; what its parent answers is arbitrary here.
\<close>

section \<open>Limits and greeting\<close>

definition refuse_connection :: "env \<Rightarrow> nat \<Rightarrow> string \<Rightarrow> string \<Rightarrow> unit proc" where
  "refuse_connection E status log_line text = seq (vsf_log_line E kVSFLogEntryConnection log_line)
     (vsf_cmdio_write_exit E status text 1)"

definition check_limits :: "env \<Rightarrow> unit proc" where
  "check_limits E = bind get (\<lambda>p_sess. block [
     whenp (tunable_max_clients E > 0 \<and> num_clients p_sess > tunable_max_clients E)
       (refuse_connection E FTP_TOO_MANY_USERS ''Connection refused: too many sessions.''
          ''There are too many connected users, please try later.''),
     whenp (tunable_max_per_ip E > 0 \<and> num_this_ip p_sess > tunable_max_per_ip E)
       (refuse_connection E FTP_IP_LIMIT ''Connection refused: too many sessions for this address.''
          ''There are too many connections from your internet address.''),
     whenp (\<not> tcp_wrapper_ok p_sess)
       (refuse_connection E FTP_IP_DENY ''Connection refused: tcp_wrappers denial.'' ''Service not available.''),
     vsf_log_line E kVSFLogEntryConnection []])"

definition emit_greeting :: "env \<Rightarrow> unit proc" where
  "emit_greeting E = bind get (\<lambda>p_sess.
     if banner_str p_sess \<noteq> [] then block [
       vsf_banner_write E (banner_str p_sess) FTP_GREET,
       upd (\<lambda>s. s\<lparr>banner_str := []\<rparr>),
       vsf_cmdio_write E FTP_GREET []]
     else case tunable_ftpd_banner E of
       None \<Rightarrow> vsf_cmdio_write E FTP_GREET ''(vsFTPd 3.0.3)''
     | Some b \<Rightarrow> vsf_cmdio_write E FTP_GREET b)"

section \<open>Asking for a login\<close>

text \<open>
  A granted request ends this process (the parent goes on with a new one); the reading and writing for
  an encrypted session, which it would stay for, needs SSL.
\<close>

definition vsf_two_process_login :: "env \<Rightarrow> string \<Rightarrow> unit proc" where
  "vsf_two_process_login E p_pass_str = bind get (\<lambda>p_sess. seq (block [
     priv_sock_send_cmd Child_end PRIV_SOCK_LOGIN,
     priv_sock_send_str Child_end (user_str p_sess),
     priv_sock_send_str Child_end p_pass_str,
     priv_sock_send_int Child_end (of_bool (control_use_ssl p_sess)),
     priv_sock_send_int Child_end (of_bool (data_use_ssl p_sess))])
   (bind (priv_sock_get_result E Child_end) (\<lambda>result.
     if result = PRIV_SOCK_RESULT_OK then
       (if \<not> control_use_ssl p_sess then vsf_sysutil_exit E 0
        else seq (sysu E (Call ''ssl_slave'' [] [])) (vsf_sysutil_exit E 0))
     else if result = PRIV_SOCK_RESULT_BAD then return ()
     else die E ''priv_sock_get_result'')))"

definition vsf_one_process_login :: "env \<Rightarrow> string \<Rightarrow> unit proc" where
  "vsf_one_process_login E p_pass_str = bind (vsf_privop_do_login E p_pass_str) (\<lambda>login_result.
     case login_result of
       kVSFLoginFail \<Rightarrow> return ()
     | kVSFLoginAnon \<Rightarrow> seq (upd (\<lambda>s. s\<lparr>is_anonymous := True\<rparr>)) (process_post_login E)
     | _ \<Rightarrow> bug E ''bad state in vsf_one_process_login'')"

section \<open>Commands before a login\<close>

definition check_login_delay :: "env \<Rightarrow> unit proc" where
  "check_login_delay E = whenp (tunable_delay_failed_login E \<noteq> 0)
     (sysu E (Sleep_256ths (uint (tunable_delay_failed_login E) * 256)))"

definition check_login_fails :: "env \<Rightarrow> unit proc" where
  "check_login_fails E = seq (upd (\<lambda>s. s\<lparr>login_fails := login_fails s + 1\<rparr>)) (bind get (\<lambda>p_sess.
     if login_fails p_sess \<ge> tunable_max_login_fails E
     then seq (sysu E (Shutdown VSFTP_COMMAND_FD)) (vsf_sysutil_exit E 1)
     else return ()))"

definition forget_user :: "unit proc" where
  "forget_user = upd (\<lambda>s. s\<lparr>user_str := []\<rparr>)"

definition handle_pass_command :: "env \<Rightarrow> unit proc" where
  "handle_pass_command E = bind get (\<lambda>p_sess.
     if user_str p_sess = [] then vsf_cmdio_write E FTP_NEEDUSER ''Login with USER first.''
     else block [
       if tunable_one_process_model E then vsf_one_process_login E (ftp_arg_str p_sess)
       else vsf_two_process_login E (ftp_arg_str p_sess),
       vsf_cmdio_write E FTP_LOGINERR ''Login incorrect.'',
       check_login_fails E,
       forget_user])"

text \<open>What a user name is refused for, in the order of the tests.\<close>

definition user_listed :: "vsf_session \<Rightarrow> bool" where
  "user_listed p_sess \<longleftrightarrow> user_str p_sess \<in> set (text_lines (userlist_str p_sess))"

definition user_denied :: "env \<Rightarrow> vsf_session \<Rightarrow> bool" where
  "user_denied E p_sess \<longleftrightarrow> tunable_userlist_enable E
     \<and> (user_listed p_sess \<and> tunable_userlist_deny E \<or> \<not> user_listed p_sess \<and> \<not> tunable_userlist_deny E)"

definition handle_user_command :: "env \<Rightarrow> unit proc" where
  "handle_user_command E = seq (block [
     upd (\<lambda>s. s\<lparr>user_str := ftp_arg_str s\<rparr>), upper_arg]) (bind get (\<lambda>p_sess.
     let is_anon = (ftp_arg_str p_sess = ''FTP'' \<or> ftp_arg_str p_sess = ''ANONYMOUS'') in
     if \<not> tunable_local_enable E \<and> \<not> is_anon
     then block [vsf_cmdio_write E FTP_LOGINERR ''This FTP server is anonymous only.'', forget_user]
     else if is_anon \<and> control_use_ssl p_sess \<and> \<not> tunable_allow_anon_ssl E \<and> \<not> tunable_force_anon_logins_ssl E
     then block [vsf_cmdio_write E FTP_LOGINERR ''Anonymous sessions may not use encryption.'', forget_user]
     else if tunable_ssl_enable E \<and> \<not> is_anon \<and> \<not> control_use_ssl p_sess \<and> tunable_force_local_logins_ssl E
     then vsf_cmdio_write_exit E FTP_LOGINERR ''Non-anonymous sessions must use encryption.'' 1
     else if tunable_ssl_enable E \<and> is_anon \<and> \<not> control_use_ssl p_sess \<and> tunable_force_anon_logins_ssl E
     then vsf_cmdio_write_exit E FTP_LOGINERR ''Anonymous sessions must use encryption.'' 1
     else if user_denied E p_sess
     then block [
       check_login_delay E,
       vsf_cmdio_write E FTP_LOGINERR ''Permission denied.'',
       check_login_fails E,
       forget_user]
     else if is_anon \<and> tunable_no_anon_password E
     then block [upd (\<lambda>s. s\<lparr>ftp_arg_str := ''<no password>''\<rparr>), handle_pass_command E]
     else vsf_cmdio_write E FTP_GIVEPWORD ''Please specify the password.''))"

definition handle_get :: "env \<Rightarrow> unit proc" where
  "handle_get E = block [
     upd (\<lambda>s. s\<lparr>is_http := True\<rparr>),
     upd (\<lambda>s. s\<lparr>http_get_arg := ftp_arg_str s\<rparr>),
     upd (\<lambda>s. s\<lparr>user_str := ''FTP''\<rparr>),
     upd (\<lambda>s. s\<lparr>ftp_arg_str := ''<http>''\<rparr>),
     handle_pass_command E]"

text \<open>The handlers of AUTH, PBSZ and PROT do nothing where SSL is not compiled in.\<close>

definition handle_auth :: "unit proc" where "handle_auth = return ()"
definition handle_pbsz :: "unit proc" where "handle_pbsz = return ()"
definition handle_prot :: "unit proc" where "handle_prot = return ()"

definition prelogin_command :: "env \<Rightarrow> unit proc" where
  "prelogin_command E = bind get (\<lambda>p_sess. let cmd = ftp_cmd_str p_sess in
     if cmd = ''USER'' then handle_user_command E
     else if cmd = ''PASS'' then handle_pass_command E
     else if cmd = ''QUIT'' then vsf_cmdio_write_exit E FTP_GOODBYE ''Goodbye.'' 0
     else if cmd = ''FEAT'' then handle_feat E
     else if cmd = ''OPTS'' then handle_opts E
     else if tunable_ssl_enable E \<and> cmd = ''AUTH'' \<and> \<not> control_use_ssl p_sess then handle_auth
     else if tunable_ssl_enable E \<and> cmd = ''PBSZ'' then handle_pbsz
     else if tunable_ssl_enable E \<and> cmd = ''PROT'' then handle_prot
     else if cmd = [] \<and> ftp_arg_str p_sess = [] then return ()
     else vsf_cmdio_write E FTP_LOGINERR ''Please login with USER and PASS.'')"

definition http_command :: "env \<Rightarrow> unit proc" where
  "http_command E = bind get (\<lambda>p_sess. seq
     (if ftp_cmd_str p_sess = ''GET'' then handle_get E
      else vsf_cmdio_write E FTP_LOGINERR ''Bad HTTP verb.'')
     (vsf_sysutil_exit E 0))"

text \<open>\<open>n\<close> bounds the number of commands.\<close>

primrec parse_username_password :: "env \<Rightarrow> nat \<Rightarrow> unit proc" where
  "parse_username_password E 0 = halt Unfinished"
| "parse_username_password E (Suc n) = seq (block [
     get_command E,
     if tunable_ftp_enable E then prelogin_command E
     else if tunable_http_enable E then http_command E
     else return ()]) (parse_username_password E n)"

definition ssl_control_handshake :: "unit proc" where "ssl_control_handshake = return ()"

definition init_connection :: "env \<Rightarrow> unit proc" where
  "init_connection E = block [
     whenp (tunable_setproctitle_enable E) (sysu E (Set_proctitle ''not logged in'')),
     vsf_cmdio_set_alarm E,
     check_limits E,
     whenp (tunable_ssl_enable E \<and> tunable_implicit_ssl E) ssl_control_handshake,
     whenp (tunable_ftp_enable E) (emit_greeting E),
     parse_username_password E (fuel E)]"

section \<open>Invariants of the session before a login\<close>

lemma keeps_greeting [safes]:
  "base I \<Longrightarrow> keeps I (refuse_connection E n x y)" "base I \<Longrightarrow> keeps I (check_limits E)"
  "base I \<Longrightarrow> keeps I (emit_greeting E)" "base I \<Longrightarrow> keeps I (check_login_delay E)"
  "base I \<Longrightarrow> keeps I handle_auth" "base I \<Longrightarrow> keeps I handle_pbsz"
  "base I \<Longrightarrow> keeps I handle_prot" "base I \<Longrightarrow> keeps I ssl_control_handshake"
  unfolding check_limits_def refuse_connection_def emit_greeting_def check_login_delay_def
    handle_auth_def handle_pbsz_def handle_prot_def ssl_control_handshake_def
  by (intro safes keeps_get; simp)+

lemma keeps_get_command [safes]: "base I \<Longrightarrow> keeps I (get_command E)"
  unfolding get_command_def by (intro safes; simp)

text \<open>
  Where the name of the user may change and the count of failed logins may grow, everything but the
  login itself is free.
\<close>

locale prelogin_session =
  fixes E :: env and I :: "world \<Rightarrow> bool" and R :: "world \<Rightarrow> bool"
  assumes P_base: "base I" and P_weaker: "I w \<Longrightarrow> R w"
    and P_pass: "kept I R (handle_pass_command E)"
    and P_fails: "kept I R (check_login_fails E)"
    and P_user: "keeps I (upd (\<lambda>s. s\<lparr>user_str := f s\<rparr>))"
begin

lemma calm: "keeps I m \<Longrightarrow> kept I R m"
  by (rule kept_keeps) (simp_all add: P_weaker)

lemma user: "kept I R (handle_user_command E)"
  unfolding handle_user_command_def forget_user_def Let_def
  by (intro kept_rules P_pass P_fails) (rule calm; (intro safes P_base P_user; simp add: upper_arg_def)?)+

lemma http: "kept I R (handle_get E)" "kept I R (http_command E)"
proof -
  show g: "kept I R (handle_get E)"
    unfolding handle_get_def by (intro kept_rules P_pass) (rule calm, intro safes P_base P_user; simp)+
  show "kept I R (http_command E)"
    unfolding http_command_def by (intro kept_rules g) (rule calm, intro safes P_base)+
qed

lemma command: "kept I R (prelogin_command E)"
  unfolding prelogin_command_def Let_def
  by (intro kept_rules user P_pass) (rule calm, intro safes P_base; simp)+

lemma loop: "kept I R (parse_username_password E n)"
proof (induction n)
  case 0
  then show ?case by (simp add: calm keeps_halt)
next
  case (Suc n)
  show ?case
    unfolding parse_username_password.simps
    by (intro kept_rules command http Suc) (rule calm, intro safes P_base)+
qed

lemma connection: "kept I R (init_connection E)"
  unfolding init_connection_def
  by (intro kept_rules loop) (rule calm, intro safes P_base; simp)+

end

section \<open>A bound on the guesses\<close>

text \<open>
  The unprivileged process takes one answer of the parent for each attempt. However many commands the
  client sends, the attempts stay within the limit of the configuration (one is always possible):
  \<open>n\<close> is the number of answers there were at the start, \<open>k\<close> that of an attempt not yet counted.
\<close>

definition attempts :: "env \<Rightarrow> nat \<Rightarrow> nat \<Rightarrow> world \<Rightarrow> bool" where
  "attempts E n k w \<longleftrightarrow> length (p2c w) + unat (login_fails (sess w)) + k \<ge> n
     \<and> (login_fails (sess w) = 0 \<or> login_fails (sess w) < tunable_max_login_fails E)"

definition attempts_bound :: "env \<Rightarrow> nat \<Rightarrow> world \<Rightarrow> bool" where
  "attempts_bound E n w \<longleftrightarrow> length (p2c w) + max 1 (unat (tunable_max_login_fails E)) \<ge> n"

lemma attempts_base: "base (attempts E n k)"
  unfolding base_def allows_def attempts_def same_core_def by auto

lemma attempts_weaker: "attempts E n 1 w \<Longrightarrow> attempts_bound E n w" "attempts E n 0 w \<Longrightarrow> attempts_bound E n w"
  by (auto simp: attempts_def attempts_bound_def word_less_nat_alt)

lemma attempts_keeps: "keeps (attempts E n 1) m \<Longrightarrow> triple (attempts E n 1) m (\<lambda>_. attempts E n 1) (attempts_bound E n)"
  "keeps (attempts E n 0) m \<Longrightarrow> triple (attempts E n 0) m (\<lambda>_. attempts E n 0) (attempts_bound E n)"
  unfolding keeps_def by (erule triple_weaken; simp add: attempts_weaker)+

lemma attempt_counted: "triple (attempts E n 1) (check_login_fails E) (\<lambda>_. attempts E n 0) (attempts_bound E n)"
proof (rule tripleI)
  fix w assume w: "attempts E n 1 w"
  let ?f = "login_fails (sess w)" and ?m = "tunable_max_login_fails E"
  have "?f = 0 \<or> ?f < ?m" using w by (simp add: attempts_def)
  then have u: "unat (?f + 1) = Suc (unat ?f)"
    using unat_lt_32[of ?m] by (intro unat_Suc_u32) (auto simp: word_less_nat_alt simp del: unat_lt_32)
  show "case check_login_fails E w of Done x w' \<Rightarrow> attempts E n 0 w' | Halt h w' \<Rightarrow> attempts_bound E n w'"
  proof (cases "?f + 1 \<ge> ?m")
    case True
    have "attempts_bound E n w" using w by (rule attempts_weaker)
    then show ?thesis using True
      by (simp add: check_login_fails_def seq_def bind_def upd_def get_def sysu_def sys_def Let_def return_def
          vsf_sysutil_exit_def halt_def attempts_bound_def)
  next
    case False
    then have "check_login_fails E w = Done () (w\<lparr>sess := (sess w)\<lparr>login_fails := ?f + 1\<rparr>\<rparr>)"
      by (simp add: check_login_fails_def seq_def bind_def upd_def get_def return_def)
    then show ?thesis using w u False by (simp add: attempts_def not_le)
  qed
qed

lemma attempt_asked:
  "triple (attempts E n 0) (vsf_two_process_login E p) (\<lambda>_. attempts E n 1) (attempts_bound E n)"
proof -
  have put: "keeps (attempts E n 0) (chan_write Child_end items)" for items
    by (simp add: keeps_def triple_def chan_write_def attempts_def)
  have send: "keeps (attempts E n 0) (priv_sock_send_cmd Child_end c)"
    "keeps (attempts E n 0) (priv_sock_send_int Child_end i)" "keeps (attempts E n 0) (priv_sock_send_str Child_end x)" for c i x
    unfolding priv_sock_send_cmd_def priv_sock_send_int_def priv_sock_send_str_def
    by (intro keeps_block_Cons keeps_block_Nil keeps_whenp put)+
  have ask: "triple (attempts E n 0) (priv_sock_get_result E Child_end) (\<lambda>_. attempts E n 1) (attempts_bound E n)"
    unfolding priv_sock_get_result_def read_bytes_def
  proof (rule triple_bind, rule triple_bind)
    show "triple (attempts E n 0) (chan_read Child_end 1)
        (\<lambda>r w. if r = None then attempts E n 0 w else attempts E n 1 w) (attempts_bound E n)"
      by (auto simp: triple_def chan_read_def attempts_def)
    show "triple (\<lambda>w. if r = None then attempts E n 0 w else attempts E n 1 w)
        (case r of None \<Rightarrow> die E m | Some items \<Rightarrow> return (map item_byte items)) (\<lambda>_. attempts E n 1)
        (attempts_bound E n)" for r m
    proof (cases r)
      case None
      have "triple (attempts E n 0) (die E m :: string proc) (\<lambda>_. attempts E n 0) (attempts_bound E n)"
        by (intro attempts_keeps keeps_die attempts_base)
      then show ?thesis using None by (fastforce simp: triple_def bug_ends split: outcome.splits)
    qed (simp add: triple_return)
    show "triple (attempts E n 1) (return (hd b)) (\<lambda>_. attempts E n 1) (attempts_bound E n)" for b :: string
      by (rule triple_return)
  qed
  show ?thesis
    unfolding vsf_two_process_login_def
    by (rule triple_get, unfold seq_def, rule triple_bind[where Q = "\<lambda>_. attempts E n 0"], rule attempts_keeps,
        (intro keeps_block_Cons keeps_block_Nil send)[1], rule triple_bind[OF ask], rule attempts_keeps)
       (intro safes attempts_base; simp)
qed

lemma guessing:
  assumes two: "\<not> tunable_one_process_model E"
  shows "prelogin_session E (attempts E n 0) (attempts_bound E n)"
proof
  show "base (attempts E n 0)" by (rule attempts_base)
  show "attempts E n 0 w \<Longrightarrow> attempts_bound E n w" for w by (rule attempts_weaker)
  show "keeps (attempts E n 0) (upd (\<lambda>s. s\<lparr>user_str := f s\<rparr>))" for f
    by (rule keeps_upd) (simp add: attempts_def)
  have more: "attempts E n 0 w \<Longrightarrow> attempts E n 1 w" for w by (auto simp: attempts_def)
  show "kept (attempts E n 0) (attempts_bound E n) (check_login_fails E)"
    unfolding kept_def by (rule triple_weaken[OF attempt_counted]) (simp_all only: more)
  have say: "triple (attempts E n k) (vsf_cmdio_write E c x) (\<lambda>_. attempts E n k) (attempts_bound E n)"
    if "k = 0 \<or> k = 1" for k c x
    using that by (elim disjE; simp only:) (intro attempts_keeps keeps_responses attempts_base)+
  have "kept (attempts E n 0) (attempts_bound E n) forget_user"
    unfolding forget_user_def
    by (rule kept_keeps, rule keeps_upd) (simp_all add: attempts_def[of E n 0] attempts_weaker)
  then show "kept (attempts E n 0) (attempts_bound E n) (handle_pass_command E)"
    unfolding kept_def handle_pass_command_def block.simps seq_def if_not_P[OF two]
    by (intro triple_get triple_if triple_bind[OF attempt_asked] triple_bind[OF attempt_counted]
        triple_bind[OF say] triple_bind[of _ _ "\<lambda>_. attempts E n 0"] say triple_return) (simp_all add: two)
qed

lemma guesses_bounded:
  assumes "\<not> tunable_one_process_model E" "login_fails (sess w) = 0"
  shows "triple (\<lambda>v. v = w) (init_connection E) (\<lambda>_. attempts_bound E (length (p2c w)))
    (attempts_bound E (length (p2c w)))"
  by (rule triple_weaken[OF prelogin_session.connection[OF guessing[OF assms(1)], unfolded kept_def]])
    (auto simp: attempts_def assms(2) attempts_weaker)

end
