(* ===== verification/Seccomp.thy ===== *)
theory Seccomp
  imports Sysutil_Io
begin

text \<open>
  src/seccompsandbox.c on Linux for x86-64: the table of permitted system calls that each process
  builds, and the packet filter program that is compiled from it and handed to the kernel. The
  kernel's interpreter of filter programs is a parameter of the theorems.
\<close>

section \<open>The table\<close>

definition kMaxSyscalls :: nat where "kMaxSyscalls = 100"

text \<open>The arrays are static, so their unused slots are zero.\<close>

record sandbox =
  s_syscall_index :: nat
  s_1_arg_validations :: nat
  s_2_arg_validations :: nat
  s_3_arg_validations :: nat
  s_syscalls :: "int list"
  s_errnos :: "int list"
  s_args_1 :: "int list"
  s_vals_1 :: "int list"
  s_args_2 :: "int list"
  s_vals_2 :: "int list"
  s_args_3 :: "int list"
  s_vals_3 :: "int list"

definition static_sandbox :: sandbox where
  "static_sandbox = (let z = replicate kMaxSyscalls 0 in
     \<lparr>s_syscall_index = 0, s_1_arg_validations = 0, s_2_arg_validations = 0, s_3_arg_validations = 0,
      s_syscalls = z, s_errnos = z, s_args_1 = z, s_vals_1 = z, s_args_2 = z, s_vals_2 = z,
      s_args_3 = z, s_vals_3 = z\<rparr>)"

text \<open>The checks every entry begins with, and its number and error code with the step of the index.\<close>

definition entry_checks :: "int \<Rightarrow> sandbox \<Rightarrow> sandbox res" where
  "entry_checks nr S =
     (if s_syscall_index S \<ge> kMaxSyscalls then Inl (Bug ''out of syscall space'')
      else if nr < 0 then Inl (Bug ''negative syscall'') else Inr S)"

definition bad_arg :: "int \<Rightarrow> bool" where
  "bad_arg arg \<longleftrightarrow> arg < 1 \<or> arg > 6"

definition put_nr :: "int \<Rightarrow> int \<Rightarrow> sandbox \<Rightarrow> sandbox" where
  "put_nr nr errcode S = (let i = s_syscall_index S in
     S\<lparr>s_errnos := (s_errnos S)[i := errcode], s_syscalls := (s_syscalls S)[i := nr], s_syscall_index := i + 1\<rparr>)"

definition put_1 :: "int \<Rightarrow> int \<Rightarrow> sandbox \<Rightarrow> sandbox" where
  "put_1 arg val S = (let i = s_syscall_index S in
     S\<lparr>s_args_1 := (s_args_1 S)[i := arg], s_vals_1 := (s_vals_1 S)[i := val]\<rparr>)"

definition put_2 :: "int \<Rightarrow> int \<Rightarrow> sandbox \<Rightarrow> sandbox" where
  "put_2 arg val S = (let i = s_syscall_index S in
     S\<lparr>s_args_2 := (s_args_2 S)[i := arg], s_vals_2 := (s_vals_2 S)[i := val]\<rparr>)"

definition put_3 :: "int \<Rightarrow> int \<Rightarrow> sandbox \<Rightarrow> sandbox" where
  "put_3 arg val S = (let i = s_syscall_index S in
     S\<lparr>s_args_3 := (s_args_3 S)[i := arg], s_vals_3 := (s_vals_3 S)[i := val]\<rparr>)"

definition allow_nr :: "int \<Rightarrow> sandbox \<Rightarrow> sandbox res" where
  "allow_nr nr S = rbind (entry_checks nr S) (\<lambda>S. Inr (put_nr nr 0 S))"

definition reject_nr :: "int \<Rightarrow> int \<Rightarrow> sandbox \<Rightarrow> sandbox res" where
  "reject_nr nr errcode S = rbind (entry_checks nr S) (\<lambda>S.
     if errcode < 0 \<or> errcode > 255 then Inl (Bug ''bad errcode'') else Inr (put_nr nr errcode S))"

definition allow_nr_1_arg_match :: "int \<Rightarrow> int \<Rightarrow> int \<Rightarrow> sandbox \<Rightarrow> sandbox res" where
  "allow_nr_1_arg_match nr arg val S = rbind (entry_checks nr S) (\<lambda>S.
     if bad_arg arg then Inl (Bug ''arg out of range'')
     else Inr ((put_nr nr 0 (put_1 arg val S))\<lparr>s_1_arg_validations := s_1_arg_validations S + 1\<rparr>))"

definition allow_nr_1_arg_mask :: "int \<Rightarrow> int \<Rightarrow> int \<Rightarrow> sandbox \<Rightarrow> sandbox res" where
  "allow_nr_1_arg_mask nr arg val S = rbind (entry_checks nr S) (\<lambda>S.
     if bad_arg arg then Inl (Bug ''arg out of range'')
     else Inr ((put_nr nr 0 (put_1 (100 + arg) val S))\<lparr>s_1_arg_validations := s_1_arg_validations S + 1\<rparr>))"

definition allow_nr_2_arg_match :: "int \<Rightarrow> int \<Rightarrow> int \<Rightarrow> int \<Rightarrow> int \<Rightarrow> sandbox \<Rightarrow> sandbox res" where
  "allow_nr_2_arg_match nr arg1 val1 arg2 val2 S = rbind (entry_checks nr S) (\<lambda>S.
     if bad_arg arg1 then Inl (Bug ''arg1 out of range'')
     else if bad_arg arg2 then Inl (Bug ''arg2 out of range'')
     else Inr ((put_nr nr 0 (put_2 arg2 val2 (put_1 arg1 val1 S)))
            \<lparr>s_2_arg_validations := s_2_arg_validations S + 1\<rparr>))"

definition allow_nr_2_arg_mask_match :: "int \<Rightarrow> int \<Rightarrow> int \<Rightarrow> int \<Rightarrow> int \<Rightarrow> sandbox \<Rightarrow> sandbox res" where
  "allow_nr_2_arg_mask_match nr arg1 val1 arg2 val2 S = rbind (entry_checks nr S) (\<lambda>S.
     if bad_arg arg1 then Inl (Bug ''arg1 out of range'')
     else if bad_arg arg2 then Inl (Bug ''arg2 out of range'')
     else Inr ((put_nr nr 0 (put_2 arg2 val2 (put_1 (100 + arg1) val1 S)))
            \<lparr>s_2_arg_validations := s_2_arg_validations S + 1\<rparr>))"

definition allow_nr_3_arg_match ::
    "int \<Rightarrow> int \<Rightarrow> int \<Rightarrow> int \<Rightarrow> int \<Rightarrow> int \<Rightarrow> int \<Rightarrow> sandbox \<Rightarrow> sandbox res" where
  "allow_nr_3_arg_match nr arg1 val1 arg2 val2 arg3 val3 S = rbind (entry_checks nr S) (\<lambda>S.
     if bad_arg arg1 then Inl (Bug ''arg1 out of range'')
     else if bad_arg arg2 then Inl (Bug ''arg2 out of range'')
     else if bad_arg arg3 then Inl (Bug ''arg3 out of range'')
     else Inr ((put_nr nr 0 (put_3 arg3 val3 (put_2 arg2 val2 (put_1 arg1 val1 S))))
            \<lparr>s_3_arg_validations := s_3_arg_validations S + 1\<rparr>))"

section \<open>Numbers from the system's headers\<close>

abbreviation (input) NR_read :: int where "NR_read \<equiv> 0"
abbreviation (input) NR_write :: int where "NR_write \<equiv> 1"
abbreviation (input) NR_open :: int where "NR_open \<equiv> 2"
abbreviation (input) NR_close :: int where "NR_close \<equiv> 3"
abbreviation (input) NR_stat :: int where "NR_stat \<equiv> 4"
abbreviation (input) NR_fstat :: int where "NR_fstat \<equiv> 5"
abbreviation (input) NR_lstat :: int where "NR_lstat \<equiv> 6"
abbreviation (input) NR_lseek :: int where "NR_lseek \<equiv> 8"
abbreviation (input) NR_mmap :: int where "NR_mmap \<equiv> 9"
abbreviation (input) NR_mprotect :: int where "NR_mprotect \<equiv> 10"
abbreviation (input) NR_munmap :: int where "NR_munmap \<equiv> 11"
abbreviation (input) NR_brk :: int where "NR_brk \<equiv> 12"
abbreviation (input) NR_rt_sigaction :: int where "NR_rt_sigaction \<equiv> 13"
abbreviation (input) NR_rt_sigreturn :: int where "NR_rt_sigreturn \<equiv> 15"
abbreviation (input) NR_select :: int where "NR_select \<equiv> 23"
abbreviation (input) NR_mremap :: int where "NR_mremap \<equiv> 25"
abbreviation (input) NR_nanosleep :: int where "NR_nanosleep \<equiv> 35"
abbreviation (input) NR_alarm :: int where "NR_alarm \<equiv> 37"
abbreviation (input) NR_getpid :: int where "NR_getpid \<equiv> 39"
abbreviation (input) NR_sendfile :: int where "NR_sendfile \<equiv> 40"
abbreviation (input) NR_socket :: int where "NR_socket \<equiv> 41"
abbreviation (input) NR_connect :: int where "NR_connect \<equiv> 42"
abbreviation (input) NR_accept :: int where "NR_accept \<equiv> 43"
abbreviation (input) NR_sendto :: int where "NR_sendto \<equiv> 44"
abbreviation (input) NR_recvfrom :: int where "NR_recvfrom \<equiv> 45"
abbreviation (input) NR_sendmsg :: int where "NR_sendmsg \<equiv> 46"
abbreviation (input) NR_recvmsg :: int where "NR_recvmsg \<equiv> 47"
abbreviation (input) NR_shutdown :: int where "NR_shutdown \<equiv> 48"
abbreviation (input) NR_bind :: int where "NR_bind \<equiv> 49"
abbreviation (input) NR_listen :: int where "NR_listen \<equiv> 50"
abbreviation (input) NR_setsockopt :: int where "NR_setsockopt \<equiv> 54"
abbreviation (input) NR_getsockopt :: int where "NR_getsockopt \<equiv> 55"
abbreviation (input) NR_fcntl :: int where "NR_fcntl \<equiv> 72"
abbreviation (input) NR_ftruncate :: int where "NR_ftruncate \<equiv> 77"
abbreviation (input) NR_getdents :: int where "NR_getdents \<equiv> 78"
abbreviation (input) NR_getcwd :: int where "NR_getcwd \<equiv> 79"
abbreviation (input) NR_chdir :: int where "NR_chdir \<equiv> 80"
abbreviation (input) NR_rename :: int where "NR_rename \<equiv> 82"
abbreviation (input) NR_mkdir :: int where "NR_mkdir \<equiv> 83"
abbreviation (input) NR_rmdir :: int where "NR_rmdir \<equiv> 84"
abbreviation (input) NR_unlink :: int where "NR_unlink \<equiv> 87"
abbreviation (input) NR_readlink :: int where "NR_readlink \<equiv> 89"
abbreviation (input) NR_chmod :: int where "NR_chmod \<equiv> 90"
abbreviation (input) NR_fchmod :: int where "NR_fchmod \<equiv> 91"
abbreviation (input) NR_fchown :: int where "NR_fchown \<equiv> 93"
abbreviation (input) NR_umask :: int where "NR_umask \<equiv> 95"
abbreviation (input) NR_gettimeofday :: int where "NR_gettimeofday \<equiv> 96"
abbreviation (input) NR_utime :: int where "NR_utime \<equiv> 132"
abbreviation (input) NR_restart_syscall :: int where "NR_restart_syscall \<equiv> 219"
abbreviation (input) NR_exit_group :: int where "NR_exit_group \<equiv> 231"
abbreviation (input) NR_utimes :: int where "NR_utimes \<equiv> 235"
abbreviation (input) NR_openat :: int where "NR_openat \<equiv> 257"

abbreviation (input) PF_INET :: int where "PF_INET \<equiv> 2"
abbreviation (input) PF_INET6 :: int where "PF_INET6 \<equiv> 10"
abbreviation (input) SOCK_STREAM :: int where "SOCK_STREAM \<equiv> 1"
abbreviation (input) IPPROTO_IP :: int where "IPPROTO_IP \<equiv> 0"
abbreviation (input) IPPROTO_TCP :: int where "IPPROTO_TCP \<equiv> 6"
abbreviation (input) TCP_NODELAY :: int where "TCP_NODELAY \<equiv> 1"
abbreviation (input) IP_TOS :: int where "IP_TOS \<equiv> 1"
abbreviation (input) SOL_SOCKET :: int where "SOL_SOCKET \<equiv> 1"
abbreviation (input) SO_REUSEADDR :: int where "SO_REUSEADDR \<equiv> 2"
abbreviation (input) SO_ERROR :: int where "SO_ERROR \<equiv> 4"
abbreviation (input) SO_KEEPALIVE :: int where "SO_KEEPALIVE \<equiv> 9"
abbreviation (input) SO_LINGER :: int where "SO_LINGER \<equiv> 13"
abbreviation (input) MSG_PEEK :: int where "MSG_PEEK \<equiv> 2"
abbreviation (input) F_GETFL :: int where "F_GETFL \<equiv> 3"
abbreviation (input) F_SETFL :: int where "F_SETFL \<equiv> 4"
abbreviation (input) F_SETLK :: int where "F_SETLK \<equiv> 6"
abbreviation (input) F_SETLKW :: int where "F_SETLKW \<equiv> 7"
abbreviation (input) F_SETOWN :: int where "F_SETOWN \<equiv> 8"
abbreviation (input) O_RDWR :: int where "O_RDWR \<equiv> 2"
abbreviation (input) O_ACCMODE :: int where "O_ACCMODE \<equiv> 3"
abbreviation (input) O_NONBLOCK :: int where "O_NONBLOCK \<equiv> 2048"
abbreviation (input) PROT_READ :: int where "PROT_READ \<equiv> 1"
abbreviation (input) PROT_WRITE :: int where "PROT_WRITE \<equiv> 2"
abbreviation (input) MAP_SHARED :: int where "MAP_SHARED \<equiv> 1"
abbreviation (input) MAP_PRIVATE :: int where "MAP_PRIVATE \<equiv> 2"
abbreviation (input) MAP_ANON :: int where "MAP_ANON \<equiv> 32"
abbreviation (input) EACCES :: int where "EACCES \<equiv> 13"
abbreviation (input) ENOSYS :: int where "ENOSYS \<equiv> 38"

text \<open>O_CREAT, O_EXCL, O_APPEND, O_NONBLOCK, O_DIRECTORY, O_CLOEXEC and O_LARGEFILE.\<close>

definition kOpenFlags :: int where
  "kOpenFlags = foldr or [64, 128, 1024, O_NONBLOCK, 65536, 524288, 32768] 0"

section \<open>Who may do what\<close>

text \<open>The calls of a set-up function, one after the other; an \<open>if\<close> of the code is \<open>only_if\<close>.\<close>

fun do_all :: "(sandbox \<Rightarrow> sandbox res) list \<Rightarrow> sandbox \<Rightarrow> sandbox res" where
  "do_all [] S = Inr S"
| "do_all (f # fs) S = rbind (f S) (do_all fs)"

definition only_if :: "bool \<Rightarrow> (sandbox \<Rightarrow> sandbox res) list \<Rightarrow> sandbox \<Rightarrow> sandbox res" where
  "only_if b fs = (if b then do_all fs else Inr)"

definition seccomp_sandbox_setup_data_connections :: "env \<Rightarrow> sandbox \<Rightarrow> sandbox res" where
  "seccomp_sandbox_setup_data_connections E = do_all [
     allow_nr_3_arg_match NR_socket 1 PF_INET 2 SOCK_STREAM 3 IPPROTO_TCP,
     allow_nr_3_arg_match NR_socket 1 PF_INET6 2 SOCK_STREAM 3 IPPROTO_TCP,
     allow_nr NR_bind,
     allow_nr NR_select,
     only_if (tunable_port_enable E) [
       allow_nr NR_connect,
       allow_nr_2_arg_match NR_getsockopt 2 SOL_SOCKET 3 SO_ERROR,
       allow_nr_2_arg_match NR_setsockopt 2 SOL_SOCKET 3 SO_REUSEADDR,
       allow_nr_1_arg_match NR_fcntl 2 F_GETFL,
       allow_nr_2_arg_match NR_fcntl 2 F_SETFL 3 (or O_RDWR O_NONBLOCK),
       allow_nr_2_arg_match NR_fcntl 2 F_SETFL 3 O_RDWR],
     only_if (tunable_pasv_enable E) [
       allow_nr NR_listen,
       allow_nr NR_accept]]"

definition seccomp_sandbox_setup_base :: "sandbox \<Rightarrow> sandbox res" where
  "seccomp_sandbox_setup_base = do_all [
     allow_nr NR_read,
     allow_nr NR_write,
     allow_nr_2_arg_match NR_mmap 3 (or PROT_READ PROT_WRITE) 4 (or MAP_PRIVATE MAP_ANON),
     allow_nr_1_arg_mask NR_mprotect 3 PROT_READ,
     allow_nr NR_munmap,
     allow_nr NR_brk,
     reject_nr NR_mremap ENOSYS,
     allow_nr NR_gettimeofday,
     allow_nr NR_rt_sigreturn,
     allow_nr NR_restart_syscall,
     allow_nr NR_close,
     allow_nr NR_exit_group]"

definition seccomp_sandbox_init :: "sandbox \<Rightarrow> sandbox res" where
  "seccomp_sandbox_init S = (if s_syscall_index S \<noteq> 0 then Inl (Bug ''bad state in seccomp_sandbox_init'') else Inr S)"

definition seccomp_sandbox_setup_prelogin :: "env \<Rightarrow> sandbox \<Rightarrow> sandbox res" where
  "seccomp_sandbox_setup_prelogin E = do_all [
     seccomp_sandbox_setup_base,
     allow_nr_1_arg_match NR_recvfrom 4 MSG_PEEK,
     allow_nr NR_nanosleep,
     allow_nr NR_getpid,
     allow_nr NR_shutdown,
     allow_nr_1_arg_match NR_fcntl 2 F_GETFL,
     allow_nr_2_arg_mask_match NR_fcntl 3 (or kOpenFlags O_ACCMODE) 2 F_SETFL,
     only_if (tunable_idle_session_timeout E > 0) [
       allow_nr NR_rt_sigaction,
       allow_nr NR_alarm],
     only_if (tunable_xferlog_enable E \<or> tunable_dual_log_enable E) [
       allow_nr_1_arg_match NR_fcntl 2 F_SETLKW,
       allow_nr_1_arg_match NR_fcntl 2 F_SETLK],
     only_if (tunable_ssl_enable E) [
       allow_nr_1_arg_match NR_recvmsg 3 0,
       allow_nr_2_arg_match NR_setsockopt 2 IPPROTO_TCP 3 TCP_NODELAY],
     only_if (tunable_syslog_enable E) [
       reject_nr NR_socket EACCES]]"

text \<open>\<open>pid\<close> is what getpid returns.\<close>

definition seccomp_sandbox_setup_postlogin :: "env \<Rightarrow> int \<Rightarrow> vsf_session \<Rightarrow> sandbox \<Rightarrow> sandbox res" where
  "seccomp_sandbox_setup_postlogin E pid p_sess = (let is_anon = is_anonymous p_sess;
       open_flag = (if tunable_write_enable E then or kOpenFlags O_ACCMODE else kOpenFlags) in do_all [
     allow_nr NR_lstat,
     seccomp_sandbox_setup_prelogin E,
     only_if (tunable_xferlog_enable E \<or> tunable_dual_log_enable E \<or> tunable_lock_upload_files E) [
       allow_nr_1_arg_match NR_fcntl 2 F_SETLKW,
       allow_nr_1_arg_match NR_fcntl 2 F_SETLK],
     only_if (tunable_async_abor_enable E) [
       allow_nr_2_arg_match NR_fcntl 2 F_SETOWN 3 pid],
     allow_nr_2_arg_match NR_setsockopt 2 SOL_SOCKET 3 SO_KEEPALIVE,
     allow_nr_2_arg_match NR_setsockopt 2 SOL_SOCKET 3 SO_LINGER,
     allow_nr_2_arg_match NR_setsockopt 2 IPPROTO_IP 3 IP_TOS,
     allow_nr NR_fstat,
     allow_nr NR_lseek,
     allow_nr_1_arg_mask NR_open 2 open_flag,
     allow_nr_1_arg_mask NR_openat 3 open_flag,
     allow_nr NR_stat,
     allow_nr NR_readlink,
     allow_nr NR_getcwd,
     allow_nr NR_chdir,
     allow_nr NR_getdents,
     allow_nr NR_umask,
     only_if (tunable_use_sendfile E) [
       allow_nr NR_sendfile],
     only_if (tunable_idle_session_timeout E > 0 \<or> tunable_data_connection_timeout E > 0
         \<or> tunable_async_abor_enable E) [
       allow_nr NR_rt_sigaction],
     only_if (tunable_idle_session_timeout E > 0 \<or> tunable_data_connection_timeout E > 0) [
       allow_nr NR_alarm],
     only_if (tunable_one_process_model E) [
       seccomp_sandbox_setup_data_connections E,
       only_if (is_anon \<and> tunable_chown_uploads E) [
         allow_nr NR_fchmod,
         allow_nr NR_fchown]],
     only_if (\<not> tunable_one_process_model E) [
       allow_nr_1_arg_match NR_recvmsg 3 0,
       only_if (is_anon \<and> tunable_chown_uploads E \<or> tunable_ssl_enable E) [
         allow_nr_1_arg_match NR_sendmsg 3 0]],
     only_if (tunable_syslog_enable E) [
       allow_nr_1_arg_match NR_sendto 6 0],
     only_if (tunable_text_userdb_names E) [
       reject_nr NR_socket EACCES,
       allow_nr_2_arg_match NR_mmap 3 PROT_READ 4 MAP_SHARED],
     only_if (tunable_write_enable E) [
       only_if (\<not> is_anon \<or> tunable_anon_mkdir_write_enable E) [
         allow_nr NR_mkdir],
       only_if (\<not> is_anon \<or> tunable_anon_other_write_enable E \<or> tunable_delete_failed_uploads E) [
         allow_nr NR_unlink],
       only_if (\<not> is_anon \<or> tunable_anon_other_write_enable E) [
         allow_nr NR_rmdir,
         allow_nr NR_rename,
         allow_nr NR_ftruncate,
         only_if (tunable_mdtm_write E) [
           allow_nr NR_utime,
           allow_nr NR_utimes]],
       only_if (\<not> is_anon \<and> tunable_chmod_enable E) [
         allow_nr NR_chmod]]])"

definition seccomp_sandbox_setup_postlogin_broker :: "env \<Rightarrow> sandbox \<Rightarrow> sandbox res" where
  "seccomp_sandbox_setup_postlogin_broker E = do_all [
     seccomp_sandbox_setup_base,
     seccomp_sandbox_setup_data_connections E,
     allow_nr_1_arg_match NR_sendmsg 3 0]"

section \<open>The filter program\<close>

type_synonym u8 = "8 word"

record sock_filter =
  code :: u16
  jt :: u8
  jf :: u8
  bpf_k :: u32

abbreviation BPF_LD_W_ABS :: u16 where "BPF_LD_W_ABS \<equiv> 0x20"
abbreviation BPF_JMP_JEQ_K :: u16 where "BPF_JMP_JEQ_K \<equiv> 0x15"
abbreviation BPF_JMP_JSET_K :: u16 where "BPF_JMP_JSET_K \<equiv> 0x45"
abbreviation BPF_RET_K :: u16 where "BPF_RET_K \<equiv> 0x06"

definition AUDIT_ARCH_X86_64 :: u32 where "AUDIT_ARCH_X86_64 = 0xC000003E"
definition SECCOMP_RET_KILL :: u32 where "SECCOMP_RET_KILL = 0"
definition SECCOMP_RET_ALLOW :: u32 where "SECCOMP_RET_ALLOW = 0x7FFF0000"
definition SECCOMP_RET_ERRNO :: u32 where "SECCOMP_RET_ERRNO = 0x00050000"

definition load :: "u32 \<Rightarrow> sock_filter" where
  "load off = \<lparr>code = BPF_LD_W_ABS, jt = 0, jf = 0, bpf_k = off\<rparr>"

definition jump_eq :: "u32 \<Rightarrow> u8 \<Rightarrow> u8 \<Rightarrow> sock_filter" where
  "jump_eq val t f = \<lparr>code = BPF_JMP_JEQ_K, jt = t, jf = f, bpf_k = val\<rparr>"

definition jump_set :: "u32 \<Rightarrow> u8 \<Rightarrow> u8 \<Rightarrow> sock_filter" where
  "jump_set val t f = \<lparr>code = BPF_JMP_JSET_K, jt = t, jf = f, bpf_k = val\<rparr>"

definition ret :: "u32 \<Rightarrow> sock_filter" where
  "ret val = \<lparr>code = BPF_RET_K, jt = 0, jf = 0, bpf_k = val\<rparr>"

text \<open>The offset of an argument in the data of a filter: the low half of a 64-bit word.\<close>

definition arg_offset :: "int \<Rightarrow> u32" where
  "arg_offset arg = word_of_int (16 + (arg - 1) * 8)"

text \<open>
  One row of the arrays. An argument of 0 is no test; above 100 it is a mask on the argument less 100.
\<close>

record rule =
  r_nr :: int
  r_errno :: int
  r_arg_1 :: int
  r_val_1 :: int
  r_arg_2 :: int
  r_val_2 :: int
  r_arg_3 :: int
  r_val_3 :: int

definition slot :: "sandbox \<Rightarrow> nat \<Rightarrow> rule" where
  "slot S i = \<lparr>r_nr = s_syscalls S ! i, r_errno = s_errnos S ! i, r_arg_1 = s_args_1 S ! i, r_val_1 = s_vals_1 S ! i,
     r_arg_2 = s_args_2 S ! i, r_val_2 = s_vals_2 S ! i, r_arg_3 = s_args_3 S ! i, r_val_3 = s_vals_3 S ! i\<rparr>"

definition block_size :: "rule \<Rightarrow> u8" where
  "block_size r = (if r_arg_3 r \<noteq> 0 then 8 else if r_arg_2 r \<noteq> 0 then 6 else if r_arg_1 r \<noteq> 0 then 4 else 1)"

definition first_arg_code :: "int \<Rightarrow> int \<Rightarrow> sock_filter list" where
  "first_arg_code arg val =
     (if arg > 100 then [load (arg_offset (arg - 100)), jump_set (word_of_int (not val)) 1 0]
      else [load (arg_offset arg), jump_eq (word_of_int val) 0 1])"

definition return_value :: "int \<Rightarrow> u32" where
  "return_value errcode = (if errcode = 0 then SECCOMP_RET_ALLOW else SECCOMP_RET_ERRNO + word_of_int errcode)"

definition entry_code :: "rule \<Rightarrow> sock_filter list" where
  "entry_code r = [jump_eq (word_of_int (r_nr r)) 0 (block_size r)]
     @ (if r_arg_3 r \<noteq> 0 then [load (arg_offset (r_arg_3 r)), jump_eq (word_of_int (r_val_3 r)) 0 5] else [])
     @ (if r_arg_2 r \<noteq> 0 then [load (arg_offset (r_arg_2 r)), jump_eq (word_of_int (r_val_2 r)) 0 3] else [])
     @ (if r_arg_1 r \<noteq> 0 then first_arg_code (r_arg_1 r) (r_val_1 r) else [])
     @ [ret (return_value (r_errno r))]
     @ (if r_arg_1 r \<noteq> 0 then [load 0] else [])"

text \<open>Every store is checked against the size computed before.\<close>

definition emit :: "nat \<Rightarrow> sock_filter list \<Rightarrow> sock_filter list \<Rightarrow> sock_filter list res" where
  "emit len out ins = (if length out + length ins \<le> len then Inr (out @ ins) else Inl (Trap ''bounds''))"

definition filter_size :: "sandbox \<Rightarrow> nat" where
  "filter_size S = s_syscall_index S * 2 + s_1_arg_validations S * 3 + s_2_arg_validations S * 5
     + s_3_arg_validations S * 7 + 5"

definition filter_program :: "sandbox \<Rightarrow> sock_filter list res" where
  "filter_program S = (let size = filter_size S in
     rbind (emit size [] [load 4, jump_eq AUDIT_ARCH_X86_64 1 0, ret SECCOMP_RET_KILL, load 0]) (\<lambda>out.
     rbind (rfold (\<lambda>i out. emit size out (entry_code (slot S i))) [0..<s_syscall_index S] out) (\<lambda>out.
       emit size out [ret SECCOMP_RET_KILL])))"

text \<open>A kernel that knows no filters leaves the process without one.\<close>

definition seccomp_sandbox_lockdown :: "env \<Rightarrow> sandbox \<Rightarrow> unit proc" where
  "seccomp_sandbox_lockdown E S = bind (lift_res E (filter_program S)) (\<lambda>p_filter.
     bind (sys_int E (Call ''prctl_no_new_privs'' [] [])) (\<lambda>r.
     if r \<noteq> 0
     then bind (vsf_sysutil_get_error E) (\<lambda>e. if e = kErrINVAL then return () else die E ''prctl PR_SET_NO_NEW_PRIVS'')
     else if \<not> tunable_seccomp_sandbox E then return ()
     else bind (sys_int E (Call ''prctl_seccomp''
            (concat (map (\<lambda>i. [uint (code i), uint (jt i), uint (jf i), uint (bpf_k i)]) p_filter)) [])) (\<lambda>r.
       if r \<noteq> 0
       then bind (vsf_sysutil_get_error E) (\<lambda>e. if e = kErrINVAL then return () else die E ''prctl PR_SET_SECCOMP failed'')
       else return ())))"

section \<open>The table as a list of rules\<close>

definition rule_ok :: "rule \<Rightarrow> bool" where
  "rule_ok r \<longleftrightarrow> (r_arg_3 r \<noteq> 0 \<longrightarrow> r_arg_2 r \<noteq> 0) \<and> (r_arg_2 r \<noteq> 0 \<longrightarrow> r_arg_1 r \<noteq> 0)"

definition slots :: "(rule \<Rightarrow> int) \<Rightarrow> rule list \<Rightarrow> int list" where
  "slots f rs = map f rs @ replicate (kMaxSyscalls - length rs) 0"

definition count :: "(rule \<Rightarrow> bool) \<Rightarrow> rule list \<Rightarrow> nat" where
  "count P rs = length (filter P rs)"

definition sandbox_rel :: "sandbox \<Rightarrow> rule list \<Rightarrow> bool" where
  "sandbox_rel S rs \<longleftrightarrow> s_syscall_index S = length rs \<and> length rs \<le> kMaxSyscalls \<and> (\<forall>r \<in> set rs. rule_ok r)
     \<and> s_syscalls S = slots r_nr rs \<and> s_errnos S = slots r_errno rs
     \<and> s_args_1 S = slots r_arg_1 rs \<and> s_vals_1 S = slots r_val_1 rs
     \<and> s_args_2 S = slots r_arg_2 rs \<and> s_vals_2 S = slots r_val_2 rs
     \<and> s_args_3 S = slots r_arg_3 rs \<and> s_vals_3 S = slots r_val_3 rs
     \<and> s_1_arg_validations S = count (\<lambda>r. r_arg_1 r \<noteq> 0 \<and> r_arg_2 r = 0) rs
     \<and> s_2_arg_validations S = count (\<lambda>r. r_arg_2 r \<noteq> 0 \<and> r_arg_3 r = 0) rs
     \<and> s_3_arg_validations S = count (\<lambda>r. r_arg_3 r \<noteq> 0) rs"

lemma sandbox_rel_static [simp]: "sandbox_rel static_sandbox []"
  by (simp add: sandbox_rel_def static_sandbox_def slots_def count_def Let_def)

lemma slots_snoc:
  assumes "length rs < kMaxSyscalls"
  shows "slots f (rs @ [r]) = (slots f rs)[length rs := f r]" "(slots f rs)[length rs := 0] = slots f rs"
proof -
  obtain n where "kMaxSyscalls - length rs = Suc n" using assms by (cases "kMaxSyscalls - length rs") auto
  then show "slots f (rs @ [r]) = (slots f rs)[length rs := f r]" "(slots f rs)[length rs := 0] = slots f rs"
    using assms by (simp_all add: slots_def list_update_append)
qed

lemma slots_nth [simp]: "i < length rs \<Longrightarrow> slots f rs ! i = f (rs ! i)"
  by (simp add: slots_def nth_append)

text \<open>
  What a call of the set-up adds: at most \<open>n\<close> rules, all with the property \<open>Q\<close>, while there is room.
\<close>

definition adds :: "nat \<Rightarrow> (rule \<Rightarrow> bool) \<Rightarrow> (sandbox \<Rightarrow> sandbox res) \<Rightarrow> bool" where
  "adds n Q f \<longleftrightarrow> (\<forall>S rs. sandbox_rel S rs \<and> length rs + n \<le> kMaxSyscalls \<longrightarrow>
     (\<exists>S' rs'. f S = Inr S' \<and> sandbox_rel S' (rs @ rs') \<and> length rs' \<le> n \<and> (\<forall>r \<in> set rs'. Q r)))"

lemma adds_rule:
  assumes "\<And>S rs. sandbox_rel S rs \<Longrightarrow> length rs < kMaxSyscalls \<Longrightarrow> \<exists>S'. f S = Inr S' \<and> sandbox_rel S' (rs @ [r])" "Q r"
  shows "adds 1 Q f"
  unfolding adds_def
proof (intro allI impI)
  fix S rs assume "sandbox_rel S rs \<and> length rs + 1 \<le> kMaxSyscalls"
  then obtain S' where "f S = Inr S'" "sandbox_rel S' (rs @ [r])" using assms(1)[of S rs] by auto
  then show "\<exists>S' rs'. f S = Inr S' \<and> sandbox_rel S' (rs @ rs') \<and> length rs' \<le> 1 \<and> (\<forall>r \<in> set rs'. Q r)"
    using assms(2) by (intro exI[of _ S'] exI[of _ "[r]"]) simp
qed

lemmas put_defs = entry_checks_def bad_arg_def put_nr_def put_1_def put_2_def put_3_def Let_def

definition plain_rule :: "int \<Rightarrow> int \<Rightarrow> rule" where
  "plain_rule nr e = \<lparr>r_nr = nr, r_errno = e, r_arg_1 = 0, r_val_1 = 0, r_arg_2 = 0, r_val_2 = 0,
     r_arg_3 = 0, r_val_3 = 0\<rparr>"

lemma adds_entries:
  assumes "0 \<le> nr"
  shows "Q (plain_rule nr 0) \<Longrightarrow> adds 1 Q (allow_nr nr)"
    "0 \<le> e \<Longrightarrow> e \<le> 255 \<Longrightarrow> Q (plain_rule nr e) \<Longrightarrow> adds 1 Q (reject_nr nr e)"
    "1 \<le> a \<Longrightarrow> a \<le> 6 \<Longrightarrow> Q ((plain_rule nr 0)\<lparr>r_arg_1 := a, r_val_1 := v\<rparr>)
      \<Longrightarrow> adds 1 Q (allow_nr_1_arg_match nr a v)"
    "1 \<le> a \<Longrightarrow> a \<le> 6 \<Longrightarrow> Q ((plain_rule nr 0)\<lparr>r_arg_1 := 100 + a, r_val_1 := v\<rparr>)
      \<Longrightarrow> adds 1 Q (allow_nr_1_arg_mask nr a v)"
    "1 \<le> a \<Longrightarrow> a \<le> 6 \<Longrightarrow> 1 \<le> b \<Longrightarrow> b \<le> 6
      \<Longrightarrow> Q ((plain_rule nr 0)\<lparr>r_arg_1 := a, r_val_1 := v, r_arg_2 := b, r_val_2 := u\<rparr>)
      \<Longrightarrow> adds 1 Q (allow_nr_2_arg_match nr a v b u)"
    "1 \<le> a \<Longrightarrow> a \<le> 6 \<Longrightarrow> 1 \<le> b \<Longrightarrow> b \<le> 6
      \<Longrightarrow> Q ((plain_rule nr 0)\<lparr>r_arg_1 := 100 + a, r_val_1 := v, r_arg_2 := b, r_val_2 := u\<rparr>)
      \<Longrightarrow> adds 1 Q (allow_nr_2_arg_mask_match nr a v b u)"
    "1 \<le> a \<Longrightarrow> a \<le> 6 \<Longrightarrow> 1 \<le> b \<Longrightarrow> b \<le> 6 \<Longrightarrow> 1 \<le> c \<Longrightarrow> c \<le> 6
      \<Longrightarrow> Q ((plain_rule nr 0)\<lparr>r_arg_1 := a, r_val_1 := v, r_arg_2 := b, r_val_2 := u, r_arg_3 := c, r_val_3 := t\<rparr>)
      \<Longrightarrow> adds 1 Q (allow_nr_3_arg_match nr a v b u c t)"
  by (erule adds_rule[rotated]; use assms in
      \<open>simp add: sandbox_rel_def rule_ok_def plain_rule_def slots_snoc count_def put_defs allow_nr_def reject_nr_def
        allow_nr_1_arg_match_def allow_nr_1_arg_mask_def allow_nr_2_arg_match_def allow_nr_2_arg_mask_match_def
        allow_nr_3_arg_match_def\<close>)+

lemma adds_none [intro]: "adds 0 Q Inr"
  by (auto simp: adds_def intro: exI[of _ "[]"])

lemma adds_weaken: "adds m Q f \<Longrightarrow> m \<le> n \<Longrightarrow> (\<And>r. Q r \<Longrightarrow> Q' r) \<Longrightarrow> adds n Q' f"
  unfolding adds_def by (meson le_trans add_left_mono)

lemma adds_do_all_Nil: "adds 0 Q (do_all [])"
  by (auto simp: adds_def intro: exI[of _ "[]"])

lemma adds_do_all_Cons:
  assumes "adds m Q f" "adds n Q (do_all fs)"
  shows "adds (m + n) Q (do_all (f # fs))"
  unfolding adds_def
proof (intro allI impI)
  fix S rs assume "sandbox_rel S rs \<and> length rs + (m + n) \<le> kMaxSyscalls"
  then obtain S1 rs1 where 1: "f S = Inr S1" "sandbox_rel S1 (rs @ rs1)" "length rs1 \<le> m" "\<forall>r \<in> set rs1. Q r"
    and len: "length (rs @ rs1) + n \<le> kMaxSyscalls"
    using assms(1)[unfolded adds_def, rule_format, of S rs] by fastforce
  from assms(2)[unfolded adds_def, rule_format, of S1 "rs @ rs1"] 1(2) len
  obtain S2 rs2 where 2: "do_all fs S1 = Inr S2" "sandbox_rel S2 ((rs @ rs1) @ rs2)" "length rs2 \<le> n" "\<forall>r \<in> set rs2. Q r"
    by blast
  show "\<exists>S' rs'. do_all (f # fs) S = Inr S' \<and> sandbox_rel S' (rs @ rs') \<and> length rs' \<le> m + n \<and> (\<forall>r \<in> set rs'. Q r)"
    using 1 2 by (intro exI[of _ S2] exI[of _ "rs1 @ rs2"]) auto
qed

lemma adds_only_if: "(b \<Longrightarrow> adds n Q (do_all fs)) \<Longrightarrow> adds n Q (only_if b fs)"
  unfolding only_if_def by (cases b) (auto intro: adds_weaken)

section \<open>The filter decides as the table says\<close>

text \<open>What a call with the data \<open>d\<close> (words by their offset) gets from a list of rules.\<close>

definition test_holds :: "(u32 \<Rightarrow> u32) \<Rightarrow> int \<Rightarrow> int \<Rightarrow> bool" where
  "test_holds d arg val \<longleftrightarrow> arg = 0 \<or>
     (if arg > 100 then and (d (arg_offset (arg - 100))) (word_of_int (not val)) = 0
      else d (arg_offset arg) = word_of_int val)"

definition matches :: "(u32 \<Rightarrow> u32) \<Rightarrow> rule \<Rightarrow> bool" where
  "matches d r \<longleftrightarrow> d 0 = word_of_int (r_nr r) \<and> (r_arg_3 r = 0 \<or> d (arg_offset (r_arg_3 r)) = word_of_int (r_val_3 r))
     \<and> (r_arg_2 r = 0 \<or> d (arg_offset (r_arg_2 r)) = word_of_int (r_val_2 r)) \<and> test_holds d (r_arg_1 r) (r_val_1 r)"

definition verdict :: "rule list \<Rightarrow> (u32 \<Rightarrow> u32) \<Rightarrow> u32" where
  "verdict rs d = (if d 4 \<noteq> AUDIT_ARCH_X86_64 then SECCOMP_RET_KILL
     else case find (matches d) rs of None \<Rightarrow> SECCOMP_RET_KILL | Some r \<Rightarrow> return_value (r_errno r))"

text \<open>The size computed from the counters is the size of the program, so no store is out of bounds.\<close>

definition program :: "rule list \<Rightarrow> sock_filter list" where
  "program rs = [load 4, jump_eq AUDIT_ARCH_X86_64 1 0, ret SECCOMP_RET_KILL, load 0]
     @ concat (map entry_code rs) @ [ret SECCOMP_RET_KILL]"

lemma length_program:
  "\<forall>r \<in> set rs. rule_ok r \<Longrightarrow> length (program rs) = length rs * 2 + count (\<lambda>r. r_arg_1 r \<noteq> 0 \<and> r_arg_2 r = 0) rs * 3
     + count (\<lambda>r. r_arg_2 r \<noteq> 0 \<and> r_arg_3 r = 0) rs * 5 + count (\<lambda>r. r_arg_3 r \<noteq> 0) rs * 7 + 5"
  by (induction rs) (auto simp: program_def entry_code_def first_arg_code_def count_def rule_ok_def)

lemma emit_all:
  "length out + length (concat (map g is)) \<le> n \<Longrightarrow>
     rfold (\<lambda>i out. emit n out (g i)) is out = Inr (out @ concat (map g is))"
  by (induction "is" arbitrary: out) (auto simp: emit_def)

lemma filter_program_eq:
  assumes "sandbox_rel S rs"
  shows "filter_program S = Inr (program rs)" "length (program rs) = filter_size S"
proof -
  show len: "length (program rs) = filter_size S"
    using assms length_program[of rs] by (simp add: sandbox_rel_def filter_size_def)
  have n: "s_syscall_index S = length rs" using assms by (simp add: sandbox_rel_def)
  have "map (slot S) [0..<length rs] = rs"
    using assms by (intro nth_equalityI) (simp_all add: slot_def sandbox_rel_def)
  then have "map entry_code (map (slot S) [0..<length rs]) = map entry_code rs" by simp
  then have "concat (map (\<lambda>i. entry_code (slot S i)) [0..<length rs]) = concat (map entry_code rs)"
    by (simp add: comp_def)
  moreover let ?pro = "[load 4, jump_eq AUDIT_ARCH_X86_64 1 0, ret SECCOMP_RET_KILL, load 0]"
  have "emit (filter_size S) [] ?pro = Inr ?pro"
    and "emit (filter_size S) (?pro @ concat (map entry_code rs)) [ret SECCOMP_RET_KILL] = Inr (program rs)"
    using len by (auto simp: emit_def program_def)
  moreover have "length ?pro + length (concat (map entry_code rs)) \<le> filter_size S"
    using len by (simp add: program_def)
  ultimately show "filter_program S = Inr (program rs)"
    using emit_all[of ?pro "\<lambda>i. entry_code (slot S i)" "[0..<length rs]" "filter_size S"]
    by (simp add: filter_program_def n)
qed

definition at :: "sock_filter list \<Rightarrow> nat \<Rightarrow> nat" where
  "at q j = length q + j"

text \<open>
  The kernel's machine, as far as the programs use it: an accumulator, loads of words of the data,
  conditional jumps forward, and the return of a constant.
\<close>

locale bpf_machine =
  fixes run :: "sock_filter list \<Rightarrow> (u32 \<Rightarrow> u32) \<Rightarrow> nat \<Rightarrow> u32 \<Rightarrow> u32"
  assumes run_load: "pc < length p \<Longrightarrow> p ! pc = load off \<Longrightarrow> run p d pc a = run p d (Suc pc) (d off)"
    and run_eq: "pc < length p \<Longrightarrow> p ! pc = jump_eq v t f \<Longrightarrow>
      run p d pc a = run p d (Suc pc + unat (if a = v then t else f)) a"
    and run_set: "pc < length p \<Longrightarrow> p ! pc = jump_set v t f \<Longrightarrow>
      run p d pc a = run p d (Suc pc + unat (if and a v \<noteq> 0 then t else f)) a"
    and run_ret: "pc < length p \<Longrightarrow> p ! pc = ret v \<Longrightarrow> run p d pc a = v"
begin

lemma run_at:
  assumes "j < length c"
  shows "c ! j = load off \<Longrightarrow> run (q @ c) d (at q j) a = run (q @ c) d (at q (Suc j)) (d off)"
    "c ! j = jump_eq v t f \<Longrightarrow> run (q @ c) d (at q j) a = run (q @ c) d (at q (Suc j + unat (if a = v then t else f))) a"
    "c ! j = jump_set v t f \<Longrightarrow>
      run (q @ c) d (at q j) a = run (q @ c) d (at q (Suc j + unat (if and a v \<noteq> 0 then t else f))) a"
    "c ! j = ret v \<Longrightarrow> run (q @ c) d (at q j) a = v"
  using assms run_load[of "length q + j" "q @ c"] run_eq[of "length q + j" "q @ c"] run_set[of "length q + j" "q @ c"]
    run_ret[of "length q + j" "q @ c"]
  by (simp_all add: at_def add.assoc)

lemma entry_runs:
  assumes "rule_ok r"
  shows "run (q @ entry_code r @ s) d (at q 0) (d 0) =
    (if matches d r then return_value (r_errno r)
     else run (q @ entry_code r @ s) d (at q (length (entry_code r))) (d 0))"
proof -
  consider "r_arg_1 r = 0" "r_arg_2 r = 0" "r_arg_3 r = 0" | "r_arg_1 r \<noteq> 0" "r_arg_2 r = 0" "r_arg_3 r = 0"
    | "r_arg_1 r \<noteq> 0" "r_arg_2 r \<noteq> 0" "r_arg_3 r = 0" | "r_arg_1 r \<noteq> 0" "r_arg_2 r \<noteq> 0" "r_arg_3 r \<noteq> 0"
    using assms by (auto simp: rule_ok_def)
  then show ?thesis
    by cases (auto simp: entry_code_def first_arg_code_def block_size_def matches_def test_holds_def run_at
        numeral_2_eq_2[symmetric])
qed

lemma entries_run:
  assumes "\<forall>r \<in> set rs. rule_ok r"
  shows "run (q @ concat (map entry_code rs) @ [ret SECCOMP_RET_KILL]) d (at q 0) (d 0) =
    (case find (matches d) rs of None \<Rightarrow> SECCOMP_RET_KILL | Some r \<Rightarrow> return_value (r_errno r))"
  using assms
proof (induction rs arbitrary: q)
  case Nil
  show ?case by (simp add: run_at)
next
  case (Cons r rs)
  let ?rest = "concat (map entry_code rs) @ [ret SECCOMP_RET_KILL]"
  have "run (q @ entry_code r @ ?rest) d (at q 0) (d 0) = (if matches d r then return_value (r_errno r)
     else run ((q @ entry_code r) @ ?rest) d (at (q @ entry_code r) 0) (d 0))"
    using entry_runs[of r q ?rest d] Cons.prems by (simp add: at_def)
  then show ?case using Cons.IH[of "q @ entry_code r"] Cons.prems by simp
qed

lemma filter_correct:
  assumes "\<forall>r \<in> set rs. rule_ok r"
  shows "run (program rs) d 0 a = verdict rs d"
proof -
  let ?pro = "[load 4, jump_eq AUDIT_ARCH_X86_64 1 0, ret SECCOMP_RET_KILL, load 0]"
  note first = run_at[where q = "[]" and c = "program rs", unfolded append_Nil]
  have n: "program rs ! 0 = load 4" "program rs ! 1 = jump_eq AUDIT_ARCH_X86_64 1 0" "program rs ! 2 = ret SECCOMP_RET_KILL"
    "program rs ! 3 = load 0"
    by (simp_all add: program_def)
  have l: "0 < length (program rs)" "1 < length (program rs)" "2 < length (program rs)" "3 < length (program rs)"
    by (simp_all add: program_def)
  have "run (program rs) d (at [] 0) a = (if d 4 = AUDIT_ARCH_X86_64
      then run (program rs) d (at [] 4) (d 0) else SECCOMP_RET_KILL)"
    using first(1)[OF l(1) n(1), of d a] first(2)[OF l(2) n(2), of d "d 4"] first(4)[OF l(3) n(3), of d "d 4"]
      first(1)[OF l(4) n(4), of d "d 4"]
    by (cases "d 4 = AUDIT_ARCH_X86_64") (simp_all add: numeral_2_eq_2[symmetric])
  moreover have "at ?pro 0 = at [] 4" by (simp add: at_def)
  then have "run (program rs) d (at [] 4) (d 0) =
      (case find (matches d) rs of None \<Rightarrow> SECCOMP_RET_KILL | Some r \<Rightarrow> return_value (r_errno r))"
    using entries_run[OF assms, of ?pro d] unfolding program_def by argo
  ultimately show ?thesis by (simp add: verdict_def at_def)
qed

end

section \<open>The machine\<close>

text \<open>The interpreter of the kernel documentation, for the instructions that occur.\<close>

function bpf_run :: "sock_filter list \<Rightarrow> (u32 \<Rightarrow> u32) \<Rightarrow> nat \<Rightarrow> u32 \<Rightarrow> u32" where
  "bpf_run p d pc a = (if pc \<ge> length p then SECCOMP_RET_KILL else let i = p ! pc in
     if code i = BPF_LD_W_ABS then bpf_run p d (Suc pc) (d (bpf_k i))
     else if code i = BPF_JMP_JEQ_K then bpf_run p d (Suc pc + unat (if a = bpf_k i then jt i else jf i)) a
     else if code i = BPF_JMP_JSET_K then bpf_run p d (Suc pc + unat (if and a (bpf_k i) \<noteq> 0 then jt i else jf i)) a
     else if code i = BPF_RET_K then bpf_k i else SECCOMP_RET_KILL)"
  by pat_completeness auto
termination
  by (relation "measure (\<lambda>(p, _, pc, _). length p - pc)") auto

declare bpf_run.simps [simp del]

interpretation kernel: bpf_machine bpf_run
proof
  fix pc a v off and p :: "sock_filter list" and d t f
  assume pc: "pc < length p"
  note run = bpf_run.simps[of p d pc a]
  show "p ! pc = load off \<Longrightarrow> bpf_run p d pc a = bpf_run p d (Suc pc) (d off)"
    using pc by (simp add: run load_def)
  show "p ! pc = jump_eq v t f \<Longrightarrow> bpf_run p d pc a = bpf_run p d (Suc pc + unat (if a = v then t else f)) a"
    using pc by (simp add: run jump_eq_def)
  show "p ! pc = jump_set v t f \<Longrightarrow> bpf_run p d pc a = bpf_run p d (Suc pc + unat (if and a v \<noteq> 0 then t else f)) a"
    using pc by (simp add: run jump_set_def)
  show "p ! pc = ret v \<Longrightarrow> bpf_run p d pc a = v"
    using pc by (simp add: run ret_def)
qed

section \<open>What the tables contain\<close>

lemma adds_at_most: "adds m Q f \<Longrightarrow> m \<le> n \<Longrightarrow> adds n Q f"
  by (rule adds_weaken)

lemmas adds_rules = adds_do_all_Cons adds_do_all_Nil adds_only_if adds_entries

text \<open>The calls that every process of a kind may make, whatever the configuration.\<close>

definition base_calls :: "int set" where
  "base_calls = {NR_read, NR_write, NR_mmap, NR_mprotect, NR_munmap, NR_brk, NR_mremap, NR_gettimeofday,
     NR_rt_sigreturn, NR_restart_syscall, NR_close, NR_exit_group}"

definition data_calls :: "int set" where
  "data_calls = {NR_socket, NR_bind, NR_select, NR_connect, NR_getsockopt, NR_setsockopt, NR_fcntl, NR_listen, NR_accept}"

definition prelogin_calls :: "int set" where
  "prelogin_calls = base_calls \<union> {NR_recvfrom, NR_nanosleep, NR_getpid, NR_shutdown, NR_fcntl, NR_rt_sigaction, NR_alarm,
     NR_recvmsg, NR_setsockopt, NR_socket}"

definition session_calls :: "int set" where
  "session_calls = prelogin_calls \<union> data_calls \<union> {NR_lstat, NR_fstat, NR_lseek, NR_stat, NR_readlink, NR_getcwd, NR_chdir,
     NR_getdents, NR_umask, NR_sendfile, NR_sendmsg, NR_sendto}"

definition broker_calls :: "int set" where
  "broker_calls = base_calls \<union> data_calls \<union> {NR_sendmsg}"

text \<open>The calls that change the file system, as the configuration permits them to a session.\<close>

definition may_call :: "env \<Rightarrow> bool \<Rightarrow> int \<Rightarrow> bool" where
  "may_call E anon nr \<longleftrightarrow>
     nr \<in> {NR_fchmod, NR_fchown} \<and> tunable_one_process_model E \<and> anon \<and> tunable_chown_uploads E
   \<or> tunable_write_enable E \<and>
     (nr = NR_mkdir \<and> (\<not> anon \<or> tunable_anon_mkdir_write_enable E)
    \<or> nr = NR_unlink \<and> (\<not> anon \<or> tunable_anon_other_write_enable E \<or> tunable_delete_failed_uploads E)
    \<or> nr \<in> {NR_rmdir, NR_rename, NR_ftruncate} \<and> (\<not> anon \<or> tunable_anon_other_write_enable E)
    \<or> nr \<in> {NR_utime, NR_utimes} \<and> (\<not> anon \<or> tunable_anon_other_write_enable E) \<and> tunable_mdtm_write E
    \<or> nr = NR_chmod \<and> \<not> anon \<and> tunable_chmod_enable E)"

definition open_mask :: "env \<Rightarrow> int" where
  "open_mask E = (if tunable_write_enable E then or kOpenFlags O_ACCMODE else kOpenFlags)"

definition opens :: "env \<Rightarrow> rule \<Rightarrow> bool" where
  "opens E r \<longleftrightarrow> r_val_1 r = open_mask E \<and> (r_nr r = NR_open \<and> r_arg_1 r = 102 \<or> r_nr r = NR_openat \<and> r_arg_1 r = 103)"

lemma base_adds:
  assumes "\<And>r. r_nr r \<in> base_calls \<Longrightarrow> Q r"
  shows "adds 12 Q seccomp_sandbox_setup_base"
  unfolding seccomp_sandbox_setup_base_def
  apply (rule adds_at_most)
   apply (rule adds_rules | (simp; fail) | (rule assms; simp add: plain_rule_def base_calls_def; fail))+
  done

lemma data_adds:
  assumes "\<And>r. r_nr r \<in> data_calls \<Longrightarrow> Q r"
  shows "adds 12 Q (seccomp_sandbox_setup_data_connections E)"
  unfolding seccomp_sandbox_setup_data_connections_def
  apply (rule adds_at_most)
   apply (rule adds_rules | (simp; fail) | (rule assms; simp add: plain_rule_def data_calls_def; fail))+
  done

lemma prelogin_adds:
  assumes "\<And>r. r_nr r \<in> prelogin_calls \<Longrightarrow> Q r"
  shows "adds 25 Q (seccomp_sandbox_setup_prelogin E)"
proof -
  have b: "adds 12 Q seccomp_sandbox_setup_base"
    by (rule base_adds, rule assms) (simp add: prelogin_calls_def)
  show ?thesis
    unfolding seccomp_sandbox_setup_prelogin_def
    apply (rule adds_at_most)
     apply (rule b adds_rules | (simp; fail) | (rule assms; simp add: plain_rule_def prelogin_calls_def; fail))+
    done
qed

lemma broker_adds:
  assumes "\<And>r. r_nr r \<in> broker_calls \<Longrightarrow> Q r"
  shows "adds 25 Q (seccomp_sandbox_setup_postlogin_broker E)"
proof -
  have b: "adds 12 Q seccomp_sandbox_setup_base" "adds 12 Q (seccomp_sandbox_setup_data_connections E)"
    by (rule base_adds data_adds, rule assms, simp add: broker_calls_def)+
  show ?thesis
    unfolding seccomp_sandbox_setup_postlogin_broker_def
    apply (rule adds_at_most)
     apply (rule b adds_rules | (simp; fail) | (rule assms; simp add: plain_rule_def broker_calls_def; fail))+
    done
qed

lemma postlogin_adds:
  assumes "\<And>r. r_nr r \<in> session_calls \<Longrightarrow> Q r" "\<And>r. opens E r \<Longrightarrow> Q r"
    and "\<And>r. may_call E (is_anonymous s) (r_nr r) \<Longrightarrow> Q r"
  shows "adds 72 Q (seccomp_sandbox_setup_postlogin E pid s)"
proof -
  have b: "adds 25 Q (seccomp_sandbox_setup_prelogin E)" "adds 12 Q (seccomp_sandbox_setup_data_connections E)"
    by (rule prelogin_adds data_adds, rule assms, simp add: session_calls_def)+
  show ?thesis
    unfolding seccomp_sandbox_setup_postlogin_def Let_def
    apply (rule adds_at_most)
     apply (rule b adds_rules | (simp; fail) | (rule assms(1); simp add: plain_rule_def session_calls_def prelogin_calls_def data_calls_def base_calls_def; fail)
       | (rule assms(2); simp add: opens_def open_mask_def plain_rule_def; fail)
       | (rule assms(3); auto simp: may_call_def plain_rule_def; fail))+
    done
qed

section \<open>What a process in its sandbox can do\<close>

lemma kMaxSyscalls_nat: "kMaxSyscalls = 100"
  by (simp add: kMaxSyscalls_def)

lemma adds_static:
  assumes "adds n Q f" "n \<le> kMaxSyscalls"
  shows "\<exists>S rs. f static_sandbox = Inr S \<and> sandbox_rel S rs \<and> (\<forall>r \<in> set rs. Q r)"
  using assms(1)[unfolded adds_def, rule_format, of static_sandbox "[]"] assms(2) by auto

text \<open>A call that is not killed matches a rule of the table.\<close>

lemma verdict_rule:
  assumes "verdict rs d \<noteq> SECCOMP_RET_KILL"
  shows "d 4 = AUDIT_ARCH_X86_64 \<and> (\<exists>r \<in> set rs. matches d r)"
  using assms by (auto simp: verdict_def find_Some_iff split: if_splits option.splits)

text \<open>
  The program built from a table whose rules all have the property \<open>Q\<close>: it exists, has the size
  reckoned before, and lets through only calls that match a rule with \<open>Q\<close>.
\<close>

definition confines :: "(sock_filter list \<Rightarrow> (u32 \<Rightarrow> u32) \<Rightarrow> nat \<Rightarrow> u32 \<Rightarrow> u32) \<Rightarrow> (sandbox \<Rightarrow> sandbox res) \<Rightarrow>
    (rule \<Rightarrow> bool) \<Rightarrow> bool" where
  "confines run setup Q \<longleftrightarrow> (\<exists>S p. setup static_sandbox = Inr S \<and> filter_program S = Inr p
     \<and> (\<forall>d a. run p d 0 a \<noteq> SECCOMP_RET_KILL \<longrightarrow> d 4 = AUDIT_ARCH_X86_64 \<and> (\<exists>r. Q r \<and> matches d r)))"

lemma confines_setup:
  assumes "bpf_machine run" "adds n Q setup" "n \<le> kMaxSyscalls"
  shows "confines run setup Q"
proof -
  obtain S rs where S: "setup static_sandbox = Inr S" "sandbox_rel S rs" "\<forall>r \<in> set rs. Q r"
    using adds_static[OF assms(2,3)] by blast
  have ok: "\<forall>r \<in> set rs. rule_ok r" using S(2) by (simp add: sandbox_rel_def)
  have "run (program rs) d 0 a \<noteq> SECCOMP_RET_KILL \<Longrightarrow> d 4 = AUDIT_ARCH_X86_64 \<and> (\<exists>r. Q r \<and> matches d r)" for d a
    using bpf_machine.filter_correct[OF assms(1) ok, of d a] verdict_rule[of rs d] S(3) by auto
  then show ?thesis using S(1) filter_program_eq(1)[OF S(2)] unfolding confines_def by blast
qed

lemma confinesE:
  assumes "confines run setup Q"
  obtains S p where "setup static_sandbox = Inr S" "filter_program S = Inr p"
    "\<And>d a. run p d 0 a \<noteq> SECCOMP_RET_KILL \<Longrightarrow> d 4 = AUDIT_ARCH_X86_64 \<and> (\<exists>r. Q r \<and> matches d r)"
  using assms unfolding confines_def by blast

definition session_rule :: "env \<Rightarrow> bool \<Rightarrow> rule \<Rightarrow> bool" where
  "session_rule E anon r \<longleftrightarrow> r_nr r \<in> session_calls \<or> opens E r \<or> may_call E anon (r_nr r)"

lemma session_confined:
  "bpf_machine run \<Longrightarrow> confines run (seccomp_sandbox_setup_postlogin E pid s) (session_rule E (is_anonymous s))"
  by (rule confines_setup[OF _ postlogin_adds]) (auto simp: session_rule_def kMaxSyscalls_def)

lemma broker_confined:
  "bpf_machine run \<Longrightarrow> confines run (seccomp_sandbox_setup_postlogin_broker E) (\<lambda>r. r_nr r \<in> broker_calls)"
  by (rule confines_setup[OF _ broker_adds]) (auto simp: kMaxSyscalls_def)

lemma prelogin_confined:
  "bpf_machine run \<Longrightarrow> confines run (seccomp_sandbox_setup_prelogin E) (\<lambda>r. r_nr r \<in> prelogin_calls)"
  by (rule confines_setup[OF _ prelogin_adds]) (auto simp: kMaxSyscalls_def)

text \<open>The numbers are small, so a word tells them apart.\<close>

lemmas call_sets = session_calls_def prelogin_calls_def broker_calls_def data_calls_def base_calls_def

lemma session_rule_small: "session_rule E anon r \<Longrightarrow> 0 \<le> r_nr r \<and> r_nr r < 300"
  by (auto simp: session_rule_def call_sets opens_def may_call_def)

lemma broker_rule_small: "r_nr r \<in> broker_calls \<Longrightarrow> 0 \<le> r_nr r \<and> r_nr r < 300"
  by (auto simp: call_sets)

lemma small_nr: "0 \<le> m \<Longrightarrow> m < 300 \<Longrightarrow> 0 \<le> n \<Longrightarrow> n < 300 \<Longrightarrow> (word_of_int m :: u32) = word_of_int n \<longleftrightarrow> m = n"
  by (simp add: word_of_int_eq_iff take_bit_int_eq_self)

lemma matches_nr:
  "matches d r \<Longrightarrow> d 0 = word_of_int n \<Longrightarrow> 0 \<le> r_nr r \<and> r_nr r < 300 \<Longrightarrow> 0 \<le> n \<Longrightarrow> n < 300 \<Longrightarrow> r_nr r = n"
  using small_nr[of "r_nr r" n] by (simp add: matches_def)

text \<open>Changes to the file system by name or descriptor, known to x86-64.\<close>

definition modifying_calls :: "int set" where
  "modifying_calls = {76, NR_ftruncate, NR_rename, NR_mkdir, NR_rmdir, 85, 86, NR_unlink, 88, NR_chmod, NR_fchmod, 92,
     NR_fchown, 94, NR_utime, 133, NR_utimes, 258, 259, 260, 261, 263, 264, 265, 266, 268, 280, 285}"

lemma modifying_disjoint: "n \<in> modifying_calls \<Longrightarrow> n \<notin> session_calls \<and> n \<noteq> NR_open \<and> n \<noteq> NR_openat \<and> 0 \<le> n \<and> n < 300"
proof -
  have "\<forall>n \<in> modifying_calls. n \<notin> session_calls \<and> n \<noteq> NR_open \<and> n \<noteq> NR_openat \<and> 0 \<le> n \<and> n < 300"
    by (simp add: modifying_calls_def call_sets)
  then show "n \<in> modifying_calls \<Longrightarrow> n \<notin> session_calls \<and> n \<noteq> NR_open \<and> n \<noteq> NR_openat \<and> 0 \<le> n \<and> n < 300" by blast
qed

lemma read_only_kills:
  assumes "bpf_machine run" "\<not> tunable_write_enable E"
    and "\<not> (tunable_one_process_model E \<and> is_anonymous s \<and> tunable_chown_uploads E)"
  shows "\<exists>S p. seccomp_sandbox_setup_postlogin E pid s static_sandbox = Inr S \<and> filter_program S = Inr p
    \<and> (\<forall>d a. (\<exists>n \<in> modifying_calls. d 0 = word_of_int n) \<longrightarrow> run p d 0 a = SECCOMP_RET_KILL)
    \<and> (\<forall>d a. d 0 = word_of_int NR_open \<and> and (d (arg_offset 2)) 3 \<noteq> 0 \<longrightarrow> run p d 0 a = SECCOMP_RET_KILL)
    \<and> (\<forall>d a. d 0 = word_of_int NR_openat \<and> and (d (arg_offset 3)) 3 \<noteq> 0 \<longrightarrow> run p d 0 a = SECCOMP_RET_KILL)"
proof -
  obtain S p where S: "seccomp_sandbox_setup_postlogin E pid s static_sandbox = Inr S" "filter_program S = Inr p"
    and c: "\<And>d a. run p d 0 a \<noteq> SECCOMP_RET_KILL \<Longrightarrow>
      d 4 = AUDIT_ARCH_X86_64 \<and> (\<exists>r. session_rule E (is_anonymous s) r \<and> matches d r)"
    using confinesE[OF session_confined[OF assms(1), of E pid s]] by metis
  have no: "\<not> may_call E (is_anonymous s) n" for n using assms(2,3) by (auto simp: may_call_def)
  have m: "run p d 0 a = SECCOMP_RET_KILL" if n: "n \<in> modifying_calls" "d 0 = word_of_int n" for d a n
  proof (rule ccontr)
    assume "run p d 0 a \<noteq> SECCOMP_RET_KILL"
    then obtain r where r: "session_rule E (is_anonymous s) r" "matches d r" using c by blast
    then have "r_nr r = n"
      using matches_nr[OF r(2) n(2) session_rule_small[OF r(1)]] modifying_disjoint[OF n(1)] by simp
    then show False using r(1) no modifying_disjoint[OF n(1)] by (auto simp: session_rule_def opens_def)
  qed
  have flags: "and x (word_of_int (not kOpenFlags)) = 0 \<Longrightarrow> and x 3 = 0" for x :: u32
  proof -
    assume x: "and x (word_of_int (not kOpenFlags)) = 0"
    have "(3 :: u32) = and (word_of_int (not kOpenFlags)) 3" by (simp add: kOpenFlags_def)
    then have "and x 3 = and (and x (word_of_int (not kOpenFlags))) 3" by (metis and.assoc)
    then show ?thesis using x by simp
  qed
  have o: "run p d 0 a = SECCOMP_RET_KILL"
    if n: "d 0 = word_of_int n" "n = NR_open \<and> k = 2 \<or> n = NR_openat \<and> k = 3" "and (d (arg_offset k)) 3 \<noteq> 0" for d a n k
  proof (rule ccontr)
    assume "run p d 0 a \<noteq> SECCOMP_RET_KILL"
    then obtain r where r: "session_rule E (is_anonymous s) r" "matches d r" using c by blast
    then have nr: "r_nr r = n"
      using matches_nr[OF r(2) n(1) session_rule_small[OF r(1)]] n(2) by auto
    then have "opens E r" using r(1) no n(2) by (auto simp: session_rule_def call_sets)
    then have "r_arg_1 r = 100 + k" "r_val_1 r = kOpenFlags"
      using n(2) nr assms(2) by (auto simp: opens_def open_mask_def)
    then have "and (d (arg_offset k)) (word_of_int (not kOpenFlags)) = 0"
      using r(2) n(2) by (auto simp: matches_def test_holds_def)
    then show False using flags n(3) by blast
  qed
  show ?thesis
    by (rule exI[of _ S], rule exI[of _ p]) (use S m o[of _ NR_open 2] o[of _ NR_openat 3] in auto)
qed

text \<open>The calls with which an upload is given away, in the two processes.\<close>

lemma chown_killed:
  assumes "bpf_machine run" "\<not> tunable_one_process_model E"
  shows "\<exists>S p S' p'. seccomp_sandbox_setup_postlogin E pid s static_sandbox = Inr S \<and> filter_program S = Inr p
    \<and> seccomp_sandbox_setup_postlogin_broker E static_sandbox = Inr S' \<and> filter_program S' = Inr p'
    \<and> (\<forall>d a. d 0 = word_of_int NR_fchmod \<longrightarrow> run p d 0 a = SECCOMP_RET_KILL)
    \<and> (\<forall>d a. d 0 = word_of_int NR_recvmsg \<or> d 0 = word_of_int NR_fstat \<or> d 0 = word_of_int NR_fchown
         \<longrightarrow> run p' d 0 a = SECCOMP_RET_KILL)"
proof -
  obtain S p where S: "seccomp_sandbox_setup_postlogin E pid s static_sandbox = Inr S" "filter_program S = Inr p"
    and c: "\<And>d a. run p d 0 a \<noteq> SECCOMP_RET_KILL \<Longrightarrow>
      d 4 = AUDIT_ARCH_X86_64 \<and> (\<exists>r. session_rule E (is_anonymous s) r \<and> matches d r)"
    using confinesE[OF session_confined[OF assms(1), of E pid s]] by metis
  obtain S' p' where S': "seccomp_sandbox_setup_postlogin_broker E static_sandbox = Inr S'" "filter_program S' = Inr p'"
    and c': "\<And>d a. run p' d 0 a \<noteq> SECCOMP_RET_KILL \<Longrightarrow>
      d 4 = AUDIT_ARCH_X86_64 \<and> (\<exists>r. r_nr r \<in> broker_calls \<and> matches d r)"
    using confinesE[OF broker_confined[OF assms(1), of E]] by metis
  have k: "run p d 0 a = SECCOMP_RET_KILL" if n: "d 0 = word_of_int NR_fchmod" for d a
  proof (rule ccontr)
    assume "run p d 0 a \<noteq> SECCOMP_RET_KILL"
    then obtain r where r: "session_rule E (is_anonymous s) r" "matches d r" using c by blast
    then have "r_nr r = NR_fchmod" using matches_nr[OF r(2) n session_rule_small[OF r(1)]] by simp
    then show False using r(1) assms(2) by (simp add: session_rule_def opens_def may_call_def call_sets)
  qed
  have k': "run p' d 0 a = SECCOMP_RET_KILL"
    if n: "d 0 = word_of_int n" "n = NR_recvmsg \<or> n = NR_fstat \<or> n = NR_fchown" for d a n
  proof (rule ccontr)
    assume "run p' d 0 a \<noteq> SECCOMP_RET_KILL"
    then obtain r where r: "r_nr r \<in> broker_calls" "matches d r" using c' by blast
    have "0 \<le> n" "n < 300" using n(2) by auto
    then have "r_nr r = n" using matches_nr[OF r(2) n(1) broker_rule_small[OF r(1)]] by simp
    then show False using r(1) n(2) by (auto simp: call_sets)
  qed
  show ?thesis
    by (intro exI conjI allI impI, rule S(1), rule S(2), rule S'(1), rule S'(2), erule k)
       (elim disjE, (erule k', simp)+)
qed

end
