(* ===== verification/Login.thy ===== *)
theory Login
  imports Prelogin Seccomp Startup
begin

text \<open>
  From the first process of a connection to a session: src/twoprocess.c with the privileged parent's side
  of a login, the part of src/postprivparent.c and src/privsock.c that belongs to it, and the start
  of src/oneprocess.c. A run follows one process. What the processes at the other end of a channel send
  is a parameter, so the results hold for every behaviour of theirs: \<open>guesses\<close> what the unprivileged
  process asks before the login, \<open>answers\<close> what the parent answers it, \<open>requests\<close> what the process of
  the session asks later.
\<close>

section \<open>The socket pair\<close>

definition priv_sock_init :: "env \<Rightarrow> unit proc" where
  "priv_sock_init E = bind get (\<lambda>p_sess.
     if parent_fd p_sess \<noteq> -1 then bug E ''parent_fd active''
     else if child_fd p_sess \<noteq> -1 then bug E ''child_fd active''
     else bind (vsf_sysutil_unix_stream_socketpair E) (\<lambda>(socket_one, socket_two). block [
       upd (\<lambda>s. s\<lparr>parent_fd := socket_one\<rparr>),
       upd (\<lambda>s. s\<lparr>child_fd := socket_two\<rparr>)]))"

definition close_parent_fd :: "env \<Rightarrow> unit proc" where
  "close_parent_fd E = bind get (\<lambda>p_sess. block [
     vsf_sysutil_close E (parent_fd p_sess), upd (\<lambda>s. s\<lparr>parent_fd := -1\<rparr>)])"

definition close_child_fd :: "env \<Rightarrow> unit proc" where
  "close_child_fd E = bind get (\<lambda>p_sess. block [
     vsf_sysutil_close E (child_fd p_sess), upd (\<lambda>s. s\<lparr>child_fd := -1\<rparr>)])"

definition priv_sock_close :: "env \<Rightarrow> unit proc" where
  "priv_sock_close E = block [
     bind get (\<lambda>p_sess. whenp (parent_fd p_sess \<noteq> -1) (close_parent_fd E)),
     bind get (\<lambda>p_sess. whenp (child_fd p_sess \<noteq> -1) (close_child_fd E))]"

definition priv_sock_set_parent_context :: "env \<Rightarrow> unit proc" where
  "priv_sock_set_parent_context E = bind get (\<lambda>p_sess.
     if child_fd p_sess = -1 then bug E ''child_fd not active'' else close_child_fd E)"

definition priv_sock_set_child_context :: "env \<Rightarrow> unit proc" where
  "priv_sock_set_child_context E = bind get (\<lambda>p_sess.
     if parent_fd p_sess = -1 then bug E ''parent_fd not active'' else close_parent_fd E)"

text \<open>
  After a fork each process has its own session; what it will read from the other one is on its way.
\<close>

definition as_child :: "item list \<Rightarrow> unit proc" where
  "as_child answers w = Done () (w\<lparr>psess := sess w, c2p := [], p2c := answers\<rparr>)"

definition as_privileged :: "item list \<Rightarrow> unit proc" where
  "as_privileged requests w = Done () (w\<lparr>c2p := requests, p2c := []\<rparr>)"

section \<open>Signals\<close>

text \<open>The handlers, which run when a pending signal is noticed.\<close>

definition handle_sigchld :: "env \<Rightarrow> 'a proc" where
  "handle_sigchld E = bind (vsf_sysutil_wait E) (\<lambda>(retval, exited_normally).
     if vsf_sysutil_retval_is_error retval then die E ''waiting for child''
     else if \<not> exited_normally then die E ''child died''
     else vsf_sysutil_exit E 0)"

definition handle_sigterm :: "env \<Rightarrow> 'a proc" where
  "handle_sigterm E = seq (sysu E (Shutdown VSFTP_COMMAND_FD)) (vsf_sysutil_exit E 1)"

section \<open>The sandbox of a process\<close>

definition sandboxed :: "env \<Rightarrow> (sandbox \<Rightarrow> sandbox res) \<Rightarrow> unit proc" where
  "sandboxed E setup = bind (lift_res E (rbind (seccomp_sandbox_init static_sandbox) setup))
     (seccomp_sandbox_lockdown E)"

definition sandbox_postlogin :: "env \<Rightarrow> unit proc" where
  "sandbox_postlogin E = bind (if tunable_async_abor_enable E then sys_int E Getpid else return 0) (\<lambda>pid.
     bind get (\<lambda>p_sess. sandboxed E (seccomp_sandbox_setup_postlogin E pid p_sess)))"

section \<open>The parent after a login\<close>

definition kCapabilityCAP_CHOWN :: u32 where "kCapabilityCAP_CHOWN = 1"
definition kCapabilityCAP_NET_BIND_SERVICE :: u32 where "kCapabilityCAP_NET_BIND_SERVICE = 2"

definition wanted_caps :: "env \<Rightarrow> u32" where
  "wanted_caps E = or (if tunable_chown_uploads E then kCapabilityCAP_CHOWN else 0)
     (if tunable_connect_from_port_20 E then kCapabilityCAP_NET_BIND_SERVICE else 0)"

definition minimize_privilege :: "env \<Rightarrow> unit proc" where
  "minimize_privilege E = bind get (\<lambda>p_sess.
     if \<not> is_anonymous p_sess \<and> tunable_session_support E then return ()
     else block [
       vsf_secutil_change_credentials E (text_or_empty (tunable_nopriv_user E))
         (text_or_empty (tunable_secure_chroot_dir E)) None (wanted_caps E) VSF_SECUTIL_OPTION_CHROOT,
       sandboxed E (seccomp_sandbox_setup_postlogin_broker E)])"

definition vsf_priv_parent_postlogin :: "env \<Rightarrow> unit proc" where
  "vsf_priv_parent_postlogin E = block [
     minimize_privilege E, priv_parent_requests E (fuel E), halt Unfinished]"

section \<open>The process of the session\<close>

definition with_user :: "env \<Rightarrow> string \<Rightarrow> string \<Rightarrow> string" where
  "with_user E p_orig_user_str s = (case tunable_user_sub_token E of
     None \<Rightarrow> s | Some t \<Rightarrow> replace_text s (c_text t) (c_text p_orig_user_str))"

text \<open>The home directory, the root to change to and the directory inside of it.\<close>

definition calculate_chdir_dir :: "env \<Rightarrow> bool \<Rightarrow> string \<Rightarrow> string \<Rightarrow> (string \<times> string \<times> string) proc" where
  "calculate_chdir_dir E anon_login p_user_str p_orig_user_str =
     bind (if anon_login then return []
           else bind (str_getpwnam E p_user_str) (\<lambda>p_user. case p_user of
             None \<Rightarrow> die2 E ''cannot locate user entry:'' (Some p_user_str)
           | Some u \<Rightarrow> return (with_user E p_orig_user_str (c_text (pw_dir u))))) (\<lambda>userdir_str.
     let chroot_str = (if anon_login then text_or_empty (tunable_anon_root E)
           else case tunable_local_root E of None \<Rightarrow> []
                | Some r \<Rightarrow> with_user E p_orig_user_str (c_text r)) in
     if \<not> anon_login \<and> tunable_passwd_chroot_enable E \<and> locate_text userdir_str ''/./'' \<noteq> None
     then let (root, dir) = split_text userdir_str ''/./'' in return (root, root, dir)
     else return (userdir_str, chroot_str, []))"

definition secutil_options :: "env \<Rightarrow> bool \<Rightarrow> bool \<Rightarrow> bool \<Rightarrow> u32" where
  "secutil_options E do_chroot is_anon was_anon =
     or (or VSF_SECUTIL_OPTION_USE_GROUPS VSF_SECUTIL_OPTION_NO_PROCS)
    (or (if do_chroot then VSF_SECUTIL_OPTION_CHROOT else 0)
    (or (if \<not> is_anon then VSF_SECUTIL_OPTION_CHANGE_EUID else 0)
        (if \<not> was_anon \<and> tunable_allow_writeable_chroot E then VSF_SECUTIL_OPTION_ALLOW_WRITEABLE_ROOT else 0)))"

definition is_guest_login :: "env \<Rightarrow> bool \<Rightarrow> bool" where
  "is_guest_login E is_anon \<longleftrightarrow> tunable_guest_enable E \<and> \<not> is_anon"

text \<open>A guest without the privileges of local users is treated as an anonymous one.\<close>

definition restricted_guest :: "env \<Rightarrow> bool \<Rightarrow> bool" where
  "restricted_guest E is_anon \<longleftrightarrow> is_guest_login E is_anon \<and> \<not> tunable_virtual_use_local_privs E"

definition login_child :: "env \<Rightarrow> string \<Rightarrow> bool \<Rightarrow> bool \<Rightarrow> unit proc" where
  "login_child E orig_user chroot_user was_anon = (
     let p_user_str = (if is_guest_login E was_anon then text_or_empty (tunable_guest_username E) else orig_user);
         is_anon = (was_anon \<or> restricted_guest E was_anon);
         do_chroot = (chroot_user \<or> restricted_guest E was_anon) in
     seq (block [
       vsf_set_die_if_parent_dies E,
       priv_sock_set_child_context E,
       whenp (is_guest_login E was_anon) (upd (\<lambda>s. s\<lparr>is_guest := True\<rparr>))])
     (bind (calculate_chdir_dir E was_anon p_user_str orig_user) (\<lambda>(userdir_str, chroot_str, chdir_str). block [
       vsf_secutil_change_credentials E p_user_str userdir_str (Some chroot_str) 0
         (secutil_options E do_chroot is_anon was_anon),
       whenp (chdir_str \<noteq> []) (bind (str_chdir E chdir_str) (\<lambda>_. return ())),
       upd (\<lambda>s. s\<lparr>is_anonymous := is_anon\<rparr>),
       sandbox_postlogin E,
       process_post_login E,
       bug E ''should not get here: common_do_login''])))"

section \<open>A login in the parent\<close>

text \<open>The settings of the user, if there is a file of that name; a name with a slash has none.\<close>

definition handle_per_user_config :: "env \<Rightarrow> string \<Rightarrow> tunables proc" where
  "handle_per_user_config E p_user_str = (case tunable_user_config_dir E of
     None \<Rightarrow> return (tun E)
   | Some d \<Rightarrow> if CHR ''/'' \<in> set p_user_str then return (tun E)
     else let filename_str = c_text d @ ''/'' @ p_user_str in
       bind (str_stat E filename_str) (\<lambda>st.
         if st \<noteq> None then vsf_parseconf_load_file E (Some filename_str) True
         else bind (vsf_sysutil_get_error E) (\<lambda>e.
           if e \<noteq> kErrNOENT then die E ''error opening per-user config file'' else return (tun E))))"

definition common_do_login :: "env \<Rightarrow> item list \<Rightarrow> string \<Rightarrow> bool \<Rightarrow> bool \<Rightarrow> unit proc" where
  "common_do_login E requests user do_chroot was_anon = seq (block [
     vsf_sysutil_install_null_sighandler E ''SIGCHLD'',
     priv_sock_send_result Parent_end PRIV_SOCK_RESULT_OK,
     bind get (\<lambda>p_sess.
       if \<not> control_use_ssl p_sess then bind (vsf_sysutil_wait E) (\<lambda>_. return ())
       else upd (\<lambda>s. s\<lparr>ssl_slave_active := True\<rparr>))])
   (bind (handle_per_user_config E user) (\<lambda>T. let E = with_tun E T in
    seq (block [
      upd (\<lambda>s. s\<lparr>is_anonymous := was_anon\<rparr>),
      priv_sock_close E,
      priv_sock_init E,
      vsf_sysutil_install_sighandler E ''SIGCHLD'' ''handle_sigchld'' True])
    (bind (if tunable_isolate_network E \<and> \<not> tunable_port_promiscuous E
           then vsf_sysutil_fork_newnet E else vsf_sysutil_fork E) (\<lambda>newpid.
      if newpid = 0 then seq (as_child []) (login_child E user do_chroot was_anon)
      else block [
        as_privileged requests,
        priv_sock_set_parent_context E,
        vsf_priv_parent_postlogin E,
        bug E ''should not get here in common_do_login'']))))"

text \<open>The list of users turns the default around.\<close>

definition chroot_wanted :: "env \<Rightarrow> bool proc" where
  "chroot_wanted E = (if \<not> tunable_chroot_list_enable E then return (tunable_chroot_local_user E)
     else bind (cached_file E (tunable_chroot_list_file E) ''could not read chroot() list file:'') (\<lambda>l.
       bind get (\<lambda>p_sess. return (if user_str p_sess \<in> set (text_lines l)
         then \<not> tunable_chroot_local_user E else tunable_chroot_local_user E))))"

text \<open>What the unprivileged process sends with a request is not trusted.\<close>

definition receive_login :: "env \<Rightarrow> string proc" where
  "receive_login E =
     bind (priv_sock_get_str E Parent_end) (\<lambda>user. seq (upd (\<lambda>s. s\<lparr>user_str := user\<rparr>))
    (bind (priv_sock_get_str E Parent_end) (\<lambda>password_str.
     bind (priv_sock_get_int E Parent_end) (\<lambda>control. seq (upd (\<lambda>s. s\<lparr>control_use_ssl := control \<noteq> 0\<rparr>))
    (bind (priv_sock_get_int E Parent_end) (\<lambda>data. seq (block [
       upd (\<lambda>s. s\<lparr>data_use_ssl := data \<noteq> 0\<rparr>),
       whenp (\<not> tunable_ssl_enable E) (upd (\<lambda>s. s\<lparr>control_use_ssl := False, data_use_ssl := False\<rparr>))])
     (return password_str)))))))"

definition process_login_req :: "env \<Rightarrow> item list \<Rightarrow> unit proc" where
  "process_login_req E requests = bind (priv_sock_get_cmd E Parent_end) (\<lambda>cmd.
     if cmd \<noteq> PRIV_SOCK_LOGIN then die E ''bad request''
     else bind (receive_login E) (\<lambda>password_str.
       bind (vsf_privop_do_login E password_str) (\<lambda>e_login_result. case e_login_result of
         kVSFLoginFail \<Rightarrow> priv_sock_send_result Parent_end PRIV_SOCK_RESULT_BAD
       | kVSFLoginAnon \<Rightarrow> seq (upd (\<lambda>s. s\<lparr>user_str := text_or_empty (tunable_ftp_username E)\<rparr>))
           (common_do_login E requests (text_or_empty (tunable_ftp_username E)) True True)
       | kVSFLoginReal \<Rightarrow> bind (chroot_wanted E) (\<lambda>do_chroot. bind get (\<lambda>p_sess.
           common_do_login E requests (user_str p_sess) do_chroot False))
       | kVSFLoginNull \<Rightarrow> bug E ''weird state in process_login_request'')))"

primrec login_requests :: "env \<Rightarrow> item list \<Rightarrow> nat \<Rightarrow> unit proc" where
  "login_requests E requests 0 = halt Unfinished"
| "login_requests E requests (Suc n) = seq (process_login_req E requests) (login_requests E requests n)"

section \<open>The start of a connection\<close>

definition drop_all_privs :: "env \<Rightarrow> unit proc" where
  "drop_all_privs E = (let dir_str = text_or_empty (tunable_secure_chroot_dir E) in
     bind (sys_stat E (Lstat (c_text dir_str))) (\<lambda>st.
       if st = None
       then die2 E ''vsftpd: not found: directory given in 'secure_chroot_dir':'' (tunable_secure_chroot_dir E)
       else vsf_secutil_change_credentials E (text_or_empty (tunable_nopriv_user E)) dir_str None 0
         (or (or VSF_SECUTIL_OPTION_CHROOT VSF_SECUTIL_OPTION_NO_PROCS)
            (if \<not> tunable_ssl_enable E then VSF_SECUTIL_OPTION_NO_FDS else 0))))"

definition unprivileged_child :: "env \<Rightarrow> item list \<Rightarrow> unit proc" where
  "unprivileged_child E answers = block [
     as_child answers,
     vsf_set_die_if_parent_dies E,
     priv_sock_set_child_context E,
     whenp (tunable_local_enable E \<and> tunable_userlist_enable E)
       (bind (cached_file E (tunable_userlist_file E) ''cannot read user list file:'') (\<lambda>x.
          upd (\<lambda>s. s\<lparr>userlist_str := x\<rparr>))),
     drop_all_privs E,
     sandboxed E (seccomp_sandbox_setup_prelogin E),
     init_connection E]"

definition vsf_two_process_start :: "env \<Rightarrow> item list \<Rightarrow> item list \<Rightarrow> item list \<Rightarrow> unit proc" where
  "vsf_two_process_start E guesses answers requests = seq (block [
     vsf_sysutil_install_sighandler E ''SIGTERM'' ''handle_sigterm'' True,
     vsf_set_term_if_parent_dies E,
     priv_sock_init E,
     vsf_sysutil_install_sighandler E ''SIGCHLD'' ''handle_sigchld'' True])
   (bind (if tunable_isolate_network E then vsf_sysutil_fork_newnet E else vsf_sysutil_fork E) (\<lambda>newpid.
      if newpid \<noteq> 0
      then block [
        as_privileged guesses,
        priv_sock_set_parent_context E,
        login_requests E requests (fuel E)]
      else unprivileged_child E answers))"

text \<open>The one process: the ptrace sandbox exists on 32-bit systems only.\<close>

definition one_process_start :: "env \<Rightarrow> unit proc" where
  "one_process_start E = (let chdir_str = text_or_empty (tunable_anon_root E) in block [
     if tunable_run_as_launching_user E
     then whenp (chdir_str \<noteq> []) (bind (str_chdir E chdir_str) (\<lambda>_. return ()))
     else vsf_secutil_change_credentials E (text_or_empty (tunable_ftp_username E)) [] (Some chdir_str)
       (wanted_caps E) (or (or VSF_SECUTIL_OPTION_CHROOT VSF_SECUTIL_OPTION_USE_GROUPS) VSF_SECUTIL_OPTION_NO_PROCS),
     sandbox_postlogin E,
     init_connection E])"

definition vsf_one_process_start :: "env \<Rightarrow> unit proc" where
  "vsf_one_process_start E =
     (if tunable_ptrace_sandbox E then die E ''could not allocate sandbox (only works for 32-bit builds)''
      else one_process_start E)"

end
