(* ===== verification/Login_Host.thy ===== *)
theory Login_Host
  imports Login
begin

text \<open>
  What a granted login establishes, and what the processes of a connection (Login) keep: an interface
  \<open>login_host\<close> for invariants that allow a change of directory and the files of the configuration.
  A fact about the history, once it holds, stays: \<open>knowing\<close> adds one to an invariant.
\<close>

section \<open>Facts that stay true\<close>

text \<open>An invariant with a fact about the history, which only grows.\<close>

definition stays :: "(event list \<Rightarrow> bool) \<Rightarrow> bool" where
  "stays K \<longleftrightarrow> (\<forall>h e. K h \<longrightarrow> K (e # h))"

definition knowing :: "(world \<Rightarrow> bool) \<Rightarrow> (event list \<Rightarrow> bool) \<Rightarrow> world \<Rightarrow> bool" where
  "knowing I K w \<longleftrightarrow> I w \<and> K (trace w)"

lemma knowing_base: "base I \<Longrightarrow> stays K \<Longrightarrow> base (knowing I K)"
  by (simp add: base_def allows_def knowing_def stays_def)

lemma knowing_chans: "chans I \<Longrightarrow> chans (knowing I K)"
  by (simp add: chans_def knowing_def)

lemma knowing_allows: "allows I c \<Longrightarrow> stays K \<Longrightarrow> allows (knowing I K) c"
  by (simp add: allows_def knowing_def stays_def)

lemma knowing_upd: "(\<And>w. I w \<Longrightarrow> I (w\<lparr>sess := f (sess w)\<rparr>)) \<Longrightarrow> keeps (knowing I K) (upd f)"
  by (rule keeps_upd) (simp add: knowing_def)

lemma triple_known: "keeps (knowing I K) m \<Longrightarrow> (\<And>w. knowing I K w \<Longrightarrow> R w) \<Longrightarrow>
    triple (knowing I K) m (\<lambda>_. knowing I K) R"
  unfolding keeps_def by (erule triple_weaken) simp_all

lemma triple_conj: "triple P m Q R \<Longrightarrow> triple P' m Q' R' \<Longrightarrow>
    triple (\<lambda>w. P w \<and> P' w) m (\<lambda>x w. Q x w \<and> Q' x w) (\<lambda>w. R w \<and> R' w)"
  by (fastforce simp: triple_def split: outcome.splits)

lemma triple_at: "(\<And>w0. P w0 \<Longrightarrow> triple (\<lambda>w. w = w0) m Q R) \<Longrightarrow> triple P m Q R"
  by (auto simp: triple_def)

lemma triple_never: "triple P m (\<lambda>_ _. False) R \<Longrightarrow> triple P (seq m n) (\<lambda>_ _. False) R"
  unfolding seq_def by (erule triple_bind) (simp add: triple_def)

lemma triple_stop: "keeps I (m :: unit proc) \<Longrightarrow> (\<And>w x w'. m w \<noteq> Done x w') \<Longrightarrow> triple I m (\<lambda>_ _. False) I"
  by (fastforce simp: keeps_def triple_def split: outcome.splits)

lemma stays_mem: "stays (\<lambda>h. x \<in> set h)"
  by (simp add: stays_def)

lemma stays_rules:
  "stays K \<Longrightarrow> stays K' \<Longrightarrow> stays (\<lambda>h. K h \<and> K' h)" "stays K \<Longrightarrow> stays K' \<Longrightarrow> stays (\<lambda>h. K h \<or> K' h)"
  "(\<And>x. stays (M x)) \<Longrightarrow> stays (\<lambda>h. \<exists>x. M x h)" "stays K \<Longrightarrow> stays (\<lambda>h. b \<longrightarrow> K h)" "stays (\<lambda>h. b)"
  by (simp_all add: stays_def) blast

lemma stays_append: "stays K \<Longrightarrow> K h \<Longrightarrow> K (b @ h)"
proof (induction b)
  case (Cons e b)
  then have "K (b @ h)" by simp
  then show ?case using Cons.prems(1) by (simp only: append_Cons stays_def)
qed simp

section \<open>A granted password\<close>

definition stored_for :: "string \<Rightarrow> string \<Rightarrow> event list \<Rightarrow> bool" where
  "stored_for user stored h \<longleftrightarrow> (Call ''getspnam'' [] [c_text user], RStr (Some stored)) \<in> set h
     \<or> (\<exists>u. (Getpwnam (c_text user), RUser (Some u)) \<in> set h \<and> pw_passwd u = stored)"

lemma stays_stored: "stays (stored_for user stored)"
  by (auto simp: stays_def stored_for_def)

lemma stays_verified: "stays (verified user)"
  unfolding stays_def using verified_later[of user _ "[_]"] by simp

lemma verified_by:
  "stored_for user stored h \<Longrightarrow> (Call ''crypt'' [] [p, c_text stored], RStr (Some c)) \<in> set h \<Longrightarrow>
     c_text c = c_text stored \<Longrightarrow> verified user h"
  unfolding verified_def stored_for_def by blast

lemma password_granted:
  assumes b: "base I"
  shows "triple (knowing I (stored_for user stored)) (password_matches E p stored)
    (\<lambda>ok w. I w \<and> (ok \<longrightarrow> verified user (trace w))) I"
proof (rule tripleI)
  fix w assume w: "knowing I (stored_for user stored) w"
  let ?c = "Call ''crypt'' [] [c_text p, c_text stored]"
  let ?w = "w\<lparr>trace := (?c, os E (trace w) ?c) # trace w\<rparr>"
  have I: "I ?w" using b w by (simp add: base_def allows_def knowing_def)
  have s: "stored_for user stored (trace ?w)"
    using w stays_stored[of user stored] by (simp add: knowing_def stays_def)
  show "case password_matches E p stored w of
      Done ok w' \<Rightarrow> I w' \<and> (ok \<longrightarrow> verified user (trace w')) | Halt _ w' \<Rightarrow> I w'"
  proof (cases "ret_str (os E (trace w) ?c)")
    case None
    then show ?thesis using I
      by (simp add: password_matches_def bind_def sys_str_def sys_def Let_def return_def halt_def)
  next
    case (Some c)
    then have "os E (trace w) ?c = RStr (Some c)" by (simp add: ret_str_Some)
    then have "c_text c = c_text stored \<Longrightarrow> verified user (trace ?w)"
      by (intro verified_by[OF s, of "c_text p" c]) simp_all
    then show ?thesis using I Some
      by (simp add: password_matches_def bind_def sys_str_def sys_def Let_def return_def)
  qed
qed

lemma shadow_granted:
  assumes b: "base I"
  shows "triple I (check_shadow E user p) (\<lambda>d w. I w \<and> (d = Some True \<longrightarrow> verified user (trace w))) I"
proof -
  let ?Q = "\<lambda>d w. I w \<and> (d = Some True \<longrightarrow> verified user (trace w))"
  let ?c = "Call ''getspnam'' [] [c_text user]"
  have field: "triple (knowing I (stored_for user s)) (sys_int E (Call f [] [])) (\<lambda>_. knowing I (stored_for user s)) I" for s f
    by (rule triple_known, intro keeps_sys_ops base_allows knowing_base b stays_stored) (simp_all add: knowing_def)
  have found: "triple (knowing I (stored_for user s)) (bind (sys_int E Time_sec) (\<lambda>curr_time.
         bind (sys_int E (Call ''sp_expire'' [] [])) (\<lambda>sp_expire.
         bind (sys_int E (Call ''sp_lstchg'' [] [])) (\<lambda>sp_lstchg.
         bind (sys_int E (Call ''sp_max'' [] [])) (\<lambda>sp_max.
         let days = sint (word_of_int (curr_time div (60 * 60 * 24)) :: u32) in
         if shadow_expired days sp_expire sp_lstchg sp_max then return (Some False)
         else bind (password_matches E p s) (\<lambda>ok.
           return (if ok then Some True else None))))))) ?Q I" for s
    unfolding Let_def
    by (intro triple_bind[OF field] triple_if triple_bind[OF password_granted[OF b]] triple_return)
      (auto simp: knowing_def)
  have opt: "triple (\<lambda>w. I w \<and> (case r of None \<Rightarrow> True | Some s \<Rightarrow> stored_for user s (trace w)))
      (case r of None \<Rightarrow> return None | Some sp_pwdp \<Rightarrow> f sp_pwdp) ?Q I"
    if "\<And>s. triple (knowing I (stored_for user s)) (f s) ?Q I" for r f
    using that[unfolded knowing_def] by (cases r) (auto intro!: triple_return)
  have ask: "triple I (sys_str E ?c) (\<lambda>r w. I w \<and> (case r of None \<Rightarrow> True | Some s \<Rightarrow> stored_for user s (trace w))) I"
    using b by (intro triple_sys_ops(2)) (auto simp: base_def allows_def stored_for_def ret_str_Some split: option.split)
  show ?thesis
    unfolding check_shadow_def by (rule triple_bind[OF ask]) (rule opt, rule found)
qed

lemma auth_granted:
  assumes b: "base I"
  shows "triple I (vsf_sysdep_check_auth E user p) (\<lambda>ok w. I w \<and> (ok \<longrightarrow> verified user (trace w))) I"
proof -
  let ?Q = "\<lambda>ok w. I w \<and> (ok \<longrightarrow> verified user (trace w))"
  let ?K = "\<lambda>u. knowing I (stored_for user (pw_passwd u))"
  have kb: "base (?K u)" for u by (intro knowing_base b stays_stored)
  have shell: "triple (?K u) (if tunable_check_shell E
               then bind (shell_listed E (pw_shell u) (fuel E)) (\<lambda>ok.
                      seq (sysu E (Call ''endusershell'' [] [])) (return ok))
               else return True) (\<lambda>_. ?K u) I" for u
    by (rule triple_known, intro keeps_if keeps_bind keeps_shell keeps_seq keeps_sys_ops keeps_return kb base_allows)
      (simp_all add: knowing_def)
  have shadow: "triple (?K u) (check_shadow E user p)
      (\<lambda>d w. ?K u w \<and> (d = Some True \<longrightarrow> verified user (trace w))) I" for u
    by (rule triple_weaken[OF shadow_granted[OF kb]]) (auto simp: knowing_def)
  have decide: "triple (\<lambda>w. ?K u w \<and> (d = Some True \<longrightarrow> verified user (trace w)))
      (case d of Some granted \<Rightarrow> return granted | None \<Rightarrow> password_matches E p (pw_passwd u)) ?Q I" for d u
  proof (cases d)
    case None
    then show ?thesis by simp (rule triple_weaken[OF password_granted[OF b]]; simp)
  next
    case (Some g)
    show ?thesis unfolding Some option.case by (rule triple_return) (auto simp: knowing_def)
  qed
  have user: "triple (\<lambda>w. I w \<and> (case ret_user r of None \<Rightarrow> True | Some u \<Rightarrow> stored_for user (pw_passwd u) (trace w)))
      (case ret_user r of None \<Rightarrow> return False | Some u \<Rightarrow> f u) ?Q I"
    if "\<And>u. triple (?K u) (f u) ?Q I" for r f
    using that[unfolded knowing_def] by (cases "ret_user r") (auto intro!: triple_return)
  have ask: "triple I (sys E (Getpwnam (c_text user)))
      (\<lambda>r w. I w \<and> (case ret_user r of None \<Rightarrow> True | Some u \<Rightarrow> stored_for user (pw_passwd u) (trace w))) I"
    using b by (intro triple_sys) (auto simp: base_def allows_def stored_for_def ret_user_Some split: option.split)
  have denied: "triple (?K u) (return False) ?Q I" for u
    by (rule triple_return) (simp add: knowing_def)
  show ?thesis
    unfolding vsf_sysdep_check_auth_def
    by (rule triple_bind[OF ask], rule user, rule triple_bind[OF shell], rule triple_if, rule denied,
        rule triple_bind[OF shadow], rule decide)
qed

section \<open>Processes before a session\<close>

text \<open>The names of the files that are read before a session begins.\<close>

definition config_file :: "env \<Rightarrow> string \<Rightarrow> bool" where
  "config_file E f \<longleftrightarrow> Some f \<in> map_option c_text ` {tunable_chroot_list_file E, tunable_userlist_file E}
     \<or> (\<exists>d u. tunable_user_config_dir E = Some d \<and> CHR ''/'' \<notin> set u \<and> f = c_text (c_text d @ ''/'' @ u))"

text \<open>The fields of a session that say who it talks to.\<close>

definition same_rights :: "vsf_session \<Rightarrow> vsf_session \<Rightarrow> bool" where
  "same_rights s t \<longleftrightarrow> p_local_addr s = p_local_addr t \<and> p_remote_addr s = p_remote_addr t
     \<and> pasv_listen_fd s = pasv_listen_fd t \<and> p_port_sockaddr s = p_port_sockaddr t
     \<and> anon_ftp_uid s = anon_ftp_uid t \<and> guest_user_uid s = guest_user_uid t
     \<and> anon_upload_chown_uid s = anon_upload_chown_uid t"

lemma keeps_sandboxes [safes]: "base I \<Longrightarrow> keeps I (sandboxed D f)" "base I \<Longrightarrow> keeps I (sandbox_postlogin D)"
proof -
  have l: "base I \<Longrightarrow> keeps I (seccomp_sandbox_lockdown D S)" for S
    unfolding seccomp_sandbox_lockdown_def by (intro safes keeps_restricted; simp)
  then show s: "base I \<Longrightarrow> keeps I (sandboxed D f)" for f
    unfolding sandboxed_def by (intro keeps_bind keeps_lift_res)
  show "base I \<Longrightarrow> keeps I (sandbox_postlogin D)"
    unfolding sandbox_postlogin_def by (intro safes keeps_get s; simp)
qed

text \<open>What is known after the check of a login: the name is that of the verified account.\<close>

definition login_post :: "(world \<Rightarrow> bool) \<Rightarrow> env \<Rightarrow> string \<Rightarrow> EVSFPrivopLoginResult \<Rightarrow> world \<Rightarrow> bool" where
  "login_post I D user res w \<longleftrightarrow> I w \<and> res \<noteq> kVSFLoginNull \<and> (res = kVSFLoginAnon \<longrightarrow> tunable_anonymous_enable D)
     \<and> (res = kVSFLoginReal \<longrightarrow> user_str (sess w) = user \<and> verified user (trace w))"

text \<open>The names of the files come from the configuration \<open>E\<close> in force at the start.\<close>

locale login_host =
  fixes E :: env and I :: "world \<Rightarrow> bool"
  assumes H_base: "base I" and H_chans: "chans I"
    and H_chdir: "allows I (Chdir d)" and H_open: "config_file E f \<Longrightarrow> allows I (Open_readonly f)"
    and H_fork: "allows I (Fork flags)"
    and H_sess: "I w \<Longrightarrow> same_rights (sess w) s \<Longrightarrow> I (w\<lparr>sess := s\<rparr>)"
    and H_child: "I w \<Longrightarrow> I (w\<lparr>psess := sess w, c2p := x, p2c := y\<rparr>)"
begin

lemma set_field: "(\<And>s. same_rights s (f s)) \<Longrightarrow> keeps I (upd f)"
  by (rule keeps_upd) (simp add: H_sess)

lemma fields:
  "keeps I (upd (\<lambda>s. s\<lparr>user_str := x s\<rparr>))" "keeps I (upd (\<lambda>s. s\<lparr>login_fails := n s\<rparr>))"
  "keeps I (upd (\<lambda>s. s\<lparr>control_use_ssl := b\<rparr>))" "keeps I (upd (\<lambda>s. s\<lparr>data_use_ssl := b\<rparr>))"
  "keeps I (upd (\<lambda>s. s\<lparr>control_use_ssl := b, data_use_ssl := c\<rparr>))"
  "keeps I (upd (\<lambda>s. s\<lparr>ssl_slave_active := b\<rparr>))" "keeps I (upd (\<lambda>s. s\<lparr>is_anonymous := b\<rparr>))"
  "keeps I (upd (\<lambda>s. s\<lparr>is_guest := b\<rparr>))"
  by (rule set_field, simp add: same_rights_def)+

lemma forked: "keeps I (as_child x)" "keeps I (as_privileged x)"
proof -
  show "keeps I (as_child x)" by (simp add: keeps_def triple_def as_child_def H_child)
  show "keeps I (as_privileged x)" using H_chans by (simp add: keeps_def triple_def as_privileged_def chans_def)
qed

lemma socket_pair:
  "keeps I (close_parent_fd D)" "keeps I (close_child_fd D)" "keeps I (priv_sock_init D)" "keeps I (priv_sock_close D)"
  "keeps I (priv_sock_set_parent_context D)" "keeps I (priv_sock_set_child_context D)"
proof -
  show c: "keeps I (close_parent_fd D)" "keeps I (close_child_fd D)" for D
    unfolding close_parent_fd_def close_child_fd_def by (intro safes keeps_get H_base; simp)+
  show "keeps I (priv_sock_init D)" "keeps I (priv_sock_close D)"
    "keeps I (priv_sock_set_parent_context D)" "keeps I (priv_sock_set_child_context D)"
    unfolding priv_sock_init_def priv_sock_close_def priv_sock_set_parent_context_def
      priv_sock_set_child_context_def
    by (intro keeps_get safes c H_base; simp)+
qed

lemma credentials: "keeps I (vsf_secutil_change_credentials D u d x caps options)"
proof -
  have go: "keeps I (enter_directory D p d x options)" for p d
    unfolding enter_directory_def go_to_directory_def vsf_sysutil_geteuid_def vsf_sysutil_getegid_def
      vsf_sysutil_seteuid_numeric_def vsf_sysutil_setegid_numeric_def vsf_sysutil_chroot_def
    by (intro safes H_base H_chdir; simp)
  show ?thesis
    unfolding vsf_secutil_change_credentials_def drop_ids_def after_setuid_def vsf_sysutil_setgid_numeric_def
      vsf_sysutil_setuid_numeric_def vsf_sysutil_initgroups_def vsf_sysutil_clear_supp_groups_def str_getpwnam_def
    by (intro safes go H_base; simp)
qed

lemma directories: "keeps I (calculate_chdir_dir D b u v)" "keeps I (str_chdir D x)"
  unfolding calculate_chdir_dir_def str_chdir_def str_getpwnam_def Let_def
  by (intro safes H_base H_chdir; simp)+

lemma files:
  "keeps I (cached_file E (tunable_chroot_list_file E) m)" "keeps I (cached_file E (tunable_userlist_file E) m)"
proof -
  have "keeps I (cached_file E f m)" if "\<And>x. f = Some x \<Longrightarrow> config_file E (c_text x)" for f
  proof -
    have "keeps I (str_fileread E x n)" if x: "f = Some x" for x n
      using that \<open>\<And>x. f = Some x \<Longrightarrow> config_file E (c_text x)\<close> by (intro keeps_read_named H_base H_open)
    then show ?thesis
      unfolding cached_file_def by (intro keeps_bind keeps_option keeps_prod keeps_if keeps_return keeps_die2 H_base)
  qed
  then show "keeps I (cached_file E (tunable_chroot_list_file E) m)" "keeps I (cached_file E (tunable_userlist_file E) m)"
    by (simp_all add: config_file_def image_iff)
qed

lemma per_user: "triple I (handle_per_user_config E u)
    (\<lambda>T w. I w \<and> (tunable_user_config_dir E = None \<longrightarrow> T = tun E)) I"
proof (cases "tunable_user_config_dir E")
  case None
  then show ?thesis by (simp add: handle_per_user_config_def triple_return)
next
  case (Some d)
  have "keeps I (vsf_parseconf_load_file E (Some (c_text d @ ''/'' @ u)) True)" if "CHR ''/'' \<notin> set u"
  proof -
    have "config_file E (c_text (c_text d @ ''/'' @ u))" using that Some by (auto simp: config_file_def)
    then show ?thesis by (intro keeps_load_file H_base H_open)
  qed
  then have "keeps I (handle_per_user_config E u)"
    unfolding handle_per_user_config_def Let_def Some option.case str_stat_def vsf_sysutil_get_error_def
    by (intro safes H_base; simp)
  then show ?thesis using Some unfolding keeps_def by (auto elim: triple_weaken)
qed

lemma chroot_decision: "triple I (chroot_wanted E)
    (\<lambda>b w. I w \<and> (tunable_chroot_local_user E \<and> \<not> tunable_chroot_list_enable E \<longrightarrow> b)) I"
proof (cases "tunable_chroot_list_enable E")
  case True
  have "keeps I (chroot_wanted E)"
    unfolding chroot_wanted_def by (intro keeps_if keeps_bind keeps_return keeps_get_any files)
  then show ?thesis using True unfolding keeps_def by (auto elim: triple_weaken)
qed (simp add: chroot_wanted_def triple_return)

text \<open>A login that is granted: the name is that of the verified account.\<close>

lemma username_set: "triple (knowing I (verified user)) (setup_username_globals D user)
    (\<lambda>_ w. I w \<and> user_str (sess w) = user \<and> verified user (trace w)) I"
proof -
  let ?U = "\<lambda>w. I w \<and> user_str (sess w) = user \<and> verified user (trace w)"
  have "allows ?U (Call f n a)" for f n a
    using base_allows[OF H_base] stays_verified[of user] by (simp add: allows_def stays_def)
  then have "keeps ?U (whenp b (sysu D (Call f n a)))" for b f n a
    by (intro keeps_whenp keeps_sys_ops)
  then have title: "triple ?U (whenp b (sysu D (Call f n a))) (\<lambda>_. ?U) I" for b f n a
    unfolding keeps_def by (rule triple_weaken) simp_all
  have name: "triple (knowing I (verified user)) (upd (\<lambda>t. t\<lparr>user_str := user\<rparr>)) (\<lambda>_. ?U) I"
    by (rule triple_upd) (simp add: knowing_def H_sess same_rights_def)
  show ?thesis
    unfolding setup_username_globals_def block.simps seq_def
    by (rule triple_get, rule triple_bind[OF name], rule triple_bind[OF title], rule triple_return)
qed

lemma local_granted: "triple I (handle_local_login D user p) (login_post I D user) I"
proof -
  have no: "triple (\<lambda>w. I w \<and> (ok \<longrightarrow> verified user (trace w))) (return kVSFLoginFail) (login_post I D user) I" for ok
    by (rule triple_return) (simp add: login_post_def)
  have yes: "triple (\<lambda>w. I w \<and> (ok \<longrightarrow> verified user (trace w)))
      (seq (setup_username_globals D user) (return kVSFLoginReal)) (login_post I D user) I" if "\<not> \<not> ok" for ok
  proof -
    have "triple (\<lambda>w. I w \<and> (ok \<longrightarrow> verified user (trace w))) (setup_username_globals D user)
        (\<lambda>_ w. I w \<and> user_str (sess w) = user \<and> verified user (trace w)) I"
      by (rule triple_weaken[OF username_set]) (use that in \<open>simp_all add: knowing_def\<close>)
    then show ?thesis
      unfolding seq_def by (rule triple_bind) (rule triple_return, simp add: login_post_def)
  qed
  show ?thesis
    unfolding handle_local_login_def by (rule triple_bind[OF auth_granted[OF H_base]], rule triple_if, rule no, rule yes)
qed

lemma anonymous_granted:
  assumes "tunable_anonymous_enable D"
  shows "triple I (handle_anonymous_login D p) (login_post I D user) I"
proof -
  have title: "keeps I (setup_username_globals D x)" for x
    unfolding setup_username_globals_def by (intro safes keeps_get fields H_base; simp)
  have b: "triple I (block [upd (\<lambda>t. t\<lparr>anon_pass_str := x\<rparr>), setup_username_globals D y,
      upd (\<lambda>t. t\<lparr>banned_email_str := z\<rparr>), upd (\<lambda>t. t\<lparr>email_passwords_str := z'\<rparr>)]) (\<lambda>_. I) I" for x y z z'
    unfolding keeps_def[symmetric] by (intro keeps_block_Cons keeps_block_Nil title keeps_upd_frame H_base) simp_all
  have r: "triple I (return res) (login_post I D user) I" if "res = kVSFLoginFail \<or> res = kVSFLoginAnon" for res
    by (rule triple_return) (use that assms in \<open>auto simp: login_post_def\<close>)
  show ?thesis
    unfolding handle_anonymous_login_def seq_def
    by (rule triple_get, intro triple_if triple_bind[OF b] r) simp_all
qed

lemma granted: "triple I (vsf_privop_do_login D p) (\<lambda>res w. login_post I D (user_str (sess w)) res w) I"
proof -
  have r: "triple I (return kVSFLoginFail) (login_post I D user) I" for user
    by (rule triple_return) (simp add: login_post_def)
  have d: "triple I (die D m) (login_post I D user) I" for m user
    using tripleD[OF keeps_die[OF H_base, of D m, unfolded keeps_def]]
    by (intro tripleI) (fastforce simp: bug_ends split: outcome.splits)
  have login: "triple I (handle_login D user p) (login_post I D user) I" for user
    unfolding handle_login_def by (intro triple_if r anonymous_granted local_granted d) simp_all
  have later: "allows (login_post I D user res) c" if "allows I c" for user res c
    using that stays_verified[of user] by (auto simp: allows_def login_post_def stays_def)
  have base: "base (login_post I D user res)" for user res
    unfolding base_def
  proof (intro conjI allI impI)
    show "allows (login_post I D user res) c" if "benign c" for c by (intro later base_allows H_base that)
    show "login_post I D user res (w\<lparr>sess := s'\<rparr>)" if "login_post I D user res w" "same_core (sess w) s'" for w s'
      using that H_base by (simp add: base_def login_post_def same_core_def)
  qed
  have logs: "triple (login_post I D user res) m (\<lambda>_. login_post I D user res) I"
    if "keeps (login_post I D user res) m" for user res m
    using that unfolding keeps_def by (rule triple_weaken) (simp_all add: login_post_def)
  have ends: "triple (login_post I D user res) (return res) (\<lambda>res w. login_post I D (user_str (sess w)) res w) I"
    for user res by (rule triple_return) (auto simp: login_post_def)
  show ?thesis
    unfolding vsf_privop_do_login_def seq_def
    by (rule triple_get, rule triple_bind[OF login], rule triple_bind[OF logs ends]) (intro safes base; simp)
qed

text \<open>The process that talks to a client who has not logged in.\<close>

lemma asks: "\<not> tunable_one_process_model E \<Longrightarrow> prelogin_session E I I"
proof
  assume two: "\<not> tunable_one_process_model E"
  have "keeps I (handle_pass_command E)"
    unfolding handle_pass_command_def vsf_two_process_login_def check_login_fails_def forget_user_def if_not_P[OF two]
    by (intro safes fields H_base H_chans; simp)
  then show "kept I I (handle_pass_command E)" by (rule kept_keeps)
  have "keeps I (check_login_fails E)"
    unfolding check_login_fails_def by (intro safes fields H_base; simp)
  then show "kept I I (check_login_fails E)" by (rule kept_keeps)
qed (simp_all add: H_base fields)

lemma unprivileged: "\<not> tunable_one_process_model E \<Longrightarrow> keeps I (unprivileged_child E answers)"
proof -
  assume two: "\<not> tunable_one_process_model E"
  have c: "keeps I (init_connection E)"
    using prelogin_session.connection[OF asks[OF two]] by (simp add: kept_def keeps_def)
  have d: "keeps I (drop_all_privs E)"
    unfolding drop_all_privs_def Let_def by (intro safes credentials H_base; simp)
  show ?thesis
    unfolding unprivileged_child_def
    by (intro keeps_block_Cons keeps_block_Nil forked keeps_processes socket_pair keeps_whenp keeps_bind files
        keeps_upd_frame d keeps_sandboxes c H_base) simp
qed

end

end
