(* ===== verification/Login_Policy.thy ===== *)
theory Login_Policy
  imports Login_Host Ftp_Policy
begin

text \<open>
  What the two processes of a connection may do from their start: nothing that the configuration
  restricts happens before a login, and a session acts with the identity and the rights its login gave
  it. The sessions themselves are those of Ftp_Policy and Postprivparent.
\<close>

section \<open>The policy of a connection\<close>

text \<open>
  \<open>E\<close> is the configuration at the start, \<open>D\<close> the one after the settings of the user. Someone has logged
  in when the password of an account was verified, or when anonymous logins are enabled at all.
\<close>

definition logged_in :: "env \<Rightarrow> event list \<Rightarrow> bool" where
  "logged_in E h \<longleftrightarrow> tunable_anonymous_enable E \<or> (\<exists>user. verified user h)"

definition acts_as :: "string \<Rightarrow> event list \<Rightarrow> bool" where
  "acts_as user h \<longleftrightarrow> (\<exists>u. (Getpwnam (c_text user), RUser (Some u)) \<in> set h
     \<and> succeeded (Call ''setuid'' [pw_uid u] []) h)"

definition jailed :: "event list \<Rightarrow> bool" where
  "jailed h \<longleftrightarrow> succeeded (Call ''chroot'' [] [''.'']) h"

definition entitled :: "env \<Rightarrow> env \<Rightarrow> bool \<Rightarrow> event list \<Rightarrow> bool" where
  "entitled E D a h \<longleftrightarrow>
     a \<and> tunable_anonymous_enable E \<and> acts_as (text_or_empty (tunable_ftp_username E)) h \<and> jailed h
   \<or> (\<exists>user. verified user h \<and> a = restricted_guest D False
       \<and> acts_as (if is_guest_login D False then text_or_empty (tunable_guest_username D) else user) h
       \<and> (a \<or> tunable_chroot_local_user E \<and> \<not> tunable_chroot_list_enable E \<longrightarrow> jailed h))"

definition user_settings :: "env \<Rightarrow> tunables \<Rightarrow> bool" where
  "user_settings E T \<longleftrightarrow> (tunable_user_config_dir E = None \<longrightarrow> T = tun E)"

text \<open>What happens with no login: harmless checks, a change of directory, files of the configuration.\<close>

definition before_login :: "env \<Rightarrow> event \<Rightarrow> bool" where
  "before_login E e \<longleftrightarrow> benign (fst e)
     \<or> (case fst e of Chdir d \<Rightarrow> True | Fork x \<Rightarrow> True | Open_readonly f \<Rightarrow> config_file E f | _ \<Rightarrow> False)"

definition login_policy :: "env \<Rightarrow> broker \<Rightarrow> event list \<Rightarrow> event \<Rightarrow> bool" where
  "login_policy E B h e \<longleftrightarrow> before_login E e
     \<or> (\<exists>T. user_settings E T
          \<and> ((\<exists>a. entitled E (with_tun E T) a h \<and> ftp_policy (with_tun E T) B a h e)
             \<or> logged_in E h \<and> broker_policy (with_tun E T) B h e))"

definition login_sess :: "broker \<Rightarrow> vsf_session \<Rightarrow> vsf_session \<Rightarrow> bool" where
  "login_sess B s t \<longleftrightarrow> broker_sess B s \<and> p_port_sockaddr s = None \<and> broker_sess B t"

abbreviation login_inv :: "event list \<Rightarrow> env \<Rightarrow> broker \<Rightarrow> world \<Rightarrow> bool" where
  "login_inv t0 E B \<equiv> policy_after t0 (login_policy E B) (login_sess B)"

text \<open>What remains true when a process ends.\<close>

abbreviation login_ended :: "event list \<Rightarrow> env \<Rightarrow> broker \<Rightarrow> world \<Rightarrow> bool" where
  "login_ended t0 E B \<equiv> policy_after t0 (login_policy E B) (\<lambda>_ _. True)"

lemma guarded_after_chain:
  assumes "guarded_after t1 P t" "guarded_after t0 Q t1" "\<And>b e. P (b @ t1) e \<Longrightarrow> Q (b @ t1) e"
  shows "guarded_after t0 Q t"
  using assms(1)
proof (induction t)
  case (Cons e h)
  then show ?case
  proof (cases "e # h = t1")
    case False
    then have "P h e" and g: "guarded_after t1 P h" using Cons.prems by simp_all
    moreover obtain b where "h = b @ t1" using guarded_after_grows[OF g] by blast
    ultimately show ?thesis using assms(3)[of b e] Cons.IH[OF g] by simp
  qed (use assms(2) in simp)
qed (use assms(2) in simp)

lemma login_ended_base: "base (login_ended t0 E B)"
  by (rule policy_after_base) (simp_all add: login_policy_def before_login_def)

lemma same_rights_broker: "broker_sess B s \<Longrightarrow> same_rights s t \<Longrightarrow> broker_sess B t"
  by (simp add: broker_sess_def same_rights_def)

lemma policy_host:
  assumes "stays K" and before: "\<And>h e. before_login E e \<Longrightarrow> P h e"
  shows "login_host E (knowing (policy_after t0 P (login_sess B)) K)"
proof
  let ?I = "policy_after t0 P (login_sess B)"
  have b: "base ?I"
    by (rule policy_after_base)
      (auto simp: before before_login_def login_sess_def broker_sess_core same_core_def broker_sess_def)
  then show "base (knowing ?I K)" using assms(1) by (rule knowing_base)
  show "chans (knowing ?I K)" by (intro knowing_chans policy_after_chans)
  show "allows (knowing ?I K) (Chdir d)" for d
    by (intro knowing_allows policy_after_allows assms(1) before) (simp add: before_login_def)
  show "allows (knowing ?I K) (Fork x)" for x
    by (intro knowing_allows policy_after_allows assms(1) before) (simp add: before_login_def)
  show "allows (knowing ?I K) (Open_readonly f)" if "config_file E f" for f
    by (intro knowing_allows policy_after_allows assms(1) before) (simp add: before_login_def that)
  show "knowing ?I K (w\<lparr>sess := s\<rparr>)" if "knowing ?I K w" "same_rights (sess w) s" for w s
    using that same_rights_broker[of B "sess w" s] by (auto simp: knowing_def policy_after_def login_sess_def same_rights_def)
  show "knowing ?I K (w\<lparr>psess := sess w, c2p := x, p2c := y\<rparr>)" if "knowing ?I K w" for w x y
    using that by (simp add: knowing_def policy_after_def login_sess_def)
qed

lemma login_host_knowing: "stays K \<Longrightarrow> login_host E (knowing (login_inv t0 E B) K)"
  by (rule policy_host) (simp_all add: login_policy_def)

lemma knowing_nothing: "knowing I (\<lambda>_. True) = I"
  by (simp add: knowing_def fun_eq_iff)

interpretation start: login_host E "login_inv t0 E B" for t0 E B
  using login_host_knowing[of "\<lambda>_. True" E t0 B] by (simp add: knowing_nothing stays_def)

lemma knowing_ended: "knowing (login_inv t0 E B) K w \<Longrightarrow> login_ended t0 E B w"
  by (simp add: knowing_def policy_after_def)

text \<open>An ending: nothing comes back.\<close>

lemma ends_bug: "triple (login_ended t0 E B) (bug D m) (\<lambda>_ _. False) (login_ended t0 E B)"
  using tripleD[OF keeps_bug[OF login_ended_base, of t0 E B D m, unfolded keeps_def]]
  by (intro tripleI) (fastforce simp: bug_ends split: outcome.splits)

section \<open>The process of the session\<close>

lemma option_chroot: "option_on (secutil_options D do_chroot a was_anon) VSF_SECUTIL_OPTION_CHROOT = do_chroot"
  by (auto simp: option_on_def secutil_options_def)

lemma dropped_setuid: "dropped u t b \<Longrightarrow> succeeded (Call ''setuid'' [pw_uid u] []) t \<and> set b \<subseteq> set t"
  by (auto simp: dropped_def succeeded_def)

lemma credentials_identity:
  assumes "stays K"
  shows "triple (knowing (login_inv t0 E B) K)
    (vsf_secutil_change_credentials D user d x 0 (secutil_options D do_chroot a was_anon))
    (\<lambda>_. knowing (login_inv t0 E B) (\<lambda>h. K h \<and> acts_as user h \<and> (do_chroot \<longrightarrow> jailed h))) (login_ended t0 E B)"
proof (rule triple_at)
  fix w0 assume w0: "knowing (login_inv t0 E B) K w0"
  let ?o = "secutil_options D do_chroot a was_anon"
  have k: "keeps (knowing (login_inv t0 E B) K) (vsf_secutil_change_credentials D user d x 0 ?o)"
    by (rule login_host.credentials[OF login_host_knowing[OF assms]])
  have i: "acts_as user t \<and> (do_chroot \<longrightarrow> jailed t)"
    if "dropped u t (b @ t0)" "(Getpwnam (c_text user), RUser (Some u)) \<in> set b"
      "do_chroot \<longrightarrow> succeeded (Call ''chroot'' [] [''.'']) b" for u t b t0
    using that dropped_setuid[OF that(1)] by (auto simp: acts_as_def jailed_def succeeded_def)
  show "triple (\<lambda>w. w = w0) (vsf_secutil_change_credentials D user d x 0 ?o)
      (\<lambda>_. knowing (login_inv t0 E B) (\<lambda>h. K h \<and> acts_as user h \<and> (do_chroot \<longrightarrow> jailed h))) (login_ended t0 E B)"
    by (rule triple_weaken[OF triple_conj[OF k[unfolded keeps_def] change_credentials_drops[of "trace w0" D user d x ?o]]])
      (use w0 i in \<open>auto simp: extends_def knowing_def policy_after_def option_chroot intro: exI[of _ "[]"]\<close>)
qed

lemma stays_acts: "stays (acts_as user)" "stays jailed"
  by (auto simp: stays_def acts_as_def jailed_def succeeded_def)

lemma stays_entitled: "stays (entitled E D a)"
  unfolding entitled_def by (intro stays_rules stays_verified stays_acts)

lemma session_allowed:
  "user_settings E T \<Longrightarrow> entitled E (with_tun E T) a h \<Longrightarrow> ftp_policy (with_tun E T) B a (b @ h) e \<Longrightarrow>
     login_policy E B (b @ h) e"
proof -
  assume t: "user_settings E T" and h: "entitled E (with_tun E T) a h" and e: "ftp_policy (with_tun E T) B a (b @ h) e"
  have "entitled E (with_tun E T) a (b @ h)"
    by (rule stays_append[OF stays_entitled h])
  then show ?thesis
    unfolding login_policy_def by (intro disjI2 exI[of _ T] conjI t disjI1 exI[of _ a] e)
qed

text \<open>The end of a session is the end of its process.\<close>

lemma command_loop_stays: "command_loop E n w \<noteq> Done x w'"
  by (induction n arbitrary: w) (auto simp: halt_def seq_Done)

lemma process_post_login_stays: "process_post_login E w \<noteq> Done x w'"
  by (auto simp: process_post_login_def handle_http_def bind_Done seq_Done bug_ends command_loop_stays
      vsf_sysutil_exit_def halt_def split: if_splits)

lemma session_under:
  assumes g: "guarded_after t0 P (trace w0)" and s: "ftp_sess B a (sess w0) (psess w0)" "target_ok D B (sess w0)"
    and P: "\<And>b e. ftp_policy D B a (b @ trace w0) e \<Longrightarrow> P (b @ trace w0) e"
  shows "triple (\<lambda>w. w = w0) (process_post_login D) (\<lambda>_ _. False) (policy_after t0 P (\<lambda>_ _. True))"
proof -
  have j: "policy_after t0 P (\<lambda>_ _. True) w" if "ftp_from_halted (trace w0) D B a w" for w
  proof -
    have "guarded_after t0 P (trace w)"
    proof (rule guarded_after_chain)
      show "guarded_after (trace w0) (ftp_policy D B a) (trace w)" using that by (simp add: policy_after_def)
      show "guarded_after t0 P (trace w0)" by (rule g)
      show "P (b @ trace w0) e" if "ftp_policy D B a (b @ trace w0) e" for b e using that by (rule P)
    qed
    then show ?thesis by (simp add: policy_after_def)
  qed
  have f: "ftp_from (trace w0) D B a w0" using s by (simp add: policy_after_def)
  have "ftp_from_halted (trace w0) D B a w" if "process_post_login D w0 = Halt r w" for r w
    using tripleD[OF ftp_policy_kept_from[of "trace w0" D B a] f] that by simp
  then show ?thesis
    using process_post_login_stays[of D w0]
    by (intro tripleI) (auto split: outcome.splits intro: j)
qed

lemma session_run:
  assumes t: "user_settings E T"
  shows "triple (\<lambda>w. knowing (login_inv t0 E B) (entitled E (with_tun E T) a) w \<and> is_anonymous (sess w) = a)
    (process_post_login (with_tun E T)) (\<lambda>_ _. False) (login_ended t0 E B)"
proof (rule triple_at)
  fix w0 assume w0: "knowing (login_inv t0 E B) (entitled E (with_tun E T) a) w0 \<and> is_anonymous (sess w0) = a"
  show "triple (\<lambda>w. w = w0) (process_post_login (with_tun E T)) (\<lambda>_ _. False) (login_ended t0 E B)"
  proof (rule session_under)
    show "guarded_after t0 (login_policy E B) (trace w0)" "ftp_sess B a (sess w0) (psess w0)" "target_ok (with_tun E T) B (sess w0)"
      using w0 by (simp_all add: knowing_def policy_after_def login_sess_def ftp_sess_def target_ok_def)
    show "login_policy E B (b @ trace w0) e" if "ftp_policy (with_tun E T) B a (b @ trace w0) e" for b e
      using w0 that by (intro session_allowed[OF t]) (simp_all add: knowing_def)
  qed
qed

text \<open>What the parent knows of a login when it makes the process of the session.\<close>

definition login_known :: "env \<Rightarrow> string \<Rightarrow> bool \<Rightarrow> bool \<Rightarrow> event list \<Rightarrow> bool" where
  "login_known E user do_chroot was_anon h \<longleftrightarrow>
     (if was_anon then tunable_anonymous_enable E \<and> do_chroot \<and> user = text_or_empty (tunable_ftp_username E)
      else verified user h \<and> (tunable_chroot_local_user E \<and> \<not> tunable_chroot_list_enable E \<longrightarrow> do_chroot))"

lemma stays_login: "stays (login_known E user do_chroot was_anon)"
  unfolding login_known_def by (cases was_anon) (simp_all, intro stays_rules, intro stays_rules stays_verified)

lemma login_entitles:
  assumes "login_known E user c was_anon h"
    and "acts_as (if is_guest_login D was_anon then text_or_empty (tunable_guest_username D) else user) h"
    and "c \<or> restricted_guest D was_anon \<longrightarrow> jailed h"
  shows "entitled E D (was_anon \<or> restricted_guest D was_anon) h"
  using assms by (cases was_anon) (auto simp: login_known_def entitled_def is_guest_login_def restricted_guest_def)

lemma triple_block: "triple P m (\<lambda>_. Q) R \<Longrightarrow> triple Q (block ms) S R \<Longrightarrow> triple P (block (m # ms)) S R"
  by (simp add: triple_seq)

lemma session_child:
  assumes t: "user_settings E T"
  shows "triple (knowing (login_inv t0 E B) (login_known E user c was_anon))
    (login_child (with_tun E T) user c was_anon) (\<lambda>_ _. False) (login_ended t0 E B)"
proof -
  let ?D = "with_tun E T" and ?L = "login_inv t0 E B" and ?K = "login_known E user c was_anon"
  let ?a = "was_anon \<or> restricted_guest ?D was_anon" and ?c = "c \<or> restricted_guest ?D was_anon"
  let ?u = "if is_guest_login ?D was_anon then text_or_empty (tunable_guest_username ?D) else user"
  let ?K2 = "\<lambda>h. ?K h \<and> acts_as ?u h \<and> (?c \<longrightarrow> jailed h)"
  have host: "login_host E (knowing ?L ?K)" by (rule login_host_knowing[OF stays_login])
  have base: "base (knowing ?L ?K)" by (rule login_host.H_base[OF host])
  have first: "triple (knowing ?L ?K) m (\<lambda>_. knowing ?L ?K) (login_ended t0 E B)" if "keeps (knowing ?L ?K) m" for m :: "'x proc"
    using that by (rule triple_known) (rule knowing_ended)
  have k2: "stays ?K2"
    by (intro stays_rules stays_login stays_acts)
  have base2: "base (knowing ?L ?K2)" by (rule login_host.H_base[OF login_host_knowing[OF k2]])
  have second: "triple (knowing ?L ?K2) m (\<lambda>_. knowing ?L ?K2) (login_ended t0 E B)" if "keeps (knowing ?L ?K2) m" for m :: "'x proc"
    using that by (rule triple_known) (rule knowing_ended)
  have ent: "?K2 h \<Longrightarrow> entitled E ?D ?a h" for h
    using login_entitles[of E user c was_anon h ?D] by blast
  let ?J = "\<lambda>w. knowing ?L (entitled E ?D ?a) w \<and> is_anonymous (sess w) = ?a"
  have turn: "triple (knowing ?L ?K2) (upd (\<lambda>s. s\<lparr>is_anonymous := ?a\<rparr>)) (\<lambda>_. ?J) (login_ended t0 E B)"
  proof (rule triple_upd)
    fix w assume w: "knowing ?L ?K2 w"
    then have "entitled E ?D ?a (trace w)" by (intro ent) (simp add: knowing_def)
    then show "?J (w\<lparr>sess := sess w\<lparr>is_anonymous := ?a\<rparr>\<rparr>)"
      using w by (simp add: knowing_def policy_after_def login_sess_def broker_sess_def)
  qed
  have base3: "base ?J"
    using login_host.H_base[OF login_host_knowing[OF stays_entitled[of E ?D ?a], of E t0 B]]
    by (auto simp: base_def allows_def same_core_def)
  have third: "triple ?J (sandbox_postlogin ?D) (\<lambda>_. ?J) (login_ended t0 E B)"
    using keeps_sandboxes(2)[OF base3, of ?D] unfolding keeps_def by (rule triple_weaken) (simp_all add: knowing_def policy_after_def)
  have blk: "triple (knowing ?L ?K) (block [
       vsf_secutil_change_credentials ?D ?u d (Some r) 0 (secutil_options ?D ?c ?a was_anon),
       whenp (x \<noteq> []) (bind (str_chdir ?D x) (\<lambda>_. return ())),
       upd (\<lambda>s. s\<lparr>is_anonymous := ?a\<rparr>),
       sandbox_postlogin ?D,
       process_post_login ?D,
       bug ?D m]) (\<lambda>_ _. False) (login_ended t0 E B)" for d r x m
    by (rule triple_block[OF credentials_identity[OF stays_login]], rule triple_block[OF second], intro keeps_whenp keeps_bind
        keeps_return login_host.directories[OF login_host_knowing[OF k2]], rule triple_block[OF turn],
        rule triple_block[OF third], unfold block.simps, rule triple_never[OF session_run[OF t]])
  have pre: "keeps (knowing ?L ?K) (block [vsf_set_die_if_parent_dies ?D, priv_sock_set_child_context ?D,
       whenp (is_guest_login ?D was_anon) (upd (\<lambda>s. s\<lparr>is_guest := True\<rparr>))])"
    by (intro keeps_block_Cons keeps_block_Nil keeps_processes keeps_whenp base
        login_host.socket_pair[OF host] login_host.fields[OF host])
  have prod: "triple (knowing ?L ?K) (case q of (d, r, x) \<Rightarrow> f d r x) (\<lambda>_ _. False) (login_ended t0 E B)"
    if "\<And>d r x. triple (knowing ?L ?K) (f d r x) (\<lambda>_ _. False) (login_ended t0 E B)"
    for q :: "string \<times> string \<times> string" and f :: "string \<Rightarrow> string \<Rightarrow> string \<Rightarrow> unit proc"
    using that by (cases q) simp
  show ?thesis
    unfolding login_child_def Let_def
    by (rule triple_seq[OF first[OF pre]], rule triple_bind[OF first[OF login_host.directories(1)[OF host]]],
        rule prod, rule blk)
qed

section \<open>The privileged parent\<close>

lemma stays_logged: "stays (logged_in E)"
  unfolding logged_in_def by (intro stays_rules stays_verified)

lemma broker_run:
  assumes t: "user_settings E T"
  shows "triple (knowing (login_inv t0 E B) (logged_in E)) (priv_parent_requests (with_tun E T) n)
    (\<lambda>_. login_ended t0 E B) (login_ended t0 E B)"
proof (rule triple_at)
  let ?D = "with_tun E T"
  fix w0 assume w0: "knowing (login_inv t0 E B) (logged_in E) w0"
  have f: "broker_from (trace w0) ?D B w0"
    using w0 by (simp add: knowing_def policy_after_def policy_after_def login_sess_def)
  have j: "login_ended t0 E B w" if "broker_from (trace w0) ?D B w" for w
  proof -
    have "guarded_after t0 (login_policy E B) (trace w)"
    proof (rule guarded_after_chain)
      show "guarded_after (trace w0) (broker_policy ?D B) (trace w)" using that by (simp add: policy_after_def)
      show "guarded_after t0 (login_policy E B) (trace w0)" using w0 by (simp add: knowing_def policy_after_def)
      show "login_policy E B (b @ trace w0) e" if e: "broker_policy ?D B (b @ trace w0) e" for b e
      proof -
        have "logged_in E (b @ trace w0)" using w0 by (intro stays_append[OF stays_logged]) (simp add: knowing_def)
        then show ?thesis
          unfolding login_policy_def by (intro disjI2 exI[of _ T] conjI t) (use e in simp_all)
      qed
    qed
    then show ?thesis by (simp add: policy_after_def)
  qed
  show "triple (\<lambda>w. w = w0) (priv_parent_requests ?D n) (\<lambda>_. login_ended t0 E B) (login_ended t0 E B)"
  proof (rule triple_weaken[OF broker_loop_from[of "trace w0" ?D B n, unfolded keeps_def]])
    show "broker_from (trace w0) ?D B w" if "w = w0" for w using f that by (simp only:)
    show "login_ended t0 E B w" if "broker_from (trace w0) ?D B w" for w using that by (rule j)
    show "login_ended t0 E B w" if "broker_from (trace w0) ?D B w" for w using that by (rule j)
  qed
qed

lemma parent_run:
  assumes t: "user_settings E T"
  shows "triple (knowing (login_inv t0 E B) (logged_in E)) (vsf_priv_parent_postlogin (with_tun E T))
    (\<lambda>_ _. False) (login_ended t0 E B)"
proof -
  let ?D = "with_tun E T" and ?I = "knowing (login_inv t0 E B) (logged_in E)"
  have host: "login_host E ?I" by (rule login_host_knowing[OF stays_logged])
  have "keeps ?I (minimize_privilege ?D)"
    unfolding minimize_privilege_def
    by (intro keeps_get keeps_if keeps_return keeps_block_Cons keeps_block_Nil keeps_sandboxes
        login_host.credentials[OF host] login_host.H_base[OF host])
  then have m: "triple ?I (minimize_privilege ?D) (\<lambda>_. ?I) (login_ended t0 E B)"
    by (rule triple_known) (rule knowing_ended)
  have h: "triple (login_ended t0 E B) (block [halt Unfinished]) (\<lambda>_ _. False) (login_ended t0 E B)"
    unfolding block.simps by (intro triple_never triple_halt)
  show ?thesis
    unfolding vsf_priv_parent_postlogin_def by (intro triple_block[OF m] triple_block[OF broker_run[OF t]] h)
qed

lemma known_logged: "login_known E user c was_anon h \<Longrightarrow> logged_in E h"
  by (auto simp: login_known_def logged_in_def split: if_splits)

lemma login_run:
  "triple (knowing (login_inv t0 E B) (login_known E user c was_anon))
    (common_do_login E requests user c was_anon) (\<lambda>_ _. False) (login_ended t0 E B)"
proof -
  let ?I = "knowing (login_inv t0 E B) (login_known E user c was_anon)"
  have host: "login_host E ?I" by (rule login_host_knowing[OF stays_login])
  note b = login_host.H_base[OF host] and ch = login_host.H_chans[OF host]
  have keep: "triple ?I m (\<lambda>_. ?I) (login_ended t0 E B)" if "keeps ?I m" for m :: "'x proc"
    using that by (rule triple_known) (rule knowing_ended)
  have first: "keeps ?I (block [
     vsf_sysutil_install_null_sighandler E ''SIGCHLD'',
     priv_sock_send_result Parent_end PRIV_SOCK_RESULT_OK,
     bind get (\<lambda>p_sess.
       if \<not> control_use_ssl p_sess then bind (vsf_sysutil_wait E) (\<lambda>_. return ())
       else upd (\<lambda>s. s\<lparr>ssl_slave_active := True\<rparr>))])"
    by (intro keeps_block_Cons keeps_block_Nil keeps_processes keeps_priv_sock keeps_get keeps_if keeps_bind
        keeps_return login_host.fields[OF host] b ch)
  have conf: "triple ?I (handle_per_user_config E user) (\<lambda>T w. ?I w \<and> user_settings E T) (login_ended t0 E B)"
    by (rule triple_weaken[OF login_host.per_user[OF host]]) (simp_all add: user_settings_def, simp_all add: knowing_def policy_after_def)
  have second: "keeps ?I (block [
      upd (\<lambda>s. s\<lparr>is_anonymous := was_anon\<rparr>), priv_sock_close D, priv_sock_init D,
      vsf_sysutil_install_sighandler D ''SIGCHLD'' ''handle_sigchld'' True])" for D
    by (intro keeps_block_Cons keeps_block_Nil keeps_processes login_host.fields[OF host]
        login_host.socket_pair[OF host] b)
  have fork: "keeps ?I (if x then vsf_sysutil_fork_newnet D else vsf_sysutil_fork D)" for x D
    by (intro keeps_if keeps_forks b login_host.H_fork[OF host])
  have child: "triple ?I (seq (as_child []) (login_child (with_tun E T) user c was_anon)) (\<lambda>_ _. False) (login_ended t0 E B)"
    if "user_settings E T" for T
    by (rule triple_seq[OF keep[OF login_host.forked(1)[OF host]] session_child[OF that]])
  have parent: "triple ?I (block [as_privileged requests, priv_sock_set_parent_context (with_tun E T),
        vsf_priv_parent_postlogin (with_tun E T), bug (with_tun E T) m]) (\<lambda>_ _. False) (login_ended t0 E B)"
    if "user_settings E T" for T m
  proof -
    have "triple ?I (vsf_priv_parent_postlogin (with_tun E T)) (\<lambda>_ _. False) (login_ended t0 E B)"
    proof (rule triple_weaken[OF parent_run[OF that]])
      show "knowing (login_inv t0 E B) (logged_in E) w" if "?I w" for w
        using that known_logged[of E user c was_anon "trace w"] by (simp add: knowing_def)
      show "login_ended t0 E B w" if "login_ended t0 E B w" for w using that by simp
    qed
    then show ?thesis
      by (intro triple_block[OF keep[OF login_host.forked(2)[OF host]]]
          triple_block[OF keep[OF login_host.socket_pair(5)[OF host]]]) (simp add: triple_never)
  qed
  have given: "triple (\<lambda>w. ?I w \<and> user_settings E T) m (\<lambda>_ _. False) (login_ended t0 E B)"
    if "user_settings E T \<Longrightarrow> triple ?I m (\<lambda>_ _. False) (login_ended t0 E B)" for m :: "unit proc" and T
    using that by (cases "user_settings E T") (simp_all add: triple_def)
  show ?thesis
    unfolding common_do_login_def Let_def
    by (rule triple_seq[OF keep[OF first]], rule triple_bind[OF conf], rule given, rule triple_seq[OF keep[OF second]],
        rule triple_bind[OF keep[OF fork]], rule triple_if) (erule child, erule parent)
qed

section \<open>Requests for a login\<close>

lemma cached_user: "keeps (\<lambda>w. user_str (sess w) = u) (chroot_wanted E)"
proof -
  have b: "base (\<lambda>w. user_str (sess w) = u)" by (simp add: base_def allows_def same_core_def)
  have "keeps (\<lambda>w. user_str (sess w) = u) (cached_file E f m)" for f m
    unfolding cached_file_def
    by (intro keeps_bind keeps_option keeps_return keeps_str_fileread keeps_prod keeps_if keeps_die2 b)
      (simp add: allows_def)
  then show ?thesis
    unfolding chroot_wanted_def by (intro keeps_if keeps_bind keeps_return keeps_get_any)
qed

lemma chroot_known:
  "triple (\<lambda>w. login_inv t0 E B w \<and> user_str (sess w) = u \<and> verified u (trace w)) (chroot_wanted E)
     (\<lambda>c w. knowing (login_inv t0 E B) (login_known E u c False) w \<and> user_str (sess w) = u) (login_ended t0 E B)"
  (is "triple ?P _ ?Q _")
proof -
  have host: "login_host E (knowing (login_inv t0 E B) (verified u))"
    by (rule login_host_knowing[OF stays_verified])
  show ?thesis
  proof (rule triple_weaken[OF triple_conj[OF login_host.chroot_decision[OF host] cached_user[of u E, unfolded keeps_def]]])
    show "knowing (login_inv t0 E B) (verified u) w \<and> user_str (sess w) = u" if "?P w" for w
      using that by (simp add: knowing_def)
    show "?Q c w" if "(knowing (login_inv t0 E B) (verified u) w
        \<and> (tunable_chroot_local_user E \<and> \<not> tunable_chroot_list_enable E \<longrightarrow> c)) \<and> user_str (sess w) = u" for c w
      using that by (simp add: knowing_def login_known_def)
    show "login_ended t0 E B w" if "knowing (login_inv t0 E B) (verified u) w \<and> user_str (sess w) = u" for w
      using that by (simp add: knowing_def policy_after_def)
  qed
qed

lemma request_run:
  "triple (login_inv t0 E B) (process_login_req E requests) (\<lambda>_. login_inv t0 E B) (login_ended t0 E B)"
proof -
  let ?I = "login_inv t0 E B" and ?R = "login_ended t0 E B"
  have keep: "triple ?I m (\<lambda>_. ?I) ?R" if "keeps ?I m" for m :: "'x proc"
    using that unfolding keeps_def by (rule triple_weaken) (simp_all add: policy_after_def)
  have never: "triple P m (\<lambda>_. ?I) ?R" if "triple P m (\<lambda>_ _. False) ?R" for P and m :: "unit proc"
    using that by (rule triple_weaken) simp_all
  have recv: "keeps ?I (receive_login E)"
    unfolding receive_login_def by (intro safes start.fields start.H_base start.H_chans; simp)
  have grant: "triple ?I (vsf_privop_do_login E p)
      (\<lambda>res w. login_post ?I E (user_str (sess w)) res w) ?R" for p
    by (rule triple_weaken[OF start.granted[where E = E and B = B and ?t0.0 = t0]]) (simp_all add: policy_after_def)
  have anon: "triple (\<lambda>w. login_post ?I E (user_str (sess w)) kVSFLoginAnon w)
      (seq (upd (\<lambda>s. s\<lparr>user_str := n\<rparr>)) (common_do_login E requests n True True)) (\<lambda>_. ?I) ?R"
    if n: "n = text_or_empty (tunable_ftp_username E)" for n
  proof (rule triple_seq)
    show "triple (\<lambda>w. login_post ?I E (user_str (sess w)) kVSFLoginAnon w) (upd (\<lambda>s. s\<lparr>user_str := n\<rparr>))
        (\<lambda>_. knowing ?I (login_known E n True True)) ?R"
      by (rule triple_upd)
        (simp add: login_post_def knowing_def login_known_def policy_after_def login_sess_def broker_sess_def n)
    show "triple (knowing ?I (login_known E n True True)) (common_do_login E requests n True True) (\<lambda>_. ?I) ?R"
      by (rule never[OF login_run])
  qed
  have real: "triple (\<lambda>w. login_post ?I E (user_str (sess w)) kVSFLoginReal w) (bind (chroot_wanted E)
      (\<lambda>do_chroot. bind get (\<lambda>p_sess. common_do_login E requests (user_str p_sess) do_chroot False))) (\<lambda>_. ?I) ?R"
  proof (rule triple_at)
    fix w0 assume w0: "login_post ?I E (user_str (sess w0)) kVSFLoginReal w0"
    let ?u = "user_str (sess w0)"
    have run: "triple (\<lambda>w. knowing ?I (login_known E ?u c False) w \<and> user_str (sess w) = ?u)
        (bind get (\<lambda>p_sess. common_do_login E requests (user_str p_sess) c False)) (\<lambda>_. ?I) ?R" for c
    proof (rule triple_get_at)
      fix s
      show "triple (\<lambda>w. (knowing ?I (login_known E ?u c False) w \<and> user_str (sess w) = ?u) \<and> sess w = s)
          (common_do_login E requests (user_str s) c False) (\<lambda>_. ?I) ?R"
      proof (cases "user_str s = ?u")
        case True
        show ?thesis unfolding True
          by (rule triple_weaken[OF login_run]) simp_all
      qed (auto simp: triple_def)
    qed
    have first: "triple (\<lambda>w. w = w0) (chroot_wanted E)
        (\<lambda>c w. knowing ?I (login_known E ?u c False) w \<and> user_str (sess w) = ?u) ?R"
      by (rule triple_weaken[OF chroot_known]) (use w0 in \<open>simp_all add: login_post_def\<close>)
    show "triple (\<lambda>w. w = w0) (bind (chroot_wanted E)
      (\<lambda>do_chroot. bind get (\<lambda>p_sess. common_do_login E requests (user_str p_sess) do_chroot False))) (\<lambda>_. ?I) ?R"
      by (rule triple_bind[OF first run])
  qed
  have decide: "triple (\<lambda>w. login_post ?I E (user_str (sess w)) res w) (case res of
         kVSFLoginFail \<Rightarrow> priv_sock_send_result Parent_end PRIV_SOCK_RESULT_BAD
       | kVSFLoginAnon \<Rightarrow> seq (upd (\<lambda>s. s\<lparr>user_str := text_or_empty (tunable_ftp_username E)\<rparr>))
           (common_do_login E requests (text_or_empty (tunable_ftp_username E)) True True)
       | kVSFLoginReal \<Rightarrow> bind (chroot_wanted E) (\<lambda>do_chroot. bind get (\<lambda>p_sess.
           common_do_login E requests (user_str p_sess) do_chroot False))
       | kVSFLoginNull \<Rightarrow> bug E m) (\<lambda>_. ?I) ?R" for res m
  proof (cases res)
    case kVSFLoginFail
    have "triple ?I (priv_sock_send_result Parent_end PRIV_SOCK_RESULT_BAD) (\<lambda>_. ?I) ?R"
      by (intro keep keeps_priv_sock start.H_base start.H_chans)
    then show ?thesis using kVSFLoginFail by (simp add: login_post_def)
  next
    case kVSFLoginNull
    then show ?thesis by (simp add: login_post_def triple_def)
  next
    case kVSFLoginAnon
    then show ?thesis using anon by simp
  next
    case kVSFLoginReal
    then show ?thesis using real by simp
  qed
  show ?thesis
    unfolding process_login_req_def
    by (rule triple_bind[OF keep], intro keeps_priv_sock start.H_base start.H_chans, rule triple_if,
        rule keep, rule keeps_die[OF start.H_base], rule triple_bind[OF keep[OF recv]],
        rule triple_bind[OF grant], rule decide)
qed

lemma requests_run:
  "triple (login_inv t0 E B) (login_requests E requests n) (\<lambda>_ _. False) (login_ended t0 E B)"
proof (induction n)
  case 0
  then show ?case by (simp add: triple_def halt_def policy_after_def)
next
  case (Suc n)
  show ?case unfolding login_requests.simps by (rule triple_seq[OF request_run Suc])
qed

section \<open>The two processes of a connection\<close>

lemma init_connection_stays: "init_connection E w \<noteq> Done x w'"
proof -
  have "parse_username_password E n w \<noteq> Done x w'" for n w x w'
    by (induction n arbitrary: w) (auto simp: halt_def seq_Done)
  then show ?thesis by (auto simp: init_connection_def seq_Done)
qed

lemma connection_run:
  assumes two: "\<not> tunable_one_process_model E"
  shows "triple (login_inv t0 E B) (vsf_two_process_start E guesses answers requests) (\<lambda>_. login_ended t0 E B) (login_ended t0 E B)"
proof -
  let ?I = "login_inv t0 E B" and ?R = "login_ended t0 E B"
  have weak: "triple ?I m (\<lambda>_. Q) ?R \<Longrightarrow> (\<And>w. Q w \<Longrightarrow> ?R w) \<Longrightarrow> triple ?I m (\<lambda>_. ?R) ?R" for m :: "unit proc" and Q
    by (erule triple_weaken)
  have keep: "triple ?I m (\<lambda>_. ?I) ?R" if "keeps ?I m" for m :: "'x proc"
    using that unfolding keeps_def by (rule triple_weaken) (simp_all add: policy_after_def)
  have before: "keeps ?I (block [vsf_sysutil_install_sighandler E a b c, vsf_set_term_if_parent_dies E,
      priv_sock_init E, vsf_sysutil_install_sighandler E d e f])" for a b c d e f
    by (intro keeps_block_Cons keeps_block_Nil keeps_processes start.socket_pair start.H_base)
  have fork: "keeps ?I (if b then vsf_sysutil_fork_newnet E else vsf_sysutil_fork E)" for b
    by (intro keeps_if keeps_forks start.H_base start.H_fork)
  have parent: "triple ?I (block [as_privileged guesses, priv_sock_set_parent_context E, login_requests E requests n])
      (\<lambda>_. ?R) ?R" for n
    by (rule weak, rule triple_block[OF keep[OF start.forked(2)]],
        rule triple_block[OF keep[OF start.socket_pair(5)]], unfold block.simps,
        rule triple_never[OF requests_run]) simp
  have child: "triple ?I (unprivileged_child E answers) (\<lambda>_. ?R) ?R"
    by (rule weak, rule keep[OF start.unprivileged[OF two]]) (simp add: policy_after_def)
  show ?thesis
    unfolding vsf_two_process_start_def
    by (rule triple_seq[OF keep[OF before]], rule triple_bind[OF keep[OF fork]], rule triple_if, rule parent, rule child)
qed

end
