(* ===== verification/One_Process.thy ===== *)
theory One_Process
  imports Login_Policy
begin

text \<open>
  The connection that stays in one process (src/oneprocess.c): anonymous sessions in a root of their own.
\<close>

text \<open>The process that talks to the client before a login does nothing that needs one.\<close>

lemma guest_host: "login_host E (policy_after t0 (\<lambda>_. before_login E) (login_sess B))"
  using policy_host[of "\<lambda>_. True" E "\<lambda>_. before_login E" t0 B] by (simp add: knowing_nothing stays_def)

section \<open>One process\<close>

text \<open>
  Anonymous sessions only, and in a root of their own, unless the process has no right to change it.
\<close>

definition confined_start :: "env \<Rightarrow> event list \<Rightarrow> bool" where
  "confined_start E h \<longleftrightarrow> tunable_run_as_launching_user E \<or> jailed h"

definition one_process_policy :: "env \<Rightarrow> broker \<Rightarrow> event list \<Rightarrow> event \<Rightarrow> bool" where
  "one_process_policy E B h e \<longleftrightarrow> before_login E e
     \<or> tunable_anonymous_enable E \<and> confined_start E h \<and> ftp_policy E B True h e"

abbreviation one_inv :: "event list \<Rightarrow> env \<Rightarrow> broker \<Rightarrow> world \<Rightarrow> bool" where
  "one_inv t0 E B \<equiv> policy_after t0 (one_process_policy E B) (login_sess B)"

abbreviation one_ended :: "event list \<Rightarrow> env \<Rightarrow> broker \<Rightarrow> world \<Rightarrow> bool" where
  "one_ended t0 E B \<equiv> policy_after t0 (one_process_policy E B) (\<lambda>_ _. True)"

lemma stays_confined: "stays (confined_start E)"
  unfolding confined_start_def by (intro stays_rules stays_acts)

lemma one_host: "stays K \<Longrightarrow> login_host E (knowing (one_inv t0 E B) K)"
  by (rule policy_host) (simp_all add: one_process_policy_def)

lemma one_keep: "keeps (knowing (one_inv t0 E B) K) m \<Longrightarrow>
    triple (knowing (one_inv t0 E B) K) m (\<lambda>_. knowing (one_inv t0 E B) K) (one_ended t0 E B)"
  by (erule triple_known) (simp add: knowing_def policy_after_def)

lemma one_session:
  assumes a: "tunable_anonymous_enable E"
  shows "triple (knowing (one_inv t0 E B) (confined_start E)) (seq (upd (\<lambda>s. s\<lparr>is_anonymous := True\<rparr>)) (process_post_login E))
    (\<lambda>_ _. False) (one_ended t0 E B)"
proof (rule triple_seq)
  let ?J = "\<lambda>w. knowing (one_inv t0 E B) (confined_start E) w \<and> is_anonymous (sess w)"
  show "triple (knowing (one_inv t0 E B) (confined_start E)) (upd (\<lambda>s. s\<lparr>is_anonymous := True\<rparr>)) (\<lambda>_. ?J) (one_ended t0 E B)"
    by (rule triple_upd) (simp add: knowing_def policy_after_def login_sess_def broker_sess_def)
  show "triple ?J (process_post_login E) (\<lambda>_ _. False) (one_ended t0 E B)"
  proof (rule triple_at, rule session_under)
    fix w0 assume w0: "?J w0"
    then show "guarded_after t0 (one_process_policy E B) (trace w0)" "ftp_sess B True (sess w0) (psess w0)" "target_ok E B (sess w0)"
      by (simp_all add: knowing_def policy_after_def login_sess_def ftp_sess_def target_ok_def)
    show "one_process_policy E B (b @ trace w0) e" if "ftp_policy E B True (b @ trace w0) e" for b e
    proof -
      have "confined_start E (b @ trace w0)"
        using w0 by (intro stays_append[OF stays_confined]) (simp add: knowing_def)
      then show ?thesis using a that by (simp add: one_process_policy_def)
    qed
  qed
qed

lemma one_login:
  "kept (knowing (one_inv t0 E B) (confined_start E)) (one_ended t0 E B) (vsf_one_process_login E p)"
proof -
  let ?I = "knowing (one_inv t0 E B) (confined_start E)"
  have host: "login_host E ?I" by (rule one_host[OF stays_confined])
  have grant: "triple ?I (vsf_privop_do_login E p) (\<lambda>res w. login_post ?I E (user_str (sess w)) res w) (one_ended t0 E B)"
    by (rule triple_weaken[OF login_host.granted[OF host]]) (simp_all add: knowing_def policy_after_def)
  have bugs: "triple ?I (bug E m) (\<lambda>_. ?I) (one_ended t0 E B)" for m
    by (intro one_keep keeps_bug login_host.H_base[OF host])
  have decide: "triple (\<lambda>w. login_post ?I E (user_str (sess w)) res w) (case res of
       kVSFLoginFail \<Rightarrow> return ()
     | kVSFLoginAnon \<Rightarrow> seq (upd (\<lambda>s. s\<lparr>is_anonymous := True\<rparr>)) (process_post_login E)
     | _ \<Rightarrow> bug E m) (\<lambda>_. ?I) (one_ended t0 E B)" for res m
  proof (cases res)
    case kVSFLoginAnon
    have "triple (\<lambda>w. login_post ?I E (user_str (sess w)) kVSFLoginAnon w)
        (seq (upd (\<lambda>s. s\<lparr>is_anonymous := True\<rparr>)) (process_post_login E)) (\<lambda>_. ?I) (one_ended t0 E B)"
    proof (cases "tunable_anonymous_enable E")
      case True
      show ?thesis by (rule triple_weaken[OF one_session[OF True]]) (simp_all add: login_post_def)
    qed (simp add: login_post_def triple_def)
    then show ?thesis using kVSFLoginAnon by simp
  next
    case kVSFLoginFail
    then show ?thesis by (simp add: login_post_def triple_return)
  next
    case kVSFLoginReal
    have "triple (\<lambda>w. login_post ?I E (user_str (sess w)) kVSFLoginReal w) (bug E m) (\<lambda>_. ?I) (one_ended t0 E B)"
      by (rule triple_weaken[OF bugs]) (simp_all add: login_post_def)
    then show ?thesis using kVSFLoginReal by simp
  next
    case kVSFLoginNull
    then show ?thesis by (simp add: login_post_def triple_def)
  qed
  show ?thesis
    unfolding kept_def vsf_one_process_login_def by (rule triple_bind[OF grant decide])
qed

interpretation alone: prelogin_session E "knowing (one_inv t0 E B) (confined_start E)" "one_ended t0 E B" for t0 E B
proof
  let ?I = "knowing (one_inv t0 E B) (confined_start E)"
  have host: "login_host E ?I" by (rule one_host[OF stays_confined])
  have b: "base ?I" by (rule login_host.H_base[OF host])
  have c: "chans ?I" by (rule login_host.H_chans[OF host])
  show "base ?I" by (rule b)
  show weak: "?I w \<Longrightarrow> one_ended t0 E B w" for w by (simp add: knowing_def policy_after_def)
  show user: "keeps ?I (upd (\<lambda>s. s\<lparr>user_str := f s\<rparr>))" for f by (rule login_host.fields[OF host])
  have calm: "kept ?I (one_ended t0 E B) m" if "keeps ?I m" for m :: "unit proc"
    using that weak by (rule kept_keeps)
  show fails: "kept ?I (one_ended t0 E B) (check_login_fails E)"
    unfolding check_login_fails_def by (intro calm safes login_host.fields[OF host] b; simp)
  have ask: "keeps ?I (vsf_two_process_login E p)" for p
    unfolding vsf_two_process_login_def by (intro safes b c; simp)
  show "kept ?I (one_ended t0 E B) (handle_pass_command E)"
    unfolding handle_pass_command_def forget_user_def
    by (intro kept_rules one_login fails) (rule calm, intro ask safes b user; simp)+
qed

lemma confined_jailed: "confined options t w \<Longrightarrow> option_on options VSF_SECUTIL_OPTION_CHROOT \<Longrightarrow> jailed (trace w)"
  by (auto simp: confined_def jailed_def succeeded_def)

lemma one_process_run:
  "triple (one_inv t0 E B) (vsf_one_process_start E) (\<lambda>_. one_ended t0 E B) (one_ended t0 E B)"
proof -
  let ?I = "one_inv t0 E B" and ?K = "knowing (one_inv t0 E B) (confined_start E)" and ?R = "one_ended t0 E B"
  have host: "login_host E ?I"
    using one_host[of "\<lambda>_. True" E t0 B] by (simp add: knowing_nothing stays_def)
  have b: "base ?K" by (rule login_host.H_base[OF one_host[OF stays_confined]])
  have run: "triple ?K (block [sandbox_postlogin E, init_connection E]) (\<lambda>_. ?R) ?R"
  proof (rule triple_block[OF one_keep[OF keeps_sandboxes(2)[OF b]]])
    have "triple ?K (block [init_connection E]) (\<lambda>_. ?K) ?R"
      unfolding kept_def[symmetric] by (intro kept_rules alone.connection)
    then show "triple ?K (block [init_connection E]) (\<lambda>_. ?R) ?R"
      by (rule triple_weaken) (simp_all add: knowing_def policy_after_def)
  qed
  have enter: "triple ?I (if tunable_run_as_launching_user E
     then whenp (d \<noteq> []) (bind (str_chdir E d) (\<lambda>_. return ()))
     else vsf_secutil_change_credentials E u [] (Some d) c
       (or (or VSF_SECUTIL_OPTION_CHROOT VSF_SECUTIL_OPTION_USE_GROUPS) VSF_SECUTIL_OPTION_NO_PROCS)) (\<lambda>_. ?K) ?R" for d u c
  proof (cases "tunable_run_as_launching_user E")
    case True
    have "keeps ?I (whenp (d \<noteq> []) (bind (str_chdir E d) (\<lambda>_. return ())))"
      by (intro keeps_whenp keeps_bind keeps_return login_host.directories[OF host])
    then show ?thesis using True unfolding keeps_def
      by (simp, elim triple_weaken) (simp_all add: knowing_def confined_start_def policy_after_def)
  next
    case False
    let ?o = "or (or VSF_SECUTIL_OPTION_CHROOT VSF_SECUTIL_OPTION_USE_GROUPS) VSF_SECUTIL_OPTION_NO_PROCS"
    have o: "option_on ?o VSF_SECUTIL_OPTION_CHROOT" by (simp add: option_on_def)
    have k: "keeps ?I (vsf_secutil_change_credentials E u [] (Some d) c ?o)"
      by (rule login_host.credentials[OF host])
    have "triple ?I (vsf_secutil_change_credentials E u [] (Some d) c ?o) (\<lambda>_. ?K) ?R"
    proof (rule triple_at)
      fix w0 assume w0: "?I w0"
      show "triple (\<lambda>w. w = w0) (vsf_secutil_change_credentials E u [] (Some d) c ?o) (\<lambda>_. ?K) ?R"
      proof (rule triple_weaken[OF triple_conj[OF k[unfolded keeps_def] change_credentials_confines[of "trace w0"]]])
        show "?I w \<and> extends (trace w0) w" if "w = w0" for w
          using that w0 by (simp add: extends_def)
        show "?K w" if "?I w \<and> confined ?o (trace w0) w" for w
          using that confined_jailed[OF _ o] by (simp only: knowing_def confined_start_def) blast
        show "?R w" if "?I w \<and> True" for w using that by (simp add: policy_after_def)
      qed
    qed
    then show ?thesis using False by simp
  qed
  have dies: "triple ?I (die E m) (\<lambda>_. ?R) ?R" for m :: string
    by (rule triple_weaken[OF keeps_die[OF login_host.H_base[OF host], unfolded keeps_def]]) (simp_all add: policy_after_def)
  show ?thesis
    unfolding vsf_one_process_start_def one_process_start_def Let_def
    by (rule triple_if, rule dies, rule triple_block[OF enter run])
qed

end
