(* ===== verification/Server.thy ===== *)
theory Server
  imports Listener One_Process
begin

text \<open>
  src/main.c as a whole: from the arguments of the program to the processes of a connection, whether the
  listener or inetd starts it, and what holds of all of it together.
\<close>

section \<open>Before the connection\<close>

text \<open>The result of gethostbyname: the bytes of the first address and its family.\<close>

definition vsf_sysutil_dns_resolve :: "env \<Rightarrow> string \<Rightarrow> sockaddr proc" where
  "vsf_sysutil_dns_resolve E p_name =
     bind (sys_str E (Call ''gethostbyname'' [] [c_text p_name])) (\<lambda>hent. case hent of
       None \<Rightarrow> die2 E ''cannot resolve host:'' (Some p_name)
     | Some h_addr \<Rightarrow> bind (sys_int E (Call ''h_addrtype'' [] [])) (\<lambda>h_addrtype.
         let copied = (\<lambda>n. take n h_addr @ replicate (n - length h_addr) NUL) in
         if h_addrtype = 4 then return (Sin (copied 4) 0)
         else if h_addrtype = 6 then return (Sin6 (copied 16) 0 0)
         else die E ''gethostbyname(): neither IPv4 nor IPv6''))"

definition resolve_pasv_address :: "env \<Rightarrow> tunables proc" where
  "resolve_pasv_address E = (case tunable_pasv_address E of
     None \<Rightarrow> return (tun E)
   | Some name \<Rightarrow>
       if \<not> tunable_pasv_addr_resolve E then return (tun E)
       else bind (vsf_sysutil_dns_resolve E name) (\<lambda>p_addr.
            bind (lift_res E (vsf_sysutil_inet_ntop E p_addr)) (\<lambda>p_numeric_addr.
            return ((tun E)\<lparr>strs := (strs (tun E))(''pasv_address'' := Some p_numeric_addr)\<rparr>))))"

text \<open>The server is built without these two.\<close>

definition ssl_init :: "env \<Rightarrow> unit proc" where
  "ssl_init E = die E ''SSL: ssl_enable is set but SSL support not compiled in''"

definition vsf_tcp_wrapper_ok :: "env \<Rightarrow> unit proc" where
  "vsf_tcp_wrapper_ok E = die E ''tcp_wrappers is set to YES but no tcp wrapper support compiled in''"

text \<open>With a listener, what follows runs in one of its children.\<close>

definition launch :: "env \<Rightarrow> tunables proc" where
  "launch E = (if tunable_listen E \<or> tunable_listen_ipv6 E
     then bind (vsf_standalone_main E) (\<lambda>(ret, T).
       seq (upd (\<lambda>s. s\<lparr>num_clients := launch_children ret, num_this_ip := launch_this_ip ret\<rparr>)) (return T))
     else return (tun E))"

definition load_env_config :: "env \<Rightarrow> tunables proc" where
  "load_env_config E = bind (sys_str E (Call ''getenv'' [] [''VSFTPD_LOAD_CONF''])) (\<lambda>p_load_conf. case p_load_conf of
     None \<Rightarrow> return (tun E) | Some f \<Rightarrow> vsf_parseconf_load_file E (Some f) True)"

section \<open>The environment of a process\<close>

text \<open>
  The time zone, from five characters such as +0200: the setting of TZ that says the same, and the offset in
  seconds that is subtracted from local time.
\<close>

definition tz_setting :: "string \<Rightarrow> string \<times> int" where
  "tz_setting tz = (let sign = (if tz ! 0 = CHR ''+'' then CHR ''-'' else CHR ''+'');
       digit = (\<lambda>i. int (of_char (tz ! i)) - 48);
       secs = (digit 1 * 10 + digit 2) * 60 * 60 + (digit 3 * 10 + digit 4) * 60
     in (''TZ=UTC'' @ [sign, tz ! 1, tz ! 2, CHR '':'', tz ! 3, tz ! 4],
         if sign = CHR ''-'' then - secs else secs))"

definition vsf_sysutil_tzset :: "env \<Rightarrow> unit proc" where
  "vsf_sysutil_tzset E = bind (sys_int E Time_sec) (\<lambda>the_time. seq (sysu E (Call ''tzset'' [] []))
     (bind (sys_str E (Call ''strftime_z'' [the_time] [])) (\<lambda>r. case r of
       None \<Rightarrow> die E ''localtime''
     | Some tz \<Rightarrow> whenp (length tz = 5) (case tz_setting tz of (envtz, secs) \<Rightarrow> block [
         sysu E (Call ''putenv'' [] [envtz]),
         upd (\<lambda>s. s\<lparr>s_timezone := secs\<rparr>)]))))"

definition VSFTP_SECURE_UMASK :: u32 where "VSFTP_SECURE_UMASK = 63"
definition VSFTP_AS_LIMIT :: int where "VSFTP_AS_LIMIT = 200 * 1024 * 1024"

definition env_init :: "env \<Rightarrow> unit proc" where
  "env_init E = block [
     vsf_sysutil_make_session_leader E,
     vsf_sysutil_set_umask E VSFTP_SECURE_UMASK,
     vsf_sysutil_tzset E,
     vsf_sysutil_install_null_sighandler E ''SIGPIPE'']"

definition vsf_sysutil_set_address_space_limit :: "env \<Rightarrow> int \<Rightarrow> unit proc" where
  "vsf_sysutil_set_address_space_limit E bytes = bind (sys_int E (Call ''setrlimit_as'' [bytes] [])) (\<lambda>ret.
     if ret = 0 then return ()
     else bind (sys_int E (Call ''errno_in'' [] [''EPERM''])) (\<lambda>permitted.
       if permitted = 0 then die E ''setrlimit'' else return ()))"

definition limits_init :: "env \<Rightarrow> unit proc" where
  "limits_init E = vsf_sysutil_set_address_space_limit E
     (if tunable_text_userdb_names E then VSFTP_AS_LIMIT * 3 else VSFTP_AS_LIMIT)"

section \<open>The program\<close>

definition connection_setup :: "env \<Rightarrow> unit proc" where
  "connection_setup E = block [
     env_init E,
     limits_init E,
     vsf_log_init E,
     bind get (\<lambda>s. bind (lift_res E (vsf_sysutil_inet_ntop E (p_remote_addr s))) (\<lambda>t.
       upd (\<lambda>s. s\<lparr>remote_ip_str := t\<rparr>))),
     vsf_cmdio_sock_setup E,
     whenp (tunable_setproctitle_enable E) (bind get (\<lambda>s. block [
       sysu E (Call ''proctitle_prefix'' [] [remote_ip_str s]),
       sysu E (Set_proctitle ''connected'')])),
     whenp (tunable_ssl_enable E) (ssl_init E),
     cache_files E]"

definition launching_user_settings :: "tunables \<Rightarrow> bool \<Rightarrow> tunables" where
  "launching_user_settings T root = T\<lparr>bools := (\<lambda>x. if x = ''one_process_model'' then True
     else if \<not> root \<and> (x = ''connect_from_port_20'' \<or> x = ''chown_uploads'') then False else bools T x)\<rparr>"

definition final_settings :: "env \<Rightarrow> tunables proc" where
  "final_settings E = (if tunable_run_as_launching_user E
     then bind (sys_int E (Call ''getuid'' [] [])) (\<lambda>uid. return (launching_user_settings (tun E) (uid = 0)))
     else return (tun E))"

text \<open>The two halves of what precedes a connection: up to its process, and in its process.\<close>

definition main_launch :: "env \<Rightarrow> string list \<Rightarrow> tunables proc" where
  "main_launch E argv = seq (upd (\<lambda>_. the_session))
     (if argv = [] then die E ''vsftpd: missing argv[0]''
      else bind (load_configuration E (tl argv)) (\<lambda>T. bind (resolve_pasv_address (with_tun E T)) (\<lambda>T.
       let E = with_tun E T in seq (block [
         whenp (\<not> tunable_run_as_launching_user E) (die_unless_privileged E),
         whenp (tunable_setproctitle_enable E) (sysu E (Call ''setproctitle_init'' [] [])),
         whenp (tunable_ssl_enable E) (ssl_init E)])
       (launch E))))"

definition main_connected :: "env \<Rightarrow> tunables proc" where
  "main_connected E = seq (whenp (tunable_tcp_wrappers E) (vsf_tcp_wrapper_ok E))
     (bind (load_env_config E) (\<lambda>T. let E = with_tun E T in
       seq (block [do_sanity_checks E, session_init E, connection_setup E]) (final_settings E)))"

definition main_setup :: "env \<Rightarrow> string list \<Rightarrow> tunables proc" where
  "main_setup E argv = bind (main_launch E argv) (\<lambda>T. main_connected (with_tun E T))"

text \<open>Until it forks there is one process, whose session both views show.\<close>

definition one_session :: "unit proc" where
  "one_session w = Done () (w\<lparr>psess := sess w\<rparr>)"

definition vsf_main :: "env \<Rightarrow> string list \<Rightarrow> item list \<Rightarrow> item list \<Rightarrow> item list \<Rightarrow> unit proc" where
  "vsf_main E argv guesses answers requests = bind (main_setup E argv) (\<lambda>T. let E = with_tun E T in
     seq one_session (seq
       (if tunable_one_process_model E then vsf_one_process_start E
        else vsf_two_process_start E guesses answers requests)
       (bug E ''should not get here: main'')))"

end
