(* ===== verification/Server_Policy.thy ===== *)
theory Server_Policy
  imports Server
begin

text \<open>
  What holds of the program from its first instruction on. Until a connection is served there are only
  harmless calls, the sockets and children of the listener, and files of the configuration and the log; the
  connection then obeys the policy of the settings in force, with the addresses and the identities that
  were found for it.
\<close>

section \<open>What the start keeps\<close>

text \<open>
  The steps with a client at hand, the steps that look for one, and the steps of the listener ask more and
  more of an invariant.
\<close>

locale setup_host =
  fixes I :: "world \<Rightarrow> bool"
  assumes H_base: "base I" and H_open: "allows I (Open_readonly f)" and H_log: "allows I (Create_append f m)"
begin

lemma setup_load_config: "keeps I (load_config_file E f b)"
  by (rule keeps_load_config[OF H_base H_open])

lemma setup_load: "keeps I (vsf_parseconf_load_file E f b)"
  unfolding vsf_parseconf_load_file_def
  by (intro keeps_seq keeps_whenp keeps_get keeps_option keeps_bug keeps_upd_frame same_core_upd setup_load_config H_base)

lemma setup_options: "keeps I (parse_args E args b)"
proof (induction args arbitrary: E b)
  case (Cons a args)
  then show ?case
    unfolding parse_args.simps by (intro keeps_if keeps_bind keeps_vsf_exit keeps_die2 keeps_lift_res setup_load H_base)
qed (simp add: keeps_return)

lemma setup_configuration: "keeps I (load_configuration E args)"
  unfolding load_configuration_def
  by (intro keeps_bind keeps_prod keeps_if keeps_return keeps_sys_ops setup_options setup_load base_allows H_base; simp)

lemma setup_resolve: "keeps I (resolve_pasv_address E)"
  unfolding resolve_pasv_address_def vsf_sysutil_dns_resolve_def Let_def by (intro safes H_base; simp)

lemma setup_privileged: "keeps I (die_unless_privileged E)"
  unfolding die_unless_privileged_def by (intro safes H_base; simp)

lemma setup_env: "keeps I (load_env_config E)"
  unfolding load_env_config_def by (intro safes setup_load H_base; simp)

lemma setup_tzset: "keeps I (vsf_sysutil_tzset E)"
  unfolding vsf_sysutil_tzset_def
  by (intro safes H_base; simp)

lemma setup_log: "keeps I (vsf_log_init E)"
  unfolding vsf_log_init_def vsf_log_open_file_def by (intro H_log safes H_base; simp add: same_core_def)

lemma setup_cache: "keeps I (cache_files E)"
proof -
  have "keeps I (cached_file E f m)" for f m
    unfolding cached_file_def by (intro keeps_read_named H_open safes H_base)
  then show ?thesis unfolding cache_files_def by (intro keeps_block_Cons keeps_block_Nil keeps_whenp keeps_bind keeps_upd_frame H_base; simp)
qed

lemma setup_connection: "keeps I (connection_setup E)"
  unfolding connection_setup_def env_init_def limits_init_def vsf_sysutil_set_address_space_limit_def ssl_init_def
  by (intro setup_tzset setup_log setup_cache safes H_base; simp add: same_core_def)

lemma setup_checks: "keeps I (do_sanity_checks E)"
  unfolding do_sanity_checks_def by (intro safes H_base; simp)

lemma setup_final: "keeps I (final_settings E)"
  unfolding final_settings_def by (intro safes H_base; simp)

end


locale setup_session = setup_host +
  assumes S_upd: "(\<And>s. num_clients (f s) = num_clients s \<and> num_this_ip (f s) = num_this_ip s
     \<and> p_port_sockaddr (f s) = p_port_sockaddr s) \<Longrightarrow> keeps I (upd f)"
begin

lemma setup_session_init: "keeps I (session_init E)"
proof -
  have "keeps I (configured_uid E u m)" for u m
    unfolding configured_uid_def by (intro safes H_base; simp)
  moreover have "keeps I (vsf_sysutil_getaddr E c)" for c
    unfolding vsf_sysutil_getaddr_def by (intro safes H_base; simp)
  ultimately show ?thesis
    unfolding session_init_def
    by (intro keeps_block_Cons keeps_block_Nil keeps_whenp keeps_bind S_upd; simp)
qed

lemma setup_connected: "keeps I (main_connected E)"
  unfolding main_connected_def vsf_tcp_wrapper_ok_def Let_def
  by (intro keeps_seq keeps_bind keeps_whenp keeps_die keeps_block_Cons keeps_block_Nil H_base
      setup_env setup_checks setup_session_init setup_connection setup_final)

end

locale setup_launch = setup_session +
  assumes L_calls: "allows I (Fork x)" "allows I Reap" "allows I (Accept fd n)" "allows I (Bind fd p)"
    and L_num: "keeps I (upd (\<lambda>s. s\<lparr>num_clients := a, num_this_ip := b\<rparr>))"
begin

lemma setup_signals: "keeps I (check_signals E L)"
proof -
  have "keeps I (vsf_sysutil_wait_reap_one E)"
    unfolding vsf_sysutil_wait_reap_one_def by (intro L_calls safes H_base; simp)
  then have "keeps I (listener_sigchld E n L)" for n L
    by (induction n arbitrary: L)
      (simp_all add: Let_def keeps_halt, intro keeps_bind keeps_if keeps_return keeps_lift_res H_base)
  moreover have "keeps I (handle_sighup E L)" for L
    unfolding handle_sighup_def by (intro keeps_bind keeps_return setup_load)
  ultimately show ?thesis
    unfolding check_signals_def
    by (intro keeps_bind keeps_if keeps_return keeps_sys_ops base_allows H_base; simp)
qed

lemma setup_round: "keeps I (accept_round E ls L)"
proof -
  have accept: "keeps I (listener_accept E ls L)"
    unfolding listener_accept_def
    by (intro keeps_bind keeps_sys L_calls setup_signals keeps_if keeps_return keeps_die H_base)
  have fork: "keeps I (fork_child D)" for D
    unfolding fork_child_def by (intro keeps_if keeps_forks H_base L_calls)
  have child: "keeps I (launch_child D ls fd M k c pid)" for D fd M k c pid
    unfolding launch_child_def prepare_child_def vsf_sysutil_dupfd2_def by (intro safes H_base; simp)
  show ?thesis
    unfolding accept_round_def Let_def
    by (intro keeps_bind accept keeps_prod keeps_if keeps_return keeps_lift_res fork child H_base)
qed

lemma setup_standalone: "keeps I (vsf_standalone_main E)"
proof -
  have round: "keeps I (accept_loop E ls n L)" for ls n L
  proof (induction n arbitrary: L)
    case (Suc n)
    then have "keeps I (case r of Inl L \<Rightarrow> accept_loop E ls n L | Inr child \<Rightarrow> return child)" for r
      by (cases r) (simp_all add: keeps_return)
    then show ?case unfolding accept_loop.simps by (intro keeps_bind setup_round)
  qed (simp add: keeps_halt)
  have fork: "keeps I (vsf_sysutil_fork E)" by (rule keeps_forks[OF H_base L_calls(1)])
  have bind: "keeps I (vsf_sysutil_bind E fd p)" for fd p
    unfolding vsf_sysutil_bind_def by (intro keeps_if keeps_die keeps_sys_ops L_calls H_base)
  show ?thesis
    unfolding vsf_standalone_main_def by (intro round fork bind safes H_base; simp)
qed

lemma setup_launched: "keeps I (launch E)"
  unfolding launch_def by (intro keeps_if keeps_bind keeps_prod keeps_seq keeps_return setup_standalone L_num)

end

section \<open>The policy of the start\<close>

definition starting :: "event \<Rightarrow> bool" where
  "starting e \<longleftrightarrow> benign (fst e) \<or> (case fst e of Fork x \<Rightarrow> True | Reap \<Rightarrow> True | Accept fd n \<Rightarrow> True | Bind fd p \<Rightarrow> True
     | Open_readonly f \<Rightarrow> True | Create_append f m \<Rightarrow> True | _ \<Rightarrow> False)"

abbreviation start_inv :: "world \<Rightarrow> bool" where
  "start_inv \<equiv> policy (\<lambda>_. starting) (\<lambda>s _. p_port_sockaddr s = None)"

lemma start_base: "base start_inv"
  by (rule policy_base) (simp_all add: starting_def same_core_def)

lemma start_allows: "starting (c, RInt 0) \<Longrightarrow> allows start_inv c"
  by (rule policy_allows) (simp add: starting_def)

interpretation from_start: setup_launch start_inv
proof
  show "base start_inv" by (rule start_base)
  show "keeps start_inv (upd f)" if "\<And>s. num_clients (f s) = num_clients s \<and> num_this_ip (f s) = num_this_ip s
     \<and> p_port_sockaddr (f s) = p_port_sockaddr s" for f
    using that by (intro policy_upd) simp
  show "keeps start_inv (upd (\<lambda>s. s\<lparr>num_clients := a, num_this_ip := b\<rparr>))" for a b
    by (rule policy_upd) simp
qed (rule start_allows, simp add: starting_def)+

lemma main_launch_starts: "triple (\<lambda>w. guarded (\<lambda>_. starting) (trace w)) (main_launch E argv) (\<lambda>_. start_inv) start_inv"
proof -
  have "keeps start_inv (if argv = [] then die E ''vsftpd: missing argv[0]''
      else bind (load_configuration E (tl argv)) (\<lambda>T. bind (resolve_pasv_address (with_tun E T)) (\<lambda>T.
       let E = with_tun E T in seq (block [
         whenp (\<not> tunable_run_as_launching_user E) (die_unless_privileged E),
         whenp (tunable_setproctitle_enable E) (sysu E (Call ''setproctitle_init'' [] [])),
         whenp (tunable_ssl_enable E) (ssl_init E)])
       (launch E))))"
    unfolding Let_def ssl_init_def
    by (intro keeps_if keeps_die keeps_bind keeps_seq keeps_block_Cons keeps_block_Nil keeps_whenp keeps_sys_ops start_base
        from_start.setup_configuration from_start.setup_resolve from_start.setup_privileged from_start.setup_launched
        base_allows; simp)
  then show ?thesis
    unfolding main_launch_def keeps_def
    by (rule triple_seq[rotated]) (rule triple_upd, simp add: policy_def the_session_def)
qed

lemma main_setup_starts: "triple (\<lambda>w. guarded (\<lambda>_. starting) (trace w)) (main_setup E argv) (\<lambda>_. start_inv) start_inv"
  unfolding main_setup_def
  by (rule triple_bind[OF main_launch_starts]) (use from_start.setup_connected in \<open>simp add: keeps_def\<close>)

section \<open>What a connection starts with\<close>

definition met :: "world \<Rightarrow> bool" where
  "met w \<longleftrightarrow> p_remote_addr (sess w) \<noteq> Sa_unspec \<and> p_local_addr (sess w) \<noteq> Sa_unspec"

lemma same_core_start: "same_core s t \<Longrightarrow> p_remote_addr t = p_remote_addr s \<and> p_local_addr t = p_local_addr s
    \<and> num_clients t = num_clients s \<and> num_this_ip t = num_this_ip s"
  by (simp add: same_core_def)

lemma met_base: "base met"
  using same_core_start by (auto simp: base_def met_def allows_def)

interpretation at_client: setup_host met
  by unfold_locales (rule met_base, simp_all add: met_def allows_def)

lemma configured_keeps: "base I \<Longrightarrow> keeps I (configured_uid E u m)"
  unfolding configured_uid_def by (intro safes; simp)

lemma getaddr_known: "triple P (vsf_sysutil_getaddr E c) (\<lambda>a _. a \<noteq> Sa_unspec) (\<lambda>_. True)"
  unfolding vsf_sysutil_getaddr_def
  by (rule tripleI) (auto simp: bind_def sys_def Let_def return_def die_def bug_ends split: outcome.split)

lemma session_init_meets: "triple (\<lambda>_. True) (session_init E) (\<lambda>_. met) (\<lambda>_. True)"
proof -
  let ?L = "\<lambda>w. p_remote_addr (sess w) \<noteq> Sa_unspec"
  have l: "base ?L" using same_core_start by (auto simp: base_def allows_def)
  have peer: "triple (\<lambda>_. True) (bind (vsf_sysutil_getaddr E ''getpeername'') (\<lambda>a. upd (\<lambda>s. s\<lparr>p_remote_addr := a\<rparr>)))
      (\<lambda>_. ?L) (\<lambda>_. True)"
    by (rule triple_bind[OF getaddr_known], rule triple_upd) simp
  have k: "keeps ?L (vsf_sysutil_getaddr E c)" for c
    unfolding vsf_sysutil_getaddr_def by (intro safes l; simp)
  have both: "triple ?L (vsf_sysutil_getaddr E c) (\<lambda>a w. a \<noteq> Sa_unspec \<and> ?L w) (\<lambda>_. True)" for c
    using getaddr_known[of ?L E c] triple_keeps[OF k, of c] by (fastforce simp: triple_def split: outcome.splits)
  have here: "triple ?L (bind (vsf_sysutil_getaddr E ''getsockname'') (\<lambda>a. upd (\<lambda>s. s\<lparr>p_local_addr := a\<rparr>)))
      (\<lambda>_. met) (\<lambda>_. True)"
    by (rule triple_bind[OF both], rule triple_upd) (simp add: met_def)
  have ids: "keeps met (bind (configured_uid E u m) (\<lambda>x. upd (f x)))"
    if "\<And>x s. p_remote_addr (f x s) = p_remote_addr s \<and> p_local_addr (f x s) = p_local_addr s" for u m f
    using that by (intro keeps_bind configured_keeps met_base keeps_upd) (simp add: met_def)
  have rest: "triple met (block ms) (\<lambda>_. met) (\<lambda>_. True)" if "\<And>m. m \<in> set ms \<Longrightarrow> keeps met m" for ms
    by (rule triple_keeps, rule keeps_block) (rule that)
  show ?thesis
    unfolding session_init_def block.simps(2)[of "bind (vsf_sysutil_getaddr E c) f" for c f]
    by (rule triple_seq[OF peer], rule triple_seq[OF here], rule rest)
      (auto intro!: keeps_whenp ids)
qed

lemma main_connected_meets: "triple (\<lambda>_. True) (main_connected E) (\<lambda>_. met) (\<lambda>_. True)"
proof -
  have any: "triple (\<lambda>_. True) m (\<lambda>_ _. True) (\<lambda>_. True)" for m :: "'x proc"
    by (simp add: triple_def split: outcome.split)
  have conn: "triple met (block [connection_setup D]) (\<lambda>_. met) (\<lambda>_. True)" for D
    by (rule triple_keeps) (intro keeps_block_Cons keeps_block_Nil at_client.setup_connection)
  have final: "triple met (final_settings D) (\<lambda>_. met) (\<lambda>_. True)" for D
    by (rule triple_keeps) (rule at_client.setup_final)
  show ?thesis
    unfolding main_connected_def Let_def block.simps(2)[of "do_sanity_checks D" for D] block.simps(2)[of "session_init D" for D]
    by (intro triple_seq[OF any] triple_bind[OF any] triple_seq[OF triple_seq[OF any triple_seq[OF session_init_meets conn]] final])
qed

section \<open>What a client is told to be among\<close>

text \<open>With a listener, the session knows how many there are; without one, it takes itself to be alone.\<close>

definition told :: "world \<Rightarrow> bool" where
  "told w \<longleftrightarrow> unat (num_clients (sess w)) = card (dom (live (trace w))) + 1
     \<and> unat (num_this_ip (sess w)) = card {p. live (trace w) p = Some (peer_key (last_peer (trace w)))} + 1"

definition accepts :: "event list \<Rightarrow> bool" where
  "accepts h = list_ex (\<lambda>e. case fst e of Accept _ _ \<Rightarrow> True | _ \<Rightarrow> False) h"

definition unlistened :: "world \<Rightarrow> bool" where
  "unlistened w \<longleftrightarrow> num_clients (sess w) = 0 \<and> num_this_ip (sess w) = 0 \<and> childless w \<and> \<not> accepts (trace w)"

lemma trace_children:
  assumes "benign c \<or> (\<exists>f. c = Open_readonly f) \<or> (\<exists>f m. c = Create_append f m)"
  shows "live ((c, r) # h) = live h" "last_peer ((c, r) # h) = last_peer h" "accepts ((c, r) # h) = accepts h"
  using assms by (cases c; auto simp: accepts_def)+

definition reported :: "world \<Rightarrow> bool" where
  "reported w \<longleftrightarrow> told w \<or> unlistened w"

lemma reported_same: "num_clients s = num_clients (sess w) \<Longrightarrow> num_this_ip s = num_this_ip (sess w) \<Longrightarrow>
    (told (w\<lparr>sess := s\<rparr>) = told w) \<and> (unlistened (w\<lparr>sess := s\<rparr>) = unlistened w)"
  by (simp add: told_def unlistened_def childless_def)

lemma told_host:
  "benign c \<or> (\<exists>f. c = Open_readonly f) \<or> (\<exists>f m. c = Create_append f m) \<Longrightarrow> allows told c"
  "benign c \<or> (\<exists>f. c = Open_readonly f) \<or> (\<exists>f m. c = Create_append f m) \<Longrightarrow> allows unlistened c"
  "benign c \<or> (\<exists>f. c = Open_readonly f) \<or> (\<exists>f m. c = Create_append f m) \<Longrightarrow> allows reported c"
  using trace_children[of c]
  by (auto simp: allows_def told_def unlistened_def childless_def reported_def)

lemma told_base: "base unlistened" "base reported"
  using told_host reported_same same_core_start by (auto simp: base_def reported_def)

interpretation in_child: setup_session reported
proof
  show "base reported" by (rule told_base)
  show "keeps reported (upd f)" if "\<And>s. num_clients (f s) = num_clients s \<and> num_this_ip (f s) = num_this_ip s
     \<and> p_port_sockaddr (f s) = p_port_sockaddr s" for f
    using that by (intro keeps_upd) (simp add: reported_def reported_same)
qed (rule told_host, blast)+

interpretation before_launch: setup_host unlistened
  by unfold_locales (rule told_base, (rule told_host, blast)+)

lemma launch_reports:
  assumes t: "tells_children E"
  shows "triple unlistened (launch E) (\<lambda>_. reported) (\<lambda>_. True)"
proof -
  have run: "triple unlistened (vsf_standalone_main E) (\<lambda>r w. launched (fst r) (trace w)) (\<lambda>_. True)"
    by (rule triple_weaken[OF main_launches[OF t]]) (auto simp: unlistened_def)
  have note_numbers: "triple (\<lambda>w. launched info (trace w))
      (upd (\<lambda>s. s\<lparr>num_clients := launch_children info, num_this_ip := launch_this_ip info\<rparr>)) (\<lambda>_. reported) (\<lambda>_. True)" for info
    by (rule triple_upd) (simp add: reported_def told_def launched_numbers)
  have alone: "triple unlistened (return (tun E)) (\<lambda>_. reported) (\<lambda>_. True)"
    by (rule triple_return) (simp add: reported_def)
  have told: "triple (\<lambda>w. launched (fst r) (trace w)) (case r of (i, T) \<Rightarrow>
      seq (upd (\<lambda>s. s\<lparr>num_clients := launch_children i, num_this_ip := launch_this_ip i\<rparr>)) (return T))
      (\<lambda>_. reported) (\<lambda>_. True)" for r
    by (cases r) (simp, rule triple_seq[OF note_numbers], rule triple_return)
  show ?thesis
    unfolding launch_def by (rule triple_if, rule triple_bind[OF run told], rule alone)
qed

lemma main_launch_reports:
  assumes t: "tells_children E"
  shows "triple (\<lambda>w. trace w = []) (main_launch E argv) (\<lambda>_. reported) (\<lambda>_. True)"
proof -
  let ?checks = "\<lambda>E. block [
         whenp (\<not> tunable_run_as_launching_user E) (die_unless_privileged E),
         whenp (tunable_setproctitle_enable E) (sysu E (Call ''setproctitle_init'' [] [])),
         whenp (tunable_ssl_enable E) (ssl_init E)]"
  have checks: "keeps unlistened (?checks D)" for D
    unfolding ssl_init_def
    by (intro keeps_die keeps_block_Cons keeps_block_Nil keeps_whenp keeps_sys_ops told_base
        before_launch.setup_privileged base_allows; simp)
  have go: "triple unlistened (launch (with_tun E T)) (\<lambda>_. reported) (\<lambda>_. True)" for T
    using t by (intro launch_reports) simp
  have first: "triple (\<lambda>w. trace w = []) (upd (\<lambda>_. the_session)) (\<lambda>_. unlistened) (\<lambda>_. True)"
    by (rule triple_upd) (simp add: unlistened_def the_session_def childless_def accepts_def)
  show ?thesis
    unfolding main_launch_def Let_def
    by (rule triple_seq[OF first], rule triple_if, rule die_triple,
        rule triple_bind[OF triple_keeps[OF before_launch.setup_configuration]],
        rule triple_bind[OF triple_keeps[OF before_launch.setup_resolve]],
        rule triple_seq[OF triple_keeps[OF checks] go])
qed

lemma main_setup_reports:
  assumes t: "tells_children E"
  shows "triple (\<lambda>w. trace w = []) (main_setup E argv) (\<lambda>_. reported) (\<lambda>_. True)"
  unfolding main_setup_def
  by (rule triple_bind[OF main_launch_reports[OF t]]) (rule triple_keeps[OF in_child.setup_connected])

text \<open>Who gets past the limits is within them.\<close>

lemma refuse_ends: "refuse_connection E n x y w \<noteq> Done () w'"
  by (auto simp: refuse_connection_def vsf_cmdio_write_exit_def seq_Done bind_Done vsf_sysutil_exit_def halt_def)

lemma limits_hold:
  "check_limits E w = Done () w' \<Longrightarrow> (tunable_max_clients E > 0 \<longrightarrow> num_clients (sess w) \<le> tunable_max_clients E)
     \<and> (tunable_max_per_ip E > 0 \<longrightarrow> num_this_ip (sess w) \<le> tunable_max_per_ip E)"
  by (auto simp: check_limits_def get_def bind_def seq_Done whenp_def return_def refuse_ends not_le split: if_splits)

section \<open>The connection\<close>

text \<open>What the privileged parent must know of a session.\<close>

definition broker_of :: "vsf_session \<Rightarrow> broker" where
  "broker_of s = \<lparr>peer = p_remote_addr s, local_end = p_local_addr s, anon = anon_ftp_uid s,
     guest = guest_user_uid s, chown_to = anon_upload_chown_uid s\<rparr>"

definition serving :: "env \<Rightarrow> broker \<Rightarrow> event list \<Rightarrow> event \<Rightarrow> bool" where
  "serving E B h e \<longleftrightarrow>
     (if tunable_one_process_model E then one_process_policy E B h e else login_policy E B h e)"

lemma broker_of_sess: "p_remote_addr s \<noteq> Sa_unspec \<Longrightarrow> p_local_addr s \<noteq> Sa_unspec \<Longrightarrow> broker_sess (broker_of s) s"
  by (simp add: broker_sess_def broker_of_def same_host_refl addr_equal_refl)

lemma one_session_first: "triple P m (\<lambda>_. Q) Q \<Longrightarrow> P (w\<lparr>psess := sess w\<rparr>) \<Longrightarrow>
    (case seq one_session m w of Done x w' \<Rightarrow> Q w' | Halt h w' \<Rightarrow> Q w')"
  by (drule tripleD) (simp_all add: seq_def bind_def one_session_def)

lemma connection_served:
  assumes m: "met w" and p: "p_port_sockaddr (sess w) = None"
  shows "case seq one_session (seq (if tunable_one_process_model E then vsf_one_process_start E
        else vsf_two_process_start E guesses answers requests) (bug E ''should not get here: main'')) w of
      Done x w' \<Rightarrow> guarded_after (trace w) (serving E (broker_of (sess w))) (trace w')
    | Halt _ w' \<Rightarrow> guarded_after (trace w) (serving E (broker_of (sess w))) (trace w')"
proof -
  let ?B = "broker_of (sess w)" and ?t = "trace w"
  let ?ended = "policy_after ?t (serving E ?B) (\<lambda>_ _. True)"
  have b: "broker_sess ?B (sess w)" using m by (intro broker_of_sess) (simp_all add: met_def)
  have ended: "base ?ended"
    by (rule policy_after_base) (simp_all add: serving_def login_policy_def one_process_policy_def before_login_def)
  have run: "triple (policy_after ?t (serving E ?B) (login_sess ?B))
      (if tunable_one_process_model E then vsf_one_process_start E
       else vsf_two_process_start E guesses answers requests) (\<lambda>_. ?ended) ?ended"
  proof (cases "tunable_one_process_model E")
    case True
    then have "serving E ?B = one_process_policy E ?B" by (intro ext) (simp add: serving_def)
    then show ?thesis using True one_process_run by simp
  next
    case False
    then have "serving E ?B = login_policy E ?B" by (intro ext) (simp add: serving_def)
    then show ?thesis using False connection_run[OF False] by simp
  qed
  have "triple ?ended (bug E t) (\<lambda>_. ?ended) ?ended" for t
    using keeps_bug[OF ended] by (simp add: keeps_def)
  note served = triple_seq[OF run this]
  have "triple (policy_after ?t (serving E ?B) (login_sess ?B)) (seq (if tunable_one_process_model E then vsf_one_process_start E
        else vsf_two_process_start E guesses answers requests) (bug E ''should not get here: main''))
      (\<lambda>_ v. guarded_after ?t (serving E ?B) (trace v)) (\<lambda>v. guarded_after ?t (serving E ?B) (trace v))"
    by (rule triple_weaken[OF served]) (simp_all add: policy_after_def)
  then show ?thesis
    by (rule one_session_first) (simp add: policy_after_def login_sess_def b p)
qed

lemma setup_meets: "main_setup E argv w = Done T w1 \<Longrightarrow> met w1"
proof -
  assume d: "main_setup E argv w = Done T w1"
  then obtain T0 w0 where "main_connected (with_tun E T0) w0 = Done T w1" by (auto simp: main_setup_def bind_Done)
  then show ?thesis using tripleD[OF main_connected_meets[of "with_tun E T0"], of w0] by simp
qed

lemma main_runs: "main_setup E argv w = Done T w1 \<Longrightarrow> vsf_main E argv guesses answers requests w =
    seq one_session (seq
      (if tunable_one_process_model (with_tun E T) then vsf_one_process_start (with_tun E T)
       else vsf_two_process_start (with_tun E T) guesses answers requests)
      (bug (with_tun E T) ''should not get here: main'')) w1"
  by (simp only: vsf_main_def bind_def Let_def outcome.case)

lemma main_stops: "main_setup E argv w = Halt h w1 \<Longrightarrow> vsf_main E argv guesses answers requests w = Halt h w1"
  by (simp only: vsf_main_def bind_def outcome.case)

end
