(* ===== verification/Spec2Isabelle.thy ===== *)
theory Spec2Isabelle
  imports Startup Ipaddrparse Ftp_Policy Ftp_Exclusive Ftp_Rename Transfers Server_Policy
begin

text \<open>
  HEADER
\<close>

section \<open>A small system for examples\<close>

text \<open>Every call succeeds, everyone has an account, nothing is writable.\<close>

definition demo_os :: "event list \<Rightarrow> syscall \<Rightarrow> sysret" where
  "demo_os h c = (case c of
     Getpwnam n \<Rightarrow> RUser (Some \<lparr>pw_name = n, pw_uid = 1000, pw_gid = 1000, pw_dir = ''/srv/ftp'',
       pw_passwd = ''x'', pw_shell = ''/bin/sh''\<rparr>)
   | Call f _ args \<Rightarrow>
       if f = ''access_write'' then RInt (-1)
       else if f = ''realpath'' \<and> args \<noteq> [''new.txt''] then RStr (Some (''/srv/'' @ hd args))
       else RInt 0
   | _ \<Rightarrow> RInt 0)"

definition demo_env :: env where
  "demo_env = \<lparr>os = demo_os, tun = tunables_load_defaults,
     kbyte_rate_text = (\<lambda>_ _ _. ''0.00''), inet6_text = (\<lambda>_. ''::''), fuel = 10\<rparr>"

definition demo_addr :: "nat \<Rightarrow> sockaddr" where
  "demo_addr n = Sin [CHR 0x0A, NUL, NUL, char_of n] 40000"

definition demo_sess :: vsf_session where
  "demo_sess = the_session\<lparr>p_local_addr := demo_addr 1, p_remote_addr := demo_addr 2\<rparr>"

definition demo_world :: world where
  "demo_world = \<lparr>sess = demo_sess, psess = demo_sess, c2p = [], p2c = [], trace = []\<rparr>"

definition demo_broker :: broker where
  "demo_broker = \<lparr>peer = demo_addr 2, local_end = demo_addr 1, anon = -1, guest = -1, chown_to = -1\<rparr>"

text \<open>
  A client with lines to send, and a system where reads of a data connection give \<open>data\<close> once
  and then its end, every file is a regular one, and files and sockets have the number 5.
\<close>

definition asked_before :: "string \<Rightarrow> event list \<Rightarrow> nat" where
  "asked_before f h = length (filter (\<lambda>e. case fst e of Call g _ _ \<Rightarrow> g = f | _ \<Rightarrow> False) h)"

definition line_at :: "string list \<Rightarrow> nat \<Rightarrow> string" where
  "line_at lines n = (if n < length lines then lines ! n @ [CR, LF] else [])"

definition demo_file :: statbuf where
  "demo_file = \<lparr>st_mode = 33188, st_nlink = 1, st_uid = 1000, st_gid = 1000, st_size = 5, st_mtime = 0\<rparr>"

definition client_os :: "string list \<Rightarrow> string \<Rightarrow> event list \<Rightarrow> syscall \<Rightarrow> sysret" where
  "client_os lines d h c = (case c of
     Write fd s \<Rightarrow> RInt (int (length s))
   | Read_loop fd n \<Rightarrow> RStr (Some (line_at lines (asked_before ''recv_peek'' h - 1)))
   | Stat n \<Rightarrow> RStat (Some demo_file)
   | Fstat n \<Rightarrow> RStat (Some demo_file)
   | Open_readonly n \<Rightarrow> RInt 5
   | Create_or_open n m \<Rightarrow> RInt 5
   | Create_exclusive n \<Rightarrow> RInt 5
   | Accept fd t \<Rightarrow> RFd 7 (demo_addr 2)
   | Call f ns ss \<Rightarrow>
       if f = ''recv_peek'' then RStr (Some (line_at lines (asked_before ''recv_peek'' h)))
       else if f = ''read'' then RStr (Some (if asked_before ''read'' h = 0 then d else []))
       else if f = ''sendfile'' then RInt 5
       else if f = ''socket_ipv4'' then RInt 6
       else if f = ''realpath'' then RStr (Some (''/srv/'' @ hd ss))
       else if f = ''getcwd'' then RStr (Some ''/'')
       else RInt 0
   | _ \<Rightarrow> RInt 0)"

definition client_tun :: tunables where
  "client_tun = \<lparr>bools = (\<lambda>x. x \<in> {''write_enable'', ''one_process_model'', ''use_sendfile'', ''port_enable''}),
     uints = (\<lambda>_. 0), strs = (\<lambda>_. None)\<rparr>"

definition client_env :: "string list \<Rightarrow> string \<Rightarrow> env" where
  "client_env lines d = \<lparr>os = client_os lines d, tun = client_tun,
     kbyte_rate_text = (\<lambda>_ _ _. ''0.00''), inet6_text = (\<lambda>_. ''::''), fuel = Suc (Suc (Suc 0))\<rparr>"

text \<open>A local user, with a data connection 7 where it says so.\<close>

definition user_world :: "int \<Rightarrow> world" where
  "user_world fd = (let s = demo_sess\<lparr>is_anonymous := False, is_ascii := False, data_fd := fd\<rparr> in
     demo_world\<lparr>sess := s, psess := s\<rparr>)"

definition finished :: "'a proc \<Rightarrow> world \<Rightarrow> bool" where
  "finished m w = (case m w of Done _ _ \<Rightarrow> True | Halt _ _ \<Rightarrow> False)"

lemma finishedE: "finished m w \<Longrightarrow> (\<And>x w'. m w = Done x w' \<Longrightarrow> P) \<Longrightarrow> P"
  by (auto simp: finished_def split: outcome.splits)

lemma doneE: "(case m w of Done x w' \<Rightarrow> Q x w' | Halt _ _ \<Rightarrow> False) \<Longrightarrow> (\<And>x w'. m w = Done x w' \<Longrightarrow> Q x w' \<Longrightarrow> P) \<Longrightarrow> P"
  by (auto split: outcome.splits)

lemma unit_run: "m w = Done x w' \<Longrightarrow> m w = Done () w'"
  by simp

text \<open>What a process has done when it stops, one way or the other.\<close>

definition final_trace :: "('a, world) outcome \<Rightarrow> event list" where
  "final_trace m = (case m of Done _ w \<Rightarrow> trace w | Halt _ w \<Rightarrow> trace w)"

lemma triple_final: "triple I m (\<lambda>_. J) R \<Longrightarrow> I w \<Longrightarrow> (\<And>v. J v \<Longrightarrow> P (trace v)) \<Longrightarrow> (\<And>v. R v \<Longrightarrow> P (trace v)) \<Longrightarrow>
    P (final_trace (m w))"
  by (auto simp: triple_def final_trace_def split: outcome.splits)

lemma guarded_all: "guarded P t \<Longrightarrow> (\<And>h e. P h e \<Longrightarrow> Q e) \<Longrightarrow> list_all Q t"
  by (induction t) auto

text \<open>The definitions that a short run unfolds.\<close>

lemmas runs = finished_def bind_def seq_def return_def get_def upd_def sys_def sys_int_def sys_str_def sysu_def
  sys_stat_def whenp_def halt_def ret_int_def ret_str_def ret_stat_def ret_err_def lift_res_def Let_def
  client_env_def client_os_def user_world_def demo_world_def demo_sess_def the_session_def asked_before_def
  line_at_def client_tun_def check_pending_actions_def handle_io_def vsf_sysutil_retval_is_error_def

section \<open>The processes of a connection\<close>

text \<open>A connection at its start: both sessions know the client's address, and nothing has happened.\<close>

definition fresh_connection :: "broker \<Rightarrow> world \<Rightarrow> bool" where
  "fresh_connection B w \<longleftrightarrow> login_sess B (sess w) (psess w) \<and> trace w = []"

lemma fresh_inv: "fresh_connection B w \<Longrightarrow> login_inv [] E B w" "fresh_connection B w \<Longrightarrow> one_inv [] E B w"
  by (simp_all add: fresh_connection_def policy_after_def)

lemma guarded_weaken: "guarded P t \<Longrightarrow> (\<And>h e. P h e \<Longrightarrow> Q h e) \<Longrightarrow> guarded Q t"
  by (induction t) auto

lemma demo_broker_inv: "broker_sess demo_broker demo_sess" "ftp_sess demo_broker True demo_sess demo_sess"
  by (simp_all add: broker_sess_def ftp_sess_def demo_sess_def demo_broker_def the_session_def demo_addr_def same_host_refl)

text \<open>C1. The connection as a whole, from its first process on and through every fork, whatever the
  client, the other processes and the system do: before a login there are only harmless checks, changes
  of directory and reads of the files of the configuration; a session acts under the identity and in the
  root its login entitles it to, by the policy for its kind of user; the privileged parent serves it by
  the broker's policy.\<close>

theorem connection_obeys_policy:
  assumes "fresh_connection B w" "\<not> tunable_one_process_model E"
  shows "guarded (login_policy E B) (final_trace (vsf_two_process_start E guesses answers requests w))"
  by (rule triple_final[OF connection_run[OF assms(2)] fresh_inv(1)[OF assms(1)]]) (simp_all add: policy_after_def guarded_after_Nil)

lemma demo_fresh: "fresh_connection demo_broker demo_world"
  by (simp add: fresh_connection_def login_sess_def demo_world_def demo_broker_inv)
    (simp add: demo_sess_def the_session_def)

lemma connection_obeys_policy_witness:
  "guarded (login_policy demo_env demo_broker)
    (final_trace (vsf_two_process_start demo_env [Byte PRIV_SOCK_LOGIN] [] [] demo_world))"
  by (rule connection_obeys_policy[OF demo_fresh])
    (simp add: demo_env_def tunables_load_defaults_def default_bools_def)







text \<open>C3. However many commands the client sends before it has logged in, the unprivileged process asks
  its parent for no more logins than the limit on failures allows (one is always possible): each request
  takes one of the parent's answers.\<close>

theorem guesses_are_limited:
  assumes "\<not> tunable_one_process_model E" "login_fails (sess w) = 0"
  shows "case init_connection E w of
      Done _ w' \<Rightarrow> length (p2c w) \<le> length (p2c w') + max 1 (unat (tunable_max_login_fails E))
    | Halt _ w' \<Rightarrow> length (p2c w) \<le> length (p2c w') + max 1 (unat (tunable_max_login_fails E))"
  using tripleD[OF guesses_bounded[of E w, OF assms], of w] by (simp add: attempts_bound_def split: outcome.splits)

lemma guesses_are_limited_witness:
  "case init_connection demo_env demo_world of
      Done _ w' \<Rightarrow> length (p2c demo_world) \<le> length (p2c w') + max 1 (unat (tunable_max_login_fails demo_env))
    | Halt _ w' \<Rightarrow> length (p2c demo_world) \<le> length (p2c w') + max 1 (unat (tunable_max_login_fails demo_env))"
  by (rule guesses_are_limited)
    (simp_all add: demo_env_def tunables_load_defaults_def default_bools_def demo_world_def demo_sess_def the_session_def)

text \<open>C4. The connection in one process serves anonymous users only: each call beyond harmless checks is
  one that the policy allows to them, and comes after the chroot unless the server runs as the user that
  launched it.\<close>

theorem one_process_is_anonymous:
  assumes "fresh_connection B w"
  shows "guarded (\<lambda>h e. before_login E e \<or> tunable_anonymous_enable E
      \<and> (tunable_run_as_launching_user E \<or> jailed h) \<and> ftp_policy E B True h e)
    (final_trace (vsf_one_process_start E w))"
proof -
  have "guarded (one_process_policy E B) (final_trace (vsf_one_process_start E w))"
    by (rule triple_final[OF one_process_run fresh_inv(2)[OF assms]]) (simp_all add: policy_after_def guarded_after_Nil)
  then show ?thesis by (rule guarded_weaken) (auto simp: one_process_policy_def confined_start_def)
qed

lemma one_process_is_anonymous_witness:
  "guarded (\<lambda>h e. before_login demo_env e \<or> tunable_anonymous_enable demo_env
      \<and> (tunable_run_as_launching_user demo_env \<or> jailed h) \<and> ftp_policy demo_env demo_broker True h e)
    (final_trace (vsf_one_process_start demo_env demo_world))"
  by (rule one_process_is_anonymous[OF demo_fresh])

section \<open>The privileged parent and the session\<close>

text \<open>C5. Whatever the child has put into the channel, and for any number of requests, the
  privileged parent keeps to the broker's policy: it connects to the peer of the control connection
  only and on ports from 1024, binds the local address on allowed ports only, gives away only regular
  files it has just seen to belong to the anonymous or guest user, and only when uploads are to be
  given away at all, and changes no file otherwise.\<close>

theorem broker_obeys_policy:
  assumes "broker_inv E B w"
  shows "case priv_parent_requests E n w of
      Done _ w' \<Rightarrow> guarded (broker_policy E B) (trace w')
    | Halt _ w' \<Rightarrow> guarded (broker_policy E B) (trace w')"
  using tripleD[OF broker_loop[unfolded keeps_def] assms, of n]
  by (auto simp: policy_def split: outcome.splits)

lemma broker_obeys_policy_witness:
  "case priv_parent_requests demo_env 3 (demo_world\<lparr>c2p := [Byte PRIV_SOCK_PASV_ACTIVE]\<rparr>) of
      Done _ w' \<Rightarrow> guarded (broker_policy demo_env demo_broker) (trace w')
    | Halt _ w' \<Rightarrow> guarded (broker_policy demo_env demo_broker) (trace w')"
  by (rule broker_obeys_policy) (simp add: policy_def demo_world_def demo_broker_inv)

text \<open>C6. Whatever the client sends and the system answers, a session after login obeys the policy
  its configuration stands for, at every moment of its run: each kind of change to the file system only
  where the tunables allow it to this kind of user, modes within 0777, connections only to the client's
  own address and no privileged port unless PORT is promiscuous, binds only to the local address and the
  configured ports, listings only when enabled.\<close>

theorem session_obeys_policy:
  assumes "ftp_inv E B a w"
  shows "guarded (ftp_policy E B a) (final_trace (process_post_login E w))"
  by (rule triple_final[OF ftp_policy_kept assms]) (simp_all add: policy_def)

lemma session_obeys_policy_witness:
  "guarded (ftp_policy demo_env demo_broker True) (final_trace (process_post_login demo_env demo_world))"
proof (rule session_obeys_policy)
  show "ftp_inv demo_env demo_broker True demo_world"
    by (simp add: policy_def demo_world_def demo_broker_inv target_ok_def) (simp add: demo_sess_def the_session_def)
qed




lemma demo_ftp_inv: "ftp_inv demo_env demo_broker True demo_world"
  by (simp add: policy_def demo_world_def demo_broker_inv target_ok_def) (simp add: demo_sess_def the_session_def)


lemma policy_connects: "\<not> tunable_port_promiscuous E \<Longrightarrow> ftp_policy E B a h e \<Longrightarrow>
    case fst e of Connect fd x t \<Rightarrow> vsf_sysutil_sockaddr_addr_equal (peer B) x \<and> port_of x \<ge> 1024 | _ \<Rightarrow> True"
  by (cases "fst e"; cases e) (auto simp: target_allowed_def)

text \<open>C8. The server cannot be made to attack others: unless PORT is promiscuous, every connection that
  a session opens goes to the address of the client, and to no port below 1024.\<close>

theorem no_ftp_bounce:
  assumes "ftp_inv E B a w" "\<not> tunable_port_promiscuous E"
  shows "list_all (\<lambda>e. case fst e of
      Connect fd x t \<Rightarrow> vsf_sysutil_sockaddr_addr_equal (peer B) x \<and> port_of x \<ge> 1024 | _ \<Rightarrow> True)
    (final_trace (process_post_login E w))"
proof -
  have g: "guarded (ftp_policy E B a) (final_trace (process_post_login E w))"
    by (rule triple_final[OF ftp_policy_kept assms(1)]) (simp_all add: policy_def)
  show ?thesis by (rule guarded_all[OF g policy_connects[OF assms(2)]])
qed

lemma no_ftp_bounce_witness:
  "list_all (\<lambda>e. case fst e of
      Connect fd x t \<Rightarrow> vsf_sysutil_sockaddr_addr_equal (peer demo_broker) x \<and> port_of x \<ge> 1024 | _ \<Rightarrow> True)
    (final_trace (process_post_login demo_env demo_world))"
  by (rule no_ftp_bounce[OF demo_ftp_inv])
     (simp add: demo_env_def tunables_load_defaults_def default_bools_def)

text \<open>C9. A rename starts from a name that stat has found since the last rename: RNTO without a
  successful RNFR, or a second RNTO, renames nothing.\<close>

theorem renames_are_prepared:
  assumes "rename_inv a w"
  shows "guarded rename_policy (final_trace (process_post_login E w))"
  by (rule triple_final[OF rename.session[unfolded kept_def] assms]) (simp_all add: rename_inv_def renamed_inv_def)

lemma renames_are_prepared_witness:
  "guarded rename_policy (final_trace (process_post_login demo_env demo_world))"
  by (rule renames_are_prepared[where a = True])
     (simp add: rename_inv_def demo_world_def demo_sess_def the_session_def)

lemma exclusive_commands:
  "exclusive E a w \<Longrightarrow> block (replicate n (one_command E)) w = Done () w' \<Longrightarrow> exclusive E a w'"
proof (induction n arbitrary: w)
  case (Suc n)
  then obtain v where "one_command E w = Done () v" "block (replicate n (one_command E)) v = Done () w'"
    by (auto simp: seq_Done)
  then show ?case
    using Suc.IH Suc.prems(1) exclusive.command[of E a, unfolded kept_Done] by blast
qed (simp add: return_def)

text \<open>C10. PORT and PASV exclude each other after any number of commands, in both process models, and so
  the two functions that ask each other whether a connection is set up come to an answer.\<close>

theorem port_excludes_passive:
  assumes "exclusive E a w" "fuel E \<ge> 2" "block (replicate n (one_command E)) w = Done () w'"
  shows "\<not> (passive_on E w' \<and> port_on w')
    \<and> data_connection_set E w' = Done (passive_on E w' \<or> port_on w') w'"
  using exclusive_commands[OF assms(1,3)] connection_set[OF _ assms(2)] by (auto simp: exclusive_def)

lemma port_excludes_passive_witness:
  "\<exists>w'. block (replicate 1 (one_command (client_env [''NOOP''] []))) (user_world (-1)) = Done () w'
    \<and> \<not> (passive_on (client_env [''NOOP''] []) w' \<and> port_on w')"
proof -
  have "finished (block (replicate 1 (one_command (client_env [''NOOP''] [])))) (user_world (-1))"
    by code_simp
  then obtain w' where "block (replicate 1 (one_command (client_env [''NOOP''] []))) (user_world (-1)) = Done () w'"
    by (elim finishedE) simp
  moreover have "exclusive (client_env [''NOOP''] []) False (user_world (-1))"
    by (simp add: exclusive_def service_ready_def port_on_def runs)
  ultimately show ?thesis
    using port_excludes_passive[of "client_env [''NOOP''] []" False "user_world (-1)" 1 w']
    by (auto simp: client_env_def)
qed

section \<open>Privileged operations\<close>

text \<open>C11. A completed change of credentials without capabilities to keep has, in this order, entered
  the chroot when it was asked to, set the group and set the user for good, both of the account the
  call looked up under the user's name; nothing but harmless checks follows the setuid.\<close>

theorem credentials_dropped:
  assumes "vsf_secutil_change_credentials E user d ext 0 options w = Done () w'"
  shows "\<exists>u b. dropped u (trace w') (b @ trace w)
     \<and> (Getpwnam (c_text user), RUser (Some u)) \<in> set b
     \<and> (option_on options VSF_SECUTIL_OPTION_CHROOT \<longrightarrow> succeeded (Call ''chroot'' [] [''.'']) b)"
  using tripleD[OF change_credentials_drops[of "trace w" E user d ext options], of w] assms
  by (simp add: extends_def)

lemma credentials_dropped_witness:
  "\<exists>w'. vsf_secutil_change_credentials demo_env ''ftp'' ''/srv/ftp'' None 0 VSF_SECUTIL_OPTION_CHROOT demo_world
      = Done () w' \<and> (\<exists>u b. dropped u (trace w') (b @ trace demo_world)
        \<and> succeeded (Call ''chroot'' [] [''.'']) b)"
proof -
  have "finished (vsf_secutil_change_credentials demo_env ''ftp'' ''/srv/ftp'' None 0 VSF_SECUTIL_OPTION_CHROOT) demo_world"
    by code_simp
  then obtain w' where "vsf_secutil_change_credentials demo_env ''ftp'' ''/srv/ftp'' None 0
      VSF_SECUTIL_OPTION_CHROOT demo_world = Done () w'"
    by (elim finishedE) simp
  moreover have "option_on VSF_SECUTIL_OPTION_CHROOT VSF_SECUTIL_OPTION_CHROOT" by (simp add: option_on_def)
  ultimately show ?thesis using credentials_dropped by blast
qed

text \<open>C12. A passive port is a fresh socket, bound and listening, on a port of the configured range,
  which never goes below 1024; and there was none before.\<close>

theorem passive_port_listens:
  assumes "vsf_privop_pasv_listen E w = Done p w'"
  shows "pasv_listen_fd (sess w) = -1 \<and> listening p w' \<and> 1024 \<le> p
    \<and> pasv_min_port E \<le> p \<and> p \<le> pasv_max_port E"
  using pasv_listen_Done[OF assms] pasv_range(1)[of E] by auto

lemmas listen_runs = vsf_privop_pasv_listen_def pasv_attempt_def pasv_socket_def
   vsf_sysutil_get_random_byte_def vsf_sysutil_get_ipv4_sock_def vsf_sysutil_bind_def vsf_sysutil_listen_def
   vsf_sysutil_sockaddr_clone_def vsf_sysutil_sockaddr_set_port_def vsf_sysutil_sockaddr_is_ipv6_def demo_addr_def
   eval_nat_numeral

lemma passive_port_listens_witness:
  "\<exists>p w'. vsf_privop_pasv_listen (client_env [] []) (user_world (-1)) = Done p w' \<and> listening p w' \<and> 1024 \<le> p"
proof -
  have "finished (vsf_privop_pasv_listen (client_env [] [])) (user_world (-1))"
    by (simp add: runs listen_runs)
  then obtain p w' where "vsf_privop_pasv_listen (client_env [] []) (user_world (-1)) = Done p w'"
    by (elim finishedE)
  then show ?thesis using passive_port_listens by blast
qed

text \<open>C13. A passive connection is handed out only when its peer has the address of the client, unless
  passive mode is promiscuous: otherwise it is closed and refused.\<close>

theorem accept_checks_peer:
  assumes "vsf_privop_accept_pasv E w = Done fd w'" "fd \<ge> 0" "\<not> tunable_pasv_promiscuous E"
  shows "\<exists>r. trace w' = (Accept (pasv_listen_fd (sess w)) (tunable_accept_timeout E), r) # trace w
    \<and> ret_int r = fd \<and> vsf_sysutil_sockaddr_addr_equal (p_remote_addr (sess w)) (ret_peer r)"
  using assms
  by (auto simp: vsf_privop_accept_pasv_def vsf_sysutil_accept_timeout_def bind_Done seq_Done get_def return_def
      sys_def Let_def bug_ends vsf_sysutil_retval_is_error_def split: if_splits)

lemma accept_checks_peer_witness:
  "\<exists>w'. vsf_privop_accept_pasv (client_env [] []) (user_world (-1)\<lparr>sess := demo_sess\<lparr>pasv_listen_fd := 6\<rparr>\<rparr>) = Done 7 w'
    \<and> (\<exists>r. trace w' = (Accept 6 0, r) # [] \<and> ret_int r = 7
        \<and> vsf_sysutil_sockaddr_addr_equal (demo_addr 2) (ret_peer r))"
proof -
  let ?E = "client_env [] []" and ?w = "user_world (-1)\<lparr>sess := demo_sess\<lparr>pasv_listen_fd := 6\<rparr>\<rparr>"
  have p: "\<not> tunable_pasv_promiscuous ?E" by (simp add: client_env_def client_tun_def)
  have "\<exists>w'. vsf_privop_accept_pasv ?E ?w = Done 7 w'"
    by (simp add: runs vsf_privop_accept_pasv_def vsf_sysutil_accept_timeout_def ret_peer_def demo_addr_def
        vsf_sysutil_sockaddr_addr_equal_def)
  then obtain w' where d: "vsf_privop_accept_pasv ?E ?w = Done 7 w'" by blast
  show ?thesis
    using d accept_checks_peer[OF d _ p] by (auto simp: runs)
qed

text \<open>C14. With nothing in flight, a request to listen does what the operation does in the parent
  itself, and the child reads the port that the parent has bound.\<close>

theorem listen_request_refines:
  assumes "quiet w"
  shows "vsf_two_process_listen E w = as_parent (vsf_privop_pasv_listen E) w"
  by (rule request_listen[OF assms])

lemma listen_request_refines_witness:
  "vsf_two_process_listen demo_env demo_world = as_parent (vsf_privop_pasv_listen demo_env) demo_world"
  by (rule listen_request_refines) (simp add: quiet_def demo_world_def)

text \<open>C15. So does a request for a data connection from a privileged port: the child gets the
  descriptor the parent has connected, and the parent has closed its own.\<close>

theorem data_sock_request_refines:
  assumes "quiet w" "p_port_sockaddr (sess w) = Some a" "vsf_sysutil_sockaddr_get_port a = Inr port"
  shows "vsf_two_process_get_priv_data_sock E w = Done x w' \<longleftrightarrow>
    as_parent (handing_over E (vsf_privop_get_ftp_port_sock E port False)) w = Done x w'"
  by (rule request_data_sock[OF assms])

lemma data_sock_request_refines_witness:
  "\<forall>x w'. vsf_two_process_get_priv_data_sock demo_env (demo_world\<lparr>sess := demo_sess\<lparr>p_port_sockaddr := Some (demo_addr 2)\<rparr>\<rparr>) = Done x w' \<longleftrightarrow>
    as_parent (handing_over demo_env (vsf_privop_get_ftp_port_sock demo_env 40000 False))
      (demo_world\<lparr>sess := demo_sess\<lparr>p_port_sockaddr := Some (demo_addr 2)\<rparr>\<rparr>) = Done x w'"
proof (intro allI, rule data_sock_request_refines)
  show "vsf_sysutil_sockaddr_get_port (demo_addr 2) = Inr 40000"
    unfolding vsf_sysutil_sockaddr_get_port_def demo_addr_def sockaddr.case by (rule refl)
qed (simp_all add: quiet_def demo_world_def)

text \<open>C16. And so does the request to give an upload away.\<close>

theorem chown_request_refines:
  assumes "quiet w" "tunable_chown_uploads E" "vsf_two_process_chown_upload E fd w = Done () w'"
  shows "as_parent (seq (vsf_privop_do_file_chown E fd) (vsf_sysutil_close E fd)) w = Done () w'"
  by (rule request_chown[OF assms])

definition chown_env :: env where
  "chown_env = (client_env [] [])\<lparr>tun := client_tun\<lparr>bools := (\<lambda>x. x = ''chown_uploads'')\<rparr>\<rparr>"

definition chown_world :: world where
  "chown_world = demo_world\<lparr>psess := demo_sess\<lparr>anon_upload_chown_uid := 1000\<rparr>\<rparr>"

lemma chown_request_refines_witness:
  "\<exists>w'. as_parent (seq (vsf_privop_do_file_chown chown_env 5) (vsf_sysutil_close chown_env 5)) chown_world = Done () w'"
proof -
  have "finished (vsf_two_process_chown_upload chown_env 5) chown_world" by code_simp
  then obtain w' where d: "vsf_two_process_chown_upload chown_env 5 chown_world = Done () w'"
    by (elim finishedE) simp
  have "quiet chown_world" "tunable_chown_uploads chown_env"
    by (simp_all add: quiet_def chown_world_def demo_world_def chown_env_def)
  then show ?thesis using chown_request_refines d by blast
qed

text \<open>C17. In both process models a passive service that is cleaned up and then asked to listen says
  that it is active, on a port of the range.\<close>

theorem passive_restart:
  assumes "service_ready E w" "seq (pasv_cleanup E) (service_listen E) w = Done p w'"
  shows "service_active E w' = Done 1 w' \<and> pasv_min_port E \<le> p \<and> p \<le> pasv_max_port E"
  by (rule chosen.restart[OF assms])

lemma passive_restart_witness:
  "\<exists>p w'. seq (pasv_cleanup (client_env [] [])) (service_listen (client_env [] [])) (user_world (-1)) = Done p w'
    \<and> service_active (client_env [] []) w' = Done 1 w'"
proof -
  have "finished (seq (pasv_cleanup (client_env [] [])) (service_listen (client_env [] []))) (user_world (-1))"
    by (simp add: runs listen_runs pasv_cleanup_def service_listen_def vsf_one_process_pasv_cleanup_def
        vsf_privop_pasv_cleanup_def vsf_one_process_listen_def)
  then obtain p w' where d: "seq (pasv_cleanup (client_env [] [])) (service_listen (client_env [] [])) (user_world (-1)) = Done p w'"
    by (elim finishedE)
  have "service_ready (client_env [] []) (user_world (-1))" by (simp add: service_ready_def client_env_def client_tun_def)
  then show ?thesis using d passive_restart by blast
qed

section \<open>Transfers\<close>

text \<open>C18. An upload in binary mode is a copy: when no signal disturbs it, what has been written to the
  file when the transfer ends is exactly what has come in over the data connection, in order, and the
  byte count is its length, even when the connection failed half way; only a failing write is reported
  otherwise.\<close>

theorem upload_copies:
  assumes "undisturbed E" "\<not> data_use_ssl (sess w)"
    and "do_file_recv E file False w = Done r w'" "retval r \<noteq> -1"
  shows "\<exists>d. received (data_fd (sess w)) (trace w') = received (data_fd (sess w)) (trace w) @ d
    \<and> written file (trace w') = written file (trace w) @ d \<and> transferred r = int (length d)"
proof -
  have "copied (data_fd (sess w)) file (received (data_fd (sess w)) (trace w)) (written file (trace w)) w"
    using assms(2) by (simp add: copied_def)
  from recv_loop_copies[OF assms(1) this assms(3)[unfolded do_file_recv_def] _ assms(4)]
  show ?thesis by (auto simp: copied_def)
qed

lemma client_undisturbed: "undisturbed (client_env lines d)"
  by (simp add: undisturbed_def client_env_def client_os_def ret_int_def)

lemma upload_copies_witness:
  "\<exists>r w'. do_file_recv (client_env [] ''hello'') 5 False (user_world 7) = Done r w' \<and> retval r = 0
    \<and> written 5 (trace w') = ''hello'' \<and> transferred r = 5
    \<and> (\<exists>d. received 7 (trace w') = d \<and> written 5 (trace w') = d \<and> transferred r = int (length d))"
proof -
  let ?E = "client_env [] ''hello''"
  have "case do_file_recv ?E 5 False (user_world 7) of
      Done r w' \<Rightarrow> retval r = 0 \<and> written 5 (trace w') = ''hello'' \<and> transferred r = 5 | Halt _ _ \<Rightarrow> False"
    by (simp add: runs do_file_recv_def ftp_read_data_def vsf_sysutil_read_def vsf_sysutil_write_loop_def incoming_def
        get_chunk_size_def VSFTP_DATA_BUFSIZE_def)
  then obtain r w' where d: "do_file_recv ?E 5 False (user_world 7) = Done r w'" "retval r = 0"
      "written 5 (trace w') = ''hello''" "transferred r = 5"
    by (elim doneE) blast
  have "\<not> data_use_ssl (sess (user_world 7))" "data_fd (sess (user_world 7)) = 7" "trace (user_world 7) = []"
    by (simp_all add: user_world_def demo_world_def demo_sess_def the_session_def Let_def)
  then show ?thesis
    using upload_copies[OF client_undisturbed _ d(1)] d by auto
qed





text \<open>C21. An upload in ASCII mode never takes a single byte: a transfer that ends has received none,
  because the conversion fails on the first piece.\<close>

theorem ascii_upload_receives_nothing:
  assumes "do_file_recv E file True w = Done r w'"
  shows "transferred r = 0"
  using ascii_recv_moves_nothing assms unfolding do_file_recv_def by blast

lemma ascii_upload_receives_nothing_witness:
  "\<exists>r w'. do_file_recv (client_env [] []) 5 True (user_world 7) = Done r w' \<and> transferred r = 0"
proof -
  let ?E = "client_env [] []"
  have "finished (do_file_recv ?E 5 True) (user_world 7)"
    by (simp add: runs do_file_recv_def ftp_read_data_def vsf_sysutil_read_def get_chunk_size_def VSFTP_DATA_BUFSIZE_def)
  then show ?thesis by (elim finishedE) (use ascii_upload_receives_nothing in blast)
qed



text \<open>C23. The conversion itself, given two buffers apart, is right: the output is the input with a CR
  before every LF that had none, whatever was pending, within twice the length of the input.\<close>

theorem bin_to_ascii_converts:
  assumes "separate a b n" "b + 2 * n \<le> length mem" "a + n \<le> length mem"
    and "src = take n (drop a mem)"
  shows "\<exists>mem'. vsf_ascii_bin_to_ascii mem a b n prev
      = Inr (mem', \<lparr>b_stored = length (crlf prev src), b_last_was_cr = ends_in_cr prev src\<rparr>)
    \<and> take (length (crlf prev src)) (drop b mem') = crlf prev src \<and> \<not> bare_lf prev (crlf prev src)"
  using bin_to_ascii_separate[OF assms, of prev] crlf_no_bare_lf[of prev src] by blast

lemma bin_to_ascii_converts_witness:
  "\<exists>mem'. vsf_ascii_bin_to_ascii ([CHR ''a'', LF] @ replicate 4 NUL) 0 2 2 False
      = Inr (mem', \<lparr>b_stored = 3, b_last_was_cr = False\<rparr>) \<and> take 3 (drop 2 mem') = [CHR ''a'', CR, LF]"
  using bin_to_ascii_converts[of 0 2 2 "[CHR ''a'', LF] @ replicate 4 NUL" "[CHR ''a'', LF]" False]
  by (simp add: separate_def LF_def CR_def numeral_3_eq_3)


section \<open>Text\<close>

text \<open>C24. Appending to a string buffer does what it does to texts, from every well-formed buffer and
  for every result that fits: the buffer is enlarged when needed, no byte of it is lost, the terminator
  is in place and no bounds check fails.\<close>

theorem append_refines:
  assumes "str_rel s xs" "fits (length xs + length src)"
  shows "\<exists>s'. private_str_append_memchunk s src = Inr s' \<and> str_ok s' \<and> str_abs s' = xs @ src"
  using append_memchunk_rel[OF assms] by (auto simp: yields_def str_rel_def)

lemma append_refines_witness:
  "\<exists>s'. private_str_append_memchunk INIT_MYSTR ''ab'' = Inr s' \<and> str_ok s' \<and> str_abs s' = ''ab''"
  using append_refines[of INIT_MYSTR "[]" "''ab''"] by (simp add: fits_def INT_MAX_def)

text \<open>C25. Replacing one text by another in a buffer replaces the occurrences found from the left, and
  nothing else, whatever the lengths of the two.\<close>

theorem replace_refines:
  assumes "str_rel s xs" "cfits fr" "cfits to" "fits (length (replace_text xs (c_text fr) (c_text to)))"
  shows "\<exists>s'. str_replace_text s fr to = Inr s' \<and> str_rel s' (replace_text xs (c_text fr) (c_text to))"
  using str_replace_text_rel[OF assms] by (simp add: yields_def)

lemma cfits_short: "cfits [a, b]" "cfits [a]"
  by (simp_all add: cfits_def c_text_def INT_MAX_def)

lemma replace_refines_witness:
  "\<exists>s'. str_replace_text INIT_MYSTR [CHR ''a''] ''bc'' = Inr s' \<and> str_rel s' []"
  using replace_refines[of INIT_MYSTR "[]" "[CHR ''a'']" "''bc''"] replace_text_single[of "[]" "CHR ''a''"]
  by (simp add: cfits_short fits_def INT_MAX_def c_text_def NUL_def)

text \<open>C26. Splitting a buffer at a text that occurs in it leaves what is before the first occurrence
  in the one buffer and puts what is behind it into the other.\<close>

theorem split_at_first:
  assumes "str_rel s xs" "str_rel r ys" "cfits t" "c_text t \<noteq> []" "sublist (c_text t) xs"
  shows "\<exists>s' r' l m. str_split_text s r t = Inr (s', r') \<and> str_rel s' l \<and> str_rel r' m
    \<and> xs = l @ c_text t @ m \<and> \<not> sublist (c_text t) (butlast (l @ c_text t))"
proof -
  obtain i where i: "locate_text xs (c_text t) = Some i"
    using locate_text_sublist[of xs "c_text t"] assms(4,5) by blast
  show ?thesis
    using str_split_text_rel(1)[OF assms(1-3)] split_text_found[OF i] by (auto simp: yields2_def)
qed

lemma split_at_first_witness:
  "\<exists>s s' r' l m. str_rel s ''a=b'' \<and> str_split_text s INIT_MYSTR ''='' = Inr (s', r')
    \<and> str_rel s' l \<and> str_rel r' m \<and> ''a=b'' = l @ ''='' @ m"
proof -
  obtain s where s: "str_rel s ''a=b''"
    using append_memchunk_rel[of INIT_MYSTR "[]" "''a=b''"] by (auto simp: yields_def fits_def INT_MAX_def)
  have t: "c_text ''='' = ''=''" by (simp add: c_text_def NUL_def)
  have "sublist ''='' ''a=b''" by (rule sublist_appendI[of "''=''" "''a''" "''b''", simplified])
  then show ?thesis
    using split_at_first[OF s INIT_MYSTR_rel, of "''=''"] s by (simp add: cfits_short t) blast
qed

text \<open>C27. A file size below 10 to the 15 that is printed and read back is the same size.\<close>

theorem filesize_roundtrip:
  assumes "n < 10 ^ 15"
  shows "vsf_sysutil_a_to_filesize_t (vsf_sysutil_filesize_t_to_str (int n)) = int n"
  using length_digits[OF assms]
  by (simp add: a_to_filesize_t_eq vsf_sysutil_filesize_t_to_str_def dec_value_digits)

lemma filesize_roundtrip_witness:
  "vsf_sysutil_a_to_filesize_t (vsf_sysutil_filesize_t_to_str (int 1234567)) = int 1234567"
  by (rule filesize_roundtrip) simp

section \<open>Configuration\<close>

text \<open>C28. Every number with a leading zero in the configuration is read as 0: the octal reader looks
  at its first digit again and again, so that anon_umask=077 means a umask of 0.\<close>

theorem octal_settings_are_zero:
  assumes "map_of parseconf_str_array n = None" "map_of parseconf_bool_array n = None"
    and "map_of parseconf_uint_array n = Some x"
    and "CHR ''='' \<notin> set n" "NUL \<notin> set n" "NUL \<notin> set v"
  shows "vsf_parseconf_load_setting (n @ CHR ''='' # CHR ''0'' # v) fatal T = Inr (set_uint x 0 T)"
proof -
  have "parse_uint (CHR ''0'' # v) = 0"
    using assms(6) by (simp add: parse_uint_def vsf_sysutil_octal_to_uint_def c_text_id NUL_def octal_loop_zero)
  moreover have "NUL \<notin> set (CHR ''0'' # v)" using assms(6) by (simp add: NUL_def)
  ultimately show ?thesis
    using load_setting_uint[OF assms(1-5), of "CHR ''0'' # v"] by simp
qed

lemma octal_settings_are_zero_witness:
  "vsf_parseconf_load_setting ''anon_umask=077'' True tunables_load_defaults
    = Inr (set_uint ''anon_umask'' 0 tunables_load_defaults)"
  using octal_settings_are_zero[of "''anon_umask''" "''anon_umask''" "''77''" True tunables_load_defaults]
  by (simp add: parseconf_str_array_def parseconf_bool_array_def parseconf_uint_array_def NUL_def)



section \<open>Names and listings\<close>

text \<open>C30. A file that passes a relative filter without braces has a resolved name whose last
  component matches the pattern, read as a glob.\<close>

theorem filter_matches:
  assumes "filename_passes E name f 0 w = Done (True, n) w'"
    and "CHR ''{'' \<notin> set f" "f \<noteq> []" "hd f \<noteq> CHR ''/''"
  shows "\<exists>normal v. vsf_sysutil_realpath E name True w = Done (Some normal) v \<and> glob f (basename (c_text normal))"
proof -
  obtain normal v remain v' where r: "vsf_sysutil_realpath E name True w = Done (Some normal) v"
    and fn: "filter_name E f (c_text normal) v = Done remain v'" and g: "glob f remain"
    using filename_passes_sound[OF assms(1,2)] by blast
  have "hd f \<noteq> CHR ''{''" using assms(2,3) hd_in_set by metis
  moreover have "basename [] = []"
    by (auto simp: basename_def split_char_reverse_def split_text_reverse_def split: option.split)
  ultimately have "remain = basename (c_text normal)"
    using fn assms(3,4) by (cases "c_text normal") (simp_all add: filter_name_def return_def)
  then show ?thesis using r g by blast
qed

lemma star_passes: "\<exists>n w'. filename_passes demo_env ''a.c'' ''*'' 0 demo_world = Done (True, n) w'"
proof -
  have "case filename_passes demo_env ''a.c'' ''*'' 0 demo_world of Done (ok, n) w' \<Rightarrow> ok | Halt _ _ \<Rightarrow> False"
    by code_simp
  then show ?thesis by (auto split: outcome.splits)
qed

lemma filter_matches_witness:
  "\<exists>normal v. vsf_sysutil_realpath demo_env ''a.c'' True demo_world = Done (Some normal) v
    \<and> glob ''*'' (basename (c_text normal))"
  using star_passes filter_matches[of demo_env "''a.c''" "''*''" demo_world] by fastforce


text \<open>C32. Where a directory ends after some reads, its listing comes to an end, for every option,
  filter and content.\<close>

theorem listing_terminates:
  assumes "dir_bound E d k" "fuel E > k"
  shows "vsf_ls_populate_dir_list E l m sub d b opt f v w \<noteq> Halt Unfinished w'"
  by (rule populate_ends[OF assms])

lemma listing_terminates_witness:
  "\<forall>w w'. vsf_ls_populate_dir_list demo_env INIT_STRLIST INIT_STRLIST True 5 ''.'' ''-la'' [] True w
    \<noteq> Halt Unfinished w'"
  by (intro allI, rule listing_terminates[where k = 0])
     (simp_all add: dir_bound_def demo_env_def demo_os_def ret_str_def)

section \<open>What goes over the wire\<close>

text \<open>C33. A response is one line: whatever text it carries, a newline of it cannot end the line or
  begin another response.\<close>

theorem response_is_one_line:
  assumes "sep \<noteq> LF"
  shows "\<exists>body. ftp_response status sep s = body @ [CR, LF] \<and> LF \<notin> set body"
proof -
  have "LF \<notin> set (digits 10 m)" for m by (rule digit_notin[where n = 10]) (simp_all add: LF_def)
  then have "LF \<notin> set (vsf_sysutil_ulong_to_str (word_of_nat status) @ [sep]
      @ replace_char (replace_text s [TELNET_IAC] [TELNET_IAC, TELNET_IAC]) LF NUL)"
    using assms by (auto simp: vsf_sysutil_ulong_to_str_def replace_char_def LF_def NUL_def)
  then show ?thesis unfolding ftp_response_def by (metis append_assoc)
qed

lemma response_is_one_line_witness:
  "\<exists>body. ftp_response 257 (CHR '' '') [CHR ''a'', LF, CHR ''b''] = body @ [CR, LF] \<and> LF \<notin> set body"
  by (rule response_is_one_line) (simp add: LF_def)

text \<open>C34. A string that the child sends through the privilege socket is what the parent receives, if
  the protocol allows its length, and nothing is left behind.\<close>

theorem privsock_roundtrip:
  assumes "c2p w = []" "length s \<le> VSFTP_PRIVSOCK_MAXSTR"
    and "priv_sock_send_str Child_end s w = Done () v"
  shows "priv_sock_get_str E Parent_end v = Done s (v\<lparr>c2p := []\<rparr>)"
proof -
  have "c2p v = map Byte (encode_int (int (length s)) @ s) @ []"
    using assms(1,3)
    by (auto simp: priv_sock_send_str_def priv_sock_send_int_def chan_write_def whenp_def seq_def bind_def
        return_def split: if_splits)
  then show ?thesis by (rule get_str_sent[OF assms(2)])
qed

lemma privsock_roundtrip_witness:
  "\<exists>v. priv_sock_send_str Child_end ''ftp'' demo_world = Done () v
    \<and> priv_sock_get_str demo_env Parent_end v = Done ''ftp'' (v\<lparr>c2p := []\<rparr>)"
proof -
  have "c2p demo_world = []" by (simp add: demo_world_def)
  moreover have "\<exists>v. priv_sock_send_str Child_end ''ftp'' demo_world = Done () v"
    by (simp add: priv_sock_send_str_def priv_sock_send_int_def chan_write_def runs)
  moreover have "length ''ftp'' \<le> VSFTP_PRIVSOCK_MAXSTR" by (simp add: VSFTP_PRIVSOCK_MAXSTR_def)
  ultimately show ?thesis using privsock_roundtrip by blast
qed

text \<open>C35. The numbers that PASV announces are an argument for PORT: read by the parser of PORT they
  are the address and the port that were announced.\<close>

theorem pasv_port_roundtrip:
  assumes "length a = 4" "pasv_reply_text E False (Sin a q) port w = Done t w'"
  shows "\<exists>args vals. t = ''Entering Passive Mode ('' @ args @ '').''
    \<and> vsf_sysutil_parse_uchar_string_sep args (CHR '','') 6 = Some vals
    \<and> take 4 vals = a \<and> word_of_nat (of_char (vals ! 4) * 256 + of_char (vals ! 5)) = port"
  using pasv_text_parsed[OF assms(1)] assms(2)
  by (auto simp: pasv_reply_text_def bind_def lift_res_def vsf_sysutil_inet_ntop_def return_def)

lemma pasv_port_roundtrip_witness:
  "\<exists>t w' args vals. pasv_reply_text demo_env False (demo_addr 1) 40000 demo_world = Done t w'
    \<and> t = ''Entering Passive Mode ('' @ args @ '').''
    \<and> vsf_sysutil_parse_uchar_string_sep args (CHR '','') 6 = Some vals \<and> take 4 vals = [CHR 0x0A, NUL, NUL, char_of (1 :: nat)]"
proof -
  have "\<exists>t w'. pasv_reply_text demo_env False (Sin [CHR 0x0A, NUL, NUL, char_of (1 :: nat)] 40000) 40000 demo_world = Done t w'"
    by (simp add: pasv_reply_text_def bind_def lift_res_def vsf_sysutil_inet_ntop_def return_def)
  moreover have "demo_addr 1 = Sin [CHR 0x0A, NUL, NUL, char_of (1 :: nat)] 40000" by (simp add: demo_addr_def)
  moreover have "length [CHR 0x0A, NUL, NUL, char_of (1 :: nat)] = 4" by simp
  ultimately show ?thesis using pasv_port_roundtrip by metis
qed

text \<open>C36. A command that is not on the list of allowed ones, or is on the list of denied ones, is
  refused and nothing else happens.\<close>

theorem commands_refused:
  assumes "(\<exists>l. tunable_cmds_allowed E = Some l \<and> ftp_cmd_str (sess w) \<notin> set (takeWhile (\<lambda>e. e \<noteq> []) (elements (c_text l))))
    \<or> (\<exists>l. tunable_cmds_denied E = Some l \<and> ftp_cmd_str (sess w) \<noteq> []
        \<and> ftp_cmd_str (sess w) \<in> set (takeWhile (\<lambda>e. e \<noteq> []) (elements (c_text l))))"
  shows "run_command E w = vsf_cmdio_write E FTP_NOPERM ''Permission denied.'' w"
  using assms by (auto simp: run_command_def bind_def get_def cmd_ok_def listed_iff permission_denied_def)

definition denying_env :: env where
  "denying_env = demo_env\<lparr>tun := (set_str ''cmds_denied'' (Some ''SITE,DELE'') (tun demo_env))\<rparr>"

definition deleting_world :: world where
  "deleting_world = demo_world\<lparr>sess := demo_sess\<lparr>ftp_cmd_str := ''DELE''\<rparr>\<rparr>"

lemma commands_refused_witness:
  "run_command denying_env deleting_world
    = vsf_cmdio_write denying_env FTP_NOPERM ''Permission denied.'' deleting_world"
  by (rule commands_refused)
     (simp add: deleting_world_def denying_env_def demo_env_def set_str_def c_text_def NUL_def)

text \<open>C37. The test that decides whether a peer is the client compares the addresses it stands for: an
  IPv4 address and the same address mapped into IPv6 are equal, whatever the ports, and no others are.\<close>

theorem same_address:
  assumes "sockaddr_wf p" "sockaddr_wf q" "p \<noteq> Sa_unspec" "q \<noteq> Sa_unspec"
  shows "vsf_sysutil_sockaddr_addr_equal p q \<longleftrightarrow> norm_addr p = norm_addr q"
  by (rule addr_equal_iff[OF assms])

lemma same_address_witness:
  "vsf_sysutil_sockaddr_addr_equal (demo_addr 1) (Sin6 (v4_mapped_prefix @ [CHR 0x0A, NUL, NUL, char_of (1 :: nat)]) 21 0)
    \<and> \<not> vsf_sysutil_sockaddr_addr_equal (demo_addr 1) (demo_addr 2)"
  using same_address[of "demo_addr 1" "Sin6 (v4_mapped_prefix @ [CHR 0x0A, NUL, NUL, char_of (1 :: nat)]) 21 0"]
    same_address[of "demo_addr 1" "demo_addr 2"]
  by (simp add: demo_addr_def sockaddr_wf_def norm_addr_def vsf_sysutil_sockaddr_ipv6_v4_def)

section \<open>The sandbox\<close>

text \<open>C38. For every table of permitted calls the compiled filter, run by any machine that obeys the
  rules of the kernel's filter machine, decides as the table read from the top does: the first rule that
  matches the call and its arguments gives the answer, a call that no rule matches and a call of another
  architecture are killed; and the program has exactly the size that was reckoned from the counters.\<close>

theorem filter_implements_table:
  assumes "bpf_machine run" "sandbox_rel S rs"
  shows "\<exists>p. filter_program S = Inr p \<and> length p = filter_size S \<and> run p d 0 a = verdict rs d"
proof -
  have "run (program rs) d 0 a = verdict rs d"
    using bpf_machine.filter_correct[OF assms(1)] assms(2) by (simp add: sandbox_rel_def)
  then show ?thesis using filter_program_eq[OF assms(2)] by blast
qed

lemma filter_implements_table_witness:
  "\<exists>p. filter_program static_sandbox = Inr p \<and> length p = 5
    \<and> bpf_run p (\<lambda>off. if off = 4 then AUDIT_ARCH_X86_64 else 0) 0 0 = SECCOMP_RET_KILL"
  using filter_implements_table[OF kernel.bpf_machine_axioms sandbox_rel_static,
      of "\<lambda>off. if off = 4 then AUDIT_ARCH_X86_64 else 0" 0]
  by (simp add: filter_size_def verdict_def static_sandbox_def Let_def)



text \<open>C40. In the two-process model the sandbox forbids what giving an upload away needs: the session's
  filter kills the fchmod before the request, and the broker's filter kills the receipt of the descriptor,
  the fstat and the fchown that serve it.\<close>

theorem sandbox_forbids_chown:
  assumes "bpf_machine run" "\<not> tunable_one_process_model E"
  shows "\<exists>S p S' p'. seccomp_sandbox_setup_postlogin E pid s static_sandbox = Inr S \<and> filter_program S = Inr p
    \<and> seccomp_sandbox_setup_postlogin_broker E static_sandbox = Inr S' \<and> filter_program S' = Inr p'
    \<and> (\<forall>d a. d 0 = word_of_int NR_fchmod \<longrightarrow> run p d 0 a = SECCOMP_RET_KILL)
    \<and> (\<forall>d a. d 0 = word_of_int NR_recvmsg \<or> d 0 = word_of_int NR_fstat \<or> d 0 = word_of_int NR_fchown
         \<longrightarrow> run p' d 0 a = SECCOMP_RET_KILL)"
  by (rule chown_killed[OF assms])

lemma sandbox_forbids_chown_witness:
  "\<exists>S' p'. seccomp_sandbox_setup_postlogin_broker demo_env static_sandbox = Inr S' \<and> filter_program S' = Inr p'
    \<and> bpf_run p' (\<lambda>_. word_of_int NR_fchown) 0 0 = SECCOMP_RET_KILL"
proof -
  have "\<not> tunable_one_process_model demo_env"
    by (simp add: demo_env_def tunables_load_defaults_def default_bools_def)
  then obtain S' p' where S: "seccomp_sandbox_setup_postlogin_broker demo_env static_sandbox = Inr S'"
      "filter_program S' = Inr p'" "\<forall>d a. d 0 = word_of_int NR_recvmsg \<or> d 0 = word_of_int NR_fstat
        \<or> d 0 = word_of_int NR_fchown \<longrightarrow> bpf_run p' d 0 a = SECCOMP_RET_KILL"
    using sandbox_forbids_chown[OF kernel.bpf_machine_axioms, of demo_env 7 demo_sess] by auto
  then show ?thesis using S(3)[rule_format, of "\<lambda>_. word_of_int NR_fchown" 0] by auto
qed
end
